(* ===== verification/Domain_Schema.thy ===== *)
theory Domain_Schema
  imports Prelude
begin

text \<open>
  The typed V2 candidate-domain schema of \<^verbatim>\<open>pipeline/domain_v2.py\<close>: the expression IR,
  state variables, operations, invariants, lock-protocol metadata and the whole
  \<^verbatim>\<open>DomainSpecV2\<close> model, together with its validators.  Parsing a candidate builds the
  values below from JSON and then runs the validators; \<open>validate_spec\<close> is those validators,
  in the source's order, on a candidate that has the right shape.  (Pydantic reports every
  failing field validator where \<open>validate_spec\<close> reports the first; both reject the same
  candidates.)  \<open>wf_spec\<close> says in plain terms what an accepted candidate satisfies.
\<close>

section \<open>Exceptions of the V2 lane\<close>

datatype v2_error =
    ValueError string
  | KeyError string
  | TypeError
  | StopIteration
  | IndexError
  | AssertionError
  | UnsupportedV2Boundary string
  | V2ValidationError string
  | AttributeError

section \<open>Expressions, state variables, operations\<close>

definition safe_identifier :: "string \<Rightarrow> bool" where
  "safe_identifier s = (case s of [] \<Rightarrow> False
     | c # cs \<Rightarrow> (is_letter c \<or> c = CHR ''_'') \<and> list_all (\<lambda>d. is_alnum d \<or> d = CHR ''_'') cs)"

definition check_safe_identifier :: "string \<Rightarrow> v2_error + unit" where
  "check_safe_identifier v =
     ensure (safe_identifier v) (ValueError ''value must be a safe identifier'')"

datatype bin_kind =
    K_eq | K_neq | K_lt | K_lte | K_gt | K_gte | K_add | K_sub | K_implies | K_and | K_or

datatype expr =
    FieldExpr string
  | IntegerExpr int
  | BooleanExpr bool
  | OldExpr expr
  | NotExpr expr
  | BinaryExpr bin_kind expr expr

datatype scalar = Int_ty | Bool_ty

datatype state_variable =
    IntStateVariable (var_name: string) (bound: "int \<times> int") (int_initial: int)
      (terminal_states: "int list option")
  | BoolStateVariable (var_name: string) (bool_initial: bool)

record lock_protocol_metadata =
  lock_variable :: string
  lock_states :: "string list"
  unlocked_value :: "int option"
  actor_lock_values :: "int list option"
  linearization_points :: "string list option"

record guard =
  guard_id :: string
  guard_expression :: expr

record effect =
  effect_id :: string
  effect_target :: string
  effect_value :: expr

datatype return_type = Ret_void | Ret_boolean

datatype failure_semantics = Unavailable | False_and_stutter | Exception_failure

record operation =
  op_name :: string
  return_type :: return_type
  failure_semantics :: failure_semantics
  guards :: "guard list"
  effects :: "effect list"
  frame :: "string list"
  exception_type :: "string option"
  exception_trigger :: "expr option"

record invariant =
  inv_id :: string
  inv_expression :: expr

datatype review_status = Unreviewed | Reviewed

datatype execution_model = Async_message_passing

record domain_spec =
  review_status :: review_status
  domain_name :: string
  module_ident :: string
  actors :: nat
  execution_model :: "execution_model option"
  concurrency :: "lock_protocol_metadata option"
  capacity_bound :: "int option"
  hardware_safe_capacity :: "int option"
  pool_counter :: "string option"
  hardware_profile_sha256 :: "string option"
  hardware_proof_sha256 :: "string option"
  struct_size_bytes :: "int option"
  state_variables :: "state_variable list"
  operations :: "operation list"
  tlc_invariants :: "invariant list"

abbreviation var_names :: "domain_spec \<Rightarrow> string list" where
  "var_names spec \<equiv> map var_name (state_variables spec)"

section \<open>Field validators\<close>

fun check_expr_names :: "expr \<Rightarrow> v2_error + unit" where
  "check_expr_names (FieldExpr n) = check_safe_identifier n"
| "check_expr_names (IntegerExpr _) = Inr ()"
| "check_expr_names (BooleanExpr _) = Inr ()"
| "check_expr_names (OldExpr e) = check_expr_names e"
| "check_expr_names (NotExpr e) = check_expr_names e"
| "check_expr_names (BinaryExpr _ l r) = and_then (check_expr_names l) (\<lambda>_. check_expr_names r)"

fun check_state_variable :: "state_variable \<Rightarrow> v2_error + unit" where
  "check_state_variable (IntStateVariable n (lower, upper) i _) =
     and_then (check_safe_identifier n) (\<lambda>_.
     and_then (ensure (lower < upper)
       (ValueError ''integer bounds must satisfy lower < upper'')) (\<lambda>_.
     ensure (lower \<le> i \<and> i \<le> upper) (ValueError ''initial value must be within bounds'')))"
| "check_state_variable (BoolStateVariable n _) = check_safe_identifier n"

definition check_lock_metadata :: "lock_protocol_metadata \<Rightarrow> v2_error + unit" where
  "check_lock_metadata m =
     and_then (check_safe_identifier (lock_variable m)) (\<lambda>_.
     and_then (ensure (2 \<le> length (lock_states m)) (ValueError ''too short'')) (\<lambda>_.
     and_then (ensure (distinct (lock_states m)) (ValueError ''lock states must be unique'')) (\<lambda>_.
     for_each check_safe_identifier (lock_states m))))"

definition check_guard :: "guard \<Rightarrow> v2_error + unit" where
  "check_guard g = and_then (check_safe_identifier (guard_id g))
     (\<lambda>_. check_expr_names (guard_expression g))"

definition check_effect :: "effect \<Rightarrow> v2_error + unit" where
  "check_effect e = and_then (check_safe_identifier (effect_id e)) (\<lambda>_.
     and_then (check_safe_identifier (effect_target e)) (\<lambda>_.
     check_expr_names (effect_value e)))"

definition valid_failure_surface :: "operation \<Rightarrow> v2_error + unit" where
  "valid_failure_surface p =
     and_then (ensure (\<not> (failure_semantics p = False_and_stutter \<and> return_type p \<noteq> Ret_boolean))
       (ValueError ''false_and_stutter requires boolean return type'')) (\<lambda>_.
     and_then (ensure (\<not> (failure_semantics p = Exception_failure \<and>
         ((case exception_type p of None \<Rightarrow> True | Some s \<Rightarrow> s = []) \<or> exception_trigger p = None)))
       (ValueError ''exception semantics require exception_type and exception_trigger'')) (\<lambda>_.
     ensure (\<not> (failure_semantics p \<noteq> Exception_failure \<and>
         (exception_type p \<noteq> None \<or> exception_trigger p \<noteq> None)))
       (ValueError ''exception metadata is allowed only for exception semantics'')))"

definition check_operation :: "operation \<Rightarrow> v2_error + unit" where
  "check_operation p =
     and_then (check_safe_identifier (op_name p)) (\<lambda>_.
     and_then (for_each check_guard (guards p)) (\<lambda>_.
     and_then (for_each check_effect (effects p)) (\<lambda>_.
     and_then (for_each check_safe_identifier (frame p)) (\<lambda>_.
     and_then (ensure (distinct (frame p)) (ValueError ''frame fields must be unique'')) (\<lambda>_.
     and_then (case exception_trigger p of None \<Rightarrow> Inr () | Some e \<Rightarrow> check_expr_names e) (\<lambda>_.
     valid_failure_surface p))))))"

definition check_invariant :: "invariant \<Rightarrow> v2_error + unit" where
  "check_invariant i = and_then (check_safe_identifier (inv_id i))
     (\<lambda>_. check_expr_names (inv_expression i))"

section \<open>Referenced fields and expression types\<close>

fun referenced_fields :: "expr \<Rightarrow> string set" where
  "referenced_fields (FieldExpr n) = {n}"
| "referenced_fields (OldExpr e) = referenced_fields e"
| "referenced_fields (NotExpr e) = referenced_fields e"
| "referenced_fields (BinaryExpr _ l r) = referenced_fields l \<union> referenced_fields r"
| "referenced_fields (IntegerExpr _) = {}"
| "referenced_fields (BooleanExpr _) = {}"

definition kind_name :: "bin_kind \<Rightarrow> string" where
  "kind_name k = (case k of K_eq \<Rightarrow> ''eq'' | K_neq \<Rightarrow> ''neq'' | K_lt \<Rightarrow> ''lt'' | K_lte \<Rightarrow> ''lte''
     | K_gt \<Rightarrow> ''gt'' | K_gte \<Rightarrow> ''gte'' | K_add \<Rightarrow> ''add'' | K_sub \<Rightarrow> ''sub''
     | K_implies \<Rightarrow> ''implies'' | K_and \<Rightarrow> ''and'' | K_or \<Rightarrow> ''or'')"

definition binary_type :: "bin_kind \<Rightarrow> scalar \<Rightarrow> scalar \<Rightarrow> v2_error + scalar" where
  "binary_type k left right =
     (if k \<in> {K_eq, K_neq} then
        and_then (ensure (left = right)
          (ValueError ''equality operands must have the same scalar type'')) (\<lambda>_. Inr Bool_ty)
      else if k \<in> {K_lt, K_lte, K_gt, K_gte, K_add, K_sub} then
        and_then (ensure (left = Int_ty \<and> right = Int_ty)
          (ValueError (kind_name k @ '' requires integer operands'')))
          (\<lambda>_. Inr (if k \<in> {K_add, K_sub} then Int_ty else Bool_ty))
      else
        and_then (ensure (left = Bool_ty \<and> right = Bool_ty)
          (ValueError (kind_name k @ '' requires boolean operands''))) (\<lambda>_. Inr Bool_ty))"

fun expression_type :: "(string \<rightharpoonup> scalar) \<Rightarrow> expr \<Rightarrow> v2_error + scalar" where
  "expression_type tys (FieldExpr n) =
     (case tys n of None \<Rightarrow> Inl (KeyError n) | Some t \<Rightarrow> Inr t)"
| "expression_type tys (IntegerExpr _) = Inr Int_ty"
| "expression_type tys (BooleanExpr _) = Inr Bool_ty"
| "expression_type tys (OldExpr e) = expression_type tys e"
| "expression_type tys (NotExpr e) =
     and_then (expression_type tys e) (\<lambda>operand.
     and_then (ensure (operand = Bool_ty)
       (ValueError ''not expression requires a boolean operand'')) (\<lambda>_. Inr Bool_ty))"
| "expression_type tys (BinaryExpr k l r) =
     and_then (expression_type tys l) (\<lambda>left.
     and_then (expression_type tys r) (\<lambda>right. binary_type k left right))"

fun var_type :: "state_variable \<Rightarrow> scalar" where
  "var_type (IntStateVariable _ _ _ _) = Int_ty"
| "var_type (BoolStateVariable _ _) = Bool_ty"

definition field_types :: "domain_spec \<Rightarrow> string \<rightharpoonup> scalar" where
  "field_types spec = map_of (map (\<lambda>v. (var_name v, var_type v)) (state_variables spec))"

section \<open>The model validator of a whole specification\<close>

definition check_groups :: "domain_spec \<Rightarrow> v2_error + unit" where
  "check_groups spec =
     for_each (\<lambda>(label, values). ensure (distinct values) (ValueError (label @ '' must be unique'')))
       [(''state variables'', var_names spec),
        (''operations'', map op_name (operations spec)),
        (''invariants'', map inv_id (tlc_invariants spec))]"

definition pool_bounded_at :: "domain_spec \<Rightarrow> int \<Rightarrow> bool" where
  "pool_bounded_at spec cap =
     (case find (\<lambda>v. Some (var_name v) = pool_counter spec) (state_variables spec) of
        Some (IntStateVariable _ b _ _) \<Rightarrow> snd b = cap
      | _ \<Rightarrow> False)"

definition check_hardware_pool :: "domain_spec \<Rightarrow> v2_error + unit" where
  "check_hardware_pool spec =
     (if hardware_safe_capacity spec \<noteq> None \<or> pool_counter spec \<noteq> None \<or>
         hardware_profile_sha256 spec \<noteq> None \<or> hardware_proof_sha256 spec \<noteq> None then
        (case (capacity_bound spec, hardware_safe_capacity spec, pool_counter spec,
               hardware_profile_sha256 spec, hardware_proof_sha256 spec, struct_size_bytes spec) of
           (Some cap, Some safe, Some _, Some profile, Some proof_hash, Some struct_size) \<Rightarrow>
             and_then (ensure (\<not> (cap \<le> 0 \<or> struct_size \<le> 0))
               (ValueError ''hardware pool capacity and element size must be positive'')) (\<lambda>_.
             and_then (ensure (\<not> safe < cap)
               (ValueError ''logical pool exceeds hardware-safe capacity'')) (\<lambda>_.
             and_then (ensure (is_hex 64 profile)
               (ValueError ''hardware profile hash must be SHA-256'')) (\<lambda>_.
             and_then (ensure (is_hex 64 proof_hash)
               (ValueError ''hardware proof hash must be SHA-256'')) (\<lambda>_.
             ensure (pool_bounded_at spec cap)
               (ValueError ''pool_counter must be bounded at capacity_bound'')))))
         | _ \<Rightarrow> Inl (ValueError ''hardware pool metadata must be complete''))
      else Inr ())"

definition check_execution_model :: "domain_spec \<Rightarrow> v2_error + unit" where
  "check_execution_model spec =
     (if execution_model spec = Some Async_message_passing then
        and_then (ensure (2 \<le> actors spec)
          (ValueError ''async message passing requires at least two actors'')) (\<lambda>_.
        ensure (concurrency spec = None)
          (ValueError ''async message passing cannot also claim a lock protocol''))
      else Inr ())"

definition operation_references :: "operation \<Rightarrow> string set" where
  "operation_references p =
     (\<Union>g \<in> set (guards p). referenced_fields (guard_expression g)) \<union>
     (\<Union>e \<in> set (effects p). referenced_fields (effect_value e)) \<union>
     (case exception_trigger p of None \<Rightarrow> {} | Some e \<Rightarrow> referenced_fields e)"

definition check_explicit_lock :: "domain_spec \<Rightarrow> lock_protocol_metadata \<Rightarrow> (int \<times> int) \<Rightarrow> int
    \<Rightarrow> v2_error + unit" where
  "check_explicit_lock spec m lock_bound lock_initial =
     (case (unlocked_value m, actor_lock_values m, linearization_points m) of
        (None, None, None) \<Rightarrow> Inr ()
      | (Some unlocked, Some owners, Some points) \<Rightarrow>
          and_then (ensure (length (lock_states m) = actors spec + 1)
            (ValueError ''lock states must name unlocked plus every actor owner'')) (\<lambda>_.
          and_then (ensure (length owners = actors spec \<and> distinct owners)
            (ValueError ''actor lock values must be unique and total over actors'')) (\<lambda>_.
          and_then (ensure (unlocked \<notin> set owners)
            (ValueError ''unlocked value must differ from actor lock values'')) (\<lambda>_.
          and_then (ensure (lock_initial = unlocked)
            (ValueError ''lock state must initialize to the unlocked value'')) (\<lambda>_.
          and_then (ensure (\<forall>i \<in> set (unlocked # owners). fst lock_bound \<le> i \<and> i \<le> snd lock_bound)
            (ValueError ''lock ownership values must be within lock bounds'')) (\<lambda>_.
          and_then (ensure (set points = set (map op_name (operations spec)))
            (ValueError ''linearization points must cover every operation exactly'')) (\<lambda>_.
          and_then (ensure (\<forall>p \<in> set (operations spec).
              return_type p = Ret_void \<and> failure_semantics p = Unavailable)
            (ValueError ''explicit lock protocol currently supports void/unavailable operations''))
          (\<lambda>_.
          and_then (ensure (\<forall>p \<in> set (operations spec). lock_variable m \<notin> set (frame p))
            (ValueError ''domain operations cannot directly mutate protocol lock state'')) (\<lambda>_.
          ensure (\<forall>p \<in> set (operations spec). lock_variable m \<notin>
              (\<Union>g \<in> set (guards p). referenced_fields (guard_expression g)) \<union>
              (\<Union>e \<in> set (effects p). referenced_fields (effect_value e)))
            (ValueError ''domain operations cannot reference protocol lock abstraction state'')
          ))))))))
      | _ \<Rightarrow> Inl (ValueError ''explicit lock protocol metadata must be complete''))"

definition check_concurrency :: "domain_spec \<Rightarrow> v2_error + unit" where
  "check_concurrency spec =
     (case concurrency spec of None \<Rightarrow> Inr ()
      | Some m \<Rightarrow>
          and_then (ensure (lock_variable m \<in> set (var_names spec))
            (ValueError ''lock protocol variable must be declared state'')) (\<lambda>_.
          and_then (ensure (2 \<le> actors spec)
            (ValueError ''lock protocol requires at least two actors'')) (\<lambda>_.
          (case find (\<lambda>v. var_name v = lock_variable m) (state_variables spec) of
             Some (IntStateVariable _ b i _) \<Rightarrow> check_explicit_lock spec m b i
           | _ \<Rightarrow> Inl (ValueError ''lock protocol variable must be bounded integer state'')))))"

definition reserved_names :: "string list" where
  "reserved_names =
     [''Init'', ''Next'', ''Spec'', ''TypeOK'', ''vars'', ''Actors'', ''callResult'']"

definition generated_operators :: "operation \<Rightarrow> string list" where
  "generated_operators p =
     (if return_type p = Ret_void then [op_name p]
      else [op_name p @ ''Success''] @
           (if failure_semantics p = False_and_stutter then [op_name p @ ''Failure''] else []))"

definition check_operation_body :: "domain_spec \<Rightarrow> operation \<Rightarrow> v2_error + unit" where
  "check_operation_body spec p =
     (let declared = set (var_names spec); targets = map effect_target (effects p);
          ids = map guard_id (guards p) @ map effect_id (effects p) in
      and_then (ensure (distinct targets \<and> set targets = set (frame p))
        (ValueError (op_name p @ '' effects must target every framed field exactly once''))) (\<lambda>_.
      and_then (ensure (distinct ids)
        (ValueError (op_name p @ '' guard/effect IDs must be unique''))) (\<lambda>_.
      and_then (ensure (set (frame p) \<union> set targets \<union> operation_references p \<subseteq> declared)
        (ValueError (op_name p @ '' references undeclared state fields''))) (\<lambda>_.
      and_then (for_each (\<lambda>g. and_then (expression_type (field_types spec) (guard_expression g))
          (\<lambda>t. ensure (t = Bool_ty)
            (ValueError (op_name p @ '' guard '' @ guard_id g @ '' must be boolean''))))
        (guards p)) (\<lambda>_.
      and_then (for_each (\<lambda>e. and_then (expression_type (field_types spec) (effect_value e))
          (\<lambda>t. case field_types spec (effect_target e) of
             None \<Rightarrow> Inl (KeyError (effect_target e))
           | Some t' \<Rightarrow> ensure (t = t')
              (ValueError (op_name p @ '' effect '' @ effect_id e @
                '' type does not match its target''))))
        (effects p)) (\<lambda>_.
      (case exception_trigger p of None \<Rightarrow> Inr ()
       | Some trig \<Rightarrow> and_then (expression_type (field_types spec) trig) (\<lambda>t.
           ensure (t = Bool_ty)
             (ValueError (op_name p @ '' exception trigger must be boolean''))))))))))"

definition check_one_operation :: "domain_spec \<Rightarrow> operation \<Rightarrow> string list
    \<Rightarrow> v2_error + string list" where
  "check_one_operation spec p operator_names =
     and_then (ensure (set operator_names \<inter> set (generated_operators p) = {})
       (ValueError (''operation '' @ op_name p @ '' collides with a TLA+ operator''))) (\<lambda>_.
     and_then (check_operation_body spec p) (\<lambda>_.
     Inr (operator_names @ generated_operators p)))"

definition check_one_invariant :: "domain_spec \<Rightarrow> invariant \<Rightarrow> string list
    \<Rightarrow> v2_error + string list" where
  "check_one_invariant spec i operator_names =
     and_then (ensure (inv_id i \<notin> set operator_names)
       (ValueError (''invariant '' @ inv_id i @ '' collides with a TLA+ operator''))) (\<lambda>_.
     and_then (ensure (referenced_fields (inv_expression i) \<subseteq> set (var_names spec))
       (ValueError (''invariant '' @ inv_id i @ '' references undeclared state fields''))) (\<lambda>_.
     and_then (expression_type (field_types spec) (inv_expression i)) (\<lambda>t.
     and_then (ensure (t = Bool_ty)
       (ValueError (''invariant '' @ inv_id i @ '' must be boolean''))) (\<lambda>_.
     Inr (operator_names @ [inv_id i])))))"

definition unique_names :: "domain_spec \<Rightarrow> v2_error + unit" where
  "unique_names spec =
     and_then (check_groups spec) (\<lambda>_.
     and_then (check_hardware_pool spec) (\<lambda>_.
     and_then (check_execution_model spec) (\<lambda>_.
     and_then (check_concurrency spec) (\<lambda>_.
     and_then (ensure (set (var_names spec) \<inter> set reserved_names = {})
       (ValueError ''state variable uses a reserved TLA+ identifier'')) (\<lambda>_.
     and_then (fold_res (check_one_operation spec) (operations spec) reserved_names) (\<lambda>names.
     and_then (fold_res (check_one_invariant spec) (tlc_invariants spec) names) (\<lambda>_.
     Inr ())))))))"

definition safe_domain_name :: "string \<Rightarrow> bool" where
  "safe_domain_name s = (case s of [] \<Rightarrow> False | c # cs \<Rightarrow> is_upper c \<and> list_all is_alnum cs)"

definition safe_module_name :: "string \<Rightarrow> bool" where
  "safe_module_name s = (case s of [] \<Rightarrow> False
     | c # cs \<Rightarrow> (is_lower c \<or> c = CHR ''_'') \<and>
         list_all (\<lambda>d. is_lower d \<or> is_digit d \<or> d = CHR ''_'') cs)"

definition check_fields :: "domain_spec \<Rightarrow> v2_error + unit" where
  "check_fields spec =
     and_then (ensure (safe_domain_name (domain_name spec))
       (ValueError ''domain_name must be a safe PascalCase identifier'')) (\<lambda>_.
     and_then (ensure (safe_module_name (module_ident spec))
       (ValueError ''module_name must be a safe lower-case identifier'')) (\<lambda>_.
     and_then (ensure (1 \<le> actors spec \<and> actors spec \<le> 16) (ValueError ''actors out of range'')) (\<lambda>_.
     and_then (case concurrency spec of None \<Rightarrow> Inr () | Some m \<Rightarrow> check_lock_metadata m) (\<lambda>_.
     and_then (ensure (state_variables spec \<noteq> [] \<and> operations spec \<noteq> [] \<and> tlc_invariants spec \<noteq> [])
       (ValueError ''too short'')) (\<lambda>_.
     and_then (for_each check_state_variable (state_variables spec)) (\<lambda>_.
     and_then (for_each check_operation (operations spec)) (\<lambda>_.
     for_each check_invariant (tlc_invariants spec))))))))"

definition validate_spec :: "domain_spec \<Rightarrow> v2_error + domain_spec" where
  "validate_spec spec =
     and_then (check_fields spec) (\<lambda>_. and_then (unique_names spec) (\<lambda>_. Inr spec))"

section \<open>What an accepted specification satisfies\<close>

text \<open>Well-formedness of the parts, in plain terms.\<close>

definition wf_var :: "state_variable \<Rightarrow> bool" where
  "wf_var v = (case v of IntStateVariable _ b i _ \<Rightarrow> fst b < snd b \<and> fst b \<le> i \<and> i \<le> snd b
     | BoolStateVariable _ _ \<Rightarrow> True)"

definition wf_operation :: "domain_spec \<Rightarrow> operation \<Rightarrow> bool" where
  "wf_operation spec p \<longleftrightarrow>
     distinct (map effect_target (effects p)) \<and>
     set (map effect_target (effects p)) = set (frame p) \<and>
     set (frame p) \<union> operation_references p \<subseteq> set (var_names spec) \<and>
     (\<forall>g \<in> set (guards p). expression_type (field_types spec) (guard_expression g) = Inr Bool_ty) \<and>
     (\<forall>e \<in> set (effects p). \<exists>t. field_types spec (effect_target e) = Some t \<and>
        expression_type (field_types spec) (effect_value e) = Inr t) \<and>
     (failure_semantics p = False_and_stutter \<longrightarrow> return_type p = Ret_boolean)"

definition wf_invariant :: "domain_spec \<Rightarrow> invariant \<Rightarrow> bool" where
  "wf_invariant spec i \<longleftrightarrow>
     referenced_fields (inv_expression i) \<subseteq> set (var_names spec) \<and>
     expression_type (field_types spec) (inv_expression i) = Inr Bool_ty"

definition wf_lock :: "domain_spec \<Rightarrow> lock_protocol_metadata \<Rightarrow> int \<Rightarrow> int list \<Rightarrow> bool" where
  "wf_lock spec m unlocked owners \<longleftrightarrow>
     length owners = actors spec \<and> distinct owners \<and> unlocked \<notin> set owners \<and>
     (\<exists>b ts. IntStateVariable (lock_variable m) b unlocked ts \<in> set (state_variables spec) \<and>
        (\<forall>i \<in> set (unlocked # owners). fst b \<le> i \<and> i \<le> snd b)) \<and>
     (\<forall>p \<in> set (operations spec). return_type p = Ret_void \<and> failure_semantics p = Unavailable \<and>
        lock_variable m \<notin> set (frame p) \<and>
        (\<forall>g \<in> set (guards p). lock_variable m \<notin> referenced_fields (guard_expression g)) \<and>
        (\<forall>e \<in> set (effects p). lock_variable m \<notin> referenced_fields (effect_value e)))"

definition wf_spec :: "domain_spec \<Rightarrow> bool" where
  "wf_spec spec \<longleftrightarrow>
     1 \<le> actors spec \<and> actors spec \<le> 16 \<and>
     operations spec \<noteq> [] \<and>
     distinct (var_names spec) \<and> distinct (map op_name (operations spec)) \<and>
     set (var_names spec) \<inter> set reserved_names = {} \<and>
     (\<forall>v \<in> set (state_variables spec). wf_var v) \<and>
     (\<forall>p \<in> set (operations spec). wf_operation spec p) \<and>
     (\<forall>i \<in> set (tlc_invariants spec). wf_invariant spec i) \<and>
     (\<forall>m. concurrency spec = Some m \<longrightarrow>
        2 \<le> actors spec \<and> lock_variable m \<in> set (var_names spec) \<and>
        (linearization_points m \<noteq> None \<longrightarrow>
           (\<exists>unlocked owners. unlocked_value m = Some unlocked \<and>
              actor_lock_values m = Some owners \<and> wf_lock spec m unlocked owners)))"

lemma check_state_variable_wf: "check_state_variable v = Inr u \<Longrightarrow> wf_var v"
  by (cases v rule: check_state_variable.cases) (auto simp: res_iffs wf_var_def)

lemma check_operation_stutter:
  "check_operation p = Inr u \<Longrightarrow> failure_semantics p = False_and_stutter \<Longrightarrow> return_type p = Ret_boolean"
  by (auto simp: check_operation_def valid_failure_surface_def res_iffs)

lemma check_operation_body_wf:
  assumes "check_operation_body spec p = Inr u" and "check_operation p = Inr u'"
  shows "wf_operation spec p"
  using assms(1) check_operation_stutter[OF assms(2)]
  by (force simp: check_operation_body_def wf_operation_def Let_def res_iffs split: option.splits)

lemma fold_res_elem:
  assumes "fold_res f xs s = Inr t" and "x \<in> set xs"
  shows "\<exists>s' t'. f x s' = Inr t'"
  using assms
  by (induction xs arbitrary: s) (auto simp: res_iffs)

lemma find_var_name:
  assumes "find (\<lambda>v. var_name v = n) vs = Some v"
  shows "v \<in> set vs \<and> var_name v = n"
  using assms by (auto simp: find_Some_iff)

lemma check_explicit_lock_wf:
  assumes "check_explicit_lock spec m b i = Inr u" and "linearization_points m \<noteq> None"
    and "IntStateVariable (lock_variable m) b i ts \<in> set (state_variables spec)"
  shows "\<exists>unlocked owners. unlocked_value m = Some unlocked \<and>
    actor_lock_values m = Some owners \<and> wf_lock spec m unlocked owners"
proof -
  obtain lo hi where b: "b = (lo, hi)" by (cases b)
  from assms show ?thesis unfolding b
    by (simp add: check_explicit_lock_def wf_lock_def res_iffs split: option.splits) blast
qed

lemma check_concurrency_wf:
  assumes "check_concurrency spec = Inr u" and "concurrency spec = Some m"
  shows "2 \<le> actors spec \<and> lock_variable m \<in> set (var_names spec) \<and>
    (linearization_points m \<noteq> None \<longrightarrow>
       (\<exists>unlocked owners. unlocked_value m = Some unlocked \<and>
          actor_lock_values m = Some owners \<and> wf_lock spec m unlocked owners))"
proof -
  from assms obtain n b i ts where
    head: "lock_variable m \<in> set (var_names spec)" "2 \<le> actors spec" and
    found: "find (\<lambda>v. var_name v = lock_variable m) (state_variables spec)
      = Some (IntStateVariable n b i ts)" and
    lock: "check_explicit_lock spec m b i = Inr u"
    by (auto simp: check_concurrency_def res_iffs split: option.splits state_variable.splits)
  from find_var_name[OF found]
  have "IntStateVariable (lock_variable m) b i ts \<in> set (state_variables spec)" by auto
  with check_explicit_lock_wf[OF lock] head show ?thesis by blast
qed

lemma unique_namesD:
  assumes "unique_names spec = Inr u"
  shows "check_groups spec = Inr ()" and "check_concurrency spec = Inr ()"
    and "set (var_names spec) \<inter> set reserved_names = {}"
    and "\<exists>names names'. fold_res (check_one_operation spec) (operations spec) reserved_names = Inr names
      \<and> fold_res (check_one_invariant spec) (tlc_invariants spec) names = Inr names'"
  using assms by (simp_all add: unique_names_def and_then_Inr_iff)

lemma validate_spec_wf:
  assumes "validate_spec spec = Inr spec'"
  shows "spec' = spec \<and> wf_spec spec"
proof -
  have same: "spec' = spec" and flds: "check_fields spec = Inr ()"
    and uniq: "unique_names spec = Inr ()"
    using assms by (auto simp: validate_spec_def and_then_Inr_iff)
  note groups = unique_namesD(1)[OF uniq] and conc = unique_namesD(2)[OF uniq]
    and res = unique_namesD(3)[OF uniq]
  from unique_namesD(4)[OF uniq] obtain names names' where
    ops: "fold_res (check_one_operation spec) (operations spec) reserved_names = Inr names" and
    invs: "fold_res (check_one_invariant spec) (tlc_invariants spec) names = Inr names'"
    by blast
  have wfop: "wf_operation spec p" if "p \<in> set (operations spec)" for p
    using fold_res_elem[OF ops that] flds that
    by (auto simp: check_one_operation_def check_fields_def res_iffs intro: check_operation_body_wf)
  have wfinv: "wf_invariant spec i" if "i \<in> set (tlc_invariants spec)" for i
    using fold_res_elem[OF invs that]
    by (auto simp: check_one_invariant_def wf_invariant_def res_iffs)
  have "1 \<le> actors spec" "actors spec \<le> 16" "operations spec \<noteq> []"
    "\<forall>v \<in> set (state_variables spec). wf_var v"
    using flds by (auto simp: check_fields_def res_iffs intro: check_state_variable_wf)
  moreover have "distinct (var_names spec)" "distinct (map op_name (operations spec))"
    using groups by (auto simp: check_groups_def res_iffs)
  ultimately show ?thesis
    using same res wfop wfinv check_concurrency_wf[OF conc] by (simp add: wf_spec_def)
qed

section \<open>A reviewed candidate and the gate's guarantee\<close>

text \<open>A valve that is opened and closed: one boolean and one bounded counter of openings.\<close>

definition toggle_spec :: domain_spec where
  "toggle_spec = \<lparr>
     review_status = Reviewed, domain_name = ''Valve'', module_ident = ''valve'', actors = 2,
     execution_model = None, concurrency = None, capacity_bound = None,
     hardware_safe_capacity = None, pool_counter = None, hardware_profile_sha256 = None,
     hardware_proof_sha256 = None, struct_size_bytes = None,
     state_variables = [BoolStateVariable ''opened'' False, IntStateVariable ''count'' (0, 2) 0 None],
     operations = [
       \<lparr>op_name = ''openValve'', return_type = Ret_boolean, failure_semantics = False_and_stutter,
        guards = [\<lparr>guard_id = ''g1'', guard_expression =
           BinaryExpr K_and (NotExpr (FieldExpr ''opened''))
             (BinaryExpr K_lt (FieldExpr ''count'') (IntegerExpr 2))\<rparr>],
        effects = [\<lparr>effect_id = ''e1'', effect_target = ''opened'', effect_value = BooleanExpr True\<rparr>,
          \<lparr>effect_id = ''e2'', effect_target = ''count'', effect_value =
             BinaryExpr K_add (FieldExpr ''count'') (IntegerExpr 1)\<rparr>],
        frame = [''opened'', ''count''], exception_type = None, exception_trigger = None\<rparr>,
       \<lparr>op_name = ''closeValve'', return_type = Ret_void, failure_semantics = Unavailable,
        guards = [\<lparr>guard_id = ''g1'', guard_expression = FieldExpr ''opened''\<rparr>],
        effects = [\<lparr>effect_id = ''e1'', effect_target = ''opened'', effect_value = BooleanExpr False\<rparr>],
        frame = [''opened''], exception_type = None, exception_trigger = None\<rparr>],
     tlc_invariants = [\<lparr>inv_id = ''openMeansCounted'', inv_expression =
       BinaryExpr K_implies (FieldExpr ''opened'') (BinaryExpr K_gt (FieldExpr ''count'') (IntegerExpr 0))\<rparr>]\<rparr>"

text \<open>C17: a candidate that passes every validator of \<^verbatim>\<open>DomainSpecV2\<close> is returned
  unchanged and is well formed: distinct unreserved names, initial values within ordered bounds,
  every operation's effects target exactly its frame, guards and invariants are boolean and
  effects typed as their targets, no undeclared field is referenced, and an explicit lock
  protocol has one distinct owner value per actor.\<close>

theorem accepted_domain_is_well_formed:
  assumes "validate_spec spec = Inr spec'"
  shows "spec' = spec \<and> wf_spec spec"
  using validate_spec_wf[OF assms] .

lemma accepted_domain_is_well_formed_witness:
  "validate_spec toggle_spec = Inr toggle_spec \<and> wf_spec toggle_spec"
proof -
  have "validate_spec toggle_spec = Inr toggle_spec" by code_simp
  with accepted_domain_is_well_formed[OF this] show ?thesis by blast
qed

end
