(* ===== verification/Domain_Eval.thy ===== *)
theory Domain_Eval
  imports Domain_Schema
begin

text \<open>
  The evaluator of \<^verbatim>\<open>pipeline/domain_v2_model.py\<close>: concrete evaluation of
  expressions in a state, guards and simultaneous effects, and the three-valued evaluation
  behind the static deadlock gate.  A state is the Python dictionary, an association list from
  names to values; besides the declared scalar fields it holds the tuples
  \<^verbatim>\<open>__pc\<close>, \<^verbatim>\<open>__pending\<close> and \<^verbatim>\<open>callResult\<close> of the explorer.  Operators
  follow Python: booleans are the integers 0 and 1 in arithmetic and comparisons, logical
  operators take truth values, and ordering a tuple against a number is a \<open>TypeError\<close>.
\<close>

datatype val = VInt int | VBool bool | VTuple "string list"

type_synonym mstate = "(string \<times> val) list"

section \<open>Python operators on scalars and tuples\<close>

fun scalar_int :: "val \<Rightarrow> int option" where
  "scalar_int (VInt i) = Some i"
| "scalar_int (VBool b) = Some (if b then 1 else 0)"
| "scalar_int (VTuple _) = None"

fun truthy :: "val \<Rightarrow> bool" where
  "truthy (VInt i) = (i \<noteq> 0)"
| "truthy (VBool b) = b"
| "truthy (VTuple xs) = (xs \<noteq> [])"

definition py_eq :: "val \<Rightarrow> val \<Rightarrow> bool" where
  "py_eq a b = (case (scalar_int a, scalar_int b) of
     (Some i, Some j) \<Rightarrow> i = j
   | (None, None) \<Rightarrow> a = b
   | _ \<Rightarrow> False)"

fun py_compare :: "(int \<Rightarrow> int \<Rightarrow> bool) \<Rightarrow> (string list \<Rightarrow> string list \<Rightarrow> bool) \<Rightarrow> val \<Rightarrow> val
    \<Rightarrow> v2_error + val" where
  "py_compare f g (VTuple xs) (VTuple ys) = Inr (VBool (g xs ys))"
| "py_compare f g a b = (case (scalar_int a, scalar_int b) of
     (Some i, Some j) \<Rightarrow> Inr (VBool (f i j))
   | _ \<Rightarrow> Inl TypeError)"

fun py_add :: "val \<Rightarrow> val \<Rightarrow> v2_error + val" where
  "py_add (VTuple xs) (VTuple ys) = Inr (VTuple (xs @ ys))"
| "py_add a b = (case (scalar_int a, scalar_int b) of
     (Some i, Some j) \<Rightarrow> Inr (VInt (i + j))
   | _ \<Rightarrow> Inl TypeError)"

definition py_sub :: "val \<Rightarrow> val \<Rightarrow> v2_error + val" where
  "py_sub a b = (case (scalar_int a, scalar_int b) of
     (Some i, Some j) \<Rightarrow> Inr (VInt (i - j))
   | _ \<Rightarrow> Inl TypeError)"

definition binary_op :: "bin_kind \<Rightarrow> val \<Rightarrow> val \<Rightarrow> v2_error + val" where
  "binary_op k left right = (case k of
     K_eq \<Rightarrow> Inr (VBool (py_eq left right))
   | K_neq \<Rightarrow> Inr (VBool (\<not> py_eq left right))
   | K_lt \<Rightarrow> py_compare (<) (<) left right
   | K_lte \<Rightarrow> py_compare (\<le>) (\<le>) left right
   | K_gt \<Rightarrow> py_compare (>) (>) left right
   | K_gte \<Rightarrow> py_compare (\<ge>) (\<ge>) left right
   | K_add \<Rightarrow> py_add left right
   | K_sub \<Rightarrow> py_sub left right
   | K_implies \<Rightarrow> Inr (VBool (\<not> truthy left \<or> truthy right))
   | K_and \<Rightarrow> Inr (VBool (truthy left \<and> truthy right))
   | K_or \<Rightarrow> Inr (VBool (truthy left \<or> truthy right)))"

section \<open>Concrete evaluation\<close>

fun evaluate_expression :: "expr \<Rightarrow> mstate \<Rightarrow> v2_error + val" where
  "evaluate_expression (FieldExpr n) s = (case map_of s n of
     None \<Rightarrow> Inl (V2ValidationError (''unknown state field '' @ py_repr n))
   | Some v \<Rightarrow> Inr v)"
| "evaluate_expression (IntegerExpr i) s = Inr (VInt i)"
| "evaluate_expression (BooleanExpr b) s = Inr (VBool b)"
| "evaluate_expression (OldExpr e) s = evaluate_expression e s"
| "evaluate_expression (NotExpr e) s =
     and_then (evaluate_expression e s) (\<lambda>v. Inr (VBool (\<not> truthy v)))"
| "evaluate_expression (BinaryExpr k l r) s =
     and_then (evaluate_expression l s) (\<lambda>left.
     and_then (evaluate_expression r s) (\<lambda>right. binary_op k left right))"

text \<open>\<open>all(bool(...) for ...)\<close> stops at the first false guard.\<close>

fun all_hold :: "expr list \<Rightarrow> mstate \<Rightarrow> v2_error + bool" where
  "all_hold [] s = Inr True"
| "all_hold (e # es) s = and_then (evaluate_expression e s)
     (\<lambda>v. if truthy v then all_hold es s else Inr False)"

definition guards_hold :: "operation \<Rightarrow> mstate \<Rightarrow> v2_error + bool" where
  "guards_hold p s = all_hold (map guard_expression (guards p)) s"

fun dict_update :: "(string \<times> 'v) list \<Rightarrow> (string \<times> 'v) list \<Rightarrow> (string \<times> 'v) list" where
  "dict_update d [] = d"
| "dict_update d ((k, v) # kvs) = dict_update (AList.update k v d) kvs"

definition apply_effects :: "operation \<Rightarrow> mstate \<Rightarrow> v2_error + mstate" where
  "apply_effects p pre_state =
     and_then (map_res (\<lambda>e. and_then (evaluate_expression (effect_value e) pre_state)
         (\<lambda>v. Inr (effect_target e, v))) (effects p)) (\<lambda>pairs.
     let computed = dict_update [] pairs in
     Inr (dict_update pre_state computed))"

definition state_space_upper_bound :: "domain_spec \<Rightarrow> nat" where
  "state_space_upper_bound spec =
     (let base = prod_list (map (\<lambda>v. case v of
          BoolStateVariable _ _ \<Rightarrow> 2
        | IntStateVariable _ b _ _ \<Rightarrow> nat (snd b - fst b + 1)) (state_variables spec));
        with_results = (if \<exists>p \<in> set (operations spec). failure_semantics p = False_and_stutter
          then base * 3 ^ actors spec else base)
      in case concurrency spec of
           Some m \<Rightarrow> if linearization_points m \<noteq> None
             then with_results * (1 + 4 * length (operations spec)) ^ actors spec
             else with_results
         | None \<Rightarrow> with_results)"

section \<open>Three-valued evaluation and the static deadlock gate\<close>

type_synonym env3 = "(string \<times> val option) list"

definition env_get :: "env3 \<Rightarrow> string \<Rightarrow> val option" where
  "env_get env n = (case map_of env n of None \<Rightarrow> None | Some v \<Rightarrow> v)"

fun evaluate3 :: "expr \<Rightarrow> env3 \<Rightarrow> v2_error + val option" where
  "evaluate3 (FieldExpr n) env = Inr (env_get env n)"
| "evaluate3 (IntegerExpr i) env = Inr (Some (VInt i))"
| "evaluate3 (BooleanExpr b) env = Inr (Some (VBool b))"
| "evaluate3 (OldExpr e) env = evaluate3 e env"
| "evaluate3 (NotExpr e) env = and_then (evaluate3 e env)
     (\<lambda>v. Inr (case v of None \<Rightarrow> None | Some w \<Rightarrow> Some (VBool (\<not> truthy w))))"
| "evaluate3 (BinaryExpr k l r) env =
     and_then (evaluate3 l env) (\<lambda>left.
     and_then (evaluate3 r env) (\<lambda>right.
     case (left, right) of
       (Some a, Some b) \<Rightarrow> and_then (binary_op k a b) (\<lambda>v. Inr (Some v))
     | _ \<Rightarrow>
       if k \<in> {K_add, K_sub} then Inr None
       else if k = K_and \<and> (left = Some (VBool False) \<or> right = Some (VBool False))
         then Inr (Some (VBool False))
       else if k = K_or \<and> (left = Some (VBool True) \<or> right = Some (VBool True))
         then Inr (Some (VBool True))
       else if k = K_implies \<and> left = Some (VBool False) then Inr (Some (VBool True))
       else if k = K_implies \<and> right = Some (VBool True) then Inr (Some (VBool True))
       else Inr None))"

fun none_false :: "guard list \<Rightarrow> env3 \<Rightarrow> v2_error + bool" where
  "none_false [] env = Inr True"
| "none_false (g # gs) env = and_then (evaluate3 (guard_expression g) env)
     (\<lambda>v. if v = Some (VBool False) then Inr False else none_false gs env)"

definition operation_admits :: "operation \<Rightarrow> string \<Rightarrow> int \<Rightarrow> domain_spec \<Rightarrow> v2_error + bool" where
  "operation_admits p field value spec =
     (let env = AList.update field (Some (VInt value))
                  (map (\<lambda>v. (var_name v, None)) (state_variables spec))
      in none_false (guards p) env)"

fun any_res :: "('a \<Rightarrow> 'e + bool) \<Rightarrow> 'a list \<Rightarrow> 'e + bool" where
  "any_res f [] = Inr False"
| "any_res f (x # xs) = and_then (f x) (\<lambda>b. if b then Inr True else any_res f xs)"

definition literal_values :: "domain_spec \<Rightarrow> string \<Rightarrow> int \<Rightarrow> int list" where
  "literal_values spec field initial =
     initial # concat (map (\<lambda>p. concat (map (\<lambda>e.
       case effect_value e of
         IntegerExpr i \<Rightarrow> if effect_target e = field then [i] else []
       | _ \<Rightarrow> []) (effects p))) (operations spec))"

definition deadlock_message :: "string \<times> int \<Rightarrow> string" where
  "deadlock_message fv = (case fv of (field, value) \<Rightarrow>
     ''DEADLOCK_RISK: state '' @ field @ '' == '' @ str_of_int value @
     '' has no outgoing transition. Missing a '' @ py_repr ''recycle()'' @ '' or '' @
     py_repr ''reset()'' @ '' transition? (If it is a legitimate end state, list it in '' @
     field @ sq @ ''s terminal_states.)'')"

definition value_finding :: "domain_spec \<Rightarrow> string \<Rightarrow> int list \<Rightarrow> int \<Rightarrow> string list
    \<Rightarrow> v2_error + string list" where
  "value_finding spec field terminal value findings =
     (if value \<in> set terminal then Inr findings
      else and_then (any_res (\<lambda>p. operation_admits p field value spec) (operations spec))
        (\<lambda>can_leave. Inr (if can_leave then findings
           else findings @ [deadlock_message (field, value)])))"

fun variable_findings :: "domain_spec \<Rightarrow> state_variable \<Rightarrow> string list \<Rightarrow> v2_error + string list" where
  "variable_findings spec (BoolStateVariable _ _) findings = Inr findings"
| "variable_findings spec (IntStateVariable field _ initial terms) findings =
     (let terminal = (case terms of None \<Rightarrow> [] | Some ts \<Rightarrow> ts) in
      fold_res (value_finding spec field terminal)
        (sorted_set (literal_values spec field initial)) findings)"

definition static_deadlock_findings :: "domain_spec \<Rightarrow> v2_error + string list" where
  "static_deadlock_findings spec =
     fold_res (variable_findings spec) (state_variables spec) []"

section \<open>Bounds and invariants of a state\<close>

fun val_repr :: "val \<Rightarrow> string" where
  "val_repr (VInt i) = str_of_int i"
| "val_repr (VBool b) = (if b then ''True'' else ''False'')"
| "val_repr (VTuple xs) = ''('' @ join '', '' (map py_repr xs) @ (if length xs = 1 then '',)'' else '')'')"

fun in_bounds :: "state_variable \<Rightarrow> val \<Rightarrow> bool" where
  "in_bounds (BoolStateVariable _ _) (VBool _) = True"
| "in_bounds (IntStateVariable _ b _ _) (VInt i) = (fst b \<le> i \<and> i \<le> snd b)"
| "in_bounds _ _ = False"

definition check_bounds :: "domain_spec \<Rightarrow> mstate \<Rightarrow> string \<Rightarrow> v2_error + unit" where
  "check_bounds spec s operation =
     for_each (\<lambda>variable. case map_of s (var_name variable) of
         None \<Rightarrow> Inl (KeyError (var_name variable))
       | Some value \<Rightarrow> ensure (in_bounds variable value) (V2ValidationError
           (operation @ '' produces out-of-bounds '' @ var_name variable @ ''='' @ val_repr value)))
       (state_variables spec)"

definition check_invariants :: "domain_spec \<Rightarrow> mstate \<Rightarrow> string \<Rightarrow> v2_error + unit" where
  "check_invariants spec s operation =
     for_each (\<lambda>i. and_then (evaluate_expression (inv_expression i) s) (\<lambda>v.
         ensure (truthy v)
           (V2ValidationError (operation @ '' violates invariant '' @ inv_id i))))
       (tlc_invariants spec)"

section \<open>Type soundness of evaluation\<close>

fun has_type :: "val \<Rightarrow> scalar \<Rightarrow> bool" where
  "has_type (VInt _) Int_ty = True"
| "has_type (VBool _) Bool_ty = True"
| "has_type _ _ = False"

lemma has_type_simps [simp]:
  "has_type v Int_ty \<longleftrightarrow> (\<exists>i. v = VInt i)"
  "has_type v Bool_ty \<longleftrightarrow> (\<exists>b. v = VBool b)"
  by (cases v; simp)+

definition typed_state :: "(string \<rightharpoonup> scalar) \<Rightarrow> mstate \<Rightarrow> bool" where
  "typed_state tys s \<longleftrightarrow> (\<forall>n t. tys n = Some t \<longrightarrow> (\<exists>v. map_of s n = Some v \<and> has_type v t))"

lemma binary_op_typed:
  assumes "binary_type k t1 t2 = Inr t" and "has_type a t1" and "has_type b t2"
  shows "\<exists>v. binary_op k a b = Inr v \<and> has_type v t"
  using assms
  by (cases k) (auto simp: binary_type_def binary_op_def py_sub_def and_then_Inr_iff)

lemma evaluate_typed:
  assumes "expression_type tys e = Inr t" and "typed_state tys s"
  shows "\<exists>v. evaluate_expression e s = Inr v \<and> has_type v t"
  using assms
proof (induction e arbitrary: t)
  case (FieldExpr n)
  then show ?case by (fastforce simp: typed_state_def split: option.splits)
next
  case (NotExpr e)
  then show ?case by (fastforce simp: and_then_Inr_iff)
next
  case (BinaryExpr k l r)
  from BinaryExpr.prems(1) obtain t1 t2 where
    t: "expression_type tys l = Inr t1" "expression_type tys r = Inr t2" "binary_type k t1 t2 = Inr t"
    by (auto simp: and_then_Inr_iff)
  from BinaryExpr.IH(1)[OF t(1) BinaryExpr.prems(2)] obtain a where
    a: "evaluate_expression l s = Inr a" "has_type a t1" by blast
  from BinaryExpr.IH(2)[OF t(2) BinaryExpr.prems(2)] obtain b where
    b: "evaluate_expression r s = Inr b" "has_type b t2" by blast
  from binary_op_typed[OF t(3) a(2) b(2)] a(1) b(1) show ?case by simp
qed auto

lemma evaluate_cong:
  "(\<And>n. n \<in> referenced_fields e \<Longrightarrow> map_of s n = map_of s' n)
    \<Longrightarrow> evaluate_expression e s = evaluate_expression e s'"
  by (induction e) (auto cong: and_then_cong)

lemma all_hold_cong:
  "(\<And>e n. e \<in> set es \<Longrightarrow> n \<in> referenced_fields e \<Longrightarrow> map_of s n = map_of s' n)
    \<Longrightarrow> all_hold es s = all_hold es s'"
proof (induction es)
  case (Cons e es)
  have "evaluate_expression e s = evaluate_expression e s'"
    by (rule evaluate_cong) (use Cons.prems in auto)
  moreover have "all_hold es s = all_hold es s'"
    by (rule Cons.IH) (use Cons.prems in auto)
  ultimately show ?case by (simp cong del: if_weak_cong)
qed simp

lemma all_hold_True_iff:
  "all_hold es s = Inr True \<longleftrightarrow> (\<forall>e \<in> set es. \<exists>v. evaluate_expression e s = Inr v \<and> truthy v)"
  by (induction es) (auto simp: and_then_Inr_iff)

lemma all_hold_typed:
  assumes "\<forall>e \<in> set es. expression_type tys e = Inr Bool_ty" and "typed_state tys s"
  shows "\<exists>b. all_hold es s = Inr b"
  using assms
proof (induction es)
  case (Cons e es)
  then obtain v where "evaluate_expression e s = Inr v"
    using evaluate_typed[of tys e Bool_ty s] by auto
  with Cons show ?case by auto
qed auto

section \<open>Effects are simultaneous\<close>

lemma map_of_dict_update:
  "map_of (dict_update d kvs) = map_of d ++ map_of (rev kvs)"
proof (induction d kvs rule: dict_update.induct)
  case (2 d k v kvs)
  then show ?case by (simp add: fun_eq_iff map_add_def split: option.splits)
qed simp

lemma dict_update_keys:
  "fst ` set kvs \<subseteq> set (map fst d) \<Longrightarrow> map fst (dict_update d kvs) = map fst d"
proof (induction d kvs rule: dict_update.induct)
  case (2 d k v kvs)
  then have "k \<in> set (map fst d)" by simp
  then have "map fst (AList.update k v d) = map fst d" by (rule alist_update_keys)
  with 2 show ?case by auto
qed simp

lemma dict_update_fresh:
  "distinct (map fst d @ map fst kvs) \<Longrightarrow> dict_update d kvs = d @ kvs"
proof (induction d kvs rule: dict_update.induct)
  case (2 d k v kvs)
  have "AList.update k v d = d @ [(k, v)]" if "k \<notin> set (map fst d)" for k :: string and v :: 'a and d
    using that by (induction d) auto
  with 2 show ?case by simp
qed simp

lemma effect_pairs:
  assumes "map_res (\<lambda>e. and_then (evaluate_expression (effect_value e) s)
      (\<lambda>v. Inr (effect_target e, v))) es = Inr pairs"
  shows "map fst pairs = map effect_target es \<and>
    (\<forall>e \<in> set es. \<exists>v. evaluate_expression (effect_value e) s = Inr v \<and> (effect_target e, v) \<in> set pairs)"
  using assms
proof (induction es arbitrary: pairs)
  case (Cons e es)
  then show ?case by (fastforce simp: and_then_Inr_iff)
qed simp

lemma apply_effects_split:
  assumes "apply_effects p s = Inr t" and "distinct (map effect_target (effects p))"
  obtains pairs where "t = dict_update s pairs" "map fst pairs = map effect_target (effects p)"
    "distinct (map fst pairs)"
    "\<And>e. e \<in> set (effects p) \<Longrightarrow>
      \<exists>v. evaluate_expression (effect_value e) s = Inr v \<and> (effect_target e, v) \<in> set pairs"
proof -
  from assms(1) obtain pairs where
    pairs: "map_res (\<lambda>e. and_then (evaluate_expression (effect_value e) s)
        (\<lambda>v. Inr (effect_target e, v))) (effects p) = Inr pairs" and
    t: "t = dict_update s (dict_update [] pairs)"
    by (auto simp: apply_effects_def and_then_Inr_iff Let_def)
  note ep = effect_pairs[OF pairs]
  from ep assms(2) have "distinct (map fst pairs)" by simp
  moreover from this have "dict_update [] pairs = pairs" using dict_update_fresh[of "[]" pairs] by simp
  ultimately show thesis using that[of pairs] t ep by auto
qed

lemma apply_effects_target:
  assumes "apply_effects p s = Inr t" and "distinct (map effect_target (effects p))"
    and "e \<in> set (effects p)"
  shows "\<exists>v. evaluate_expression (effect_value e) s = Inr v \<and> map_of t (effect_target e) = Some v"
proof -
  obtain pairs where p: "t = dict_update s pairs" "distinct (map fst pairs)"
    "\<exists>v. evaluate_expression (effect_value e) s = Inr v \<and> (effect_target e, v) \<in> set pairs"
    using apply_effects_split[OF assms(1,2)] assms(3) by metis
  then obtain v where v: "evaluate_expression (effect_value e) s = Inr v"
    "(effect_target e, v) \<in> set pairs" by blast
  then have "map_of (rev pairs) (effect_target e) = Some v" using p(2) by (simp add: rev_map[symmetric])
  with p(1) v(1) show ?thesis by (simp add: map_of_dict_update)
qed

lemma apply_effects_frame:
  assumes "apply_effects p s = Inr t" and "distinct (map effect_target (effects p))"
    and "n \<notin> set (map effect_target (effects p))"
  shows "map_of t n = map_of s n"
proof -
  obtain pairs where p: "t = dict_update s pairs" "map fst pairs = map effect_target (effects p)"
    using apply_effects_split[OF assms(1,2)] by metis
  from p(2) assms(3) have "n \<notin> fst ` set (rev pairs)" by (metis set_map set_rev)
  then have "map_of (rev pairs) n = None" by (simp add: map_of_eq_None_iff)
  with p(1) show ?thesis by (simp add: map_of_dict_update map_add_def)
qed

lemma apply_effects_keys:
  assumes "apply_effects p s = Inr t" and "distinct (map effect_target (effects p))"
    and "set (map effect_target (effects p)) \<subseteq> set (map fst s)"
  shows "map fst t = map fst s"
proof -
  obtain pairs where p: "t = dict_update s pairs" "map fst pairs = map effect_target (effects p)"
    using apply_effects_split[OF assms(1,2)] by metis
  from p(2) assms(3) have "fst ` set pairs \<subseteq> set (map fst s)" by (metis set_map)
  with p(1) show ?thesis by (simp add: dict_update_keys)
qed

lemma apply_effects_typed:
  assumes wf: "wf_operation spec p" and ty: "typed_state (field_types spec) s"
  shows "\<exists>t. apply_effects p s = Inr t \<and> typed_state (field_types spec) t"
proof -
  let ?f = "\<lambda>e. and_then (evaluate_expression (effect_value e) s) (\<lambda>v. Inr (effect_target e, v))"
  have ev: "\<exists>v t. evaluate_expression (effect_value e) s = Inr v \<and>
      field_types spec (effect_target e) = Some t \<and> has_type v t" if "e \<in> set (effects p)" for e
    using that wf evaluate_typed[OF _ ty] unfolding wf_operation_def by metis
  then have "\<forall>e \<in> set (effects p). \<exists>kv. ?f e = Inr kv" by fastforce
  then have "\<exists>pairs. map_res ?f (effects p) = Inr pairs" by (rule map_res_total)
  then obtain t where t: "apply_effects p s = Inr t" by (auto simp: apply_effects_def Let_def)
  have dist: "distinct (map effect_target (effects p))" using wf by (simp add: wf_operation_def)
  have "\<exists>v. map_of t n = Some v \<and> has_type v ty'" if "field_types spec n = Some ty'" for n ty'
  proof (cases "n \<in> set (map effect_target (effects p))")
    case True
    then obtain e where "e \<in> set (effects p)" "n = effect_target e" by auto
    with ev[of e] apply_effects_target[OF t dist, of e] that show ?thesis by auto
  next
    case False
    with apply_effects_frame[OF t dist] ty that show ?thesis by (simp add: typed_state_def)
  qed
  with t show ?thesis by (simp add: typed_state_def)
qed

section \<open>Three-valued evaluation approximates the concrete one\<close>

definition agrees :: "env3 \<Rightarrow> mstate \<Rightarrow> bool" where
  "agrees env s \<longleftrightarrow> (\<forall>n v. env_get env n = Some v \<longrightarrow> map_of s n = Some v)"

lemma evaluate3_sound:
  assumes "evaluate3 e env = Inr (Some v)" and "agrees env s" and "evaluate_expression e s = Inr w"
  shows "w = v"
  using assms
proof (induction e arbitrary: v w)
  case (FieldExpr n)
  then show ?case by (auto simp: agrees_def split: option.splits)
next
  case (NotExpr e)
  then show ?case by (force simp: and_then_Inr_iff split: option.splits)
next
  case (BinaryExpr k l r)
  from BinaryExpr.prems(3) obtain a b where
    ab: "evaluate_expression l s = Inr a" "evaluate_expression r s = Inr b" "binary_op k a b = Inr w"
    by (auto simp: and_then_Inr_iff)
  from BinaryExpr.prems(1) obtain x y where
    xy: "evaluate3 l env = Inr x" "evaluate3 r env = Inr y"
    by (auto simp: and_then_Inr_iff)
  have x: "x = Some x' \<Longrightarrow> a = x'" for x'
    using BinaryExpr.IH(1)[of x' a] xy(1) ab(1) BinaryExpr.prems(2) by simp
  have y: "y = Some y' \<Longrightarrow> b = y'" for y'
    using BinaryExpr.IH(2)[of y' b] xy(2) ab(2) BinaryExpr.prems(2) by simp
  show ?case
    using BinaryExpr.prems(1) ab(3) x y
    by (auto simp: xy binary_op_def and_then_Inr_iff split: option.splits if_splits)
qed auto

lemma none_false_guard:
  assumes "none_false gs env = Inr False"
  shows "\<exists>g \<in> set gs. evaluate3 (guard_expression g) env = Inr (Some (VBool False))"
  using assms by (induction gs) (auto simp: and_then_Inr_iff split: if_splits)

lemma operation_admits_sound:
  assumes "operation_admits p f v spec = Inr False" and "map_of s f = Some (VInt v)"
  shows "guards_hold p s \<noteq> Inr True"
proof
  assume holds: "guards_hold p s = Inr True"
  let ?env = "AList.update f (Some (VInt v)) (map (\<lambda>v. (var_name v, None)) (state_variables spec))"
  from assms(1) obtain g where
    g: "g \<in> set (guards p)" "evaluate3 (guard_expression g) ?env = Inr (Some (VBool False))"
    using none_false_guard by (auto simp: operation_admits_def Let_def)
  from holds g(1) obtain w where w: "evaluate_expression (guard_expression g) s = Inr w" "truthy w"
    by (auto simp: guards_hold_def all_hold_True_iff)
  have none: "map_of (map (\<lambda>v. (var_name v, None)) vs) n \<noteq> Some (Some w)"
    for vs n and w :: val by (induction vs) auto
  have "agrees ?env s"
    using assms(2) none by (auto simp: agrees_def env_get_def split: option.splits if_splits)
  from evaluate3_sound[OF g(2) this w(1)] w(2) show False by simp
qed

definition never_left :: "domain_spec \<Rightarrow> string \<times> int \<Rightarrow> bool" where
  "never_left spec fv \<longleftrightarrow> (\<forall>p \<in> set (operations spec). \<forall>s.
     map_of s (fst fv) = Some (VInt (snd fv)) \<longrightarrow> guards_hold p s \<noteq> Inr True)"

lemma any_res_False:
  "any_res f xs = Inr False \<Longrightarrow> x \<in> set xs \<Longrightarrow> f x = Inr False"
  by (induction xs) (auto simp: and_then_Inr_iff split: if_splits)

definition justified :: "domain_spec \<Rightarrow> string list \<Rightarrow> bool" where
  "justified spec ms \<longleftrightarrow> (\<exists>fvs. ms = map deadlock_message fvs \<and> (\<forall>fv \<in> set fvs. never_left spec fv))"

lemma justified_snoc:
  "justified spec ms \<Longrightarrow> never_left spec fv \<Longrightarrow> justified spec (ms @ [deadlock_message fv])"
proof -
  assume "justified spec ms" and fv: "never_left spec fv"
  then obtain fvs where "ms = map deadlock_message fvs" "\<forall>fv \<in> set fvs. never_left spec fv"
    by (auto simp: justified_def)
  with fv show ?thesis unfolding justified_def by (intro exI[of _ "fvs @ [fv]"]) auto
qed

lemma value_finding_justified:
  assumes "value_finding spec f ts v ms = Inr ms'" and "justified spec ms"
  shows "justified spec ms'"
proof -
  have "never_left spec (f, v)"
    if "any_res (\<lambda>p. operation_admits p f v spec) (operations spec) = Inr False"
    using any_res_False[OF that] operation_admits_sound by (fastforce simp: never_left_def)
  with assms show ?thesis
    by (auto simp: value_finding_def and_then_Inr_iff split: if_splits intro: justified_snoc)
qed

lemma static_deadlock_findings_justified:
  assumes "static_deadlock_findings spec = Inr ms"
  shows "justified spec ms"
proof -
  have step: "justified spec ms'"
    if "variable_findings spec v ms = Inr ms'" and "justified spec ms" for v ms ms'
    using that
    by (cases v) (auto simp: Let_def elim!: fold_res_invariant value_finding_justified)
  have "justified spec []" by (simp add: justified_def)
  with assms show ?thesis unfolding static_deadlock_findings_def
    by (rule fold_res_invariant) (rule step)
qed

section \<open>Properties of the evaluator\<close>

definition toggle_start :: mstate where
  "toggle_start = [(''opened'', VBool False), (''count'', VInt 0),
     (''callResult'', VTuple [''none'', ''none''])]"

abbreviation toggle_types :: "string \<rightharpoonup> scalar" where
  "toggle_types \<equiv> [''opened'' \<mapsto> Bool_ty, ''count'' \<mapsto> Int_ty]"

lemma toggle_start_typed: "typed_state toggle_types toggle_start"
  by (simp add: typed_state_def toggle_start_def) blast

text \<open>C21: type soundness: an expression that the schema's type checker accepts evaluates,
  without any error, to a value of its type in every state that gives the fields values of their
  declared types.\<close>

theorem evaluation_type_sound:
  assumes "expression_type tys e = Inr t" and "typed_state tys s"
  shows "\<exists>v. evaluate_expression e s = Inr v \<and> has_type v t"
  using evaluate_typed[OF assms] .

lemma evaluation_type_sound_witness:
  "\<exists>v. evaluate_expression (BinaryExpr K_lt (FieldExpr ''count'') (IntegerExpr 2)) toggle_start = Inr v
    \<and> has_type v Bool_ty"
  by (rule evaluation_type_sound[OF _ toggle_start_typed]) code_simp

text \<open>C20: operations on a well-formed domain never fail and are simultaneous: every effect's
  right-hand side is evaluated in the state before the operation, its target gets that value,
  every field outside the frame keeps its value, and the declared types are preserved.\<close>

theorem effects_simultaneous:
  assumes wf: "wf_operation spec p" and ty: "typed_state (field_types spec) s"
  shows "\<exists>t. apply_effects p s = Inr t \<and> typed_state (field_types spec) t \<and>
    (\<forall>e \<in> set (effects p). \<exists>v. evaluate_expression (effect_value e) s = Inr v \<and>
       map_of t (effect_target e) = Some v) \<and>
    (\<forall>n. n \<notin> set (frame p) \<longrightarrow> map_of t n = map_of s n)"
proof -
  from apply_effects_typed[OF wf ty] obtain t where
    t: "apply_effects p s = Inr t" "typed_state (field_types spec) t" by blast
  have dist: "distinct (map effect_target (effects p))"
    and frame: "set (map effect_target (effects p)) = set (frame p)"
    using wf by (auto simp: wf_operation_def)
  from apply_effects_target[OF t(1) dist] apply_effects_frame[OF t(1) dist] frame t
  show ?thesis by metis
qed

lemma effects_simultaneous_witness:
  "\<exists>t. apply_effects (hd (operations toggle_spec)) toggle_start = Inr t \<and>
    map_of t ''count'' = Some (VInt 1) \<and> map_of t ''callResult'' = map_of toggle_start ''callResult''"
proof -
  let ?p = "hd (operations toggle_spec)"
  have "validate_spec toggle_spec = Inr toggle_spec" by code_simp
  from validate_spec_wf[OF this] have wf: "wf_operation toggle_spec ?p"
    by (simp add: wf_spec_def)
  have ty: "typed_state (field_types toggle_spec) toggle_start"
    by (simp add: typed_state_def toggle_start_def field_types_def toggle_spec_def) blast
  let ?e = "effects ?p ! 1"
  have e: "?e \<in> set (effects ?p)" "effect_target ?e = ''count''" "''callResult'' \<notin> set (frame ?p)"
    by (simp_all add: toggle_spec_def)
  have "evaluate_expression (effect_value ?e) toggle_start = Inr (VInt 1)" by code_simp
  with effects_simultaneous[OF wf ty] e show ?thesis by fastforce
qed

text \<open>Three-valued evaluation is sound: whenever the partial evaluation of an expression
  decides a value from the fields that are known, every state that agrees with them evaluates
  the expression to the same value, if it evaluates at all.\<close>

theorem three_valued_sound:
  assumes "evaluate3 e env = Inr (Some v)" and "agrees env s" and "evaluate_expression e s = Inr w"
  shows "w = v"
  using evaluate3_sound[OF assms] .

lemma three_valued_sound_witness:
  "(VBool False) = VBool False \<and> evaluate3 (BinaryExpr K_and (FieldExpr ''opened'') (FieldExpr ''other''))
     [(''opened'', Some (VBool False)), (''other'', None)] = Inr (Some (VBool False))"
proof
  show "evaluate3 (BinaryExpr K_and (FieldExpr ''opened'') (FieldExpr ''other''))
     [(''opened'', Some (VBool False)), (''other'', None)] = Inr (Some (VBool False))" by code_simp
  show "VBool False = VBool False"
    by (rule three_valued_sound[where s = "[(''opened'', VBool False), (''other'', VInt 1)]"
          and e = "BinaryExpr K_and (FieldExpr ''opened'') (FieldExpr ''other'')"
          and env = "[(''opened'', Some (VBool False)), (''other'', None)]"])
       (code_simp, simp add: agrees_def env_get_def split: option.splits, code_simp)
qed

text \<open>C22: the static deadlock gate raises no false alarm: each finding names a field and a value
  for which, whatever the other fields hold, no operation of the domain is enabled.\<close>

theorem deadlock_findings_sound:
  assumes "static_deadlock_findings spec = Inr ms" and "m \<in> set ms"
  shows "\<exists>f v. m = deadlock_message (f, v) \<and>
    (\<forall>p \<in> set (operations spec). \<forall>s. map_of s f = Some (VInt v) \<longrightarrow> guards_hold p s \<noteq> Inr True)"
  using static_deadlock_findings_justified[OF assms(1)] assms(2)
  by (fastforce simp: justified_def never_left_def)

text \<open>A latch that is set once and never reset.\<close>

definition latch_spec :: domain_spec where
  "latch_spec = toggle_spec\<lparr>
     state_variables := [IntStateVariable ''phase'' (0, 1) 0 None],
     operations := [\<lparr>op_name = ''latch'', return_type = Ret_void, failure_semantics = Unavailable,
        guards = [\<lparr>guard_id = ''g1'', guard_expression =
           BinaryExpr K_eq (FieldExpr ''phase'') (IntegerExpr 0)\<rparr>],
        effects = [\<lparr>effect_id = ''e1'', effect_target = ''phase'', effect_value = IntegerExpr 1\<rparr>],
        frame = [''phase''], exception_type = None, exception_trigger = None\<rparr>],
     tlc_invariants := [\<lparr>inv_id = ''phaseLow'', inv_expression =
       BinaryExpr K_lte (FieldExpr ''phase'') (IntegerExpr 1)\<rparr>]\<rparr>"

lemma deadlock_findings_sound_witness:
  "\<exists>f v. deadlock_message (''phase'', 1) = deadlock_message (f, v) \<and>
    guards_hold (hd (operations latch_spec)) [(f, VInt v)] \<noteq> Inr True"
proof -
  have found: "static_deadlock_findings latch_spec = Inr [deadlock_message (''phase'', 1)]" by code_simp
  have op: "hd (operations latch_spec) \<in> set (operations latch_spec)" by (simp add: latch_spec_def)
  from deadlock_findings_sound[OF found, of "deadlock_message (''phase'', 1)"] obtain f v where
    "deadlock_message (''phase'', 1) = deadlock_message (f, v)"
    "\<forall>p \<in> set (operations latch_spec). \<forall>s. map_of s f = Some (VInt v) \<longrightarrow> guards_hold p s \<noteq> Inr True"
    by (metis list.set_intros(1))
  with op have "guards_hold (hd (operations latch_spec)) [(f, VInt v)] \<noteq> Inr True" by simp
  with \<open>deadlock_message (''phase'', 1) = deadlock_message (f, v)\<close> show ?thesis by blast
qed

end
