(* ===== verification/Domain_Explore.thy ===== *)
theory Domain_Explore
  imports Domain_Eval
begin

text \<open>
  The bounded explorer of \<^verbatim>\<open>pipeline/domain_v2_model.py\<close>: the frontier with its
  three budgets (\<^verbatim>\<open>_BoundedFrontier\<close>), the expansion of one state in the atomic
  model and in the lock protocol, and the work loop
  \<^verbatim>\<open>validate_transitions_and_invariants\<close>.  \<open>model_step\<close> is the transition
  relation of the finite abstraction, stated without a frontier; the locale \<open>traversal\<close> is
  the contract between the work loop and the expansion, and its interpretation shows that the
  loop visits exactly the states reachable by \<open>model_step\<close>.
\<close>

section \<open>The bounded frontier\<close>

record frontier =
  max_states :: nat
  max_transitions :: nat
  max_work_items :: nat
  queue :: "mstate list"
  discovered :: "mstate list"
  transitions :: nat
  work_items :: nat

definition freeze :: "mstate \<Rightarrow> mstate" where
  "freeze s = sort_key fst s"

definition new_frontier :: "int \<Rightarrow> int \<Rightarrow> int \<Rightarrow> v2_error + frontier" where
  "new_frontier ms mt mw =
     and_then (for_each (\<lambda>(name, value). ensure (0 < value)
         (ValueError (name @ '' must be a positive integer'')))
       [(''max_states'', ms), (''max_transitions'', mt), (''max_work_items'', mw)]) (\<lambda>_.
     Inr \<lparr>max_states = nat ms, max_transitions = nat mt, max_work_items = nat mw,
          queue = [], discovered = [], transitions = 0, work_items = 0\<rparr>)"

definition discover :: "mstate \<Rightarrow> frontier \<Rightarrow> v2_error + frontier" where
  "discover s f =
     (if freeze s \<in> set (discovered f) then Inr f
      else if max_states f \<le> length (discovered f) then
        Inl (UnsupportedV2Boundary (''reachable states exceed maximum '' @ str_of_nat (max_states f)))
      else Inr (f\<lparr>discovered := freeze s # discovered f, queue := queue f @ [s]\<rparr>))"

definition charge_step :: "frontier \<Rightarrow> v2_error + frontier" where
  "charge_step f =
     (if max_work_items f \<le> work_items f then
        Inl (UnsupportedV2Boundary
          (''traversal work items exceed maximum '' @ str_of_nat (max_work_items f)))
      else Inr (f\<lparr>work_items := work_items f + 1\<rparr>))"

definition append_state :: "mstate \<Rightarrow> frontier \<Rightarrow> v2_error + frontier" where
  "append_state s f =
     (if max_transitions f \<le> transitions f then
        Inl (UnsupportedV2Boundary
          (''reachable transitions exceed maximum '' @ str_of_nat (max_transitions f)))
      else discover s (f\<lparr>transitions := transitions f + 1\<rparr>))"

section \<open>Tuples stored in a state\<close>

definition get_tuple :: "mstate \<Rightarrow> string \<Rightarrow> v2_error + string list" where
  "get_tuple s k = (case map_of s k of
     None \<Rightarrow> Inl (KeyError k)
   | Some (VTuple xs) \<Rightarrow> Inr xs
   | Some _ \<Rightarrow> Inl TypeError)"

definition tuple_at :: "mstate \<Rightarrow> string \<Rightarrow> nat \<Rightarrow> v2_error + string" where
  "tuple_at s k i = and_then (get_tuple s k) (\<lambda>xs.
     if i < length xs then Inr (xs ! i) else Inl IndexError)"

text \<open>\<open>xs = list(source[k]); xs[i] = x; post[k] = tuple(xs)\<close>.\<close>

definition set_tuple :: "mstate \<Rightarrow> string \<Rightarrow> nat \<Rightarrow> string \<Rightarrow> mstate \<Rightarrow> v2_error + mstate" where
  "set_tuple source k i x post = and_then (get_tuple source k) (\<lambda>xs.
     if i < length xs then Inr (AList.update k (VTuple (xs[i := x])) post) else Inl IndexError)"

definition checked :: "domain_spec \<Rightarrow> string \<Rightarrow> mstate \<Rightarrow> v2_error + unit" where
  "checked spec operation post =
     and_then (check_bounds spec post operation) (\<lambda>_. check_invariants spec post operation)"

section \<open>Expanding one state\<close>

definition has_results :: "domain_spec \<Rightarrow> bool" where
  "has_results spec \<longleftrightarrow> (\<exists>p \<in> set (operations spec). failure_semantics p = False_and_stutter)"

definition lock_mode :: "domain_spec \<Rightarrow> bool" where
  "lock_mode spec \<longleftrightarrow> (case concurrency spec of None \<Rightarrow> False
     | Some m \<Rightarrow> linearization_points m \<noteq> None)"

definition success_actors :: "domain_spec \<Rightarrow> operation \<Rightarrow> nat option list" where
  "success_actors spec p =
     (if return_type p = Ret_boolean then map Some [0..<actors spec] else [None])"

definition success_post :: "domain_spec \<Rightarrow> mstate \<Rightarrow> mstate \<Rightarrow> nat option \<Rightarrow> v2_error + mstate" where
  "success_post spec s domain_post actor =
     (case actor of
        Some a \<Rightarrow> if has_results spec then set_tuple s ''callResult'' a ''true'' domain_post
                  else Inr domain_post
      | None \<Rightarrow> Inr domain_post)"

definition attempt_operation :: "domain_spec \<Rightarrow> mstate \<Rightarrow> operation \<Rightarrow> frontier \<Rightarrow> v2_error + frontier" where
  "attempt_operation spec s p f =
     and_then (charge_step f) (\<lambda>f.
     and_then (guards_hold p s) (\<lambda>enabled.
     if enabled then
       and_then (apply_effects p s) (\<lambda>domain_post.
       fold_res (\<lambda>actor f.
           and_then (charge_step f) (\<lambda>f.
           and_then (success_post spec s domain_post actor) (\<lambda>post.
           and_then (checked spec (op_name p) post) (\<lambda>_.
           append_state post f)))) (success_actors spec p) f)
     else if failure_semantics p = False_and_stutter then
       fold_res (\<lambda>a f.
           and_then (charge_step f) (\<lambda>f.
           and_then (set_tuple s ''callResult'' a ''false'' s) (\<lambda>post.
           append_state post f))) [0..<actors spec] f
     else Inr f))"

definition find_operation :: "domain_spec \<Rightarrow> string \<Rightarrow> v2_error + operation" where
  "find_operation spec n = (case find (\<lambda>p. op_name p = n) (operations spec) of
     None \<Rightarrow> Inl StopIteration | Some p \<Rightarrow> Inr p)"

definition lookup_val :: "mstate \<Rightarrow> string \<Rightarrow> v2_error + val" where
  "lookup_val s k = (case map_of s k of None \<Rightarrow> Inl (KeyError k) | Some v \<Rightarrow> Inr v)"

definition owner_value :: "int list \<Rightarrow> nat \<Rightarrow> v2_error + val" where
  "owner_value owners a = (if a < length owners then Inr (VInt (owners ! a)) else Inl IndexError)"

text \<open>One actor of the lock protocol, by its program counter.\<close>

definition lock_invoke :: "domain_spec \<Rightarrow> mstate \<Rightarrow> nat \<Rightarrow> frontier \<Rightarrow> v2_error + frontier" where
  "lock_invoke spec s a f =
     fold_res (\<lambda>p f.
       and_then (charge_step f) (\<lambda>f.
       and_then (set_tuple s ''__pc'' a ''INVOKED'' s) (\<lambda>post.
       and_then (set_tuple s ''__pending'' a (op_name p) post) (\<lambda>post.
       append_state post f)))) (operations spec) f"

definition lock_acquire :: "domain_spec \<Rightarrow> lock_protocol_metadata \<Rightarrow> int \<Rightarrow> int list \<Rightarrow> mstate \<Rightarrow> nat
    \<Rightarrow> string \<Rightarrow> frontier \<Rightarrow> v2_error + frontier" where
  "lock_acquire spec m unlocked owners s a pending f =
     and_then (find_operation spec pending) (\<lambda>p.
     and_then (lookup_val s (lock_variable m)) (\<lambda>held.
     if py_eq held (VInt unlocked) then
       and_then (owner_value owners a) (\<lambda>owner.
       and_then (set_tuple s ''__pc'' a ''ACQUIRED'' (AList.update (lock_variable m) owner s)) (\<lambda>post.
       and_then (checked spec (op_name p @ ''Acquire'') post) (\<lambda>_.
       append_state post f)))
     else Inr f))"

definition lock_commit :: "domain_spec \<Rightarrow> lock_protocol_metadata \<Rightarrow> int \<Rightarrow> mstate \<Rightarrow> nat \<Rightarrow> string
    \<Rightarrow> frontier \<Rightarrow> v2_error + frontier" where
  "lock_commit spec m unlocked s a pending f =
     and_then (find_operation spec pending) (\<lambda>p.
     and_then (guards_hold p s) (\<lambda>enabled.
     and_then (if enabled then and_then (apply_effects p s) (\<lambda>post. Inr (post, ''LINEARIZED'', ''Linearize''))
               else Inr (AList.update (lock_variable m) (VInt unlocked) s, ''RELEASED'', ''Reject''))
       (\<lambda>(post, phase, step_name).
     and_then (set_tuple s ''__pc'' a phase post) (\<lambda>post.
     and_then (checked spec (op_name p @ step_name) post) (\<lambda>_.
     append_state post f)))))"

definition lock_release :: "domain_spec \<Rightarrow> lock_protocol_metadata \<Rightarrow> int \<Rightarrow> mstate \<Rightarrow> nat \<Rightarrow> string
    \<Rightarrow> frontier \<Rightarrow> v2_error + frontier" where
  "lock_release spec m unlocked s a pending f =
     and_then (set_tuple s ''__pc'' a ''RELEASED'' (AList.update (lock_variable m) (VInt unlocked) s)) (\<lambda>post.
     and_then (checked spec (pending @ ''Release'') post) (\<lambda>_.
     append_state post f))"

definition lock_respond :: "mstate \<Rightarrow> nat \<Rightarrow> frontier \<Rightarrow> v2_error + frontier" where
  "lock_respond s a f =
     and_then (set_tuple s ''__pc'' a ''IDLE'' s) (\<lambda>post.
     and_then (set_tuple s ''__pending'' a ''none'' post) (\<lambda>post.
     append_state post f))"

definition lock_actor :: "domain_spec \<Rightarrow> lock_protocol_metadata \<Rightarrow> int \<Rightarrow> int list \<Rightarrow> mstate \<Rightarrow> nat
    \<Rightarrow> frontier \<Rightarrow> v2_error + frontier" where
  "lock_actor spec m unlocked owners s a f =
     and_then (charge_step f) (\<lambda>f.
     and_then (tuple_at s ''__pc'' a) (\<lambda>pc.
     and_then (tuple_at s ''__pending'' a) (\<lambda>pending.
     if pc = ''IDLE'' then lock_invoke spec s a f
     else if pc = ''INVOKED'' then lock_acquire spec m unlocked owners s a pending f
     else if pc = ''ACQUIRED'' then lock_commit spec m unlocked s a pending f
     else if pc = ''LINEARIZED'' then lock_release spec m unlocked s a pending f
     else if pc = ''RELEASED'' then lock_respond s a f
     else Inr f)))"

definition enqueue_lock_protocol_successors :: "domain_spec \<Rightarrow> mstate \<Rightarrow> frontier \<Rightarrow> v2_error + frontier" where
  "enqueue_lock_protocol_successors spec s f =
     (case concurrency spec of None \<Rightarrow> Inl AssertionError
      | Some m \<Rightarrow> (case (actor_lock_values m, unlocked_value m) of
           (Some owners, Some unlocked) \<Rightarrow>
             fold_res (lock_actor spec m unlocked owners s) [0..<actors spec] f
         | _ \<Rightarrow> Inl AssertionError))"

definition expand_state :: "domain_spec \<Rightarrow> mstate \<Rightarrow> frontier \<Rightarrow> v2_error + frontier" where
  "expand_state spec s f =
     (if lock_mode spec then enqueue_lock_protocol_successors spec s f
      else fold_res (attempt_operation spec s) (operations spec) f)"

section \<open>The work loop\<close>

definition frontier_measure :: "frontier \<Rightarrow> nat" where
  "frontier_measure f = 2 * (max_states f - length (discovered f)) + length (queue f)"

text \<open>
  Every change of the frontier during an expansion is a charged work item or an appended
  successor.  \<open>advances f ts f'\<close> says that \<open>f'\<close> is \<open>f\<close> after appending the successors
  \<open>ts\<close> in this order, and \<open>appends h ts C\<close> that the frontier computation \<open>h\<close> does
  exactly that and, when it returns, has established \<open>C\<close>.
\<close>

fun enqueue_all :: "mstate list \<Rightarrow> mstate list \<times> mstate list \<Rightarrow> mstate list \<times> mstate list" where
  "enqueue_all [] (q, d) = (q, d)"
| "enqueue_all (t # ts) (q, d) =
     (if freeze t \<in> set d then enqueue_all ts (q, d) else enqueue_all ts (q @ [t], freeze t # d))"

lemma enqueue_all_append:
  "enqueue_all (ts @ us) qd = enqueue_all us (enqueue_all ts qd)"
  by (induction ts qd rule: enqueue_all.induct) auto

definition advances :: "frontier \<Rightarrow> mstate list \<Rightarrow> frontier \<Rightarrow> bool" where
  "advances f ts f' \<longleftrightarrow>
     (queue f', discovered f') = enqueue_all ts (queue f, discovered f) \<and>
     transitions f' = transitions f + length ts \<and>
     max_states f' = max_states f \<and> max_transitions f' = max_transitions f \<and>
     max_work_items f' = max_work_items f \<and>
     frontier_measure f' \<le> frontier_measure f \<and>
     (length (discovered f) \<le> max_states f \<longrightarrow> length (discovered f') \<le> max_states f') \<and>
     (transitions f \<le> max_transitions f \<longrightarrow> transitions f' \<le> max_transitions f') \<and>
     (work_items f \<le> max_work_items f \<longrightarrow> work_items f' \<le> max_work_items f')"

definition appends :: "(frontier \<Rightarrow> v2_error + frontier) \<Rightarrow> mstate list \<Rightarrow> bool \<Rightarrow> bool" where
  "appends h ts C \<longleftrightarrow> (\<forall>f f'. h f = Inr f' \<longrightarrow> advances f ts f' \<and> C)"

lemma appendsD: "appends h ts C \<Longrightarrow> h f = Inr f' \<Longrightarrow> advances f ts f' \<and> C"
  by (simp add: appends_def)

lemma advance_refl: "advances f [] f"
  by (simp add: advances_def)

lemma advance_trans:
  assumes "advances f ts g" and "advances g us h"
  shows "advances f (ts @ us) h"
  using assms by (auto simp: advances_def enqueue_all_append)

lemma appends_Inr: "appends Inr [] True"
  by (simp add: appends_def advance_refl)

lemma appends_Inl: "appends (\<lambda>_. Inl e) ts C"
  by (simp add: appends_def)

lemma appends_charge: "appends charge_step [] True"
  by (auto simp: appends_def charge_step_def advances_def frontier_measure_def split: if_splits)

lemma appends_append: "appends (append_state t) [t] True"
  by (auto simp: appends_def append_state_def discover_def advances_def frontier_measure_def
      split: if_splits)

lemma appends_seq:
  assumes "appends h ts C" and "appends k us D"
  shows "appends (\<lambda>f. and_then (h f) k) (ts @ us) (C \<and> D)"
  using assms advance_trans by (fastforce simp: appends_def and_then_Inr_iff)

lemma appends_charge_then: "appends k us D \<Longrightarrow> appends (\<lambda>f. and_then (charge_step f) k) us D"
  using appends_seq[OF appends_charge, of k us D] by simp

lemma appends_value:
  assumes "\<And>x. m = Inr x \<Longrightarrow> appends (k x) ts C"
  shows "appends (\<lambda>f. and_then m (\<lambda>x. k x f)) ts C"
  using assms by (auto simp: appends_def and_then_Inr_iff)

lemma appends_weaken: "appends h ts C \<Longrightarrow> ts = us \<Longrightarrow> (C \<Longrightarrow> D) \<Longrightarrow> appends h us D"
  by (auto simp: appends_def)

lemma appends_fold:
  assumes "\<And>x. x \<in> set xs \<Longrightarrow> appends (h x) (ts x) (C x)"
  shows "appends (fold_res h xs) (concat (map ts xs)) (\<forall>x \<in> set xs. C x)"
  using assms
proof (induction xs)
  case Nil
  then show ?case using appends_Inr by (simp add: appends_def)
next
  case (Cons x xs)
  have "fold_res h (x # xs) = (\<lambda>f. and_then (h x f) (fold_res h xs))" by auto
  moreover have "appends (\<lambda>f. and_then (h x f) (fold_res h xs)) (ts x @ concat (map ts xs))
      (C x \<and> (\<forall>x \<in> set xs. C x))"
    by (rule appends_seq) (use Cons in auto)
  ultimately show ?case by simp
qed

text \<open>The successors of a state, without a frontier.\<close>

definition success_list :: "domain_spec \<Rightarrow> mstate \<Rightarrow> operation \<Rightarrow> mstate \<Rightarrow> mstate list" where
  "success_list spec s p domain_post =
     concat (map (\<lambda>a. ok_list (success_post spec s domain_post a)) (success_actors spec p))"

definition failure_list :: "domain_spec \<Rightarrow> mstate \<Rightarrow> mstate list" where
  "failure_list spec s =
     concat (map (\<lambda>a. ok_list (set_tuple s ''callResult'' a ''false'' s)) [0..<actors spec])"

definition operation_successors :: "domain_spec \<Rightarrow> mstate \<Rightarrow> operation \<Rightarrow> mstate list" where
  "operation_successors spec s p = (case guards_hold p s of
     Inl _ \<Rightarrow> []
   | Inr enabled \<Rightarrow>
       if enabled then (case apply_effects p s of Inl _ \<Rightarrow> [] | Inr post \<Rightarrow> success_list spec s p post)
       else if failure_semantics p = False_and_stutter then failure_list spec s
       else [])"

definition operation_ok :: "domain_spec \<Rightarrow> mstate \<Rightarrow> operation \<Rightarrow> bool" where
  "operation_ok spec s p \<longleftrightarrow> (\<forall>post. guards_hold p s = Inr True \<longrightarrow> apply_effects p s = Inr post \<longrightarrow>
     (\<forall>t \<in> set (success_list spec s p post). checked spec (op_name p) t = Inr ()))"

lemma attempt_operation_appends:
  "appends (attempt_operation spec s p) (operation_successors spec s p) (operation_ok spec s p)"
proof -
  let ?succ = "\<lambda>post actor f.
     and_then (charge_step f) (\<lambda>f. and_then (success_post spec s post actor) (\<lambda>post.
     and_then (checked spec (op_name p) post) (\<lambda>_. append_state post f)))"
  let ?fail = "\<lambda>a f.
     and_then (charge_step f) (\<lambda>f. and_then (set_tuple s ''callResult'' a ''false'' s) (\<lambda>post.
     append_state post f))"
  have succ: "appends (?succ post actor) (ok_list (success_post spec s post actor))
      (\<forall>t \<in> set (ok_list (success_post spec s post actor)). checked spec (op_name p) t = Inr ())"
    for post actor
  proof (rule appends_charge_then, rule appends_value)
    fix t assume t: "success_post spec s post actor = Inr t"
    show "appends (\<lambda>f. and_then (checked spec (op_name p) t) (\<lambda>_. append_state t f))
      (ok_list (success_post spec s post actor))
      (\<forall>t \<in> set (ok_list (success_post spec s post actor)). checked spec (op_name p) t = Inr ())"
      by (rule appends_value) (rule appends_weaken[OF appends_append], auto simp: t)
  qed
  have fail: "appends (?fail a) (ok_list (set_tuple s ''callResult'' a ''false'' s)) True" for a
    by (rule appends_charge_then, rule appends_value) (rule appends_weaken[OF appends_append], auto)
  have "appends (\<lambda>f. if enabled then and_then (apply_effects p s)
            (\<lambda>post. fold_res (?succ post) (success_actors spec p) f)
          else if failure_semantics p = False_and_stutter then fold_res ?fail [0..<actors spec] f
          else Inr f)
       (operation_successors spec s p) (operation_ok spec s p)"
    if en: "guards_hold p s = Inr enabled" for enabled
  proof (cases enabled)
    case True
    have "appends (\<lambda>f. and_then (apply_effects p s)
        (\<lambda>post. fold_res (?succ post) (success_actors spec p) f))
      (operation_successors spec s p) (operation_ok spec s p)"
    proof (rule appends_value)
      fix post assume post: "apply_effects p s = Inr post"
      show "appends (fold_res (?succ post) (success_actors spec p))
        (operation_successors spec s p) (operation_ok spec s p)"
        by (rule appends_weaken[OF appends_fold[OF succ]])
           (auto simp: operation_successors_def operation_ok_def success_list_def en True post)
    qed
    with True show ?thesis by simp
  next
    case False
    have "appends (fold_res ?fail [0..<actors spec]) (failure_list spec s) True"
      by (rule appends_weaken[OF appends_fold[OF fail]]) (auto simp: failure_list_def)
    with False en show ?thesis
      by (auto simp: operation_successors_def operation_ok_def intro: appends_weaken appends_Inr
          split: if_splits)
  qed
  then show ?thesis unfolding attempt_operation_def[abs_def]
    by (intro appends_charge_then appends_value)
qed

text \<open>Successors of one actor in the lock protocol.\<close>

definition invoke_list :: "domain_spec \<Rightarrow> mstate \<Rightarrow> nat \<Rightarrow> mstate list" where
  "invoke_list spec s a = concat (map (\<lambda>p. ok_list (and_then (set_tuple s ''__pc'' a ''INVOKED'' s)
     (set_tuple s ''__pending'' a (op_name p)))) (operations spec))"

definition acquire_list :: "domain_spec \<Rightarrow> lock_protocol_metadata \<Rightarrow> int \<Rightarrow> int list \<Rightarrow> mstate \<Rightarrow> nat
    \<Rightarrow> string \<Rightarrow> mstate list" where
  "acquire_list spec m unlocked owners s a pending =
     (case (find_operation spec pending, lookup_val s (lock_variable m), owner_value owners a) of
        (Inr p, Inr held, Inr owner) \<Rightarrow>
          if py_eq held (VInt unlocked)
          then ok_list (set_tuple s ''__pc'' a ''ACQUIRED'' (AList.update (lock_variable m) owner s))
          else []
      | _ \<Rightarrow> [])"

definition commit_list :: "domain_spec \<Rightarrow> lock_protocol_metadata \<Rightarrow> int \<Rightarrow> mstate \<Rightarrow> nat \<Rightarrow> string
    \<Rightarrow> mstate list" where
  "commit_list spec m unlocked s a pending =
     (case find_operation spec pending of
        Inl _ \<Rightarrow> []
      | Inr p \<Rightarrow> (case guards_hold p s of
          Inl _ \<Rightarrow> []
        | Inr enabled \<Rightarrow>
            if enabled then (case apply_effects p s of Inl _ \<Rightarrow> []
              | Inr post \<Rightarrow> ok_list (set_tuple s ''__pc'' a ''LINEARIZED'' post))
            else ok_list (set_tuple s ''__pc'' a ''RELEASED''
              (AList.update (lock_variable m) (VInt unlocked) s))))"

definition release_list :: "lock_protocol_metadata \<Rightarrow> int \<Rightarrow> mstate \<Rightarrow> nat \<Rightarrow> mstate list" where
  "release_list m unlocked s a = ok_list (set_tuple s ''__pc'' a ''RELEASED''
     (AList.update (lock_variable m) (VInt unlocked) s))"

definition respond_list :: "mstate \<Rightarrow> nat \<Rightarrow> mstate list" where
  "respond_list s a = ok_list (and_then (set_tuple s ''__pc'' a ''IDLE'' s)
     (set_tuple s ''__pending'' a ''none''))"

definition actor_successors :: "domain_spec \<Rightarrow> lock_protocol_metadata \<Rightarrow> int \<Rightarrow> int list \<Rightarrow> mstate
    \<Rightarrow> nat \<Rightarrow> mstate list" where
  "actor_successors spec m unlocked owners s a =
     (case (tuple_at s ''__pc'' a, tuple_at s ''__pending'' a) of
        (Inr pc, Inr pending) \<Rightarrow>
          if pc = ''IDLE'' then invoke_list spec s a
          else if pc = ''INVOKED'' then acquire_list spec m unlocked owners s a pending
          else if pc = ''ACQUIRED'' then commit_list spec m unlocked s a pending
          else if pc = ''LINEARIZED'' then release_list m unlocked s a
          else if pc = ''RELEASED'' then respond_list s a
          else []
      | _ \<Rightarrow> [])"

definition passed :: "domain_spec \<Rightarrow> mstate \<Rightarrow> bool" where
  "passed spec t \<longleftrightarrow> (\<exists>label. checked spec label t = Inr ())"

definition actor_ok :: "domain_spec \<Rightarrow> lock_protocol_metadata \<Rightarrow> int \<Rightarrow> int list \<Rightarrow> mstate
    \<Rightarrow> nat \<Rightarrow> bool" where
  "actor_ok spec m unlocked owners s a \<longleftrightarrow>
     (\<forall>pc. tuple_at s ''__pc'' a = Inr pc \<longrightarrow> pc \<in> {''INVOKED'', ''ACQUIRED'', ''LINEARIZED''} \<longrightarrow>
       (\<forall>t \<in> set (actor_successors spec m unlocked owners s a). passed spec t))"

lemma appends_checked_append:
  "appends (\<lambda>f. and_then (checked spec l t) (\<lambda>_. append_state t f)) [t] (passed spec t)"
  by (rule appends_value) (rule appends_weaken[OF appends_append], auto simp: passed_def)

lemma lock_invoke_appends: "appends (lock_invoke spec s a) (invoke_list spec s a) True"
proof -
  have "appends (\<lambda>f. and_then (charge_step f) (\<lambda>f.
      and_then (set_tuple s ''__pc'' a ''INVOKED'' s) (\<lambda>post.
      and_then (set_tuple s ''__pending'' a (op_name p) post) (\<lambda>post. append_state post f))))
    (ok_list (and_then (set_tuple s ''__pc'' a ''INVOKED'' s) (set_tuple s ''__pending'' a (op_name p))))
    True" for p
    by (rule appends_charge_then, rule appends_value, rule appends_value)
       (rule appends_weaken[OF appends_append], auto)
  then show ?thesis unfolding lock_invoke_def[abs_def]
    by (rule appends_weaken[OF appends_fold]) (auto simp: invoke_list_def)
qed

lemma lock_acquire_appends:
  "appends (lock_acquire spec m u os s a pending) (acquire_list spec m u os s a pending)
     (\<forall>t \<in> set (acquire_list spec m u os s a pending). passed spec t)"
  unfolding lock_acquire_def[abs_def]
proof (rule appends_value, rule appends_value)
  fix p held assume p: "find_operation spec pending = Inr p"
    and held: "lookup_val s (lock_variable m) = Inr held"
  show "appends (\<lambda>f. if py_eq held (VInt u) then and_then (owner_value os a) (\<lambda>owner.
       and_then (set_tuple s ''__pc'' a ''ACQUIRED'' (AList.update (lock_variable m) owner s)) (\<lambda>post.
       and_then (checked spec (op_name p @ ''Acquire'') post) (\<lambda>_. append_state post f)))
     else Inr f) (acquire_list spec m u os s a pending)
     (\<forall>t \<in> set (acquire_list spec m u os s a pending). passed spec t)"
  proof (cases "py_eq held (VInt u)")
    case True
    have "appends (\<lambda>f. and_then (owner_value os a) (\<lambda>owner.
       and_then (set_tuple s ''__pc'' a ''ACQUIRED'' (AList.update (lock_variable m) owner s)) (\<lambda>post.
       and_then (checked spec (op_name p @ ''Acquire'') post) (\<lambda>_. append_state post f))))
       (acquire_list spec m u os s a pending)
       (\<forall>t \<in> set (acquire_list spec m u os s a pending). passed spec t)"
      by (rule appends_value, rule appends_value, rule appends_weaken[OF appends_checked_append])
         (use True in \<open>auto simp: acquire_list_def p held\<close>)
    with True show ?thesis by simp
  next
    case False
    then show ?thesis
      using appends_Inr by (auto simp: acquire_list_def p held intro: appends_weaken split: sum.splits)
  qed
qed

lemma lock_commit_appends:
  "appends (lock_commit spec m u s a pending) (commit_list spec m u s a pending)
     (\<forall>t \<in> set (commit_list spec m u s a pending). passed spec t)"
  unfolding lock_commit_def[abs_def]
proof (rule appends_value, rule appends_value, rule appends_value)
  fix p enabled choice
  assume p: "find_operation spec pending = Inr p" and en: "guards_hold p s = Inr enabled"
    and choice: "(if enabled then and_then (apply_effects p s) (\<lambda>post. Inr (post, ''LINEARIZED'', ''Linearize''))
      else Inr (AList.update (lock_variable m) (VInt u) s, ''RELEASED'', ''Reject'')) = Inr choice"
  obtain post phase name where c: "choice = (post, phase, name)" by (cases choice)
  have "appends (\<lambda>f. and_then (set_tuple s ''__pc'' a phase post) (\<lambda>post.
      and_then (checked spec (op_name p @ name) post) (\<lambda>_. append_state post f)))
    (commit_list spec m u s a pending) (\<forall>t \<in> set (commit_list spec m u s a pending). passed spec t)"
    by (rule appends_value, rule appends_weaken[OF appends_checked_append])
       (use choice in \<open>auto simp: commit_list_def p en c and_then_Inr_iff split: if_splits\<close>)
  then show "appends (\<lambda>f. (case choice of (post, phase, step_name) \<Rightarrow>
      and_then (set_tuple s ''__pc'' a phase post) (\<lambda>post.
      and_then (checked spec (op_name p @ step_name) post) (\<lambda>_. append_state post f))))
    (commit_list spec m u s a pending) (\<forall>t \<in> set (commit_list spec m u s a pending). passed spec t)"
    by (simp add: c)
qed

lemma lock_release_appends:
  "appends (lock_release spec m u s a pending) (release_list m u s a)
     (\<forall>t \<in> set (release_list m u s a). passed spec t)"
  unfolding lock_release_def[abs_def]
  by (rule appends_value) (rule appends_weaken[OF appends_checked_append], auto simp: release_list_def)

lemma lock_respond_appends: "appends (lock_respond s a) (respond_list s a) True"
  unfolding lock_respond_def[abs_def]
  by (rule appends_value, rule appends_value)
     (rule appends_weaken[OF appends_append], auto simp: respond_list_def)

lemma lock_actor_appends:
  "appends (lock_actor spec m u os s a) (actor_successors spec m u os s a) (actor_ok spec m u os s a)"
  unfolding lock_actor_def[abs_def]
proof (rule appends_charge_then, rule appends_value, rule appends_value)
  fix pc pending assume pc: "tuple_at s ''__pc'' a = Inr pc"
    and pending: "tuple_at s ''__pending'' a = Inr pending"
  note ok = actor_ok_def[of spec m u os s a] actor_successors_def pc pending
  consider "pc = ''IDLE''" | "pc = ''INVOKED''" | "pc = ''ACQUIRED''" | "pc = ''LINEARIZED''"
    | "pc = ''RELEASED''" | "pc \<notin> {''IDLE'', ''INVOKED'', ''ACQUIRED'', ''LINEARIZED'', ''RELEASED''}"
    by auto
  then show "appends (\<lambda>f. if pc = ''IDLE'' then lock_invoke spec s a f
     else if pc = ''INVOKED'' then lock_acquire spec m u os s a pending f
     else if pc = ''ACQUIRED'' then lock_commit spec m u s a pending f
     else if pc = ''LINEARIZED'' then lock_release spec m u s a pending f
     else if pc = ''RELEASED'' then lock_respond s a f else Inr f)
     (actor_successors spec m u os s a) (actor_ok spec m u os s a)"
  proof cases
    case 1
    then show ?thesis by (auto intro!: appends_weaken[OF lock_invoke_appends] simp: ok)
  next
    case 2
    then show ?thesis by (auto intro!: appends_weaken[OF lock_acquire_appends] simp: ok)
  next
    case 3
    then show ?thesis by (auto intro!: appends_weaken[OF lock_commit_appends] simp: ok)
  next
    case 4
    then show ?thesis by (auto intro!: appends_weaken[OF lock_release_appends] simp: ok)
  next
    case 5
    then show ?thesis by (auto intro!: appends_weaken[OF lock_respond_appends] simp: ok)
  next
    case 6
    then show ?thesis by (auto intro!: appends_weaken[OF appends_Inr] simp: ok)
  qed
qed

definition successors :: "domain_spec \<Rightarrow> mstate \<Rightarrow> mstate list" where
  "successors spec s =
     (if lock_mode spec then
        (case concurrency spec of None \<Rightarrow> []
         | Some m \<Rightarrow> (case (actor_lock_values m, unlocked_value m) of
             (Some owners, Some unlocked) \<Rightarrow>
               concat (map (actor_successors spec m unlocked owners s) [0..<actors spec])
           | _ \<Rightarrow> []))
      else concat (map (operation_successors spec s) (operations spec)))"

definition expansion_ok :: "domain_spec \<Rightarrow> mstate \<Rightarrow> bool" where
  "expansion_ok spec s \<longleftrightarrow>
     (if lock_mode spec then
        (\<forall>m owners unlocked. concurrency spec = Some m \<longrightarrow> actor_lock_values m = Some owners \<longrightarrow>
           unlocked_value m = Some unlocked \<longrightarrow>
           (\<forall>a < actors spec. actor_ok spec m unlocked owners s a))
      else (\<forall>p \<in> set (operations spec). operation_ok spec s p))"

lemma expand_state_appends: "appends (expand_state spec s) (successors spec s) (expansion_ok spec s)"
proof (cases "lock_mode spec")
  case True
  then obtain m where m: "concurrency spec = Some m" by (auto simp: lock_mode_def split: option.splits)
  show ?thesis
  proof (cases "actor_lock_values m = None \<or> unlocked_value m = None")
    case True
    then show ?thesis using m \<open>lock_mode spec\<close>
      by (auto simp: appends_def expand_state_def enqueue_lock_protocol_successors_def split: option.splits)
  next
    case False
    then obtain os u where "actor_lock_values m = Some os" "unlocked_value m = Some u" by auto
    then show ?thesis using m \<open>lock_mode spec\<close>
      by (auto simp: expand_state_def[abs_def] enqueue_lock_protocol_successors_def successors_def
          expansion_ok_def intro!: appends_weaken[OF appends_fold[OF lock_actor_appends]])
  qed
next
  case False
  then show ?thesis
    by (auto simp: expand_state_def[abs_def] successors_def expansion_ok_def
        intro!: appends_weaken[OF appends_fold[OF attempt_operation_appends]])
qed

lemma expand_state_measure:
  assumes "queue f = s # q" and "expand_state spec s (f\<lparr>queue := q\<rparr>) = Inr f'"
  shows "frontier_measure f' < frontier_measure f"
proof -
  have "frontier_measure (f\<lparr>queue := q\<rparr>) < frontier_measure f"
    using assms(1) by (simp add: frontier_measure_def)
  with appendsD[OF expand_state_appends assms(2)] show ?thesis by (simp add: advances_def)
qed

function explore :: "domain_spec \<Rightarrow> frontier \<Rightarrow> v2_error + frontier" where
  "explore spec f = (case queue f of
     [] \<Rightarrow> Inr f
   | s # q \<Rightarrow> and_then (expand_state spec s (f\<lparr>queue := q\<rparr>)) (explore spec))"
  by pat_completeness auto
termination
  by (relation "measure (\<lambda>(spec, f). frontier_measure f)") (auto intro: expand_state_measure)

declare explore.simps [simp del]

definition initial_fields :: "domain_spec \<Rightarrow> mstate" where
  "initial_fields spec = map (\<lambda>v. (var_name v, case v of IntStateVariable _ _ i _ \<Rightarrow> VInt i
     | BoolStateVariable _ b \<Rightarrow> VBool b)) (state_variables spec)"

definition initial_state :: "domain_spec \<Rightarrow> mstate" where
  "initial_state spec =
     (let s = initial_fields spec;
          s = (if lock_mode spec then
                 AList.update ''__pending'' (VTuple (replicate (actors spec) ''none''))
                   (AList.update ''__pc'' (VTuple (replicate (actors spec) ''IDLE'')) s)
               else s)
      in if has_results spec
         then AList.update ''callResult'' (VTuple (replicate (actors spec) ''none'')) s
         else s)"

definition validate_transitions_and_invariants :: "domain_spec \<Rightarrow> int \<Rightarrow> int \<Rightarrow> int
    \<Rightarrow> v2_error + nat \<times> nat" where
  "validate_transitions_and_invariants spec ms mt mw =
     and_then (new_frontier ms mt mw) (\<lambda>f.
     let initial = initial_state spec in
     and_then (checked spec ''Init'' initial) (\<lambda>_.
     and_then (discover initial f) (\<lambda>f.
     and_then (explore spec f) (\<lambda>f.
     if transitions f = 0 then
       Inl (V2ValidationError (''initial state has no enabled transition; add the missing '' @
         ''environment/controller operations or explicitly redesign the initial state '' @
         ''(deadlock checking remains on)''))
     else Inr (length (discovered f), transitions f)))))"

section \<open>The contract of the work loop\<close>

lemma enqueue_all_new:
  assumes "inj_on freeze (D \<union> set ts)" and "set d = freeze ` D"
  shows "\<exists>new. enqueue_all ts (q, d) = (q @ new, rev (map freeze new) @ d) \<and> distinct new \<and>
    set new = set ts - D"
  using assms
proof (induction ts arbitrary: q d D)
  case Nil
  then show ?case by simp
next
  case (Cons t ts)
  show ?case
  proof (cases "freeze t \<in> set d")
    case True
    with Cons.prems obtain u where "u \<in> D" "freeze t = freeze u" by auto
    with Cons.prems(1) have "t \<in> D" by (auto simp: inj_on_def)
    moreover have "inj_on freeze (D \<union> set ts)" using Cons.prems(1) by (auto intro: inj_on_subset)
    ultimately show ?thesis using Cons.IH[OF _ Cons.prems(2), of q] True by auto
  next
    case False
    then have fresh: "t \<notin> D" using Cons.prems(2) by auto
    have "inj_on freeze (insert t D \<union> set ts)" using Cons.prems(1) by (auto intro: inj_on_subset)
    moreover have "set (freeze t # d) = freeze ` insert t D" using Cons.prems(2) by auto
    ultimately obtain new where new:
      "enqueue_all ts (q @ [t], freeze t # d) = ((q @ [t]) @ new, rev (map freeze new) @ freeze t # d)"
      "distinct new" "set new = set ts - insert t D"
      using Cons.IH by blast
    with False fresh show ?thesis by (intro exI[of _ "t # new"]) auto
  qed
qed

locale traversal =
  fixes expand :: "mstate \<Rightarrow> frontier \<Rightarrow> v2_error + frontier"
    and loop :: "frontier \<Rightarrow> v2_error + frontier"
    and succs :: "mstate \<Rightarrow> mstate list"
    and ok :: "mstate \<Rightarrow> bool"
    and inv :: "mstate \<Rightarrow> bool"
  assumes expand_appends: "appends (expand s) (succs s) (ok s)"
    and loop_unfold: "loop f = (case queue f of [] \<Rightarrow> Inr f
          | s # q \<Rightarrow> and_then (expand s (f\<lparr>queue := q\<rparr>)) loop)"
    and freeze_inj: "inv s \<Longrightarrow> inv t \<Longrightarrow> freeze s = freeze t \<Longrightarrow> s = t"
    and inv_step: "inv s \<Longrightarrow> t \<in> set (succs s) \<Longrightarrow> inv t"
begin

definition edges :: "(mstate \<times> mstate) set" where
  "edges = {(s, t). t \<in> set (succs s)}"

definition covered :: "mstate \<Rightarrow> mstate set \<Rightarrow> frontier \<Rightarrow> bool" where
  "covered s0 proc f \<longleftrightarrow>
     finite proc \<and> proc \<inter> set (queue f) = {} \<and> distinct (queue f) \<and>
     set (discovered f) = freeze ` (proc \<union> set (queue f)) \<and> distinct (discovered f) \<and>
     s0 \<in> proc \<union> set (queue f) \<and>
     (\<forall>s \<in> proc. set (succs s) \<subseteq> proc \<union> set (queue f) \<and> ok s) \<and>
     (\<forall>s \<in> proc \<union> set (queue f). (s0, s) \<in> edges\<^sup>* \<and> inv s) \<and>
     transitions f = (\<Sum>s \<in> proc. length (succs s))"

lemma covered_step:
  assumes cov: "covered s0 proc f" and q: "queue f = s # q"
    and exp: "expand s (f\<lparr>queue := q\<rparr>) = Inr f'"
  shows "covered s0 (insert s proc) f'"
proof -
  let ?D = "insert s proc \<union> set q"
  from appendsD[OF expand_appends exp] have
    adv: "advances (f\<lparr>queue := q\<rparr>) (succs s) f'" and ok: "ok s" by auto
  have D: "set (discovered f) = freeze ` ?D" and invD: "\<forall>t \<in> ?D. inv t"
    and dist: "distinct (s # q)" "s \<notin> proc" "proc \<inter> set q = {}"
    using cov q by (auto simp: covered_def)
  have inv_succ: "\<forall>t \<in> set (succs s). inv t" using inv_step invD by auto
  have "inj_on freeze (?D \<union> set (succs s))"
    unfolding inj_on_def using freeze_inj invD inv_succ by blast
  from enqueue_all_new[OF this D, of q] obtain new where
    new: "queue f' = q @ new" "discovered f' = rev (map freeze new) @ discovered f"
      "distinct new" "set new = set (succs s) - ?D"
    using adv by (auto simp: advances_def)
  have reach_new: "(s0, t) \<in> edges\<^sup>*" if "t \<in> set (succs s)" for t
  proof -
    have "(s0, s) \<in> edges\<^sup>*" using cov q by (auto simp: covered_def)
    moreover have "(s, t) \<in> edges" using that by (simp add: edges_def)
    ultimately show ?thesis by (rule rtrancl_into_rtrancl)
  qed
  have inj: "inj_on freeze (?D \<union> set new)"
    unfolding inj_on_def using freeze_inj invD inv_succ new(4) by blast
  have disc: "distinct (discovered f')"
  proof -
    have "distinct (map freeze new)" using new(3) inj by (auto simp: distinct_map intro: inj_on_subset)
    moreover have "freeze ` set new \<inter> set (discovered f) = {}"
      unfolding D using inj new(4) by (auto simp: inj_on_def)
    ultimately show ?thesis using new(2) cov by (auto simp: covered_def)
  qed
  have sum: "transitions f' = (\<Sum>s \<in> insert s proc. length (succs s))"
    using adv cov dist(2) by (simp add: advances_def covered_def)
  show ?thesis
    unfolding covered_def
    using cov q new dist D ok disc sum reach_new inv_succ
    by (auto simp: covered_def)
qed

lemma loop_covers:
  assumes "loop f = Inr f'" and "covered s0 proc f"
  shows "\<exists>proc'. covered s0 proc' f' \<and> queue f' = []"
  using assms
proof (induction "frontier_measure f" arbitrary: f proc rule: less_induct)
  case less
  show ?case
  proof (cases "queue f")
    case Nil
    with less.prems loop_unfold[of f] show ?thesis by auto
  next
    case (Cons s q)
    with less.prems(1) loop_unfold[of f] obtain g where
      g: "expand s (f\<lparr>queue := q\<rparr>) = Inr g" "loop g = Inr f'"
      by (auto simp: and_then_Inr_iff)
    have "frontier_measure (f\<lparr>queue := q\<rparr>) < frontier_measure f"
      using Cons by (simp add: frontier_measure_def)
    with appendsD[OF expand_appends g(1)] have "frontier_measure g < frontier_measure f"
      by (simp add: advances_def)
    from less.hyps[OF this g(2) covered_step[OF less.prems(2) Cons g(1)]] show ?thesis .
  qed
qed

lemma loop_limits:
  assumes "loop f = Inr f'"
  shows "max_states f' = max_states f \<and> max_transitions f' = max_transitions f \<and>
    (length (discovered f) \<le> max_states f \<longrightarrow> length (discovered f') \<le> max_states f) \<and>
    (transitions f \<le> max_transitions f \<longrightarrow> transitions f' \<le> max_transitions f)"
  using assms
proof (induction "frontier_measure f" arbitrary: f rule: less_induct)
  case less
  show ?case
  proof (cases "queue f")
    case Nil
    with less.prems loop_unfold[of f] show ?thesis by auto
  next
    case (Cons s q)
    with less.prems loop_unfold[of f] obtain g where
      g: "expand s (f\<lparr>queue := q\<rparr>) = Inr g" "loop g = Inr f'"
      by (auto simp: and_then_Inr_iff)
    have "frontier_measure (f\<lparr>queue := q\<rparr>) < frontier_measure f"
      using Cons by (simp add: frontier_measure_def)
    with appendsD[OF expand_appends g(1)] have adv: "advances (f\<lparr>queue := q\<rparr>) (succs s) g"
      "frontier_measure g < frontier_measure f"
      by (auto simp: advances_def)
    from less.hyps[OF adv(2) g(2)] adv(1) show ?thesis by (auto simp: advances_def)
  qed
qed

lemma covered_closed:
  assumes "covered s0 proc f" and "queue f = []"
  shows "proc = edges\<^sup>* `` {s0}"
proof
  show "proc \<subseteq> edges\<^sup>* `` {s0}" using assms by (auto simp: covered_def)
  have "t \<in> proc" if "(s0, t) \<in> edges\<^sup>*" for t
    using that
  proof (induction rule: rtrancl_induct)
    case base
    then show ?case using assms by (simp add: covered_def)
  next
    case (step y z)
    then show ?case using assms by (auto simp: covered_def edges_def)
  qed
  then show "edges\<^sup>* `` {s0} \<subseteq> proc" by auto
qed

lemma traversal_exact:
  assumes "loop f = Inr f'" and "queue f = [s0]" and "discovered f = [freeze s0]"
    and "transitions f = 0" and "inv s0"
  shows "finite (edges\<^sup>* `` {s0})"
    and "length (discovered f') = card (edges\<^sup>* `` {s0})"
    and "transitions f' = (\<Sum>s \<in> edges\<^sup>* `` {s0}. length (succs s))"
    and "\<And>s. (s0, s) \<in> edges\<^sup>* \<Longrightarrow> ok s \<and> inv s"
proof -
  have "covered s0 {} f" using assms by (simp add: covered_def)
  from loop_covers[OF assms(1) this] obtain proc where
    cov: "covered s0 proc f'" and q: "queue f' = []" by blast
  note eq = covered_closed[OF cov q]
  show "finite (edges\<^sup>* `` {s0})" using cov by (simp add: eq[symmetric] covered_def)
  have "inj_on freeze proc" unfolding inj_on_def using freeze_inj cov by (auto simp: covered_def)
  moreover have "length (discovered f') = card (freeze ` proc)"
    using cov q distinct_card[of "discovered f'"] by (simp add: covered_def)
  ultimately show "length (discovered f') = card (edges\<^sup>* `` {s0})"
    by (simp add: eq[symmetric] card_image)
  show "transitions f' = (\<Sum>s \<in> edges\<^sup>* `` {s0}. length (succs s))"
    using cov by (simp add: eq[symmetric] covered_def)
  show "ok s \<and> inv s" if "(s0, s) \<in> edges\<^sup>*" for s
  proof -
    have "s \<in> proc" using that eq by auto
    with cov show ?thesis by (auto simp: covered_def)
  qed
qed

end

end
