(* ===== verification/Domain_Atomic.thy ===== *)
theory Domain_Atomic
  imports Domain_Explore
begin

text \<open>
  The finite abstraction that the explorer of \<^verbatim>\<open>domain_v2_model.py\<close> decides: its
  transition relation \<open>model_step\<close> and its reachable states, without frontiers and budgets.
  The interpretation of \<open>traversal\<close> on the code's work loop then says that a successful
  run has visited exactly the reachable states, that its two numbers are the size of that state
  space and the number of its edges, and that bounds and invariants hold everywhere.
\<close>

section \<open>Shape of the explored states\<close>

definition tuple_keys :: "domain_spec \<Rightarrow> string list" where
  "tuple_keys spec = (if lock_mode spec then [''__pc'', ''__pending''] else []) @
     (if has_results spec then [''callResult''] else [])"

definition state_keys :: "domain_spec \<Rightarrow> string list" where
  "state_keys spec = var_names spec @ tuple_keys spec"

definition well_shaped :: "domain_spec \<Rightarrow> mstate \<Rightarrow> bool" where
  "well_shaped spec s \<longleftrightarrow>
     wf_spec spec \<and> map fst s = state_keys spec \<and> distinct (state_keys spec) \<and>
     typed_state (field_types spec) s \<and>
     (\<forall>k \<in> set (tuple_keys spec). \<exists>xs. map_of s k = Some (VTuple xs) \<and> length xs = actors spec)"

lemma field_types_dom: "field_types spec n = Some t \<Longrightarrow> n \<in> set (var_names spec)"
  unfolding field_types_def by (drule map_of_SomeD) auto

lemma field_types_var:
  assumes "distinct (var_names spec)" and "v \<in> set (state_variables spec)"
  shows "field_types spec (var_name v) = Some (var_type v)"
proof -
  let ?al = "map (\<lambda>v. (var_name v, var_type v)) (state_variables spec)"
  have "distinct (map fst ?al)" using assms(1) by (simp add: comp_def)
  moreover have "(var_name v, var_type v) \<in> set ?al" using assms(2) by auto
  ultimately show ?thesis unfolding field_types_def by (rule map_of_is_SomeI)
qed

lemma well_shaped_keys: "well_shaped spec s \<Longrightarrow> dom (map_of s) = set (state_keys spec)"
  by (auto simp: well_shaped_def dom_map_of_conv_image_fst simp flip: set_map)

lemma well_shaped_update_field:
  assumes "well_shaped spec s" and "field_types spec n = Some t" and "has_type v t"
  shows "well_shaped spec (AList.update n v s)"
proof -
  have n: "n \<in> set (var_names spec)" using assms(2) by (rule field_types_dom)
  then have "n \<in> set (map fst s)" using assms(1) by (simp add: well_shaped_def state_keys_def)
  then have "map fst (AList.update n v s) = map fst s" by (rule alist_update_keys)
  moreover have "n \<notin> set (tuple_keys spec)"
    using assms(1) n by (auto simp: well_shaped_def state_keys_def)
  ultimately show ?thesis using assms
    by (auto simp: well_shaped_def typed_state_def)
qed

lemma well_shaped_update_tuple:
  assumes "well_shaped spec s" and "k \<in> set (tuple_keys spec)" and "length xs = actors spec"
  shows "well_shaped spec (AList.update k (VTuple xs) s)"
proof -
  have "k \<in> set (map fst s)" using assms by (simp add: well_shaped_def state_keys_def)
  then have "map fst (AList.update k (VTuple xs) s) = map fst s" by (rule alist_update_keys)
  moreover have "k \<notin> set (var_names spec)"
    using assms by (auto simp: well_shaped_def state_keys_def)
  moreover from this have "field_types spec k = None" using field_types_dom[of spec k] by fastforce
  ultimately show ?thesis using assms by (auto simp: well_shaped_def typed_state_def)
qed

lemma set_tupleD:
  assumes "set_tuple src k i x post = Inr t"
  shows "\<exists>xs. map_of src k = Some (VTuple xs) \<and> i < length xs \<and>
    t = AList.update k (VTuple (xs[i := x])) post"
  using assms
  by (auto simp: set_tuple_def get_tuple_def and_then_Inr_iff split: option.splits val.splits if_splits)

lemma well_shaped_set_tuple:
  assumes "well_shaped spec src" and "well_shaped spec post" and "k \<in> set (tuple_keys spec)"
    and "set_tuple src k i x post = Inr t"
  shows "well_shaped spec t"
proof -
  from set_tupleD[OF assms(4)] obtain xs where
    xs: "map_of src k = Some (VTuple xs)" "t = AList.update k (VTuple (xs[i := x])) post" by blast
  moreover have "length xs = actors spec" using assms(1,3) xs(1) by (auto simp: well_shaped_def)
  ultimately show ?thesis using well_shaped_update_tuple[OF assms(2,3)] by simp
qed

lemma well_shaped_apply_effects:
  assumes "well_shaped spec s" and "p \<in> set (operations spec)" and "apply_effects p s = Inr t"
  shows "well_shaped spec t"
proof -
  have wf: "wf_operation spec p" and ty: "typed_state (field_types spec) s"
    using assms(1,2) by (auto simp: well_shaped_def wf_spec_def)
  then have dist: "distinct (map effect_target (effects p))"
    and sub: "set (map effect_target (effects p)) \<subseteq> set (var_names spec)"
    by (auto simp: wf_operation_def)
  have "map fst t = map fst s"
    by (rule apply_effects_keys[OF assms(3) dist]) (use sub assms(1) in \<open>auto simp: well_shaped_def state_keys_def\<close>)
  moreover have "typed_state (field_types spec) t"
    using apply_effects_typed[OF wf ty] assms(3) by auto
  moreover have "map_of t k = map_of s k" if "k \<in> set (tuple_keys spec)" for k
    by (rule apply_effects_frame[OF assms(3) dist])
       (use that sub assms(1) in \<open>auto simp: well_shaped_def state_keys_def\<close>)
  ultimately show ?thesis using assms(1) by (simp add: well_shaped_def)
qed

lemma freeze_inj_shaped:
  assumes "well_shaped spec s" and "well_shaped spec t" and "freeze s = freeze t"
  shows "s = t"
proof (rule alist_eq_iff)
  show keys: "map fst s = map fst t" and dist: "distinct (map fst s)"
    using assms by (auto simp: well_shaped_def)
  have "set s = set t" using assms(3) by (metis freeze_def set_sort)
  with keys dist show "map_of s = map_of t" by (metis map_of_inject_set)
qed

section \<open>The transition relation of the finite abstraction\<close>

inductive model_step :: "domain_spec \<Rightarrow> mstate \<Rightarrow> mstate \<Rightarrow> bool" where
  success: "\<lbrakk>\<not> lock_mode spec; p \<in> set (operations spec); guards_hold p s = Inr True;
     apply_effects p s = Inr d; actor \<in> set (success_actors spec p);
     success_post spec s d actor = Inr t\<rbrakk> \<Longrightarrow> model_step spec s t"
| failure: "\<lbrakk>\<not> lock_mode spec; p \<in> set (operations spec); guards_hold p s = Inr False;
     failure_semantics p = False_and_stutter; a < actors spec;
     set_tuple s ''callResult'' a ''false'' s = Inr t\<rbrakk> \<Longrightarrow> model_step spec s t"
| locked: "\<lbrakk>lock_mode spec; concurrency spec = Some m; actor_lock_values m = Some owners;
     unlocked_value m = Some unlocked; a < actors spec;
     t \<in> set (actor_successors spec m unlocked owners s a)\<rbrakk> \<Longrightarrow> model_step spec s t"

inductive reachable :: "domain_spec \<Rightarrow> mstate \<Rightarrow> bool" for spec where
  init: "reachable spec (initial_state spec)"
| step: "reachable spec s \<Longrightarrow> model_step spec s t \<Longrightarrow> reachable spec t"

lemma operation_successors_iff:
  "t \<in> set (operation_successors spec s p) \<longleftrightarrow>
     (\<exists>d actor. guards_hold p s = Inr True \<and> apply_effects p s = Inr d \<and>
        actor \<in> set (success_actors spec p) \<and> success_post spec s d actor = Inr t) \<or>
     (\<exists>a < actors spec. guards_hold p s = Inr False \<and> failure_semantics p = False_and_stutter \<and>
        set_tuple s ''callResult'' a ''false'' s = Inr t)"
proof (cases "guards_hold p s")
  case (Inr b)
  then show ?thesis
    by (cases b; cases "apply_effects p s")
       (auto simp: operation_successors_def success_list_def failure_list_def)
qed (simp add: operation_successors_def)

lemma successors_iff: "t \<in> set (successors spec s) \<longleftrightarrow> model_step spec s t"
proof
  assume t: "t \<in> set (successors spec s)"
  show "model_step spec s t"
  proof (cases "lock_mode spec")
    case True
    then obtain m where m: "concurrency spec = Some m" by (auto simp: lock_mode_def split: option.splits)
    with t True obtain owners where o: "actor_lock_values m = Some owners"
      by (cases "actor_lock_values m") (auto simp: successors_def)
    with t True m obtain unlocked where u: "unlocked_value m = Some unlocked"
      by (cases "unlocked_value m") (auto simp: successors_def)
    with t True m o obtain a where "a < actors spec" "t \<in> set (actor_successors spec m unlocked owners s a)"
      by (auto simp: successors_def)
    with True m o u show ?thesis by (blast intro: model_step.locked)
  next
    case False
    with t obtain p where "p \<in> set (operations spec)" "t \<in> set (operation_successors spec s p)"
      by (auto simp: successors_def)
    with False show ?thesis
      unfolding operation_successors_iff by (blast intro: model_step.success model_step.failure)
  qed
next
  assume "model_step spec s t"
  then show "t \<in> set (successors spec s)"
  proof cases
    case (success p d actor)
    then have "t \<in> set (operation_successors spec s p)" unfolding operation_successors_iff by blast
    with success show ?thesis by (auto simp: successors_def)
  next
    case (failure p a)
    then have "t \<in> set (operation_successors spec s p)" unfolding operation_successors_iff by blast
    with failure show ?thesis by (auto simp: successors_def)
  next
    case (locked m owners unlocked a)
    then show ?thesis by (auto simp: successors_def)
  qed
qed

lemma lock_var_type:
  assumes "wf_spec spec" and "concurrency spec = Some m" and "lock_mode spec"
  shows "field_types spec (lock_variable m) = Some Int_ty"
proof -
  from assms obtain b i ts where
    v: "IntStateVariable (lock_variable m) b i ts \<in> set (state_variables spec)"
    by (fastforce simp: wf_spec_def wf_lock_def lock_mode_def)
  have "distinct (var_names spec)" using assms(1) by (simp add: wf_spec_def)
  from field_types_var[OF this v] show ?thesis by simp
qed

lemma find_operation_in: "find_operation spec n = Inr p \<Longrightarrow> p \<in> set (operations spec) \<and> op_name p = n"
  by (auto simp: find_operation_def find_Some_iff split: option.splits)

lemma actor_successorsD:
  assumes "t \<in> set (actor_successors spec m u os s a)"
  shows "\<exists>pc pending. tuple_at s ''__pc'' a = Inr pc \<and> tuple_at s ''__pending'' a = Inr pending \<and>
    (pc = ''IDLE'' \<and> t \<in> set (invoke_list spec s a) \<or>
     pc = ''INVOKED'' \<and> t \<in> set (acquire_list spec m u os s a pending) \<or>
     pc = ''ACQUIRED'' \<and> t \<in> set (commit_list spec m u s a pending) \<or>
     pc = ''LINEARIZED'' \<and> t \<in> set (release_list m u s a) \<or>
     pc = ''RELEASED'' \<and> t \<in> set (respond_list s a))"
proof (cases "tuple_at s ''__pc'' a"; cases "tuple_at s ''__pending'' a")
  fix pc pending assume "tuple_at s ''__pc'' a = Inr pc" "tuple_at s ''__pending'' a = Inr pending"
  with assms show ?thesis
    by (simp add: actor_successors_def split del: if_split) (simp split: if_split_asm)
qed (use assms in \<open>simp_all add: actor_successors_def\<close>)

lemma actor_successors_shaped:
  assumes ws: "well_shaped spec s" and m: "concurrency spec = Some m" and lm: "lock_mode spec"
    and t: "t \<in> set (actor_successors spec m u os s a)"
  shows "well_shaped spec t"
proof -
  have keys: "''__pc'' \<in> set (tuple_keys spec)" "''__pending'' \<in> set (tuple_keys spec)"
    using lm by (auto simp: tuple_keys_def)
  have lockty: "field_types spec (lock_variable m) = Some Int_ty"
    by (rule lock_var_type[OF _ m lm]) (use ws in \<open>simp add: well_shaped_def\<close>)
  have lock: "well_shaped spec (AList.update (lock_variable m) (VInt i) s)" for i
    by (rule well_shaped_update_field[OF ws lockty]) simp
  have pc: "well_shaped spec post \<Longrightarrow> set_tuple s ''__pc'' a x post = Inr t' \<Longrightarrow> well_shaped spec t'"
    for post x t' using well_shaped_set_tuple[OF ws _ keys(1)] by blast
  have pend2: "well_shaped spec post \<Longrightarrow> set_tuple s ''__pending'' a x post = Inr t' \<Longrightarrow> well_shaped spec t'"
    for post x t' using well_shaped_set_tuple[OF ws _ keys(2)] by blast
  have eff: "find_operation spec n = Inr p \<Longrightarrow> apply_effects p s = Inr post \<Longrightarrow> well_shaped spec post"
    for n p post using well_shaped_apply_effects[OF ws] find_operation_in by blast
  have owner: "Inr v = owner_value os a \<Longrightarrow> \<exists>i. v = VInt i" for v
    by (auto simp: owner_value_def split: if_splits)
  have invoke: "well_shaped spec t" if "t \<in> set (invoke_list spec s a)" for t
    using that by (auto simp: invoke_list_def and_then_Inr_iff intro: pend2 pc[OF ws])
  have respond: "well_shaped spec t" if "t \<in> set (respond_list s a)" for t
    using that by (auto simp: respond_list_def and_then_Inr_iff intro: pend2 pc[OF ws])
  have release: "well_shaped spec t" if "t \<in> set (release_list m u s a)" for t
    using that pc[OF lock] by (auto simp: release_list_def)
  have acquire: "well_shaped spec t" if "t \<in> set (acquire_list spec m u os s a n)" for t n
    using that pc[OF lock] by (auto simp: acquire_list_def split: sum.splits if_splits dest!: owner)
  have commit: "well_shaped spec t" if "t \<in> set (commit_list spec m u s a n)" for t n
  proof (cases "find_operation spec n")
    case (Inr p)
    note p = this
    show ?thesis
    proof (cases "guards_hold p s")
      case (Inr b)
      with that p show ?thesis
        by (cases b; cases "apply_effects p s")
           (auto simp: commit_list_def intro: pc[OF lock] pc[OF eff[OF p]])
    qed (use that p in \<open>simp add: commit_list_def\<close>)
  qed (use that in \<open>simp add: commit_list_def\<close>)
  from actor_successorsD[OF t] invoke respond release acquire commit show ?thesis by blast
qed

lemma model_step_shaped:
  assumes "model_step spec s t" and "well_shaped spec s"
  shows "well_shaped spec t"
  using assms
proof cases
  case (success p d actor)
  have d: "well_shaped spec d" using well_shaped_apply_effects success assms(2) by blast
  show ?thesis
  proof (cases "actor = None \<or> \<not> has_results spec")
    case True
    with success d show ?thesis by (auto simp: success_post_def split: option.splits)
  next
    case False
    then obtain a where "set_tuple s ''callResult'' a ''true'' d = Inr t"
      using success by (auto simp: success_post_def)
    then show ?thesis using well_shaped_set_tuple[OF assms(2) d] False by (auto simp: tuple_keys_def)
  qed
next
  case (failure p a)
  then have "''callResult'' \<in> set (tuple_keys spec)" by (auto simp: tuple_keys_def has_results_def)
  with failure show ?thesis using well_shaped_set_tuple[OF assms(2,2)] by blast
next
  case (locked m owners unlocked a)
  then show ?thesis using actor_successors_shaped assms(2) by blast
qed

interpretation explorer: traversal "expand_state spec" "explore spec" "successors spec"
  "expansion_ok spec" "well_shaped spec" for spec
proof
  show "appends (expand_state spec s) (successors spec s) (expansion_ok spec s)" for s
    by (rule expand_state_appends)
  show "explore spec f = (case queue f of [] \<Rightarrow> Inr f
      | s # q \<Rightarrow> and_then (expand_state spec s (f\<lparr>queue := q\<rparr>)) (explore spec))" for f
    by (rule explore.simps)
  show "s = t" if "well_shaped spec s" "well_shaped spec t" "freeze s = freeze t" for s t
    using that by (rule freeze_inj_shaped)
  show "well_shaped spec t" if "well_shaped spec s" "t \<in> set (successors spec s)" for s t
    using that model_step_shaped by (simp add: successors_iff)
qed

section \<open>The initial state\<close>

lemma alist_update_fresh: "k \<notin> set (map fst d) \<Longrightarrow> AList.update k v d = d @ [(k, v)]"
  by (induction d) auto

lemma initial_state_append:
  assumes "distinct (state_keys spec)"
  shows "initial_state spec = initial_fields spec @
    (if lock_mode spec then [(''__pc'', VTuple (replicate (actors spec) ''IDLE'')),
       (''__pending'', VTuple (replicate (actors spec) ''none''))] else []) @
    (if has_results spec then [(''callResult'', VTuple (replicate (actors spec) ''none''))] else [])"
proof -
  have keys: "map fst (initial_fields spec) = var_names spec"
    by (simp add: initial_fields_def comp_def)
  have fresh: "k \<notin> set (map fst (initial_fields spec))" if "k \<in> set (tuple_keys spec)" for k
    using that assms unfolding keys by (auto simp: state_keys_def)
  show ?thesis
  proof (cases "lock_mode spec"; cases "has_results spec")
    assume l: "lock_mode spec" and r: "has_results spec"
    then have "''__pc'' \<in> set (tuple_keys spec)" "''__pending'' \<in> set (tuple_keys spec)"
      "''callResult'' \<in> set (tuple_keys spec)" by (simp_all add: tuple_keys_def)
    from this[THEN fresh] l r show ?thesis by (simp add: initial_state_def alist_update_fresh)
  next
    assume l: "lock_mode spec" and r: "\<not> has_results spec"
    then have "''__pc'' \<in> set (tuple_keys spec)" "''__pending'' \<in> set (tuple_keys spec)"
      by (simp_all add: tuple_keys_def)
    from this[THEN fresh] l r show ?thesis by (simp add: initial_state_def alist_update_fresh)
  next
    assume l: "\<not> lock_mode spec" and r: "has_results spec"
    then have "''callResult'' \<in> set (tuple_keys spec)" by (simp add: tuple_keys_def)
    from this[THEN fresh] l r show ?thesis by (simp add: initial_state_def alist_update_fresh)
  qed (simp add: initial_state_def)
qed

lemma initial_fields_typed:
  assumes "distinct (var_names spec)" and "field_types spec n = Some t"
  shows "\<exists>v. map_of (initial_fields spec) n = Some v \<and> has_type v t"
proof -
  have "(n, t) \<in> set (map (\<lambda>v. (var_name v, var_type v)) (state_variables spec))"
    using assms(2) unfolding field_types_def by (rule map_of_SomeD)
  then obtain v where v: "v \<in> set (state_variables spec)" "n = var_name v" "t = var_type v"
    by auto
  let ?x = "case v of IntStateVariable _ _ i _ \<Rightarrow> VInt i | BoolStateVariable _ b \<Rightarrow> VBool b"
  have "distinct (map fst (initial_fields spec))"
    using assms(1) by (simp add: initial_fields_def comp_def)
  then have "map_of (initial_fields spec) n = Some ?x"
    by (rule map_of_is_SomeI) (use v in \<open>auto simp: initial_fields_def\<close>)
  moreover have "has_type ?x t" using v(3) by (cases v) auto
  ultimately show ?thesis by blast
qed

lemma initial_state_shaped:
  assumes "wf_spec spec" and "distinct (state_keys spec)"
  shows "well_shaped spec (initial_state spec)"
proof -
  have dist: "distinct (var_names spec)" using assms(1) by (simp add: wf_spec_def)
  have keys: "map fst (initial_fields spec) = var_names spec"
    by (simp add: initial_fields_def comp_def)
  have none: "map_of (initial_fields spec) k = None" if "k \<in> set (tuple_keys spec)" for k
    using that assms(2) keys by (auto simp: map_of_eq_None_iff state_keys_def simp flip: set_map)
  let ?rest = "(if lock_mode spec then [(''__pc'', VTuple (replicate (actors spec) ''IDLE'')),
       (''__pending'', VTuple (replicate (actors spec) ''none''))] else []) @
    (if has_results spec then [(''callResult'', VTuple (replicate (actors spec) ''none''))] else [])"
  have split: "map_of (initial_state spec) k = (case map_of (initial_fields spec) k of
      None \<Rightarrow> map_of ?rest k | Some v \<Rightarrow> Some v)" for k
    by (simp only: initial_state_append[OF assms(2)] map_of_append map_add_def)
  have tuples: "\<exists>xs. map_of (initial_state spec) k = Some (VTuple xs) \<and> length xs = actors spec"
    if "k \<in> set (tuple_keys spec)" for k
  proof -
    have "\<exists>xs. map_of ?rest k = Some (VTuple xs) \<and> length xs = actors spec"
      using that by (auto simp: tuple_keys_def split: if_splits)
    then show ?thesis by (simp only: split none[OF that]) simp
  qed
  have "typed_state (field_types spec) (initial_state spec)"
    unfolding typed_state_def
  proof (intro allI impI)
    fix n t assume n: "field_types spec n = Some t"
    from initial_fields_typed[OF dist n] obtain v where
      v: "map_of (initial_fields spec) n = Some v" "has_type v t" by blast
    then show "\<exists>v. map_of (initial_state spec) n = Some v \<and> has_type v t"
      by (simp only: split) simp
  qed
  moreover have "map fst (initial_state spec) = state_keys spec"
    using keys by (auto simp: initial_state_append[OF assms(2)] state_keys_def tuple_keys_def)
  ultimately show ?thesis using assms tuples by (simp add: well_shaped_def)
qed

text \<open>A declared variable called like a tuple of the explorer fails the initial bounds check.\<close>

lemma checked_init_keys:
  assumes "wf_spec spec" and "checked spec l (initial_state spec) = Inr u"
  shows "distinct (state_keys spec)"
proof -
  have dist: "distinct (var_names spec)" and res: "''callResult'' \<notin> set (var_names spec)"
    using assms(1) by (auto simp: wf_spec_def reserved_names_def)
  have no: False if "v \<in> set (state_variables spec)" and
      tup: "map_of (initial_state spec) (var_name v) = Some (VTuple xs)" for v xs
  proof -
    have "in_bounds v (VTuple xs)"
      using assms(2) that by (force simp: checked_def check_bounds_def and_then_Inr_iff)
    then show False by (cases v) auto
  qed
  have "k \<notin> set (var_names spec)" if "lock_mode spec" "k \<in> {''__pc'', ''__pending''}" for k
  proof
    assume "k \<in> set (var_names spec)"
    then obtain v where v: "v \<in> set (state_variables spec)" "k = var_name v" by auto
    have "\<exists>xs. map_of (initial_state spec) k = Some (VTuple xs)"
      using that by (auto simp: initial_state_def Let_def)
    with no[OF v(1)] v(2) show False by auto
  qed
  with dist res show ?thesis by (auto simp: state_keys_def tuple_keys_def)
qed

section \<open>What the explorer decides\<close>

lemma edges_reachable:
  "(initial_state spec, s) \<in> (explorer.edges spec)\<^sup>* \<longleftrightarrow> reachable spec s"
proof
  assume "(initial_state spec, s) \<in> (explorer.edges spec)\<^sup>*"
  then show "reachable spec s"
    by (induction rule: rtrancl_induct)
       (auto simp: explorer.edges_def successors_iff intro: reachable.intros)
next
  assume "reachable spec s"
  then show "(initial_state spec, s) \<in> (explorer.edges spec)\<^sup>*"
    by (induction rule: reachable.induct)
       (auto simp: explorer.edges_def successors_iff intro: rtrancl_into_rtrancl)
qed

lemma validate_runD:
  assumes "validate_transitions_and_invariants spec ms mt mw = Inr (n, e)"
  shows "\<exists>f f'. checked spec ''Init'' (initial_state spec) = Inr () \<and> explore spec f = Inr f' \<and>
    queue f = [initial_state spec] \<and> discovered f = [freeze (initial_state spec)] \<and>
    transitions f = 0 \<and> 0 < ms \<and> 0 < mt \<and> max_states f = nat ms \<and> max_transitions f = nat mt \<and>
    n = length (discovered f') \<and> e = transitions f' \<and> 0 < e"
proof -
  from assms obtain f0 f f' where
    f0: "new_frontier ms mt mw = Inr f0" and
    chk: "checked spec ''Init'' (initial_state spec) = Inr ()" and
    f: "discover (initial_state spec) f0 = Inr f" and f': "explore spec f = Inr f'" and
    ne: "n = length (discovered f')" "e = transitions f'" "0 < e"
    unfolding validate_transitions_and_invariants_def Let_def
    by (auto simp: and_then_Inr_iff split: if_splits)
  from f0 have "0 < ms" "0 < mt" "f0 = \<lparr>max_states = nat ms, max_transitions = nat mt,
      max_work_items = nat mw, queue = [], discovered = [], transitions = 0, work_items = 0\<rparr>"
    by (auto simp: new_frontier_def and_then_Inr_iff)
  with f f' chk ne show ?thesis
    by (intro exI[of _ f] exI[of _ f']) (auto simp: discover_def split: if_splits)
qed

lemma explored_states:
  assumes "wf_spec spec" and "validate_transitions_and_invariants spec ms mt mw = Inr (n, e)"
  shows "finite {s. reachable spec s}" and "n = card {s. reachable spec s}"
    and "e = (\<Sum>s | reachable spec s. length (successors spec s))"
    and "0 < e" and "int n \<le> ms" and "int e \<le> mt"
    and "\<And>s. reachable spec s \<Longrightarrow> expansion_ok spec s \<and> well_shaped spec s"
    and "checked spec ''Init'' (initial_state spec) = Inr ()"
proof -
  from validate_runD[OF assms(2)] obtain f f' where
    chk: "checked spec ''Init'' (initial_state spec) = Inr ()" and run: "explore spec f = Inr f'" and
    f: "queue f = [initial_state spec]" "discovered f = [freeze (initial_state spec)]"
      "transitions f = 0" and
    lim: "0 < ms" "0 < mt" "max_states f = nat ms" "max_transitions f = nat mt" and
    ne: "n = length (discovered f')" "e = transitions f'" "0 < e"
    by blast
  have ws: "well_shaped spec (initial_state spec)"
    using initial_state_shaped[OF assms(1) checked_init_keys[OF assms(1) chk]] .
  have reach: "(explorer.edges spec)\<^sup>* `` {initial_state spec} = {s. reachable spec s}"
    by (auto simp: edges_reachable)
  note exact = explorer.traversal_exact[OF run f ws, unfolded reach edges_reachable]
  show "finite {s. reachable spec s}" "n = card {s. reachable spec s}"
    "e = (\<Sum>s | reachable spec s. length (successors spec s))"
    using exact ne by auto
  show "0 < e" "checked spec ''Init'' (initial_state spec) = Inr ()" by fact+
  show "int n \<le> ms" "int e \<le> mt"
    using explorer.loop_limits[OF run] f lim ne by auto
  show "expansion_ok spec s \<and> well_shaped spec s" if "reachable spec s" for s
    using exact(4) that by blast
qed

section \<open>Bounds and invariants in every reachable state\<close>

lemma passed_iff:
  "passed spec s \<longleftrightarrow>
     (\<forall>v \<in> set (state_variables spec). \<exists>x. map_of s (var_name v) = Some x \<and> in_bounds v x) \<and>
     (\<forall>i \<in> set (tlc_invariants spec). \<exists>x. evaluate_expression (inv_expression i) s = Inr x \<and> truthy x)"
  by (auto simp: passed_def checked_def check_bounds_def check_invariants_def and_then_Inr_iff
      split: option.splits)

lemma passed_checked: "checked spec l s = Inr u \<Longrightarrow> passed spec s"
  by (auto simp: passed_def)

lemma passed_cong:
  assumes "wf_spec spec" and "passed spec s"
    and "\<And>n. n \<in> set (var_names spec) \<Longrightarrow> map_of s n = map_of t n"
  shows "passed spec t"
proof -
  have "evaluate_expression (inv_expression i) s = evaluate_expression (inv_expression i) t"
    if "i \<in> set (tlc_invariants spec)" for i
  proof (rule evaluate_cong)
    have "referenced_fields (inv_expression i) \<subseteq> set (var_names spec)"
      using that assms(1) unfolding wf_spec_def wf_invariant_def by blast
    then show "n \<in> referenced_fields (inv_expression i) \<Longrightarrow> map_of s n = map_of t n" for n
      using assms(3) by blast
  qed
  with assms(2,3) show ?thesis unfolding passed_iff by (metis (no_types, lifting) image_eqI list.set_map)
qed

lemma set_tuple_fields:
  assumes "set_tuple src k i x post = Inr t" and "n \<noteq> k"
  shows "map_of t n = map_of post n"
  using set_tupleD[OF assms(1)] assms(2) by auto

lemma tuple_key_not_var:
  "well_shaped spec s \<Longrightarrow> k \<in> set (tuple_keys spec) \<Longrightarrow> n \<in> set (var_names spec) \<Longrightarrow> n \<noteq> k"
  by (auto simp: well_shaped_def state_keys_def)

lemma model_step_passed:
  assumes step: "model_step spec s t" and ws: "well_shaped spec s"
    and ok: "expansion_ok spec s" and s: "passed spec s"
  shows "passed spec t"
  using step
proof cases
  case (success p d actor)
  then have "t \<in> set (success_list spec s p d)" by (auto simp: success_list_def)
  with success ok have "checked spec (op_name p) t = Inr ()"
    by (auto simp: expansion_ok_def operation_ok_def)
  then show ?thesis by (rule passed_checked)
next
  case (failure p a)
  then have "''callResult'' \<in> set (tuple_keys spec)" by (auto simp: tuple_keys_def has_results_def)
  from tuple_key_not_var[OF ws this] set_tuple_fields[OF failure(6)]
  show ?thesis by (intro passed_cong[OF _ s]) (use ws in \<open>auto simp: well_shaped_def\<close>)
next
  case (locked m owners unlocked a)
  have keys: "''__pc'' \<in> set (tuple_keys spec)" "''__pending'' \<in> set (tuple_keys spec)"
    using locked(1) by (auto simp: tuple_keys_def)
  note novar = tuple_key_not_var[OF ws keys(1)] tuple_key_not_var[OF ws keys(2)]
  have wf: "wf_spec spec" using ws by (simp add: well_shaped_def)
  have actor: "actor_ok spec m unlocked owners s a"
    using ok locked by (simp add: expansion_ok_def)
  from actor_successorsD[OF locked(6)] obtain pc where
    pc: "tuple_at s ''__pc'' a = Inr pc" and
    cases: "t \<in> set (invoke_list spec s a) \<or> t \<in> set (respond_list s a)
      \<or> pc \<in> {''INVOKED'', ''ACQUIRED'', ''LINEARIZED''}"
    by blast
  show ?thesis
  proof (cases "pc \<in> {''INVOKED'', ''ACQUIRED'', ''LINEARIZED''}")
    case True
    with actor pc locked(6) show ?thesis unfolding actor_ok_def by blast
  next
    case False
    with cases obtain x y post where
      "set_tuple s ''__pc'' a x s = Inr post" "set_tuple s ''__pending'' a y post = Inr t"
      by (auto simp: invoke_list_def respond_list_def and_then_Inr_iff)
    from set_tuple_fields[OF this(1)] set_tuple_fields[OF this(2)] novar
    show ?thesis by (intro passed_cong[OF wf s]) metis
  qed
qed

lemma reachable_passed:
  assumes "wf_spec spec" and "validate_transitions_and_invariants spec ms mt mw = Inr (n, e)"
    and "reachable spec s"
  shows "passed spec s"
  using assms(3)
proof induction
  case init
  then show ?case using explored_states(8)[OF assms(1,2)] by (rule passed_checked)
next
  case (step s t)
  then show ?case using explored_states(7)[OF assms(1,2)] model_step_passed by blast
qed

section \<open>Properties of the exploration\<close>

text \<open>C15: a successful exploration is exact: the accepted domain has finitely many reachable
  states, the two numbers returned are the number of reachable states and the number of edges
  out of them (parallel edges and self-loops counted), at least one edge exists, and both stay
  within the limits given.\<close>

theorem exploration_exact:
  assumes "validate_spec spec = Inr spec'"
    and "validate_transitions_and_invariants spec ms mt mw = Inr (n, e)"
  shows "finite {s. reachable spec s} \<and> n = card {s. reachable spec s} \<and>
    e = (\<Sum>s | reachable spec s. length (successors spec s)) \<and>
    0 < e \<and> int n \<le> ms \<and> int e \<le> mt"
  using explored_states(1-6)[OF _ assms(2)] validate_spec_wf[OF assms(1)] by blast

lemma exploration_exact_witness:
  "finite {s. reachable toggle_spec s} \<and> 31 = card {s. reachable toggle_spec s} \<and>
    77 = (\<Sum>s | reachable toggle_spec s. length (successors toggle_spec s)) \<and>
    0 < (77::nat) \<and> int 31 \<le> 100 \<and> int 77 \<le> 100"
  by (rule exploration_exact[where spec' = toggle_spec and mw = 1000]) code_simp+

text \<open>C1: bounded model checking is sound: when the exploration of an accepted domain succeeds,
  every reachable state of the finite abstraction keeps every variable within its declared
  bounds and satisfies every declared invariant.\<close>

theorem exploration_sound:
  assumes "validate_spec spec = Inr spec'"
    and "validate_transitions_and_invariants spec ms mt mw = Inr (n, e)"
    and "reachable spec s"
  shows "(\<forall>v \<in> set (state_variables spec). \<exists>x. map_of s (var_name v) = Some x \<and> in_bounds v x) \<and>
    (\<forall>i \<in> set (tlc_invariants spec). evaluate_expression (inv_expression i) s = Inr (VBool True))"
proof -
  have wf: "wf_spec spec" using validate_spec_wf[OF assms(1)] by blast
  have passed: "passed spec s" by (rule reachable_passed[OF wf assms(2,3)])
  have "typed_state (field_types spec) s"
    using explored_states(7)[OF wf assms(2,3)] by (simp add: well_shaped_def)
  from evaluate_typed[OF _ this] have bool:
    "\<exists>b. evaluate_expression (inv_expression i) s = Inr (VBool b)" if "i \<in> set (tlc_invariants spec)" for i
    using wf that by (fastforce simp: wf_spec_def wf_invariant_def)
  from passed bool show ?thesis by (fastforce simp: passed_iff)
qed

lemma exploration_sound_witness:
  "\<exists>x. map_of (initial_state toggle_spec) ''count'' = Some x \<and>
    in_bounds (IntStateVariable ''count'' (0, 2) 0 None) x \<and>
    evaluate_expression (inv_expression (hd (tlc_invariants toggle_spec))) (initial_state toggle_spec)
      = Inr (VBool True)"
proof -
  have "validate_spec toggle_spec = Inr toggle_spec" by code_simp
  moreover have "validate_transitions_and_invariants toggle_spec 100 100 1000 = Inr (31, 77)" by code_simp
  ultimately show ?thesis
    using exploration_sound[OF _ _ reachable.init, of toggle_spec] by (force simp: toggle_spec_def)
qed

end
