(* ===== verification/Domain_Lock.thy ===== *)
theory Domain_Lock
  imports Domain_Atomic
begin

text \<open>
  The lock protocol explored by \<^verbatim>\<open>_enqueue_lock_protocol_successors\<close> in
  \<^verbatim>\<open>domain_v2_model.py\<close>: mutual exclusion of the actors between acquisition and
  release, and the refinement that makes the protocol a correct implementation of the reviewed
  domain: forgetting the lock variable and the protocol's tuples, every run of the lock protocol
  is a run of the same domain with atomic operations.
\<close>

section \<open>Mutual exclusion\<close>

definition critical :: "string \<Rightarrow> bool" where
  "critical pc \<longleftrightarrow> pc = ''ACQUIRED'' \<or> pc = ''LINEARIZED''"

lemma critical_simps [simp]:
  "critical ''ACQUIRED''" "critical ''LINEARIZED''" "\<not> critical ''IDLE''"
  "\<not> critical ''INVOKED''" "\<not> critical ''RELEASED''"
  by (simp_all add: critical_def)

definition lock_inv :: "lock_protocol_metadata \<Rightarrow> int \<Rightarrow> int list \<Rightarrow> mstate \<Rightarrow> bool" where
  "lock_inv m unlocked owners s \<longleftrightarrow> (\<exists>pcs held.
     map_of s ''__pc'' = Some (VTuple pcs) \<and> length pcs = length owners \<and>
     map_of s (lock_variable m) = Some (VInt held) \<and>
     (\<forall>a < length pcs. critical (pcs ! a) \<longrightarrow> held = owners ! a) \<and>
     ((\<forall>a < length pcs. \<not> critical (pcs ! a)) \<longrightarrow> held = unlocked))"

lemma lock_invI:
  assumes "map_of s ''__pc'' = Some (VTuple pcs)" and "length pcs = length os"
    and "map_of s (lock_variable m) = Some (VInt held)"
    and "\<And>b. b < length pcs \<Longrightarrow> critical (pcs ! b) \<Longrightarrow> held = os ! b"
    and "(\<And>b. b < length pcs \<Longrightarrow> \<not> critical (pcs ! b)) \<Longrightarrow> held = u"
  shows "lock_inv m u os s"
  unfolding lock_inv_def using assms by blast

lemma lock_invD:
  assumes "lock_inv m u os s" and "map_of s ''__pc'' = Some (VTuple pcs)"
  shows "\<exists>held. length pcs = length os \<and> map_of s (lock_variable m) = Some (VInt held) \<and>
    (\<forall>a < length pcs. critical (pcs ! a) \<longrightarrow> held = os ! a) \<and>
    ((\<forall>a < length pcs. \<not> critical (pcs ! a)) \<longrightarrow> held = u)"
proof -
  from assms(1) obtain pcs' held where
    pcs': "map_of s ''__pc'' = Some (VTuple pcs')" and
    h: "length pcs' = length os" "map_of s (lock_variable m) = Some (VInt held)"
      "\<forall>a < length pcs'. critical (pcs' ! a) \<longrightarrow> held = os ! a"
      "(\<forall>a < length pcs'. \<not> critical (pcs' ! a)) \<longrightarrow> held = u"
    unfolding lock_inv_def by blast
  from pcs' assms(2) have "pcs' = pcs" by simp
  with h show ?thesis by blast
qed

text \<open>The three ways a step of the protocol changes the program counter and the lock.\<close>

lemma lock_inv_keep:
  assumes "lock_inv m u os s" and "map_of s ''__pc'' = Some (VTuple pcs)" and "a < length pcs"
    and "critical x = critical (pcs ! a)"
    and "map_of t ''__pc'' = Some (VTuple (pcs[a := x]))"
    and "map_of t (lock_variable m) = map_of s (lock_variable m)"
  shows "lock_inv m u os t"
proof -
  from lock_invD[OF assms(1,2)] obtain held where
    h: "length pcs = length os" "map_of s (lock_variable m) = Some (VInt held)"
      "\<forall>a < length pcs. critical (pcs ! a) \<longrightarrow> held = os ! a"
      "(\<forall>a < length pcs. \<not> critical (pcs ! a)) \<longrightarrow> held = u"
    by (elim exE conjE) (rule that)
  have crit: "critical (pcs[a := x] ! b) = critical (pcs ! b)" if "b < length pcs" for b
    using assms(4) that by (cases "b = a") auto
  show ?thesis
  proof (rule lock_invI[OF assms(5)])
    show "length (pcs[a := x]) = length os" using h(1) by simp
    show "map_of t (lock_variable m) = Some (VInt held)" using h(2) assms(6) by simp
    show "held = os ! b" if "b < length (pcs[a := x])" "critical (pcs[a := x] ! b)" for b
      using h(3) crit that unfolding length_list_update by blast
    assume "\<And>b. b < length (pcs[a := x]) \<Longrightarrow> \<not> critical (pcs[a := x] ! b)"
    then show "held = u" using h(4) crit unfolding length_list_update by blast
  qed
qed

lemma lock_inv_enter:
  assumes inv: "lock_inv m u os s" and pc: "map_of s ''__pc'' = Some (VTuple pcs)" and a: "a < length pcs"
    and free: "map_of s (lock_variable m) = Some (VInt u)" and u: "u \<notin> set os"
    and t: "map_of t ''__pc'' = Some (VTuple (pcs[a := ''ACQUIRED'']))"
      "map_of t (lock_variable m) = Some (VInt (os ! a))"
  shows "lock_inv m u os t"
proof -
  have none: "\<not> critical (pcs ! b)" if "b < length pcs" for b
  proof
    assume "critical (pcs ! b)"
    then have "u = os ! b" "b < length os" using lock_invD[OF inv pc] free that by auto
    then show False using u by auto
  qed
  have len: "length pcs = length os" using lock_invD[OF inv pc] by blast
  show ?thesis
  proof (rule lock_invI[OF t(1) _ t(2)])
    show "length (pcs[a := ''ACQUIRED'']) = length os" using len by simp
    show "os ! a = os ! b" if "b < length (pcs[a := ''ACQUIRED''])"
        "critical (pcs[a := ''ACQUIRED''] ! b)" for b
      using none[of b] that by (cases "b = a") simp_all
    assume "\<And>b. b < length (pcs[a := ''ACQUIRED'']) \<Longrightarrow> \<not> critical (pcs[a := ''ACQUIRED''] ! b)"
    from this[of a] show "os ! a = u" using a by simp
  qed
qed

lemma lock_inv_leave:
  assumes inv: "lock_inv m u os s" and pc: "map_of s ''__pc'' = Some (VTuple pcs)" and a: "a < length pcs"
    and crit: "critical (pcs ! a)" and dist: "distinct os"
    and t: "map_of t ''__pc'' = Some (VTuple (pcs[a := ''RELEASED'']))"
      "map_of t (lock_variable m) = Some (VInt u)"
  shows "lock_inv m u os t"
proof -
  from lock_invD[OF inv pc] obtain held where
    h: "length pcs = length os" "\<forall>a < length pcs. critical (pcs ! a) \<longrightarrow> held = os ! a"
    by (elim exE conjE) (rule that)
  have none: "\<not> critical (pcs ! b)" if "b < length pcs" "b \<noteq> a" for b
  proof
    assume "critical (pcs ! b)"
    then have "os ! a = os ! b" using h(2) crit a that by auto
    with dist h(1) a that show False by (simp add: nth_eq_iff_index_eq)
  qed
  have "\<not> critical (pcs[a := ''RELEASED''] ! b)" if "b < length pcs" for b
    using none[OF that] that by (cases "b = a") simp_all
  then show ?thesis using lock_invI[OF t(1) _ t(2)] h(1) by simp
qed

lemma set_tuple_lookup:
  assumes "set_tuple src k i x post = Inr t" and "map_of src k = Some (VTuple xs)"
  shows "map_of t k = Some (VTuple (xs[i := x]))"
  using set_tupleD[OF assms(1)] assms(2) by auto

lemma tuple_atD: "tuple_at s k i = Inr x \<Longrightarrow> \<exists>xs. map_of s k = Some (VTuple xs) \<and> i < length xs \<and> xs ! i = x"
  by (auto simp: tuple_at_def get_tuple_def and_then_Inr_iff split: option.splits val.splits if_splits)

lemma actor_step_lock_inv:
  assumes ws: "well_shaped spec s" and m: "concurrency spec = Some m" and lm: "lock_mode spec"
    and lock: "wf_lock spec m u os" and inv: "lock_inv m u os s"
    and t: "t \<in> set (actor_successors spec m u os s a)"
  shows "lock_inv m u os t"
proof -
  have wf: "wf_spec spec" using ws by (simp add: well_shaped_def)
  have "lock_variable m \<in> set (var_names spec)" using wf m by (auto simp: wf_spec_def)
  with lm ws have ne: "lock_variable m \<noteq> ''__pc''" "lock_variable m \<noteq> ''__pending''"
    by (auto simp: well_shaped_def state_keys_def tuple_keys_def)
  have u: "u \<notin> set os" and dist: "distinct os" using lock by (auto simp: wf_lock_def)
  from actor_successorsD[OF t] obtain pc pending where
    pc: "tuple_at s ''__pc'' a = Inr pc" and
    branch: "pc = ''IDLE'' \<and> t \<in> set (invoke_list spec s a) \<or>
     pc = ''INVOKED'' \<and> t \<in> set (acquire_list spec m u os s a pending) \<or>
     pc = ''ACQUIRED'' \<and> t \<in> set (commit_list spec m u s a pending) \<or>
     pc = ''LINEARIZED'' \<and> t \<in> set (release_list m u s a) \<or>
     pc = ''RELEASED'' \<and> t \<in> set (respond_list s a)" by (elim exE conjE) (rule that)
  from tuple_atD[OF pc] obtain pcs where
    pcs: "map_of s ''__pc'' = Some (VTuple pcs)" "a < length pcs" "pcs ! a = pc" by blast
  note keep = lock_inv_keep[OF inv pcs(1,2)] and leave = lock_inv_leave[OF inv pcs(1,2) _ dist]
  have quiet: ?thesis if "critical x = critical pc" "set_tuple s ''__pc'' a x s = Inr post"
      "set_tuple s ''__pending'' a y post = Inr t" for x y post
  proof (rule keep[of x])
    show "critical x = critical (pcs ! a)" using that(1) pcs(3) by simp
    show "map_of t ''__pc'' = Some (VTuple (pcs[a := x]))"
      using set_tuple_lookup[OF that(2) pcs(1)] set_tuple_fields[OF that(3), of "''__pc''"] by simp
    show "map_of t (lock_variable m) = map_of s (lock_variable m)"
      using set_tuple_fields[OF that(2) ne(1)] set_tuple_fields[OF that(3) ne(2)] by simp
  qed
  have released: ?thesis if "critical pc"
      "set_tuple s ''__pc'' a ''RELEASED'' (AList.update (lock_variable m) (VInt u) s) = Inr t"
    by (rule leave)
       (use that ne pcs set_tuple_lookup[OF that(2) pcs(1)] set_tuple_fields[OF that(2)] in auto)
  from branch show ?thesis
  proof (elim disjE conjE)
    assume p: "pc = ''IDLE''" and t: "t \<in> set (invoke_list spec s a)"
    from t obtain y post where st: "set_tuple s ''__pc'' a ''INVOKED'' s = Inr post"
      "set_tuple s ''__pending'' a y post = Inr t"
      by (auto simp: invoke_list_def and_then_Inr_iff)
    show ?thesis by (rule quiet[OF _ st]) (simp add: p)
  next
    assume p: "pc = ''RELEASED''" and t: "t \<in> set (respond_list s a)"
    from t obtain y post where st: "set_tuple s ''__pc'' a ''IDLE'' s = Inr post"
      "set_tuple s ''__pending'' a y post = Inr t"
      by (auto simp: respond_list_def and_then_Inr_iff)
    show ?thesis by (rule quiet[OF _ st]) (simp add: p)
  next
    assume "pc = ''LINEARIZED''" "t \<in> set (release_list m u s a)"
    then show ?thesis by (intro released) (auto simp: release_list_def)
  next
    assume p: "pc = ''INVOKED''" and acq: "t \<in> set (acquire_list spec m u os s a pending)"
    then obtain held owner where
      held: "lookup_val s (lock_variable m) = Inr held" "py_eq held (VInt u)" and
      owner: "owner_value os a = Inr owner" and
      st: "set_tuple s ''__pc'' a ''ACQUIRED'' (AList.update (lock_variable m) owner s) = Inr t"
      by (cases "find_operation spec pending"; cases "lookup_val s (lock_variable m)"; cases "owner_value os a")
         (auto simp: acquire_list_def split: if_splits)
    have "map_of s (lock_variable m) = Some (VInt u)"
      using held lock_invD[OF inv pcs(1)] by (auto simp: lookup_val_def py_eq_def)
    moreover have "owner = VInt (os ! a)" using owner by (auto simp: owner_value_def split: if_splits)
    ultimately show ?thesis
      by (intro lock_inv_enter[OF inv pcs(1,2) _ u])
         (use ne pcs set_tuple_lookup[OF st pcs(1)] set_tuple_fields[OF st] in auto)
  next
    assume p: "pc = ''ACQUIRED''" and com: "t \<in> set (commit_list spec m u s a pending)"
    from com obtain q b where q: "find_operation spec pending = Inr q" and b: "guards_hold q s = Inr b"
      by (cases "find_operation spec pending"; cases "guards_hold (projr (find_operation spec pending)) s")
         (auto simp: commit_list_def)
    show ?thesis
    proof (cases b)
      case False
      with com q b show ?thesis by (intro released) (auto simp: commit_list_def p)
    next
      case True
      with com q b obtain post where post: "apply_effects q s = Inr post"
        "set_tuple s ''__pc'' a ''LINEARIZED'' post = Inr t"
        by (cases "apply_effects q s") (auto simp: commit_list_def)
      have qin: "q \<in> set (operations spec)" using find_operation_in[OF q] by simp
      have "wf_operation spec q" using wf qin by (simp add: wf_spec_def)
      then have dq: "distinct (map effect_target (effects q))"
        and tq: "set (map effect_target (effects q)) = set (frame q)"
        by (auto simp: wf_operation_def)
      have "lock_variable m \<notin> set (map effect_target (effects q))"
        using lock qin unfolding tq by (auto simp: wf_lock_def)
      from apply_effects_frame[OF post(1) dq this]
      show ?thesis
        by (intro keep[of "''LINEARIZED''"])
           (use ne p pcs set_tuple_lookup[OF post(2) pcs(1)] set_tuple_fields[OF post(2)] in auto)
    qed
  qed
qed

lemma lock_init:
  assumes wf: "wf_spec spec" and m: "concurrency spec = Some m" and lm: "lock_mode spec"
    and lock: "wf_lock spec m u os" and keys: "distinct (state_keys spec)"
  shows "lock_inv m u os (initial_state spec)"
proof -
  have hr: "\<not> has_results spec" using lock by (auto simp: wf_lock_def has_results_def)
  have init: "initial_state spec = initial_fields spec @
     [(''__pc'', VTuple (replicate (actors spec) ''IDLE'')),
      (''__pending'', VTuple (replicate (actors spec) ''none''))]"
    using initial_state_append[OF keys] lm hr by simp
  have dist: "distinct (map fst (initial_fields spec))"
    using wf by (simp add: initial_fields_def comp_def wf_spec_def)
  from lock obtain b ts where "IntStateVariable (lock_variable m) b u ts \<in> set (state_variables spec)"
    by (auto simp: wf_lock_def)
  then have "(lock_variable m, VInt u) \<in> set (initial_fields spec)"
    by (force simp: initial_fields_def)
  then have lv: "map_of (initial_fields spec) (lock_variable m) = Some (VInt u)"
    using dist by (rule map_of_is_SomeI[rotated])
  have fk: "map fst (initial_fields spec) = var_names spec"
    by (simp add: initial_fields_def comp_def)
  have "''__pc'' \<notin> set (var_names spec)" using keys lm by (auto simp: state_keys_def tuple_keys_def)
  then have pc: "map_of (initial_fields spec) ''__pc'' = None"
    unfolding fk[symmetric] by (simp add: map_of_eq_None_iff)
  have len: "length os = actors spec" using lock by (simp add: wf_lock_def)
  show ?thesis unfolding lock_inv_def init
    by (rule exI[of _ "replicate (actors spec) ''IDLE''"], rule exI[of _ u])
       (simp add: pc lv len map_add_def)
qed

lemma reachable_shaped:
  assumes "wf_spec spec" and "distinct (state_keys spec)" and "reachable spec s"
  shows "well_shaped spec s"
  using assms(3)
  by induction (use assms(1,2) initial_state_shaped model_step_shaped in blast)+

lemma reachable_lock_inv:
  assumes wf: "wf_spec spec" and m: "concurrency spec = Some m" and lm: "lock_mode spec"
    and lock: "wf_lock spec m u os" and uv: "unlocked_value m = Some u" and ov: "actor_lock_values m = Some os"
    and keys: "distinct (state_keys spec)" and r: "reachable spec s"
  shows "lock_inv m u os s"
  using r
proof induction
  case init
  show ?case by (rule lock_init[OF wf m lm lock keys])
next
  case (step s t)
  have ws: "well_shaped spec s" by (rule reachable_shaped[OF wf keys step.hyps(1)])
  from step.hyps(2) obtain a where "t \<in> set (actor_successors spec m u os s a)"
    by cases (use m lm uv ov in auto)
  with actor_step_lock_inv[OF ws m lm lock step.IH] show ?case by blast
qed

section \<open>The lock protocol refines the atomic domain\<close>

definition kept :: "domain_spec \<Rightarrow> lock_protocol_metadata \<Rightarrow> string \<Rightarrow> bool" where
  "kept spec m k \<longleftrightarrow> k \<in> set (var_names spec) \<and> k \<noteq> lock_variable m"

definition project :: "domain_spec \<Rightarrow> lock_protocol_metadata \<Rightarrow> mstate \<Rightarrow> mstate" where
  "project spec m s = filter (\<lambda>kv. kept spec m (fst kv)) s"

definition sequential_spec :: "domain_spec \<Rightarrow> lock_protocol_metadata \<Rightarrow> domain_spec" where
  "sequential_spec spec m = spec\<lparr>concurrency := None,
     state_variables := filter (\<lambda>v. var_name v \<noteq> lock_variable m) (state_variables spec)\<rparr>"

lemma map_of_filter_keys: "map_of (filter (\<lambda>kv. P (fst kv)) s) n = (if P n then map_of s n else None)"
  by (induction s) auto

lemma map_of_project: "map_of (project spec m s) n = (if kept spec m n then map_of s n else None)"
  by (simp add: project_def map_of_filter_keys)

lemma keys_project: "map fst (project spec m s) = filter (kept spec m) (map fst s)"
  by (simp add: project_def filter_map comp_def)

lemma project_eqI:
  assumes "map fst s = map fst t" and "distinct (map fst s)"
    and "\<And>n. kept spec m n \<Longrightarrow> map_of s n = map_of t n"
  shows "project spec m s = project spec m t"
  by (rule alist_eq_iff) (use assms in \<open>auto simp: keys_project fun_eq_iff map_of_project\<close>)

lemma atomic_commit:
  assumes ws: "well_shaped spec s" and lock: "wf_lock spec m u os" and q: "q \<in> set (operations spec)"
    and en: "guards_hold q s = Inr True" and post: "apply_effects q s = Inr post"
  shows "guards_hold q (project spec m s) = Inr True \<and>
    apply_effects q (project spec m s) = Inr (project spec m post)"
proof -
  have wf: "wf_operation spec q" using ws q by (simp add: well_shaped_def wf_spec_def)
  have refs: "kept spec m n" if "n \<in> referenced_fields (guard_expression g)" "g \<in> set (guards q)" for g n
    using that lock q wf by (auto simp: kept_def wf_lock_def wf_operation_def operation_references_def)
  have erefs: "kept spec m n" if "n \<in> referenced_fields (effect_value e)" "e \<in> set (effects q)" for e n
    using that lock q wf by (auto simp: kept_def wf_lock_def wf_operation_def operation_references_def)
  have targets: "kept spec m n" if "n \<in> set (map effect_target (effects q))" for n
    using that lock q wf by (auto simp: kept_def wf_lock_def wf_operation_def)
  have "guards_hold q (project spec m s) = guards_hold q s"
    unfolding guards_hold_def
    by (rule all_hold_cong) (use refs in \<open>auto simp: map_of_project\<close>)
  moreover
  let ?f = "\<lambda>s e. and_then (evaluate_expression (effect_value e) s) (\<lambda>v. Inr (effect_target e, v))"
  have ev: "evaluate_expression (effect_value e) (project spec m s) = evaluate_expression (effect_value e) s"
    if "e \<in> set (effects q)" for e
    by (rule evaluate_cong) (use erefs that in \<open>auto simp: map_of_project\<close>)
  then have same: "map_res (?f (project spec m s)) (effects q) = map_res (?f s) (effects q)"
    by (intro map_res_cong) auto
  have dq: "distinct (map effect_target (effects q))" using wf by (simp add: wf_operation_def)
  from post obtain pairs where pairs: "map_res (?f s) (effects q) = Inr pairs"
    "post = dict_update s (dict_update [] pairs)"
    by (auto simp: apply_effects_def and_then_Inr_iff Let_def)
  have pk: "map fst pairs = map effect_target (effects q)" using effect_pairs[OF pairs(1)] by simp
  have cp: "dict_update [] pairs = pairs" using dict_update_fresh[of "[]" pairs] dq pk by simp
  have sk: "map fst s = state_keys spec" "distinct (map fst s)" using ws by (auto simp: well_shaped_def)
  have inpk: "fst ` set pairs \<subseteq> {n. kept spec m n}" using targets pk by (auto simp flip: set_map)
  have insk: "fst ` set pairs \<subseteq> set (map fst s)"
    using inpk sk by (auto simp: kept_def state_keys_def)
  have kp: "map fst (dict_update (project spec m s) pairs) = map fst (project spec m s)"
    by (rule dict_update_keys) (use inpk insk in \<open>auto simp: keys_project\<close>)
  have kq: "map fst (dict_update s pairs) = map fst s" by (rule dict_update_keys[OF insk])
  have "dict_update (project spec m s) pairs = project spec m (dict_update s pairs)"
  proof (rule alist_eq_iff)
    show "map fst (dict_update (project spec m s) pairs) = map fst (project spec m (dict_update s pairs))"
      by (simp only: kp keys_project kq)
    show "distinct (map fst (dict_update (project spec m s) pairs))"
      unfolding kp keys_project using sk by simp
    have "map_of (rev pairs) n = None" if "\<not> kept spec m n" for n
      using that inpk by (auto simp: map_of_eq_None_iff)
    then show "map_of (dict_update (project spec m s) pairs) = map_of (project spec m (dict_update s pairs))"
      by (auto simp: fun_eq_iff map_of_project map_of_dict_update map_add_def split: option.splits)
  qed
  then have "apply_effects q (project spec m s) = Inr (project spec m post)"
    by (simp add: apply_effects_def same pairs Let_def cp)
  ultimately show ?thesis using en by simp
qed

lemma sequential_spec_simps [simp]:
  "operations (sequential_spec spec m) = operations spec"
  "\<not> lock_mode (sequential_spec spec m)"
  by (simp_all add: sequential_spec_def lock_mode_def)

lemma actor_step_refines:
  assumes ws: "well_shaped spec s" and m: "concurrency spec = Some m" and lm: "lock_mode spec"
    and lock: "wf_lock spec m u os" and t: "t \<in> set (actor_successors spec m u os s a)"
  shows "project spec m t = project spec m s \<or>
    model_step (sequential_spec spec m) (project spec m s) (project spec m t)"
proof -
  have wst: "well_shaped spec t" by (rule actor_successors_shaped[OF ws m lm t])
  have keys: "map fst s = state_keys spec" "map fst t = map fst s" "distinct (map fst s)"
    using ws wst by (auto simp: well_shaped_def)
  have tk: "kept spec m n \<Longrightarrow> n \<noteq> ''__pc'' \<and> n \<noteq> ''__pending'' \<and> n \<noteq> lock_variable m" for n
    using ws lm by (auto simp: kept_def well_shaped_def state_keys_def tuple_keys_def simp del: set_map)
  have stutter: ?thesis if "\<And>n. kept spec m n \<Longrightarrow> map_of t n = map_of s n"
    using project_eqI[of t s spec m] that keys by simp
  have locked: "map_of t n = map_of s n" if "kept spec m n"
      "set_tuple s ''__pc'' a x (AList.update (lock_variable m) v s) = Inr t" for x v n
    using set_tuple_fields[OF that(2)] tk[OF that(1)] by auto
  have quiet: "map_of t n = map_of s n" if "kept spec m n" "set_tuple s ''__pc'' a x s = Inr post"
      "set_tuple s ''__pending'' a y post = Inr t" for x y post n
    using set_tuple_fields[OF that(2)] set_tuple_fields[OF that(3)] tk[OF that(1)] by auto
  from actor_successorsD[OF t] obtain pending where
    "t \<in> set (invoke_list spec s a) \<or> t \<in> set (acquire_list spec m u os s a pending) \<or>
     t \<in> set (commit_list spec m u s a pending) \<or> t \<in> set (release_list m u s a) \<or>
     t \<in> set (respond_list s a)" by blast
  then show ?thesis
  proof (elim disjE)
    assume "t \<in> set (invoke_list spec s a)"
    then show ?thesis by (intro stutter) (auto simp: invoke_list_def and_then_Inr_iff dest: quiet)
  next
    assume "t \<in> set (respond_list s a)"
    then show ?thesis by (intro stutter) (auto simp: respond_list_def and_then_Inr_iff dest: quiet)
  next
    assume "t \<in> set (release_list m u s a)"
    then show ?thesis by (intro stutter) (auto simp: release_list_def dest: locked)
  next
    assume "t \<in> set (acquire_list spec m u os s a pending)"
    then show ?thesis
      by (intro stutter) (auto simp: acquire_list_def split: sum.splits if_splits dest: locked)
  next
    assume com: "t \<in> set (commit_list spec m u s a pending)"
    then obtain q b where q: "find_operation spec pending = Inr q" and b: "guards_hold q s = Inr b"
      by (cases "find_operation spec pending"; cases "guards_hold (projr (find_operation spec pending)) s")
         (auto simp: commit_list_def)
    have qin: "q \<in> set (operations spec)" using find_operation_in[OF q] by simp
    show ?thesis
    proof (cases b)
      case False
      with com q b show ?thesis by (intro stutter) (auto simp: commit_list_def dest: locked)
    next
      case True
      with com q b obtain post where post: "apply_effects q s = Inr post"
        "set_tuple s ''__pc'' a ''LINEARIZED'' post = Inr t"
        by (cases "apply_effects q s") (auto simp: commit_list_def)
      have "well_shaped spec post" by (rule well_shaped_apply_effects[OF ws qin post(1)])
      then have "project spec m t = project spec m post"
        using project_eqI[of t post spec m] keys tk set_tuple_fields[OF post(2)]
        by (auto simp: well_shaped_def)
      moreover have "return_type q = Ret_void" using lock qin by (auto simp: wf_lock_def)
      ultimately have "model_step (sequential_spec spec m) (project spec m s) (project spec m t)"
        using atomic_commit[OF ws lock qin _ post(1)] b True qin
        by (intro model_step.success[of _ q _ "project spec m t" None])
           (auto simp: success_actors_def success_post_def)
      then show ?thesis by blast
    qed
  qed
qed

lemma project_initial:
  assumes m: "concurrency spec = Some m" and lm: "lock_mode spec" and lock: "wf_lock spec m u os"
    and keys: "distinct (state_keys spec)"
  shows "project spec m (initial_state spec) = initial_state (sequential_spec spec m)"
proof -
  have hr: "\<not> has_results spec" "\<not> has_results (sequential_spec spec m)"
    using lock by (auto simp: wf_lock_def has_results_def)
  have nk: "\<not> kept spec m ''__pc''" "\<not> kept spec m ''__pending''"
    using keys lm by (auto simp: kept_def state_keys_def tuple_keys_def)
  have "project spec m (initial_state spec) = project spec m (initial_fields spec)"
    using nk lm hr by (simp add: initial_state_append[OF keys] project_def)
  also have "\<dots> = initial_fields (sequential_spec spec m)"
    unfolding project_def initial_fields_def filter_map sequential_spec_def comp_def
    by (auto intro!: map_cong filter_cong simp: kept_def)
  also have "\<dots> = initial_state (sequential_spec spec m)"
    using hr by (simp add: initial_state_def)
  finally show ?thesis .
qed

lemma lock_refines_atomic:
  assumes wf: "wf_spec spec" and m: "concurrency spec = Some m" and lm: "lock_mode spec"
    and lock: "wf_lock spec m u os" and uv: "unlocked_value m = Some u" and ov: "actor_lock_values m = Some os"
    and keys: "distinct (state_keys spec)" and r: "reachable spec s"
  shows "reachable (sequential_spec spec m) (project spec m s)"
  using r
proof induction
  case init
  then show ?case by (simp add: project_initial[OF m lm lock keys] reachable.init)
next
  case (step s t)
  have ws: "well_shaped spec s" by (rule reachable_shaped[OF wf keys step.hyps(1)])
  from step.hyps(2) obtain a where "t \<in> set (actor_successors spec m u os s a)"
    by cases (use m lm uv ov in auto)
  from actor_step_refines[OF ws m lm lock this] step.IH show ?case
    by (metis reachable.step)
qed

section \<open>Properties of the lock protocol\<close>

definition mutex_spec :: domain_spec where
  "mutex_spec = toggle_spec\<lparr>
     concurrency := Some \<lparr>lock_variable = ''lock'', lock_states = [''FREE'', ''A1'', ''A2''],
        unlocked_value = Some 0, actor_lock_values = Some [1, 2],
        linearization_points = Some [''openValve'', ''closeValve'']\<rparr>,
     state_variables := [BoolStateVariable ''opened'' False, IntStateVariable ''lock'' (0, 2) 0 None],
     operations := [
       \<lparr>op_name = ''openValve'', return_type = Ret_void, failure_semantics = Unavailable,
        guards = [\<lparr>guard_id = ''g1'', guard_expression = NotExpr (FieldExpr ''opened'')\<rparr>],
        effects = [\<lparr>effect_id = ''e1'', effect_target = ''opened'', effect_value = BooleanExpr True\<rparr>],
        frame = [''opened''], exception_type = None, exception_trigger = None\<rparr>,
       \<lparr>op_name = ''closeValve'', return_type = Ret_void, failure_semantics = Unavailable,
        guards = [\<lparr>guard_id = ''g1'', guard_expression = FieldExpr ''opened''\<rparr>],
        effects = [\<lparr>effect_id = ''e1'', effect_target = ''opened'', effect_value = BooleanExpr False\<rparr>],
        frame = [''opened''], exception_type = None, exception_trigger = None\<rparr>],
     tlc_invariants := [\<lparr>inv_id = ''lockBound'', inv_expression =
       BinaryExpr K_lte (FieldExpr ''lock'') (IntegerExpr 2)\<rparr>]\<rparr>"

lemma accepted_lockD:
  assumes "validate_spec spec = Inr spec'" and "concurrency spec = Some m"
    and "linearization_points m \<noteq> None" and "set (var_names spec) \<inter> {''__pc'', ''__pending''} = {}"
  obtains u os where "wf_spec spec" "wf_lock spec m u os" "unlocked_value m = Some u"
    "actor_lock_values m = Some os" "lock_mode spec" "distinct (state_keys spec)"
proof -
  have wf: "wf_spec spec" using validate_spec_wf[OF assms(1)] by blast
  with assms(2,3) obtain u os where
    lock: "unlocked_value m = Some u" "actor_lock_values m = Some os" "wf_lock spec m u os"
    by (auto simp: wf_spec_def)
  have "distinct (var_names spec)" "''callResult'' \<notin> set (var_names spec)"
    using wf by (simp_all add: wf_spec_def reserved_names_def)
  then have "distinct (state_keys spec)" using assms(4)
    by (simp add: state_keys_def tuple_keys_def del: set_map) blast
  with that wf lock assms(2,3) show thesis by (simp add: lock_mode_def)
qed

text \<open>C16: mutual exclusion: in every reachable state of the explicit lock protocol of an accepted
  domain at most one actor is between acquisition and release, the lock variable then holds that
  actor's owner value, and when no actor is there the lock is unlocked.\<close>

theorem lock_mutual_exclusion:
  assumes "validate_spec spec = Inr spec'" and "concurrency spec = Some m"
    and "linearization_points m \<noteq> None" and "set (var_names spec) \<inter> {''__pc'', ''__pending''} = {}"
    and "reachable spec s"
  shows "\<exists>pcs held os. map_of s ''__pc'' = Some (VTuple pcs) \<and> length pcs = actors spec \<and>
    map_of s (lock_variable m) = Some (VInt held) \<and> actor_lock_values m = Some os \<and>
    (\<forall>a < actors spec. critical (pcs ! a) \<longrightarrow> held = os ! a \<and>
       (\<forall>b < actors spec. critical (pcs ! b) \<longrightarrow> a = b)) \<and>
    ((\<forall>a < actors spec. \<not> critical (pcs ! a)) \<longrightarrow> unlocked_value m = Some held)"
proof -
  obtain u os where wf: "wf_spec spec" and lock: "wf_lock spec m u os" and uv: "unlocked_value m = Some u"
    and ov: "actor_lock_values m = Some os" and lm: "lock_mode spec" and keys: "distinct (state_keys spec)"
    using accepted_lockD[OF assms(1-4)] by blast
  from reachable_lock_inv[OF wf assms(2) lm lock uv ov keys assms(5)] obtain pcs held where
    pcs: "map_of s ''__pc'' = Some (VTuple pcs)" "length pcs = length os" and
    held: "map_of s (lock_variable m) = Some (VInt held)" and
    own: "\<forall>a < length pcs. critical (pcs ! a) \<longrightarrow> held = os ! a" and
    free: "(\<forall>a < length pcs. \<not> critical (pcs ! a)) \<longrightarrow> held = u"
    unfolding lock_inv_def by (elim exE conjE) (rule that)
  have os: "length os = actors spec" "distinct os" using lock by (simp_all add: wf_lock_def)
  have len: "length pcs = actors spec" using pcs(2) os(1) by simp
  have "a = b" if "a < actors spec" "b < actors spec" "critical (pcs ! a)" "critical (pcs ! b)" for a b
  proof -
    have "os ! a = os ! b" using own that unfolding len by auto
    with os that show ?thesis by (simp add: nth_eq_iff_index_eq)
  qed
  with own free have
    "\<forall>a < actors spec. critical (pcs ! a) \<longrightarrow> held = os ! a \<and> (\<forall>b < actors spec. critical (pcs ! b) \<longrightarrow> a = b)"
    "(\<forall>a < actors spec. \<not> critical (pcs ! a)) \<longrightarrow> unlocked_value m = Some held"
    unfolding len uv by blast+
  with pcs(1) len held ov show ?thesis by blast
qed

lemma lock_mutual_exclusion_witness:
  "\<exists>pcs held os. map_of (initial_state mutex_spec) ''__pc'' = Some (VTuple pcs) \<and>
    length pcs = actors mutex_spec \<and>
    map_of (initial_state mutex_spec) (lock_variable (the (concurrency mutex_spec))) = Some (VInt held) \<and>
    actor_lock_values (the (concurrency mutex_spec)) = Some os"
proof -
  let ?m = "the (concurrency mutex_spec)"
  have "validate_spec mutex_spec = Inr mutex_spec" by code_simp
  moreover have "concurrency mutex_spec = Some ?m" "linearization_points ?m \<noteq> None"
    "set (var_names mutex_spec) \<inter> {''__pc'', ''__pending''} = {}"
    by (simp_all add: mutex_spec_def)
  ultimately obtain pcs held os where
    "map_of (initial_state mutex_spec) ''__pc'' = Some (VTuple pcs)" "length pcs = actors mutex_spec"
    "map_of (initial_state mutex_spec) (lock_variable ?m) = Some (VInt held)"
    "actor_lock_values ?m = Some os"
    using lock_mutual_exclusion[OF _ _ _ _ reachable.init, of mutex_spec mutex_spec ?m]
    by (elim meta_impE exE conjE) (assumption | rule that)+
  then show ?thesis by blast
qed

text \<open>C5: the lock protocol refines the atomic domain: hiding the lock variable and the protocol's
  tuples, every reachable state of the protocol is a reachable state of the same domain with
  atomic operations, so the interleavings add no behaviour to the reviewed fields.\<close>

theorem lock_protocol_refines_atomic:
  assumes "validate_spec spec = Inr spec'" and "concurrency spec = Some m"
    and "linearization_points m \<noteq> None" and "set (var_names spec) \<inter> {''__pc'', ''__pending''} = {}"
    and "reachable spec s"
  shows "reachable (sequential_spec spec m) (project spec m s)"
proof -
  obtain u os where "wf_spec spec" "wf_lock spec m u os" "unlocked_value m = Some u"
    "actor_lock_values m = Some os" "lock_mode spec" "distinct (state_keys spec)"
    using accepted_lockD[OF assms(1-4)] by blast
  then show ?thesis using lock_refines_atomic assms(2,5) by blast
qed

lemma lock_protocol_refines_atomic_witness:
  "reachable (sequential_spec mutex_spec (the (concurrency mutex_spec)))
    (project mutex_spec (the (concurrency mutex_spec)) (initial_state mutex_spec))"
proof (rule lock_protocol_refines_atomic[where spec' = mutex_spec])
  show "validate_spec mutex_spec = Inr mutex_spec" by code_simp
  show "concurrency mutex_spec = Some (the (concurrency mutex_spec))"
    "linearization_points (the (concurrency mutex_spec)) \<noteq> None"
    "set (var_names mutex_spec) \<inter> {''__pc'', ''__pending''} = {}"
    by (simp_all add: mutex_spec_def)
  show "reachable mutex_spec (initial_state mutex_spec)" by (rule reachable.init)
qed

end
