(* ===== verification/Domain_Faults.thy ===== *)
theory Domain_Faults
  imports Domain_Atomic Py_String
begin

text \<open>
  Safety under an unreliable network, \<^verbatim>\<open>pipeline/distributed.py\<close>: fault operations are
  injected over the declared message fields (loss, duplication, reordering) and the machine with them
  is explored.  The work loop has no budget of its own, so it is a partial function: \<open>None\<close> is a loop
  that does not end.  \<open>network_step\<close> is what the faults mean, stated on states without operations.
\<close>

section \<open>Injected operations\<close>

definition eq_literal :: "string \<Rightarrow> int \<Rightarrow> expr" where
  "eq_literal f n = BinaryExpr K_eq (FieldExpr f) (IntegerExpr n)"

definition find_variable :: "domain_spec \<Rightarrow> string \<Rightarrow> v2_error + state_variable" where
  "find_variable spec f = (case find (\<lambda>v. var_name v = f) (state_variables spec) of
     None \<Rightarrow> Inl StopIteration | Some v \<Rightarrow> Inr v)"

text \<open>A boolean initial value becomes an integer literal; its missing bound is an
  \<^verbatim>\<open>AttributeError\<close> afterwards.\<close>

definition sentinel_of :: "domain_spec \<Rightarrow> string \<Rightarrow> v2_error + int" where
  "sentinel_of spec f = and_then (find_variable spec f) (\<lambda>v. Inr (case v of
     IntStateVariable _ _ i _ \<Rightarrow> i | BoolStateVariable _ b \<Rightarrow> if b then 1 else 0))"

definition slot_values :: "domain_spec \<Rightarrow> string \<Rightarrow> v2_error + int list" where
  "slot_values spec f = and_then (find_variable spec f) (\<lambda>v. case v of
     IntStateVariable _ b _ _ \<Rightarrow> Inr [fst b..snd b] | BoolStateVariable _ _ \<Rightarrow> Inl AttributeError)"

definition occupied_values :: "domain_spec \<Rightarrow> string \<Rightarrow> v2_error + int list" where
  "occupied_values spec f = and_then (sentinel_of spec f) (\<lambda>sentinel.
     and_then (slot_values spec f) (\<lambda>vs. Inr (filter (\<lambda>v. v \<noteq> sentinel) vs)))"

text \<open>A fault operation goes through the validators of \<^verbatim>\<open>Operation\<close>.\<close>

definition fault_operation :: "string \<Rightarrow> guard list \<Rightarrow> effect list \<Rightarrow> string list \<Rightarrow> operation" where
  "fault_operation name gs es fs = \<lparr>op_name = name, return_type = Ret_void, failure_semantics = Unavailable,
     guards = gs, effects = es, frame = fs, exception_type = None, exception_trigger = None\<rparr>"

definition validated :: "operation \<Rightarrow> v2_error + operation" where
  "validated p = and_then (check_operation p) (\<lambda>_. Inr p)"

definition drop_operation :: "string \<Rightarrow> int \<Rightarrow> int \<Rightarrow> operation" where
  "drop_operation f v sentinel = fault_operation (''DropMsg_'' @ f)
     [\<lparr>guard_id = ''fg'', guard_expression = eq_literal f v\<rparr>]
     [\<lparr>effect_id = ''fe'', effect_target = f, effect_value = IntegerExpr sentinel\<rparr>] [f]"

definition drop_operations :: "domain_spec \<Rightarrow> string \<Rightarrow> v2_error + operation list" where
  "drop_operations spec f =
     and_then (sentinel_of spec f) (\<lambda>sentinel.
     and_then (occupied_values spec f) (map_res (\<lambda>v. validated (drop_operation f v sentinel))))"

definition duplicate_operation :: "string \<Rightarrow> string \<Rightarrow> int \<Rightarrow> int \<Rightarrow> operation" where
  "duplicate_operation source target v sentinel =
     fault_operation (''DuplicateMsg_'' @ source @ ''_to_'' @ target)
       [\<lparr>guard_id = ''fg1'', guard_expression = eq_literal source v\<rparr>,
        \<lparr>guard_id = ''fg2'', guard_expression = eq_literal target sentinel\<rparr>]
       [\<lparr>effect_id = ''fe'', effect_target = target, effect_value = IntegerExpr v\<rparr>] [target]"

definition duplicate_into :: "domain_spec \<Rightarrow> string \<Rightarrow> string \<Rightarrow> v2_error + operation list" where
  "duplicate_into spec source target =
     and_then (occupied_values spec source) (map_res (\<lambda>v.
       and_then (sentinel_of spec target) (\<lambda>sentinel.
       validated (duplicate_operation source target v sentinel))))"

definition duplicate_both :: "domain_spec \<Rightarrow> string \<times> string \<Rightarrow> v2_error + operation list" where
  "duplicate_both spec fg = (case fg of (source, target) \<Rightarrow>
     and_then (duplicate_into spec source target) (\<lambda>there.
     and_then (duplicate_into spec target source) (\<lambda>back. Inr (there @ back))))"

definition reorder_operation :: "string \<Rightarrow> string \<Rightarrow> int \<times> int \<Rightarrow> operation" where
  "reorder_operation left right vs = (case vs of (lv, rv) \<Rightarrow>
     fault_operation (''ReorderMsg_'' @ left @ ''_'' @ right)
       [\<lparr>guard_id = ''fg1'', guard_expression = eq_literal left lv\<rparr>,
        \<lparr>guard_id = ''fg2'', guard_expression = eq_literal right rv\<rparr>]
       [\<lparr>effect_id = ''fe1'', effect_target = left, effect_value = IntegerExpr rv\<rparr>,
        \<lparr>effect_id = ''fe2'', effect_target = right, effect_value = IntegerExpr lv\<rparr>] [left, right])"

definition reorder_operations :: "domain_spec \<Rightarrow> string \<Rightarrow> string \<Rightarrow> v2_error + operation list" where
  "reorder_operations spec left right =
     and_then (occupied_values spec left) (\<lambda>left_values.
     and_then (occupied_values spec right) (\<lambda>right_values.
     map_res (\<lambda>vs. validated (reorder_operation left right vs)) (List.product left_values right_values)))"

fun ordered_pairs :: "'a list \<Rightarrow> ('a \<times> 'a) list" where
  "ordered_pairs [] = []"
| "ordered_pairs (x # xs) = map (Pair x) xs @ ordered_pairs xs"

definition concat_res :: "('a \<Rightarrow> 'e + 'b list) \<Rightarrow> 'a list \<Rightarrow> 'e + 'b list" where
  "concat_res f xs = and_then (map_res f xs) (\<lambda>yss. Inr (concat yss))"

definition fault_actions :: "domain_spec \<Rightarrow> string list \<Rightarrow> string \<Rightarrow> v2_error + operation list" where
  "fault_actions spec slots fault =
     (if fault = ''message_loss'' then concat_res (drop_operations spec) slots
      else if fault = ''duplication'' then
        concat_res (duplicate_both spec) (ordered_pairs slots)
      else if fault = ''reordering'' then
        concat_res (\<lambda>(left, right). reorder_operations spec left right) (ordered_pairs slots)
      else Inr [])"

definition inject_fault_actions :: "domain_spec \<Rightarrow> string list \<Rightarrow> string list \<Rightarrow> v2_error + operation list" where
  "inject_fault_actions spec faults slots = concat_res (fault_actions spec slots) faults"

section \<open>The exploration\<close>

datatype fault_stop = Fault_raised v2_error | Fault_violated string string mstate

definition raised :: "v2_error + 'a \<Rightarrow> fault_stop + 'a" where
  "raised m = (case m of Inl e \<Rightarrow> Inl (Fault_raised e) | Inr x \<Rightarrow> Inr x)"

definition check_successor :: "domain_spec \<Rightarrow> operation \<Rightarrow> mstate \<Rightarrow> fault_stop + unit" where
  "check_successor spec p t =
     for_each (\<lambda>i. and_then (raised (evaluate_expression (inv_expression i) t))
       (\<lambda>v. ensure (truthy v) (Fault_violated (inv_id i) (op_name p) t))) (tlc_invariants spec)"

definition fault_successor :: "domain_spec \<Rightarrow> mstate \<Rightarrow> operation \<Rightarrow> mstate list \<times> mstate list
    \<Rightarrow> fault_stop + mstate list \<times> mstate list" where
  "fault_successor spec s p acc =
     and_then (raised (guards_hold p s)) (\<lambda>enabled.
     if \<not> enabled then Inr acc
     else and_then (raised (apply_effects p s)) (\<lambda>t.
       let (seen, q) = acc;
           acc' = (if freeze t \<in> set seen then acc else (seen @ [freeze t], q @ [t]))
       in and_then (check_successor spec p t) (\<lambda>_. Inr acc')))"

lemma mono_case_sum [partial_function_mono]:
  assumes "\<And>x. mono_option (\<lambda>f. F x f)" and "\<And>y. mono_option (\<lambda>f. G y f)"
  shows "mono_option (\<lambda>f. case m of Inl x \<Rightarrow> F x f | Inr y \<Rightarrow> G y f)"
  using assms by (cases m) simp_all

partial_function (option) fault_loop :: "domain_spec \<Rightarrow> operation list \<Rightarrow> mstate list \<Rightarrow> mstate list
    \<Rightarrow> (fault_stop + mstate list) option" where
  "fault_loop spec ops seen q =
     (if q = [] then Some (Inr seen)
      else case fold_res (fault_successor spec (hd q)) ops (seen, tl q) of
        Inl stop \<Rightarrow> Some (Inl stop)
      | Inr acc \<Rightarrow> fault_loop spec ops (fst acc) (snd acc))"

declare fault_loop.simps [code]

section \<open>The verdict\<close>

datatype fault_verdict =
    Distributed_failed string string
  | Distributed_violation string "string option" string mstate
  | Distributed_proved "string list" "string list" nat nat

definition known_faults :: "string list" where
  "known_faults = [''message_loss'', ''duplication'', ''reordering'']"

definition max_state_space :: nat where
  "max_state_space = 100000"

definition fault_of_operation :: "string \<Rightarrow> string option" where
  "fault_of_operation name =
     (if starts_with ''DropMsg'' name then Some ''message_loss''
      else if starts_with ''DuplicateMsg'' name then Some ''duplication''
      else if starts_with ''ReorderMsg'' name then Some ''reordering'' else None)"

definition list_repr :: "string list \<Rightarrow> string" where
  "list_repr xs = ''['' @ join '', '' (map py_repr xs) @ '']''"

fun fault_report :: "string list \<Rightarrow> string list \<Rightarrow> nat \<Rightarrow> fault_stop + mstate list \<Rightarrow> v2_error + fault_verdict" where
  "fault_report faults slots n (Inl (Fault_raised e)) = Inl e"
| "fault_report faults slots n (Inl (Fault_violated i p t)) =
     Inr (Distributed_violation i (fault_of_operation p) p (freeze t))"
| "fault_report faults slots n (Inr seen) = Inr (Distributed_proved faults slots n (length seen))"

text \<open>The candidate is a value: the path is a file, and loading it gave a specification or the text of an
  error.\<close>

definition verify_distributed :: "bool \<Rightarrow> string + domain_spec \<Rightarrow> string list \<Rightarrow> string list
    \<Rightarrow> (v2_error + fault_verdict) option" where
  "verify_distributed is_file loaded faults slots =
     (let unknown = filter (\<lambda>f. f \<notin> set known_faults) faults in
      if \<not> is_file then Some (Inr (Distributed_failed ''input_unavailable'' []))
      else if unknown \<noteq> [] then Some (Inr (Distributed_failed ''unknown_fault''
        (''unknown faults '' @ list_repr unknown @ ''; known: '' @ list_repr known_faults)))
      else (case loaded of
        Inl message \<Rightarrow> Some (Inr (Distributed_failed ''domain_unreadable'' message))
      | Inr spec \<Rightarrow>
        let unknown_slots = filter (\<lambda>f. f \<notin> set (var_names spec)) slots in
        if execution_model spec \<noteq> Some Async_message_passing then
          Some (Inr (Distributed_failed ''async_model_required'' (''the fault model applies to '' @
            ''async_message_passing domains (bounded message-slot state)'')))
        else if unknown_slots \<noteq> [] then
          Some (Inr (Distributed_failed ''unknown_message_field'' (''fields '' @ list_repr unknown_slots @
            '' are not declared state (declared: '' @ list_repr (sorted_set (var_names spec)) @ '')'')))
        else (case inject_fault_actions spec faults slots of
          Inl e \<Rightarrow> Some (Inl e)
        | Inr fault_ops \<Rightarrow>
          let faulted = spec\<lparr>operations := operations spec @ fault_ops\<rparr>; start = initial_fields spec in
          if max_state_space < state_space_upper_bound faulted then
            Some (Inr (Distributed_failed ''fault_model_state_space_exceeded'' (''the fault-injected machine '' @
              ''exceeds the bounded exploration cap ('' @ str_of_nat max_state_space @
              ''); narrow the fault set or the bounds'')))
          else map_option (fault_report faults slots (length fault_ops))
            (fault_loop faulted (operations faulted) [freeze start] [start]))))"

section \<open>What the faults mean\<close>

text \<open>A message field holds a message when its value is within its bounds and is not its initial
  value.  A step of the machine on an unreliable network is a step of one of the candidate's operations,
  or a message is lost, copied into an empty field, or two messages change places.\<close>

definition slot :: "domain_spec \<Rightarrow> string \<Rightarrow> int \<Rightarrow> int \<Rightarrow> int \<Rightarrow> bool" where
  "slot spec f lo hi e0 \<longleftrightarrow> (\<exists>ts. IntStateVariable f (lo, hi) e0 ts \<in> set (state_variables spec))"

definition occupied :: "domain_spec \<Rightarrow> string \<Rightarrow> int \<Rightarrow> bool" where
  "occupied spec f v \<longleftrightarrow> (\<exists>lo hi e0. slot spec f lo hi e0 \<and> lo \<le> v \<and> v \<le> hi \<and> v \<noteq> e0)"

definition holds_message :: "domain_spec \<Rightarrow> mstate \<Rightarrow> string \<Rightarrow> int \<Rightarrow> bool" where
  "holds_message spec s f v \<longleftrightarrow> map_of s f = Some (VInt v) \<and> occupied spec f v"

definition message_dropped :: "domain_spec \<Rightarrow> mstate \<Rightarrow> mstate \<Rightarrow> string \<Rightarrow> bool" where
  "message_dropped spec s t f \<longleftrightarrow> (\<exists>lo hi e0 v. holds_message spec s f v \<and> slot spec f lo hi e0 \<and>
     t = AList.update f (VInt e0) s)"

definition lost :: "domain_spec \<Rightarrow> string list \<Rightarrow> mstate \<Rightarrow> mstate \<Rightarrow> bool" where
  "lost spec slots s t \<longleftrightarrow> (\<exists>f \<in> set slots. message_dropped spec s t f)"

definition copied :: "domain_spec \<Rightarrow> mstate \<Rightarrow> mstate \<Rightarrow> string \<Rightarrow> string \<Rightarrow> bool" where
  "copied spec s t f g \<longleftrightarrow> (\<exists>lo hi e0 v. holds_message spec s f v \<and> slot spec g lo hi e0 \<and>
     map_of s g = Some (VInt e0) \<and> t = AList.update g (VInt v) s)"

definition duplicated :: "domain_spec \<Rightarrow> string list \<Rightarrow> mstate \<Rightarrow> mstate \<Rightarrow> bool" where
  "duplicated spec slots s t \<longleftrightarrow> (\<exists>f \<in> set slots. \<exists>g \<in> set slots. f \<noteq> g \<and> copied spec s t f g)"

definition swapped :: "domain_spec \<Rightarrow> mstate \<Rightarrow> mstate \<Rightarrow> string \<Rightarrow> string \<Rightarrow> bool" where
  "swapped spec s t f g \<longleftrightarrow> (\<exists>v w. holds_message spec s f v \<and> holds_message spec s g w \<and>
     t = AList.update g (VInt v) (AList.update f (VInt w) s))"

definition exchanged :: "domain_spec \<Rightarrow> string list \<Rightarrow> mstate \<Rightarrow> mstate \<Rightarrow> bool" where
  "exchanged spec slots s t \<longleftrightarrow> (\<exists>f \<in> set slots. \<exists>g \<in> set slots. f \<noteq> g \<and> swapped spec s t f g)"

inductive network_step :: "domain_spec \<Rightarrow> string list \<Rightarrow> string list \<Rightarrow> mstate \<Rightarrow> mstate \<Rightarrow> bool"
  for spec faults slots where
  operate: "\<lbrakk>p \<in> set (operations spec); guards_hold p s = Inr True; apply_effects p s = Inr t\<rbrakk>
    \<Longrightarrow> network_step spec faults slots s t"
| lose: "\<lbrakk>''message_loss'' \<in> set faults; lost spec slots s t\<rbrakk> \<Longrightarrow> network_step spec faults slots s t"
| duplicate: "\<lbrakk>''duplication'' \<in> set faults; duplicated spec slots s t\<rbrakk> \<Longrightarrow> network_step spec faults slots s t"
| reorder: "\<lbrakk>''reordering'' \<in> set faults; exchanged spec slots s t\<rbrakk> \<Longrightarrow> network_step spec faults slots s t"

definition op_step :: "operation list \<Rightarrow> mstate \<Rightarrow> mstate \<Rightarrow> bool" where
  "op_step ops s t \<longleftrightarrow> (\<exists>p \<in> set ops. guards_hold p s = Inr True \<and> apply_effects p s = Inr t)"

lemma network_step_iff:
  "network_step spec faults slots s t \<longleftrightarrow> op_step (operations spec) s t \<or>
     ''message_loss'' \<in> set faults \<and> lost spec slots s t \<or>
     ''duplication'' \<in> set faults \<and> duplicated spec slots s t \<or>
     ''reordering'' \<in> set faults \<and> exchanged spec slots s t"
  unfolding network_step.simps[of spec faults slots s t] op_step_def by metis

lemma op_step_append: "op_step (ps @ qs) s t \<longleftrightarrow> op_step ps s t \<or> op_step qs s t"
  by (auto simp: op_step_def)

subsection \<open>The injected operations, one by one\<close>

lemma fault_operation_sel [simp]:
  "op_name (fault_operation n gs es fs) = n" "return_type (fault_operation n gs es fs) = Ret_void"
  "failure_semantics (fault_operation n gs es fs) = Unavailable"
  "guards (fault_operation n gs es fs) = gs" "effects (fault_operation n gs es fs) = es"
  "frame (fault_operation n gs es fs) = fs"
  "exception_type (fault_operation n gs es fs) = None"
  "exception_trigger (fault_operation n gs es fs) = None"
  by (simp_all add: fault_operation_def)

lemma validated_Inr [simp]: "validated p = Inr q \<longleftrightarrow> q = p \<and> check_operation p = Inr ()"
  by (auto simp: validated_def and_then_Inr_iff)

lemma map_validated:
  "map_res (\<lambda>x. validated (g x)) xs = Inr ps \<longleftrightarrow> ps = map g xs \<and> (\<forall>x \<in> set xs. check_operation (g x) = Inr ())"
  by (induction xs arbitrary: ps) (auto simp: and_then_Inr_iff)

lemma set_map_res: "map_res f xs = Inr ys \<Longrightarrow> set ys = {y. \<exists>x \<in> set xs. f x = Inr y}"
  by (induction xs arbitrary: ys) (auto simp: and_then_Inr_iff)

lemma set_concat_res:
  "concat_res f xs = Inr ys \<Longrightarrow> set ys = {y. \<exists>x \<in> set xs. \<exists>zs. f x = Inr zs \<and> y \<in> set zs}"
  unfolding concat_res_def and_then_Inr_iff by (auto dest!: set_map_res) blast+

lemma concat_res_Inr: "concat_res f xs = Inr ys \<Longrightarrow> x \<in> set xs \<Longrightarrow> \<exists>zs. f x = Inr zs"
  unfolding concat_res_def and_then_Inr_iff map_res_Inr_iff
  by (auto simp: in_set_conv_nth list_all2_conv_all_nth)

lemma find_variable_slot:
  assumes "distinct (var_names spec)" and "slot spec f lo hi e0"
  shows "\<exists>ts. find_variable spec f = Inr (IntStateVariable f (lo, hi) e0 ts)"
proof -
  from assms(2) obtain ts where v: "IntStateVariable f (lo, hi) e0 ts \<in> set (state_variables spec)"
    by (auto simp: slot_def)
  have "find (\<lambda>v. var_name v = f) vs = Some w" if "w \<in> set vs" "var_name w = f" "distinct (map var_name vs)" for vs w
    using that by (induction vs) (auto simp: rev_image_eqI)
  from this[OF v _ assms(1)] show ?thesis by (simp add: find_variable_def)
qed

lemma slot_unique:
  "\<lbrakk>distinct (var_names spec); slot spec f lo hi e; slot spec f lo' hi' e'\<rbrakk> \<Longrightarrow> lo' = lo \<and> hi' = hi \<and> e' = e"
  using find_variable_slot[of spec f lo hi e] find_variable_slot[of spec f lo' hi' e'] by auto

lemma slot_iff:
  "\<lbrakk>distinct (var_names spec); slot spec f lo hi e0\<rbrakk>
    \<Longrightarrow> slot spec f lo' hi' e' \<longleftrightarrow> lo' = lo \<and> hi' = hi \<and> e' = e0"
  using slot_unique by blast

lemma occupied_values_slot:
  assumes "distinct (var_names spec)" and "slot spec f lo hi e0"
  shows "\<exists>vs. occupied_values spec f = Inr vs \<and> (\<forall>v. v \<in> set vs \<longleftrightarrow> occupied spec f v)"
    and "sentinel_of spec f = Inr e0"
proof -
  from find_variable_slot[OF assms] obtain ts where
    v: "find_variable spec f = Inr (IntStateVariable f (lo, hi) e0 ts)" by blast
  then show "sentinel_of spec f = Inr e0" by (simp add: sentinel_of_def)
  have "occupied spec f v \<longleftrightarrow> lo \<le> v \<and> v \<le> hi \<and> v \<noteq> e0" for v
    using slot_unique[OF assms] assms(2) unfolding occupied_def by blast
  with v show "\<exists>vs. occupied_values spec f = Inr vs \<and> (\<forall>v. v \<in> set vs \<longleftrightarrow> occupied spec f v)"
    by (auto simp: occupied_values_def sentinel_of_def slot_values_def)
qed

text \<open>The values of a field are computed only for an integer variable.\<close>

lemma occupied_values_Inr:
  assumes "occupied_values spec f = Inr vs"
  shows "\<exists>lo hi e0. slot spec f lo hi e0"
proof -
  from assms obtain v where "find_variable spec f = Inr v" and "\<exists>vs. slot_values spec f = Inr vs"
    by (auto simp: occupied_values_def sentinel_of_def and_then_Inr_iff)
  then obtain b i ts where v: "find_variable spec f = Inr v" "v = IntStateVariable (var_name v) b i ts"
    by (cases v) (auto simp: slot_values_def)
  moreover from v(1) have "v \<in> set (state_variables spec) \<and> var_name v = f"
    by (intro find_var_name) (simp add: find_variable_def split: option.splits)
  ultimately show ?thesis by (metis slot_def surj_pair)
qed

lemma set_drop_operations:
  assumes "drop_operations spec f = Inr ps" and "distinct (var_names spec)" and "slot spec f lo hi e0"
  shows "set ps = (\<lambda>v. drop_operation f v e0) ` {v. occupied spec f v}"
  using assms(1) occupied_values_slot[OF assms(2,3)]
  by (auto simp: drop_operations_def map_validated)

lemma set_duplicate_into:
  assumes "duplicate_into spec f g = Inr ps" and "distinct (var_names spec)"
    and "slot spec f lo hi e0" and "slot spec g lo' hi' e1"
  shows "set ps = (\<lambda>v. duplicate_operation f g v e1) ` {v. occupied spec f v}"
  using assms(1) occupied_values_slot(1)[OF assms(2,3)] occupied_values_slot(2)[OF assms(2,4)]
  by (auto simp: duplicate_into_def map_validated)

lemma set_reorder_operations:
  assumes "reorder_operations spec f g = Inr ps" and "distinct (var_names spec)"
    and "slot spec f lo hi e0" and "slot spec g lo' hi' e1"
  shows "set ps = reorder_operation f g ` {(v, w). occupied spec f v \<and> occupied spec g w}"
    and "\<forall>p \<in> set ps. check_operation p = Inr ()"
  using assms(1) occupied_values_slot(1)[OF assms(2,3)] occupied_values_slot(1)[OF assms(2,4)]
  by (auto simp: reorder_operations_def map_validated)

lemma eq_literal_eval:
  "map_of s f = Some (VInt x) \<Longrightarrow> evaluate_expression (eq_literal f v) s = Inr (VBool (x = v))"
  by (simp add: eq_literal_def binary_op_def py_eq_def)

lemma drop_operation_runs:
  assumes "map_of s f = Some (VInt x)"
  shows "guards_hold (drop_operation f v e0) s = Inr (x = v)"
    and "apply_effects (drop_operation f v e0) s = Inr (AList.update f (VInt e0) s)"
  using assms by (simp_all add: drop_operation_def guards_hold_def eq_literal_eval apply_effects_def)

lemma duplicate_operation_runs:
  assumes "map_of s f = Some (VInt x)" and "map_of s g = Some (VInt y)"
  shows "guards_hold (duplicate_operation f g v e0) s = Inr (x = v \<and> y = e0)"
    and "apply_effects (duplicate_operation f g v e0) s = Inr (AList.update g (VInt v) s)"
  using assms by (simp_all add: duplicate_operation_def guards_hold_def eq_literal_eval apply_effects_def)

lemma reorder_operation_runs:
  assumes "map_of s f = Some (VInt x)" and "map_of s g = Some (VInt y)"
  shows "guards_hold (reorder_operation f g (v, w)) s = Inr (x = v \<and> y = w)"
    and "f \<noteq> g \<Longrightarrow> apply_effects (reorder_operation f g (v, w)) s
      = Inr (AList.update g (VInt v) (AList.update f (VInt w) s))"
  using assms by (simp_all add: reorder_operation_def guards_hold_def eq_literal_eval apply_effects_def)

lemma reorder_operation_fields: "check_operation (reorder_operation f g vw) = Inr u \<Longrightarrow> f \<noteq> g"
  by (auto simp: check_operation_def reorder_operation_def res_iffs split: prod.splits)

lemma update_commute:
  assumes "f \<noteq> g" and "f \<in> set (map fst s)" and "g \<in> set (map fst s)" and "distinct (map fst s)"
  shows "AList.update g y (AList.update f x s) = AList.update f x (AList.update g y s)"
proof (rule alist_eq_iff)
  show "distinct (map fst (AList.update g y (AList.update f x s)))"
    using assms(4) by (simp add: distinct_update)
qed (use assms in \<open>auto simp: alist_update_keys fun_eq_iff\<close>)

lemma ordered_pairs_set: "(x, y) \<in> set (ordered_pairs xs) \<Longrightarrow> x \<in> set xs \<and> y \<in> set xs"
  by (induction xs) auto

lemma ordered_pairs_cover:
  "\<lbrakk>x \<in> set xs; y \<in> set xs; x \<noteq> y\<rbrakk> \<Longrightarrow> (x, y) \<in> set (ordered_pairs xs) \<or> (y, x) \<in> set (ordered_pairs xs)"
  by (induction xs) auto

subsection \<open>The injected operations together\<close>

definition net_shaped :: "domain_spec \<Rightarrow> mstate \<Rightarrow> bool" where
  "net_shaped spec s \<longleftrightarrow> distinct (var_names spec) \<and> map fst s = var_names spec \<and>
     typed_state (field_types spec) s"

lemma slot_value:
  assumes "net_shaped spec s" and "slot spec f lo hi e0"
  shows "\<exists>x. map_of s f = Some (VInt x)" and "f \<in> set (map fst s)"
proof -
  from assms(2) obtain ts where v: "IntStateVariable f (lo, hi) e0 ts \<in> set (state_variables spec)"
    by (auto simp: slot_def)
  have "field_types spec f = Some Int_ty"
    using field_types_var[OF _ v] assms(1) by (simp add: net_shaped_def)
  then show "\<exists>x. map_of s f = Some (VInt x)"
    using assms(1) by (fastforce simp: net_shaped_def typed_state_def)
  show "f \<in> set (map fst s)" using v assms(1) by (force simp: net_shaped_def)
qed

lemma op_step_concat:
  assumes "concat_res f xs = Inr ps"
  shows "op_step ps s t \<longleftrightarrow> (\<exists>x \<in> set xs. \<exists>qs. f x = Inr qs \<and> op_step qs s t)"
  using set_concat_res[OF assms] by (auto simp: op_step_def)

lemma drop_steps:
  assumes "drop_operations spec f = Inr ps" and sh: "net_shaped spec s"
  shows "op_step ps s t \<longleftrightarrow> message_dropped spec s t f"
proof -
  have dist: "distinct (var_names spec)" using sh by (simp add: net_shaped_def)
  from assms(1) obtain vs where "occupied_values spec f = Inr vs"
    by (auto simp: drop_operations_def and_then_Inr_iff)
  then obtain lo hi e0 where sl: "slot spec f lo hi e0" using occupied_values_Inr by blast
  from slot_value[OF sh sl] obtain x where x: "map_of s f = Some (VInt x)" by blast
  have "message_dropped spec s t f \<longleftrightarrow> occupied spec f x \<and> t = AList.update f (VInt e0) s"
    using x by (auto simp: message_dropped_def holds_message_def slot_iff[OF dist sl])
  then show ?thesis
    by (auto simp: op_step_def set_drop_operations[OF assms(1) dist sl] drop_operation_runs[OF x])
qed

lemma duplicate_steps:
  assumes "duplicate_into spec f g = Inr ps" and sh: "net_shaped spec s"
    and f: "slot spec f lo hi e0" and g: "slot spec g lo' hi' e1"
  shows "op_step ps s t \<longleftrightarrow> f \<noteq> g \<and> copied spec s t f g"
proof -
  have dist: "distinct (var_names spec)" using sh by (simp add: net_shaped_def)
  from slot_value[OF sh f] slot_value[OF sh g] obtain x y where
    xy: "map_of s f = Some (VInt x)" "map_of s g = Some (VInt y)" by blast
  have "copied spec s t f g \<longleftrightarrow> occupied spec f x \<and> y = e1 \<and> t = AList.update g (VInt x) s"
    using xy by (auto simp: copied_def holds_message_def slot_iff[OF dist g])
  moreover have "f \<noteq> g \<or> e0 = e1" using slot_unique[OF dist g, of lo hi e0] f by blast
  then have "f \<noteq> g" if "occupied spec f x" "y = e1"
    using that xy by (auto simp: occupied_def slot_iff[OF dist f])
  ultimately show ?thesis
    by (auto simp: op_step_def set_duplicate_into[OF assms(1) dist f g] duplicate_operation_runs[OF xy])
qed

lemma reorder_steps:
  assumes "reorder_operations spec f g = Inr ps" and sh: "net_shaped spec s"
    and f: "slot spec f lo hi e0" and g: "slot spec g lo' hi' e1"
  shows "op_step ps s t \<longleftrightarrow> f \<noteq> g \<and> swapped spec s t f g"
proof -
  have dist: "distinct (var_names spec)" using sh by (simp add: net_shaped_def)
  from slot_value[OF sh f] slot_value[OF sh g] obtain x y where
    xy: "map_of s f = Some (VInt x)" "map_of s g = Some (VInt y)" by blast
  note ops = set_reorder_operations[OF assms(1) dist f g]
  show ?thesis
  proof (cases "f = g")
    case True
    then have "set ps = {}" using ops reorder_operation_fields by (auto simp del: all_not_in_conv) blast
    with True show ?thesis by (simp add: op_step_def)
  next
    case False
    with xy show ?thesis
      by (auto simp: op_step_def swapped_def holds_message_def ops(1) reorder_operation_runs[OF xy])
  qed
qed

lemma loss_steps:
  assumes "concat_res (drop_operations spec) slots = Inr ps" and "net_shaped spec s"
  shows "op_step ps s t \<longleftrightarrow> lost spec slots s t"
proof -
  have "(\<exists>qs. drop_operations spec f = Inr qs \<and> op_step qs s t) \<longleftrightarrow> message_dropped spec s t f" if "f \<in> set slots" for f
  proof -
    from concat_res_Inr[OF assms(1) that] obtain qs where "drop_operations spec f = Inr qs" by blast
    with drop_steps[OF this assms(2)] show ?thesis by simp
  qed
  then show ?thesis by (simp add: op_step_concat[OF assms(1)] lost_def cong: bex_cong)
qed

lemma pair_steps:
  assumes "concat_res h (ordered_pairs slots) = Inr ps"
    and "\<And>f g qs. h (f, g) = Inr qs \<Longrightarrow> op_step qs s t \<longleftrightarrow> f \<noteq> g \<and> (R f g \<or> R g f)"
  shows "op_step ps s t \<longleftrightarrow> (\<exists>f \<in> set slots. \<exists>g \<in> set slots. f \<noteq> g \<and> R f g)"
proof
  assume "op_step ps s t"
  then obtain f g qs where fg: "(f, g) \<in> set (ordered_pairs slots)" "h (f, g) = Inr qs" "op_step qs s t"
    unfolding op_step_concat[OF assms(1)] by fast
  have "f \<noteq> g" and "R f g \<or> R g f" using assms(2)[OF fg(2)] fg(3) by simp_all
  moreover have "f \<in> set slots" "g \<in> set slots" using ordered_pairs_set[OF fg(1)] by simp_all
  ultimately show "\<exists>f \<in> set slots. \<exists>g \<in> set slots. f \<noteq> g \<and> R f g" by metis
next
  assume "\<exists>f \<in> set slots. \<exists>g \<in> set slots. f \<noteq> g \<and> R f g"
  then obtain f g where fg: "f \<in> set slots" "g \<in> set slots" "f \<noteq> g" "R f g" by blast
  have "op_step ps s t" if "(x, y) \<in> set (ordered_pairs slots)" "x \<noteq> y" "R x y \<or> R y x" for x y
  proof -
    from concat_res_Inr[OF assms(1) that(1)] obtain qs where qs: "h (x, y) = Inr qs" by blast
    with assms(2)[OF qs] that(2,3) have "op_step qs s t" by simp
    with that(1) qs show ?thesis unfolding op_step_concat[OF assms(1)] by metis
  qed
  with ordered_pairs_cover[OF fg(1-3)] fg(3,4) show "op_step ps s t" by metis
qed

lemma duplication_steps:
  assumes "concat_res (duplicate_both spec) (ordered_pairs slots) = Inr ps" and sh: "net_shaped spec s"
  shows "op_step ps s t \<longleftrightarrow> duplicated spec slots s t"
  unfolding duplicated_def
proof (rule pair_steps[OF assms(1)])
  fix f g ps assume "duplicate_both spec (f, g) = Inr ps"
  then obtain qs rs where
    ps: "duplicate_into spec f g = Inr qs" "duplicate_into spec g f = Inr rs" "ps = qs @ rs"
    by (auto simp: duplicate_both_def and_then_Inr_iff)
  then obtain vs ws where "occupied_values spec f = Inr vs" "occupied_values spec g = Inr ws"
    by (auto simp: duplicate_into_def and_then_Inr_iff)
  then obtain lo hi e0 lo' hi' e1 where fg: "slot spec f lo hi e0" "slot spec g lo' hi' e1"
    using occupied_values_Inr by meson
  show "op_step ps s t \<longleftrightarrow> f \<noteq> g \<and> (copied spec s t f g \<or> copied spec s t g f)"
    unfolding ps(3) op_step_append duplicate_steps[OF ps(1) sh fg] duplicate_steps[OF ps(2) sh fg(2,1)]
    by blast
qed

lemma swapped_sym:
  assumes "f \<noteq> g" and "net_shaped spec s" and "swapped spec s t g f"
  shows "swapped spec s t f g"
proof -
  from assms(3) obtain v w where vw: "holds_message spec s g v" "holds_message spec s f w"
    "t = AList.update f (VInt v) (AList.update g (VInt w) s)" by (auto simp: swapped_def)
  have keys: "g \<in> set (map fst s)" "f \<in> set (map fst s)" "distinct (map fst s)"
    using vw(1,2) assms(2) slot_value(2)[OF assms(2)] by (auto simp: holds_message_def occupied_def net_shaped_def)
  from update_commute[OF assms(1)[symmetric] keys] vw show ?thesis unfolding swapped_def by metis
qed

lemma reordering_steps:
  assumes "concat_res (\<lambda>(f, g). reorder_operations spec f g) (ordered_pairs slots) = Inr ps"
    and sh: "net_shaped spec s"
  shows "op_step ps s t \<longleftrightarrow> exchanged spec slots s t"
  unfolding exchanged_def
proof (rule pair_steps[OF assms(1)])
  fix f g qs assume "(\<lambda>(f, g). reorder_operations spec f g) (f, g) = Inr qs"
  then have qs: "reorder_operations spec f g = Inr qs" by simp
  then obtain vs ws where "occupied_values spec f = Inr vs" "occupied_values spec g = Inr ws"
    by (auto simp: reorder_operations_def and_then_Inr_iff)
  then obtain lo hi e0 lo' hi' e1 where fg: "slot spec f lo hi e0" "slot spec g lo' hi' e1"
    using occupied_values_Inr by meson
  show "op_step qs s t \<longleftrightarrow> f \<noteq> g \<and> (swapped spec s t f g \<or> swapped spec s t g f)"
    using reorder_steps[OF qs sh fg] swapped_sym[OF _ sh] by blast
qed

lemma bex_three:
  "(\<exists>x \<in> A. x = a \<and> P \<or> x = b \<and> Q \<or> x = c \<and> R) \<longleftrightarrow> a \<in> A \<and> P \<or> b \<in> A \<and> Q \<or> c \<in> A \<and> R"
  by blast

text \<open>C7: the operations that fault injection adds, together with the candidate's own, make exactly the steps
  of the unreliable network: in a state of the declared shape one of them leads to \<open>t\<close> if and only if an
  operation of the candidate does, or a chosen fault loses, duplicates or exchanges messages of the declared
  fields and leaves \<open>t\<close>.\<close>

theorem injection_is_network:
  assumes "inject_fault_actions spec faults slots = Inr fault_ops" and sh: "net_shaped spec s"
  shows "op_step (operations spec @ fault_ops) s t \<longleftrightarrow> network_step spec faults slots s t"
proof -
  have "op_step fault_ops s t \<longleftrightarrow> (\<exists>fault \<in> set faults. \<exists>qs. fault_actions spec slots fault = Inr qs \<and> op_step qs s t)"
    using assms(1) unfolding inject_fault_actions_def by (rule op_step_concat)
  also have "\<dots> \<longleftrightarrow> (''message_loss'' \<in> set faults \<and> lost spec slots s t) \<or>
      (''duplication'' \<in> set faults \<and> duplicated spec slots s t) \<or>
      (''reordering'' \<in> set faults \<and> exchanged spec slots s t)"
  proof -
    have ok: "\<exists>qs. fault_actions spec slots fault = Inr qs" if "fault \<in> set faults" for fault
      using concat_res_Inr[OF assms(1)[unfolded inject_fault_actions_def] that] .
    have one: "op_step qs s t \<longleftrightarrow> (fault = ''message_loss'' \<and> lost spec slots s t) \<or>
        (fault = ''duplication'' \<and> duplicated spec slots s t) \<or>
        (fault = ''reordering'' \<and> exchanged spec slots s t)"
      if "fault_actions spec slots fault = Inr qs" for fault qs
      using that loss_steps[OF _ sh] duplication_steps[OF _ sh] reordering_steps[OF _ sh]
      unfolding fault_actions_def by (auto split: if_splits simp: op_step_def)
    have "(\<exists>qs. fault_actions spec slots fault = Inr qs \<and> op_step qs s t) \<longleftrightarrow>
        (fault = ''message_loss'' \<and> lost spec slots s t) \<or>
        (fault = ''duplication'' \<and> duplicated spec slots s t) \<or>
        (fault = ''reordering'' \<and> exchanged spec slots s t)"
      if "fault \<in> set faults" for fault
      using ok[OF that] by (elim exE) (simp add: one)
    then show ?thesis by (simp only: bex_three cong: bex_cong)
  qed
  finally show ?thesis by (simp only: op_step_append network_step_iff)
qed

section \<open>What the exploration visits\<close>

definition safe_state :: "domain_spec \<Rightarrow> mstate \<Rightarrow> bool" where
  "safe_state spec t \<longleftrightarrow>
     (\<forall>i \<in> set (tlc_invariants spec). \<exists>v. evaluate_expression (inv_expression i) t = Inr v \<and> truthy v)"

lemma raised_Inr [simp]: "raised m = Inr x \<longleftrightarrow> m = Inr x"
  by (auto simp: raised_def split: sum.splits)

lemma raised_simp [simp]: "raised (Inr x) = Inr x"
  by (simp add: raised_def)

lemma check_successor_Inr [simp]: "check_successor spec p t = Inr u \<longleftrightarrow> safe_state spec t"
  by (simp add: check_successor_def safe_state_def and_then_Inr_iff)

lemma fault_successor_Inr:
  assumes "fault_successor spec s p (seen, q) = Inr (seen', q')"
  shows "seen' = seen \<and> q' = q \<and> (\<forall>t. \<not> op_step [p] s t) \<or>
     (\<exists>t. op_step [p] s t \<and> safe_state spec t \<and>
       (if freeze t \<in> set seen then seen' = seen \<and> q' = q else seen' = seen @ [freeze t] \<and> q' = q @ [t]))"
proof -
  from assms obtain b where b: "guards_hold p s = Inr b" by (auto simp: fault_successor_def and_then_Inr_iff)
  show ?thesis
  proof (cases b)
    case True
    with assms b obtain t where t: "apply_effects p s = Inr t"
      by (auto simp: fault_successor_def and_then_Inr_iff)
    with True assms b show ?thesis
      by (auto simp: fault_successor_def op_step_def and_then_Inr_iff split: if_splits)
  next
    case False
    with assms b show ?thesis by (auto simp: fault_successor_def op_step_def)
  qed
qed

text \<open>\<open>s\<close> has been taken from the queue and its operations \<open>ps\<close> have been tried.\<close>

definition searched :: "domain_spec \<Rightarrow> operation list \<Rightarrow> mstate \<Rightarrow> mstate set \<Rightarrow> mstate list \<Rightarrow> mstate list \<Rightarrow> bool" where
  "searched spec ops s0 P seen q \<longleftrightarrow>
     set seen = freeze ` (P \<union> set q) \<and> distinct seen \<and> s0 \<in> P \<union> set q \<and>
     (\<forall>x \<in> P \<union> set q. net_shaped spec x \<and> (op_step ops)\<^sup>*\<^sup>* s0 x)"

definition closed_for :: "domain_spec \<Rightarrow> operation list \<Rightarrow> mstate set \<Rightarrow> mstate set \<Rightarrow> bool" where
  "closed_for spec ops P Q \<longleftrightarrow> (\<forall>x \<in> P. \<forall>t. op_step ops x t \<longrightarrow> safe_state spec t \<and> t \<in> Q)"

definition keeps_shape :: "domain_spec \<Rightarrow> operation list \<Rightarrow> bool" where
  "keeps_shape spec ops \<longleftrightarrow> (\<forall>x t. net_shaped spec x \<longrightarrow> op_step ops x t \<longrightarrow> net_shaped spec t)"

lemma closed_for_mono: "closed_for spec ops P Q \<Longrightarrow> Q \<subseteq> Q' \<Longrightarrow> closed_for spec ops P Q'"
  by (auto simp: closed_for_def)

lemma net_shaped_inj:
  assumes "net_shaped spec s" and "net_shaped spec t" and "freeze s = freeze t"
  shows "s = t"
proof (rule alist_eq_iff)
  show keys: "map fst s = map fst t" and dist: "distinct (map fst s)"
    using assms by (auto simp: net_shaped_def)
  have "set s = set t" using assms(3) by (metis freeze_def set_sort)
  with keys dist show "map_of s = map_of t" by (metis map_of_inject_set)
qed

lemma op_step_Cons: "op_step (p # ps) s t \<longleftrightarrow> op_step [p] s t \<or> op_step ps s t"
  by (auto simp: op_step_def)

lemma fault_successor_searched:
  assumes ok: "fault_successor spec s p (seen, q) = Inr (seen', q')" and p: "p \<in> set ops"
    and inv: "searched spec ops s0 P seen q" and s: "s \<in> P"
    and pres: "keeps_shape spec ops"
  shows "searched spec ops s0 P seen' q'" and "set q \<subseteq> set q'"
    and "closed_for spec [p] {s} (P \<union> set q')"
    and "length seen' + length q = length seen + length q'" and "length seen \<le> length seen'"
proof -
  have step: "op_step ops x t" if "op_step [p] x t" for x t using that p by (auto simp: op_step_def)
  have sh: "net_shaped spec s" "(op_step ops)\<^sup>*\<^sup>* s0 s" using inv s by (auto simp: searched_def)
  have det: "op_step [p] s t \<Longrightarrow> op_step [p] s t' \<Longrightarrow> t' = t" for t t' by (auto simp: op_step_def)
  from fault_successor_Inr[OF ok] consider
      (off) "seen' = seen" "q' = q" "\<forall>t. \<not> op_step [p] s t"
    | (old) t where "op_step [p] s t" "safe_state spec t" "freeze t \<in> set seen" "seen' = seen" "q' = q"
    | (new) t where "op_step [p] s t" "safe_state spec t" "freeze t \<notin> set seen"
        "seen' = seen @ [freeze t]" "q' = q @ [t]"
    by (metis (no_types))
  then have "searched spec ops s0 P seen' q' \<and> set q \<subseteq> set q' \<and> closed_for spec [p] {s} (P \<union> set q') \<and>
    length seen' + length q = length seen + length q' \<and> length seen \<le> length seen'"
  proof cases
    case off
    with inv show ?thesis by (simp add: closed_for_def)
  next
    case old
    from pres sh(1) step[OF old(1)] have "net_shaped spec t" unfolding keeps_shape_def by blast
    moreover from old(3) inv obtain x where "x \<in> P \<union> set q" "freeze t = freeze x" "net_shaped spec x"
      unfolding searched_def by blast
    ultimately have "t \<in> P \<union> set q" using net_shaped_inj by metis
    with old inv det show ?thesis by (auto simp: closed_for_def)
  next
    case new
    from pres sh(1) step[OF new(1)] have t: "net_shaped spec t" unfolding keeps_shape_def by blast
    have "(op_step ops)\<^sup>*\<^sup>* s0 t" using sh(2) step[OF new(1)] by simp
    with new t inv det show ?thesis by (auto simp: searched_def closed_for_def)
  qed
  then show "searched spec ops s0 P seen' q'" and "set q \<subseteq> set q'"
    and "closed_for spec [p] {s} (P \<union> set q')"
    and "length seen' + length q = length seen + length q'" and "length seen \<le> length seen'" by blast+
qed

lemma expansion_searched:
  assumes "fold_res (fault_successor spec s) ps (seen, q) = Inr (seen', q')" and "set ps \<subseteq> set ops"
    and "searched spec ops s0 P seen q" and "s \<in> P"
    and pres: "keeps_shape spec ops"
  shows "searched spec ops s0 P seen' q' \<and> set q \<subseteq> set q' \<and> closed_for spec ps {s} (P \<union> set q') \<and>
    length seen' + length q = length seen + length q' \<and> length seen \<le> length seen'"
  using assms(1-4)
proof (induction ps arbitrary: seen q)
  case Nil
  then show ?case by (simp add: closed_for_def op_step_def)
next
  case (Cons p ps)
  from Cons.prems(1) obtain seen1 q1 where
    one: "fault_successor spec s p (seen, q) = Inr (seen1, q1)" and
    rest: "fold_res (fault_successor spec s) ps (seen1, q1) = Inr (seen', q')"
    by (auto simp: and_then_Inr_iff)
  have p: "p \<in> set ops" "set ps \<subseteq> set ops" using Cons.prems(2) by auto
  note h = fault_successor_searched[OF one p(1) Cons.prems(3,4) pres]
  have ih: "searched spec ops s0 P seen' q' \<and> set q1 \<subseteq> set q' \<and> closed_for spec ps {s} (P \<union> set q') \<and>
    length seen' + length q1 = length seen1 + length q' \<and> length seen1 \<le> length seen'"
    by (rule Cons.IH[OF rest p(2) h(1) Cons.prems(4)])
  moreover from ih have "closed_for spec [p] {s} (P \<union> set q')"
    by (intro closed_for_mono[OF h(3)]) blast
  ultimately have "closed_for spec (p # ps) {s} (P \<union> set q')"
    unfolding closed_for_def op_step_Cons[of p ps] by blast
  with ih h(2,4,5) show ?case by auto
qed

text \<open>The work loop keeps this of the states it has taken from the queue.\<close>

definition explored :: "domain_spec \<Rightarrow> operation list \<Rightarrow> mstate \<Rightarrow> mstate set \<Rightarrow> mstate list \<Rightarrow> mstate list \<Rightarrow> bool" where
  "explored spec ops s0 P seen q \<longleftrightarrow> searched spec ops s0 P seen q \<and> closed_for spec ops P (P \<union> set q)"

lemma explored_step:
  assumes inv: "explored spec ops s0 P seen q" and q: "q \<noteq> []"
    and ok: "fold_res (fault_successor spec (hd q)) ops (seen, tl q) = Inr (seen', q')"
    and pres: "keeps_shape spec ops"
  shows "explored spec ops s0 (insert (hd q) P) seen' q'"
    and "length seen' + length q = length seen + length q' + 1 \<and> length seen \<le> length seen'"
proof -
  obtain s r where sr: "q = s # r" using q by (cases q) auto
  have "searched spec ops s0 (insert s P) seen r"
    using inv sr by (auto simp: explored_def searched_def)
  note h = expansion_searched[OF ok[unfolded sr list.sel] subset_refl this insertI1 pres]
  from h have sq: "set r \<subseteq> set q'" and cl: "closed_for spec ops {s} (insert s P \<union> set q')"
    and se: "searched spec ops s0 (insert s P) seen' q'" by simp_all
  have "closed_for spec ops P (P \<union> set (s # r))" using inv sr by (simp add: explored_def)
  then have "closed_for spec ops P (insert s P \<union> set q')"
    by (rule closed_for_mono) (use sq in auto)
  with cl have "closed_for spec ops (insert s P) (insert s P \<union> set q')"
    by (simp add: closed_for_def)
  with se show "explored spec ops s0 (insert (hd q) P) seen' q'" by (simp add: explored_def sr)
  show "length seen' + length q = length seen + length q' + 1 \<and> length seen \<le> length seen'"
    using h sr by simp
qed

lemma fault_loop_explored:
  assumes ret: "fault_loop spec ops seen q = Some (Inr seen')" and "explored spec ops s0 P seen q"
    and pres: "keeps_shape spec ops"
  shows "\<exists>P. explored spec ops s0 P seen' []"
proof -
  let ?P = "\<lambda>spec' ops' seen q (r :: fault_stop + mstate list). spec' = spec \<longrightarrow> ops' = ops \<longrightarrow> r = Inr seen' \<longrightarrow>
    (\<forall>P. explored spec ops s0 P seen q \<longrightarrow> (\<exists>P. explored spec ops s0 P seen' []))"
  have "?P spec ops seen q (Inr seen')"
  proof (rule fault_loop.raw_induct[where P = ?P, OF _ ret], intro impI allI)
    fix f spec' ops' seen q r P
    assume IH: "\<And>spec' ops' seen q r. f spec' ops' seen q = Some r \<Longrightarrow> ?P spec' ops' seen q r"
      and eq: "(if q = [] then Some (Inr seen)
          else case fold_res (fault_successor spec' (hd q)) ops' (seen, tl q) of
            Inl stop \<Rightarrow> Some (Inl stop) | Inr acc \<Rightarrow> f spec' ops' (fst acc) (snd acc)) = Some r"
      and [simp]: "spec' = spec" "ops' = ops" "r = Inr seen'" and inv: "explored spec ops s0 P seen q"
    show "\<exists>P. explored spec ops s0 P seen' []"
    proof (cases "q = []")
      case True
      with eq inv show ?thesis by auto
    next
      case False
      with eq obtain seen1 q1 where
        ok: "fold_res (fault_successor spec (hd q)) ops (seen, tl q) = Inr (seen1, q1)" and
        rest: "f spec ops seen1 q1 = Some r"
        by (auto split: sum.splits)
      from IH[OF rest] explored_step(1)[OF inv False ok pres] show ?thesis by simp blast
    qed
  qed
  with assms(2) show ?thesis by blast
qed

text \<open>With finitely many reachable states the loop ends.\<close>

lemma fault_loop_returns:
  assumes "explored spec ops s0 P seen q" and pres: "keeps_shape spec ops"
    and fin: "finite {s. (op_step ops)\<^sup>*\<^sup>* s0 s}"
  shows "\<exists>r. fault_loop spec ops seen q = Some r"
  using assms(1)
proof (induction "2 * (card (freeze ` {s. (op_step ops)\<^sup>*\<^sup>* s0 s}) - length seen) + length q"
    arbitrary: P seen q rule: less_induct)
  case less
  have bound: "length seen \<le> card (freeze ` {s. (op_step ops)\<^sup>*\<^sup>* s0 s})"
    if "searched spec ops s0 P seen q" for P seen q
  proof -
    have "set seen \<subseteq> freeze ` {s. (op_step ops)\<^sup>*\<^sup>* s0 s}" using that by (auto simp: searched_def)
    from card_mono[OF finite_imageI[OF fin] this] show ?thesis
      using that distinct_card[of seen] by (simp add: searched_def)
  qed
  show ?case
  proof (cases "q = []")
    case True
    then show ?thesis by (simp add: fault_loop.simps)
  next
    case False
    show ?thesis
    proof (cases "fold_res (fault_successor spec (hd q)) ops (seen, tl q)")
      case (Inl stop)
      with False show ?thesis by (simp add: fault_loop.simps[of spec ops seen q])
    next
      case (Inr acc)
      obtain seen1 q1 where acc: "acc = (seen1, q1)" by (cases acc)
      note h = explored_step[OF less.prems False Inr[unfolded acc] pres]
      have "length seen1 \<le> card (freeze ` {s. (op_step ops)\<^sup>*\<^sup>* s0 s})"
        using bound h(1) by (auto simp: explored_def)
      with h(2) have "2 * (card (freeze ` {s. (op_step ops)\<^sup>*\<^sup>* s0 s}) - length seen1) + length q1
          < 2 * (card (freeze ` {s. (op_step ops)\<^sup>*\<^sup>* s0 s}) - length seen) + length q"
        by linarith
      from less.hyps[OF this h(1)] show ?thesis
        using False Inr acc by (simp add: fault_loop.simps[of spec ops seen q])
    qed
  qed
qed

section \<open>Safety of the network\<close>

lemma net_shaped_update:
  assumes sh: "net_shaped spec s" and "slot spec f lo hi e0"
  shows "net_shaped spec (AList.update f (VInt v) s)"
proof -
  have f: "f \<in> set (map fst s)" using slot_value(2)[OF assms] .
  from assms(2) obtain ts where i: "IntStateVariable f (lo, hi) e0 ts \<in> set (state_variables spec)"
    by (auto simp: slot_def)
  have "field_types spec f = Some Int_ty"
    using field_types_var[OF _ i] sh by (simp add: net_shaped_def)
  then show ?thesis using sh alist_update_keys[OF f] by (auto simp: net_shaped_def typed_state_def)
qed

lemma network_step_shaped:
  assumes sh: "net_shaped spec s" and wf: "wf_spec spec" and step: "network_step spec faults slots s t"
  shows "net_shaped spec t"
  using step
proof cases
  case (operate p)
  have p: "wf_operation spec p" using wf operate(1) by (simp add: wf_spec_def)
  then have "distinct (map effect_target (effects p))"
    "set (map effect_target (effects p)) \<subseteq> set (map fst s)"
    using sh by (auto simp: wf_operation_def net_shaped_def)
  from apply_effects_keys[OF operate(3) this] apply_effects_typed[OF p, of s] sh operate(3) show ?thesis
    by (auto simp: net_shaped_def)
next
  case lose
  then show ?thesis using net_shaped_update[OF sh] by (auto simp: lost_def message_dropped_def)
next
  case duplicate
  then show ?thesis using net_shaped_update[OF sh] by (auto simp: duplicated_def copied_def)
next
  case reorder
  then obtain f g v w lo hi e0 lo' hi' e1 where "slot spec f lo hi e0" "slot spec g lo' hi' e1"
    "t = AList.update g (VInt v) (AList.update f (VInt w) s)"
    by (auto simp: exchanged_def swapped_def holds_message_def occupied_def)
  then show ?thesis using net_shaped_update[OF net_shaped_update[OF sh]] by simp
qed

lemma injected_keep_shape:
  assumes "inject_fault_actions spec faults slots = Inr fault_ops" and "wf_spec spec"
  shows "keeps_shape spec (operations spec @ fault_ops)"
  using injection_is_network[OF assms(1)] network_step_shaped[OF _ assms(2)]
  by (simp add: keeps_shape_def)

lemma initial_fields_shaped: "wf_spec spec \<Longrightarrow> net_shaped spec (initial_fields spec)"
  using initial_fields_typed[of spec]
  by (auto simp: net_shaped_def wf_spec_def typed_state_def initial_fields_def comp_def)

lemma explored_initial:
  "wf_spec spec \<Longrightarrow> explored spec ops (initial_fields spec) {} [freeze (initial_fields spec)] [initial_fields spec]"
  using initial_fields_shaped[of spec] by (simp add: explored_def searched_def closed_for_def)

lemma reachable_network:
  assumes inj: "inject_fault_actions spec faults slots = Inr fault_ops" and wf: "wf_spec spec"
  shows "(op_step (operations spec @ fault_ops))\<^sup>*\<^sup>* (initial_fields spec) s
    \<longleftrightarrow> (network_step spec faults slots)\<^sup>*\<^sup>* (initial_fields spec) s"
proof -
  have "net_shaped spec s \<and> (network_step spec faults slots)\<^sup>*\<^sup>* (initial_fields spec) s"
    if "(op_step (operations spec @ fault_ops))\<^sup>*\<^sup>* (initial_fields spec) s" for s
    using that
  proof (induction rule: rtranclp_induct)
    case base
    then show ?case using initial_fields_shaped[OF wf] by simp
  next
    case (step y z)
    then have "network_step spec faults slots y z" using injection_is_network[OF inj] by blast
    with step network_step_shaped[OF _ wf] show ?case by (meson rtranclp.rtrancl_into_rtrancl)
  qed
  moreover have "net_shaped spec s \<and> (op_step (operations spec @ fault_ops))\<^sup>*\<^sup>* (initial_fields spec) s"
    if "(network_step spec faults slots)\<^sup>*\<^sup>* (initial_fields spec) s" for s
    using that
  proof (induction rule: rtranclp_induct)
    case base
    then show ?case using initial_fields_shaped[OF wf] by simp
  next
    case (step y z)
    then have "op_step (operations spec @ fault_ops) y z" using injection_is_network[OF inj] by blast
    with step network_step_shaped[OF _ wf] show ?case by (meson rtranclp.rtrancl_into_rtrancl)
  qed
  ultimately show ?thesis by blast
qed

lemma faulted_same [simp]:
  "net_shaped (spec\<lparr>operations := ops\<rparr>) s = net_shaped spec s"
  "safe_state (spec\<lparr>operations := ops\<rparr>) s = safe_state spec s"
  "initial_fields (spec\<lparr>operations := ops\<rparr>) = initial_fields spec"
  "keeps_shape (spec\<lparr>operations := ops\<rparr>) = keeps_shape spec"
  "explored (spec\<lparr>operations := ops\<rparr>) = explored spec"
proof -
  show sh: "net_shaped (spec\<lparr>operations := ops\<rparr>) s = net_shaped spec s" for s
    by (simp add: net_shaped_def field_types_def)
  show safe: "safe_state (spec\<lparr>operations := ops\<rparr>) s = safe_state spec s" for s
    by (simp add: safe_state_def)
  show "initial_fields (spec\<lparr>operations := ops\<rparr>) = initial_fields spec"
    by (simp add: initial_fields_def)
  show "keeps_shape (spec\<lparr>operations := ops\<rparr>) = keeps_shape spec"
    by (simp add: keeps_shape_def fun_eq_iff sh)
  show "explored (spec\<lparr>operations := ops\<rparr>) = explored spec"
    by (simp add: explored_def searched_def closed_for_def fun_eq_iff sh safe)
qed

lemma explored_all:
  assumes "explored spec ops s0 P seen []"
  shows "P = {s. (op_step ops)\<^sup>*\<^sup>* s0 s}"
proof
  show "P \<subseteq> {s. (op_step ops)\<^sup>*\<^sup>* s0 s}" using assms by (auto simp: explored_def searched_def)
  have "s \<in> P" if "(op_step ops)\<^sup>*\<^sup>* s0 s" for s
    using that by (induction rule: rtranclp_induct)
      (use assms in \<open>auto simp: explored_def searched_def closed_for_def\<close>)
  then show "{s. (op_step ops)\<^sup>*\<^sup>* s0 s} \<subseteq> P" by blast
qed

lemma explored_count:
  assumes "explored spec ops s0 P seen []"
  shows "length seen = card P"
proof -
  have "\<forall>x \<in> P. net_shaped spec x" using assms by (simp add: explored_def searched_def)
  then have "inj_on freeze P" unfolding inj_on_def using net_shaped_inj by blast
  then have "card (freeze ` P) = card P" by (rule card_image)
  then show ?thesis using assms distinct_card[of seen] by (simp add: explored_def searched_def)
qed

lemma distributed_provedD:
  assumes "verify_distributed is_file loaded faults slots = Some (Inr (Distributed_proved a b n k))"
  shows "\<exists>spec fault_ops seen. loaded = Inr spec \<and> inject_fault_actions spec faults slots = Inr fault_ops \<and>
    fault_loop (spec\<lparr>operations := operations spec @ fault_ops\<rparr>) (operations spec @ fault_ops)
      [freeze (initial_fields spec)] [initial_fields spec] = Some (Inr seen) \<and> k = length seen"
proof -
  have report: "fault_report x y m r = Inr (Distributed_proved a b n k) \<Longrightarrow> \<exists>seen. r = Inr seen \<and> k = length seen"
    for x y m r by (cases "(x, y, m, r)" rule: fault_report.cases) auto
  from assms show ?thesis
    by (auto simp: verify_distributed_def Let_def split: if_splits sum.splits dest!: report)
qed

text \<open>C6: when the fault-injected verification of an accepted domain reports success, every state that the
  machine can enter on a network that loses, duplicates and exchanges messages of the declared fields as the
  chosen faults allow satisfies every invariant, and the reported number of states is the number of reachable
  states.\<close>

theorem distributed_safety_sound:
  assumes "validate_spec cand = Inr spec"
    and "verify_distributed is_file (Inr spec) faults slots = Some (Inr (Distributed_proved a b n k))"
  shows "(\<forall>s t. (network_step spec faults slots)\<^sup>*\<^sup>* (initial_fields spec) s \<longrightarrow> network_step spec faults slots s t
      \<longrightarrow> (\<forall>i \<in> set (tlc_invariants spec). \<exists>v. evaluate_expression (inv_expression i) t = Inr v \<and> truthy v)) \<and>
    k = card {s. (network_step spec faults slots)\<^sup>*\<^sup>* (initial_fields spec) s}"
proof -
  have wf: "wf_spec spec" using validate_spec_wf[OF assms(1)] by simp
  from distributed_provedD[OF assms(2)] obtain fault_ops seen where
    inj: "inject_fault_actions spec faults slots = Inr fault_ops" and
    loop: "fault_loop (spec\<lparr>operations := operations spec @ fault_ops\<rparr>) (operations spec @ fault_ops)
      [freeze (initial_fields spec)] [initial_fields spec] = Some (Inr seen)" and k: "k = length seen" by auto
  let ?ops = "operations spec @ fault_ops"
  have keep: "keeps_shape (spec\<lparr>operations := ?ops\<rparr>) ?ops" using injected_keep_shape[OF inj wf] by simp
  have "explored (spec\<lparr>operations := ?ops\<rparr>) ?ops (initial_fields spec) {} [freeze (initial_fields spec)]
      [initial_fields spec]" using explored_initial[OF wf] by simp
  from fault_loop_explored[OF loop this keep] obtain P where
    P: "explored spec ?ops (initial_fields spec) P seen []" by auto
  have R: "P = {s. (network_step spec faults slots)\<^sup>*\<^sup>* (initial_fields spec) s}"
    using explored_all[OF P] reachable_network[OF inj wf] by simp
  have "safe_state spec t" if "s \<in> P" "network_step spec faults slots s t" for s t
  proof -
    have "net_shaped spec s" using P that(1) by (auto simp: explored_def searched_def)
    from injection_is_network[OF inj this] that(2) have "op_step ?ops s t" by blast
    with P that(1) show ?thesis by (auto simp: explored_def closed_for_def)
  qed
  moreover have "k = card P" using explored_count[OF P] k by simp
  ultimately show ?thesis unfolding R safe_state_def by blast
qed

section \<open>When the exploration ends\<close>

definition bounded_values :: "domain_spec \<Rightarrow> val set" where
  "bounded_values spec = VBool ` UNIV \<union> (\<Union>v \<in> set (state_variables spec).
     case v of IntStateVariable _ b _ _ \<Rightarrow> VInt ` {fst b..snd b} | BoolStateVariable _ _ \<Rightarrow> {})"

lemma finite_bounded_values: "finite (bounded_values spec)"
  by (auto simp: bounded_values_def split: state_variable.splits)

definition in_all_bounds :: "domain_spec \<Rightarrow> mstate \<Rightarrow> bool" where
  "in_all_bounds spec s \<longleftrightarrow> (\<forall>v \<in> set (state_variables spec).
     case map_of s (var_name v) of None \<Rightarrow> False | Some x \<Rightarrow> in_bounds v x)"

lemma in_bounds_value: "in_bounds v x \<Longrightarrow> v \<in> set (state_variables spec) \<Longrightarrow> x \<in> bounded_values spec"
  by (cases "(v, x)" rule: in_bounds.cases) (force simp: bounded_values_def)+

lemma finite_bounded_states: "finite {s. net_shaped spec s \<and> in_all_bounds spec s}"
proof (rule finite_subset)
  let ?A = "set (var_names spec) \<times> bounded_values spec"
  show "finite {s. set s \<subseteq> ?A \<and> length s = length (state_variables spec)}"
    by (intro finite_lists_length_eq finite_cartesian_product finite_bounded_values) simp
  show "{s. net_shaped spec s \<and> in_all_bounds spec s} \<subseteq> {s. set s \<subseteq> ?A \<and> length s = length (state_variables spec)}"
  proof clarify
    fix s assume s: "net_shaped spec s" "in_all_bounds spec s"
    then have keys: "map fst s = var_names spec" "distinct (map fst s)" by (auto simp: net_shaped_def)
    have "length s = length (state_variables spec)" using arg_cong[OF keys(1), of length] by simp
    moreover have "(n, x) \<in> ?A" if "(n, x) \<in> set s" for n x
    proof -
      have "n \<in> set (map fst s)" using that by force
      then obtain v where v: "v \<in> set (state_variables spec)" "n = var_name v" unfolding keys by auto
      moreover have "map_of s n = Some x" using keys(2) that by simp
      ultimately have "in_bounds v x" using s(2) by (auto simp: in_all_bounds_def)
      with v show ?thesis using in_bounds_value[of v x spec] by auto
    qed
    ultimately show "set s \<subseteq> ?A \<and> length s = length (state_variables spec)" by auto
  qed
qed

text \<open>C18: the exploration has no budget, but it ends: when every state that the machine can reach on the
  unreliable network keeps every field within its declared bounds, the verification of an accepted domain
  returns a verdict or an error.\<close>

theorem distributed_verification_ends:
  assumes "validate_spec cand = Inr spec"
    and "\<forall>s. (network_step spec faults slots)\<^sup>*\<^sup>* (initial_fields spec) s \<longrightarrow> in_all_bounds spec s"
  shows "\<exists>r. verify_distributed is_file (Inr spec) faults slots = Some r"
proof (cases "inject_fault_actions spec faults slots")
  case (Inl e)
  then show ?thesis by (simp add: verify_distributed_def Let_def)
next
  case (Inr fault_ops)
  let ?ops = "operations spec @ fault_ops"
  have wf: "wf_spec spec" using validate_spec_wf[OF assms(1)] by simp
  have keep: "keeps_shape spec ?ops" using injected_keep_shape[OF Inr wf] .
  have "net_shaped spec s" if "(op_step ?ops)\<^sup>*\<^sup>* (initial_fields spec) s" for s
    using that by (induction rule: rtranclp_induct)
      (use initial_fields_shaped[OF wf] keep in \<open>auto simp: keeps_shape_def\<close>)
  then have "{s. (op_step ?ops)\<^sup>*\<^sup>* (initial_fields spec) s} \<subseteq> {s. net_shaped spec s \<and> in_all_bounds spec s}"
    using assms(2) unfolding reachable_network[OF Inr wf] by blast
  then have "finite {s. (op_step ?ops)\<^sup>*\<^sup>* (initial_fields spec) s}"
    using finite_bounded_states finite_subset by blast
  then obtain r where "fault_loop (spec\<lparr>operations := ?ops\<rparr>) ?ops [freeze (initial_fields spec)]
      [initial_fields spec] = Some r"
    using fault_loop_returns[of "spec\<lparr>operations := ?ops\<rparr>" ?ops "initial_fields spec"] explored_initial[OF wf] keep
    by simp metis
  with Inr show ?thesis by (simp add: verify_distributed_def Let_def)
qed

section \<open>Two channels, an unguarded counter and an unchecked initial state\<close>

definition net_spec :: "state_variable list \<Rightarrow> operation list \<Rightarrow> invariant list \<Rightarrow> domain_spec" where
  "net_spec vs ps is = \<lparr>
     review_status = Reviewed, domain_name = ''Channel'', module_ident = ''channel'', actors = 2,
     execution_model = Some Async_message_passing, concurrency = None, capacity_bound = None,
     hardware_safe_capacity = None, pool_counter = None, hardware_profile_sha256 = None,
     hardware_proof_sha256 = None, struct_size_bytes = None,
     state_variables = vs, operations = ps, tlc_invariants = is\<rparr>"

definition channel_spec :: domain_spec where
  "channel_spec = net_spec
     [IntStateVariable ''data'' (0, 1) 0 None, IntStateVariable ''ack'' (0, 1) 0 None]
     [fault_operation ''send'' [\<lparr>guard_id = ''g'', guard_expression = eq_literal ''data'' 0\<rparr>]
        [\<lparr>effect_id = ''e'', effect_target = ''data'', effect_value = IntegerExpr 1\<rparr>] [''data'']]
     [\<lparr>inv_id = ''ackBound'', inv_expression = BinaryExpr K_lte (FieldExpr ''ack'') (IntegerExpr 1)\<rparr>]"

definition counter_spec :: domain_spec where
  "counter_spec = net_spec [IntStateVariable ''sent'' (0, 2) 0 None]
     [fault_operation ''send'' []
        [\<lparr>effect_id = ''e'', effect_target = ''sent'', effect_value = BinaryExpr K_add (FieldExpr ''sent'') (IntegerExpr 1)\<rparr>]
        [''sent'']]
     [\<lparr>inv_id = ''counts'', inv_expression = BinaryExpr K_gte (FieldExpr ''sent'') (IntegerExpr 0)\<rparr>]"

definition unsafe_start_spec :: domain_spec where
  "unsafe_start_spec = net_spec [IntStateVariable ''sent'' (0, 1) 0 None]
     [fault_operation ''send'' [] [\<lparr>effect_id = ''e'', effect_target = ''sent'', effect_value = IntegerExpr 1\<rparr>] [''sent'']]
     [\<lparr>inv_id = ''positive'', inv_expression = BinaryExpr K_gt (FieldExpr ''sent'') (IntegerExpr 0)\<rparr>]"

lemma channel_accepted: "validate_spec channel_spec = Inr channel_spec" by code_simp

definition channel_send :: operation where
  "channel_send = fault_operation ''send'' [\<lparr>guard_id = ''g'', guard_expression = eq_literal ''data'' 0\<rparr>]
     [\<lparr>effect_id = ''e'', effect_target = ''data'', effect_value = IntegerExpr 1\<rparr>] [''data'']"

definition channel_state :: "int \<Rightarrow> mstate" where
  "channel_state d = [(''data'', VInt d), (''ack'', VInt 0)]"

lemma channel_injected:
  "inject_fault_actions channel_spec [''message_loss''] [''data''] = Inr [drop_operation ''data'' 1 0]"
  by code_simp

lemma channel_parts:
  "operations channel_spec = [channel_send]" "initial_fields channel_spec = channel_state 0"
  by code_simp+

lemma channel_moves:
  "guards_hold channel_send (channel_state 0) = Inr True"
  "guards_hold channel_send (channel_state 1) = Inr False"
  "apply_effects channel_send (channel_state 0) = Inr (channel_state 1)"
  "guards_hold (drop_operation ''data'' 1 0) (channel_state 0) = Inr False"
  "guards_hold (drop_operation ''data'' 1 0) (channel_state 1) = Inr True"
  "apply_effects (drop_operation ''data'' 1 0) (channel_state 1) = Inr (channel_state 0)"
  by code_simp+

lemma channel_frozen:
  "freeze (channel_state 0) = [(''ack'', VInt 0), (''data'', VInt 0)]"
  "freeze (channel_state 1) = [(''ack'', VInt 0), (''data'', VInt 1)]"
  by code_simp+

lemma channel_safe:
  "check_successor (channel_spec\<lparr>operations := ps\<rparr>) p (channel_state d) = Inr ()"
  by (simp add: channel_spec_def net_spec_def channel_state_def binary_op_def safe_state_def)

lemma channel_loop:
  "fault_loop (channel_spec\<lparr>operations := ps\<rparr>) [channel_send, drop_operation ''data'' 1 0]
     [freeze (channel_state 0)] [channel_state 0] = Some (Inr [freeze (channel_state 0), freeze (channel_state 1)])"
  by (simp add: fault_loop.simps fault_successor_def channel_moves channel_safe channel_frozen)

lemma channel_verified:
  "verify_distributed True (Inr channel_spec) [''message_loss''] [''data''] =
     Some (Inr (Distributed_proved [''message_loss''] [''data''] 1 2))"
proof -
  have size: "state_space_upper_bound (channel_spec\<lparr>operations := ps\<rparr>) = 4"
    if "ps = [channel_send, drop_operation ''data'' 1 0]" for ps
    using that by (simp add: state_space_upper_bound_def channel_spec_def net_spec_def channel_send_def drop_operation_def)
  have known: "''message_loss'' \<in> set known_faults" "execution_model channel_spec = Some Async_message_passing"
    "''data'' \<in> var_name ` set (state_variables channel_spec)"
    by (simp_all add: known_faults_def channel_spec_def net_spec_def)
  show ?thesis
    by (simp add: verify_distributed_def known channel_injected channel_parts size max_state_space_def channel_loop Let_def)
qed

lemma channel_bounds:
  "in_all_bounds channel_spec (channel_state 0)" "in_all_bounds channel_spec (channel_state 1)"
  by code_simp+

lemma channel_shaped: "d \<in> {0, 1} \<Longrightarrow> net_shaped channel_spec (channel_state d)"
proof -
  have "wf_spec channel_spec" using validate_spec_wf[OF channel_accepted] by simp
  from initial_fields_shaped[OF this] have s0: "net_shaped channel_spec (channel_state 0)"
    by (simp add: channel_parts)
  have "slot channel_spec ''data'' 0 1 0" by (simp add: slot_def channel_spec_def net_spec_def)
  from net_shaped_update[OF s0 this, of 1] have "net_shaped channel_spec (channel_state 1)"
    by (simp add: channel_state_def)
  with s0 show "d \<in> {0, 1} \<Longrightarrow> net_shaped channel_spec (channel_state d)" by auto
qed

lemma channel_closed:
  assumes "(network_step channel_spec [''message_loss''] [''data''])\<^sup>*\<^sup>* (channel_state 0) s"
  shows "s \<in> {channel_state 0, channel_state 1}"
  using assms
proof (induction rule: rtranclp_induct)
  case (step y z)
  then have "net_shaped channel_spec y" using channel_shaped by auto
  from step(2) injection_is_network[OF channel_injected this, of z]
  have "op_step [channel_send, drop_operation ''data'' 1 0] y z" by (simp add: channel_parts)
  with step(3) show ?case by (auto simp: op_step_def channel_moves)
qed simp

lemma injection_is_network_witness:
  "network_step channel_spec [''message_loss''] [''data''] (channel_state 1) (channel_state 0)"
  using injection_is_network[OF channel_injected channel_shaped[of 1], of "channel_state 0"]
  by (simp add: channel_parts op_step_def channel_moves)

lemma distributed_safety_sound_witness:
  "(\<exists>v. evaluate_expression (BinaryExpr K_lte (FieldExpr ''ack'') (IntegerExpr 1)) (channel_state 1) = Inr v \<and> truthy v) \<and>
   card {s. (network_step channel_spec [''message_loss''] [''data''])\<^sup>*\<^sup>* (channel_state 0) s} = 2"
proof -
  note safe = distributed_safety_sound[OF channel_accepted channel_verified, unfolded channel_parts]
  have "network_step channel_spec [''message_loss''] [''data''] (channel_state 0) (channel_state 1)"
    by (rule network_step.operate[of channel_send]) (simp_all add: channel_parts channel_moves)
  moreover have "\<lparr>inv_id = ''ackBound'', inv_expression = BinaryExpr K_lte (FieldExpr ''ack'') (IntegerExpr 1)\<rparr>
      \<in> set (tlc_invariants channel_spec)" by (simp add: channel_spec_def net_spec_def)
  ultimately have "\<exists>v. evaluate_expression (inv_expression \<lparr>inv_id = ''ackBound'',
      inv_expression = BinaryExpr K_lte (FieldExpr ''ack'') (IntegerExpr 1)\<rparr>) (channel_state 1) = Inr v \<and> truthy v"
    using safe by blast
  with safe show ?thesis by simp
qed

lemma distributed_verification_ends_witness:
  "\<exists>r. verify_distributed True (Inr channel_spec) [''message_loss''] [''data''] = Some r"
  by (rule distributed_verification_ends[OF channel_accepted])
     (use channel_closed channel_bounds in \<open>auto simp: channel_parts\<close>)

definition counter_send :: operation where
  "counter_send = fault_operation ''send'' [] [\<lparr>effect_id = ''e'', effect_target = ''sent'',
     effect_value = BinaryExpr K_add (FieldExpr ''sent'') (IntegerExpr 1)\<rparr>] [''sent'']"

lemma counter_moves:
  "guards_hold counter_send s = Inr True"
  "apply_effects counter_send [(''sent'', VInt n)] = Inr [(''sent'', VInt (n + 1))]"
  "freeze [(''sent'', VInt n)] = [(''sent'', VInt n)]"
  "check_successor (counter_spec\<lparr>operations := ps\<rparr>) p [(''sent'', VInt n)]
     = (if 0 \<le> n then Inr () else Inl (Fault_violated ''counts'' (op_name p) [(''sent'', VInt n)]))"
  by (simp_all add: counter_send_def guards_hold_def apply_effects_def freeze_def check_successor_def
      counter_spec_def net_spec_def binary_op_def)

text \<open>The fields are never compared with their declared bounds: a counter without a guard is followed for ever.\<close>

lemma counter_loop_diverges:
  assumes ret: "fault_loop (counter_spec\<lparr>operations := [counter_send]\<rparr>) [counter_send] seen q = Some r"
    and "0 \<le> n" and "q = [[(''sent'', VInt n)]]" and "\<forall>m > n. [(''sent'', VInt m)] \<notin> set seen"
  shows False
proof -
  let ?P = "\<lambda>spec ops seen q (r :: fault_stop + mstate list).
    spec = counter_spec\<lparr>operations := [counter_send]\<rparr> \<longrightarrow> ops = [counter_send] \<longrightarrow>
    (\<forall>n \<ge> 0. q = [[(''sent'', VInt n)]] \<longrightarrow> (\<exists>m > n. [(''sent'', VInt m)] \<in> set seen))"
  have "?P (counter_spec\<lparr>operations := [counter_send]\<rparr>) [counter_send] seen q r"
  proof (rule fault_loop.raw_induct[where P = ?P, OF _ ret], intro impI allI)
    fix f spec ops seen q n and r :: "fault_stop + mstate list"
    assume IH: "\<And>spec ops seen q r. f spec ops seen q = Some r \<Longrightarrow> ?P spec ops seen q r"
      and eq: "(if q = [] then Some (Inr seen)
          else case fold_res (fault_successor spec (hd q)) ops (seen, tl q) of
            Inl stop \<Rightarrow> Some (Inl stop) | Inr acc \<Rightarrow> f spec ops (fst acc) (snd acc)) = Some r"
      and [simp]: "spec = counter_spec\<lparr>operations := [counter_send]\<rparr>" "ops = [counter_send]"
        "q = [[(''sent'', VInt n)]]" and n: "0 \<le> n"
    show "\<exists>m > n. [(''sent'', VInt m)] \<in> set seen"
    proof (rule ccontr)
      assume new: "\<not> (\<exists>m > n. [(''sent'', VInt m)] \<in> set seen)"
      then have fresh: "[(''sent'', VInt (n + 1))] \<notin> set seen" by auto
      with eq n have "f spec ops (seen @ [[(''sent'', VInt (n + 1))]]) [[(''sent'', VInt (n + 1))]] = Some r"
        by (simp add: fault_successor_def counter_moves)
      from IH[OF this] n obtain m where "n + 1 < m" "[(''sent'', VInt m)] \<in> set seen \<or> m = n + 1" by force
      with new show False by auto
    qed
  qed
  with assms show False by blast
qed

text \<open>C19: verification need not end: for an accepted domain with a counter that is incremented without a guard
  it never returns, although the declared bounds leave three states.\<close>

theorem distributed_verification_diverges:
  "validate_spec counter_spec = Inr counter_spec \<and> state_space_upper_bound counter_spec = 3 \<and>
   verify_distributed True (Inr counter_spec) [] [] = None"
proof (intro conjI)
  show "validate_spec counter_spec = Inr counter_spec" by code_simp
  have ops: "operations counter_spec = [counter_send]"
    by (simp add: counter_spec_def net_spec_def counter_send_def)
  have size: "state_space_upper_bound (counter_spec\<lparr>operations := [counter_send]\<rparr>) = 3"
    by (simp add: state_space_upper_bound_def counter_spec_def net_spec_def counter_send_def)
  moreover have same: "counter_spec\<lparr>operations := [counter_send]\<rparr> = counter_spec" using ops by simp
  ultimately show "state_space_upper_bound counter_spec = 3" by simp
  have start: "initial_fields counter_spec = [(''sent'', VInt 0)]"
    by (simp add: initial_fields_def counter_spec_def net_spec_def)
  have "fault_loop (counter_spec\<lparr>operations := [counter_send]\<rparr>) [counter_send]
      [freeze [(''sent'', VInt 0)]] [[(''sent'', VInt 0)]] = None" (is "?loop = None")
  proof (cases ?loop)
    case (Some r)
    from counter_loop_diverges[OF this, of 0] show ?thesis by (simp add: counter_moves)
  qed
  then show "verify_distributed True (Inr counter_spec) [] [] = None"
    using size by (simp add: verify_distributed_def inject_fault_actions_def concat_res_def ops start
        max_state_space_def Let_def) (simp add: counter_spec_def net_spec_def)
qed

definition start_send :: operation where
  "start_send = fault_operation ''send'' []
     [\<lparr>effect_id = ''e'', effect_target = ''sent'', effect_value = IntegerExpr 1\<rparr>] [''sent'']"

lemma start_moves:
  "guards_hold start_send s = Inr True"
  "apply_effects start_send [(''sent'', VInt n)] = Inr [(''sent'', VInt 1)]"
  "freeze [(''sent'', VInt n)] = [(''sent'', VInt n)]"
  "check_successor (unsafe_start_spec\<lparr>operations := ps\<rparr>) p [(''sent'', VInt 1)] = Inr ()"
  by (simp_all add: start_send_def guards_hold_def apply_effects_def freeze_def safe_state_def
      unsafe_start_spec_def net_spec_def binary_op_def)

text \<open>The work loop checks the invariants of successors only: a domain whose initial state violates its
  invariant is reported as proved.\<close>

lemma unsafe_start_proved:
  "validate_spec unsafe_start_spec = Inr unsafe_start_spec"
  "verify_distributed True (Inr unsafe_start_spec) [] [] = Some (Inr (Distributed_proved [] [] 0 2))"
  "evaluate_expression (inv_expression (hd (tlc_invariants unsafe_start_spec))) (initial_fields unsafe_start_spec)
     = Inr (VBool False)"
proof -
  show "validate_spec unsafe_start_spec = Inr unsafe_start_spec" by code_simp
  have ops: "operations unsafe_start_spec = [start_send]"
    by (simp add: unsafe_start_spec_def net_spec_def start_send_def)
  have size: "state_space_upper_bound (unsafe_start_spec\<lparr>operations := [start_send]\<rparr>) = 2"
    by (simp add: state_space_upper_bound_def unsafe_start_spec_def net_spec_def start_send_def)
  have start: "initial_fields unsafe_start_spec = [(''sent'', VInt 0)]"
    by (simp add: initial_fields_def unsafe_start_spec_def net_spec_def)
  then show "evaluate_expression (inv_expression (hd (tlc_invariants unsafe_start_spec))) (initial_fields unsafe_start_spec)
      = Inr (VBool False)"
    by (simp add: unsafe_start_spec_def net_spec_def binary_op_def)
  have "fault_loop (unsafe_start_spec\<lparr>operations := [start_send]\<rparr>) [start_send]
      [freeze [(''sent'', VInt 0)]] [[(''sent'', VInt 0)]] = Some (Inr [[(''sent'', VInt 0)], [(''sent'', VInt 1)]])"
    by (simp add: fault_loop.simps fault_successor_def start_moves)
  then show "verify_distributed True (Inr unsafe_start_spec) [] [] = Some (Inr (Distributed_proved [] [] 0 2))"
    using size by (simp add: verify_distributed_def inject_fault_actions_def concat_res_def ops start
        max_state_space_def Let_def) (simp add: unsafe_start_spec_def net_spec_def)
qed

end
