(* ===== verification/Json.thy ===== *)
theory Json
  imports Prelude
begin

text \<open>
  JSON values as the services store and hash them, and the canonical encoding
  \<^verbatim>\<open>_canonical_bytes\<close> of \<^verbatim>\<open>pipeline/a2a_coordination.py\<close> (the same
  function as \<^verbatim>\<open>canonical_bytes\<close> of \<^verbatim>\<open>pipeline/agentic/contracts.py\<close>):
  \<^verbatim>\<open>json.dumps\<close> with sorted keys, compact separators and no ASCII escaping.  Python
  dictionaries are association lists; strings are character lists (codes below 256).  The
  encoding is shown injective on values with sorted keys, so that equal digests mean equal
  values or a collision of SHA-256, which is a parameter of the model.
\<close>

datatype json =
    JNull
  | JBool bool
  | JInt int
  | JStr string
  | JArr "json list"
  | JObj "(string \<times> json) list"

type_synonym dict = "(string \<times> json) list"

text \<open>
  Exceptions of the coordination and supervision services: their own errors with the code that
  callers dispatch on, and the built-in exceptions the code can let escape.
\<close>

datatype service_error =
    A2ACoordinationError string string
  | AgentRunError string string
  | MCPPolicyViolation string
  | PyValueError string
  | PyKeyError string
  | PyTypeError
  | PyAttributeError
  | PyFileExistsError
  | PyJSONDecodeError
  | PyException string

section \<open>Dictionaries\<close>

text \<open>\<open>d.get(k)\<close>, with \<open>None\<close> for a missing key as Python has it.\<close>

definition get_field :: "string \<Rightarrow> dict \<Rightarrow> json" where
  "get_field k d = (case map_of d k of None \<Rightarrow> JNull | Some v \<Rightarrow> v)"

definition get_default :: "string \<Rightarrow> json \<Rightarrow> dict \<Rightarrow> json" where
  "get_default k v d = (case map_of d k of None \<Rightarrow> v | Some w \<Rightarrow> w)"

fun update_fields :: "dict \<Rightarrow> dict \<Rightarrow> dict" where
  "update_fields d [] = d"
| "update_fields d ((k, v) # kvs) = update_fields (AList.update k v d) kvs"

definition set_default :: "string \<Rightarrow> json \<Rightarrow> dict \<Rightarrow> dict" where
  "set_default k v d = (if map_of d k = None then AList.update k v d else d)"

text \<open>Truth value of a JSON value (\<open>bool(value)\<close>).\<close>

fun json_true :: "json \<Rightarrow> bool" where
  "json_true JNull = False"
| "json_true (JBool b) = b"
| "json_true (JInt i) = (i \<noteq> 0)"
| "json_true (JStr s) = (s \<noteq> [])"
| "json_true (JArr xs) = (xs \<noteq> [])"
| "json_true (JObj kvs) = (kvs \<noteq> [])"

text \<open>\<open>str(value)\<close>; \<open>repr\<close> stands for the text of values that are not strings.\<close>

fun py_str :: "(json \<Rightarrow> string) \<Rightarrow> json \<Rightarrow> string" where
  "py_str repr (JStr s) = s"
| "py_str repr j = repr j"

text \<open>Typed reading of a value, as the typed contracts decode them.\<close>

fun as_str :: "json \<Rightarrow> service_error + string" where
  "as_str (JStr s) = Inr s"
| "as_str _ = Inl PyTypeError"

fun as_int :: "json \<Rightarrow> service_error + int" where
  "as_int (JInt i) = Inr i"
| "as_int (JBool b) = Inr (if b then 1 else 0)"
| "as_int _ = Inl PyTypeError"

fun as_list :: "json \<Rightarrow> service_error + json list" where
  "as_list (JArr xs) = Inr xs"
| "as_list _ = Inl PyTypeError"

fun as_dict :: "json \<Rightarrow> service_error + dict" where
  "as_dict (JObj d) = Inr d"
| "as_dict _ = Inl PyAttributeError"

definition as_strings :: "json \<Rightarrow> service_error + string list" where
  "as_strings j = and_then (as_list j) (map_res as_str)"

definition as_ints :: "json \<Rightarrow> service_error + (string \<times> int) list" where
  "as_ints j = and_then (as_dict j) (map_res (\<lambda>(k, v). and_then (as_int v) (\<lambda>i. Inr (k, i))))"

definition as_str_pairs :: "json \<Rightarrow> service_error + (string \<times> string) list" where
  "as_str_pairs j = and_then (as_dict j) (map_res (\<lambda>(k, v). and_then (as_str v) (\<lambda>s. Inr (k, s))))"

definition as_optional :: "json \<Rightarrow> service_error + string option" where
  "as_optional j = (if j = JNull then Inr None else and_then (as_str j) (\<lambda>s. Inr (Some s)))"

text \<open>\<open>d[k]\<close>.\<close>

definition dict_item :: "string \<Rightarrow> dict \<Rightarrow> service_error + json" where
  "dict_item k d = (case map_of d k of None \<Rightarrow> Inl (PyKeyError k) | Some v \<Rightarrow> Inr v)"

definition jstrings :: "string list \<Rightarrow> json" where
  "jstrings xs = JArr (map JStr xs)"

lemma as_strings_jstrings [simp]: "as_strings (jstrings xs) = Inr xs"
  by (induction xs) (simp_all add: as_strings_def jstrings_def)

lemma get_field_update [simp]:
  "get_field k (AList.update k' v d) = (if k = k' then v else get_field k d)"
  by (simp add: get_field_def)

lemma get_default_update [simp]:
  "get_default k w (AList.update k' v d) = (if k = k' then v else get_default k w d)"
  by (simp add: get_default_def)

lemma get_default_present: "get_field k r \<noteq> JNull \<Longrightarrow> get_default k v r = get_field k r"
  by (simp add: get_field_def get_default_def split: option.splits)

lemma map_of_update_fields: "map_of (update_fields d kvs) = map_of d ++ map_of (rev kvs)"
  by (induction d kvs rule: update_fields.induct)
     (auto simp: fun_eq_iff map_add_def split: option.splits)

lemma get_field_Cons [simp]:
  "get_field k ((k', v) # d) = (if k = k' then v else get_field k d)"
  by (simp add: get_field_def)

lemma get_field_Nil [simp]: "get_field k [] = JNull"
  by (simp add: get_field_def)

section \<open>Canonical encoding\<close>

definition hexdig :: "nat \<Rightarrow> char" where
  "hexdig n = (if n < 10 then char_of (48 + n) else char_of (87 + n))"

definition esc :: "char \<Rightarrow> string" where
  "esc c = (let n = of_char c :: nat in
     if c = CHR 0x22 \<or> n = 92 then bs @ [c]
     else if n = 10 then bs @ ''n''
     else if n = 13 then bs @ ''r''
     else if n = 9 then bs @ ''t''
     else if n = 8 then bs @ ''b''
     else if n = 12 then bs @ ''f''
     else if n < 32 then bs @ ''u00'' @ [hexdig (n div 16), hexdig (n mod 16)]
     else [c])"

definition quote :: "string \<Rightarrow> string" where
  "quote s = CHR 0x22 # concat (map esc s) @ [CHR 0x22]"

fun render :: "json \<Rightarrow> string" where
  "render JNull = ''null''"
| "render (JBool b) = (if b then ''true'' else ''false'')"
| "render (JInt i) = str_of_int i"
| "render (JStr s) = quote s"
| "render (JArr xs) = ''['' @ join '','' (map render xs) @ '']''"
| "render (JObj kvs) = ''{'' @ join '','' (map (\<lambda>(k, v). quote k @ '':'' @ render v) kvs) @ ''}''"

fun sort_keys :: "json \<Rightarrow> json" where
  "sort_keys (JArr xs) = JArr (map sort_keys xs)"
| "sort_keys (JObj kvs) = JObj (sort_key fst (map (\<lambda>(k, v). (k, sort_keys v)) kvs))"
| "sort_keys j = j"

definition canonical_bytes :: "json \<Rightarrow> string" where
  "canonical_bytes value = render (sort_keys value)"

text \<open>The digest of a value; \<open>sha\<close> is the hexadecimal SHA-256 of the UTF-8 encoding.\<close>

definition digest :: "(string \<Rightarrow> string) \<Rightarrow> json \<Rightarrow> string" where
  "digest sha value = sha (canonical_bytes value)"

definition collision :: "(string \<Rightarrow> string) \<Rightarrow> bool" where
  "collision sha \<longleftrightarrow> (\<exists>x y. x \<noteq> y \<and> sha x = sha y)"

section \<open>Indented encoding\<close>

text \<open>The bytes of \<^verbatim>\<open>json.dumps(value, indent=2, sort_keys=True, ensure_ascii=False)\<close>.\<close>

definition pad :: "nat \<Rightarrow> string" where
  "pad n = nl @ replicate n (CHR '' '')"

fun pretty :: "nat \<Rightarrow> json \<Rightarrow> string" where
  "pretty n (JArr xs) = (if xs = [] then ''[]'' else
     ''['' @ pad (n + 2) @ join ('','' @ pad (n + 2)) (map (pretty (n + 2)) xs) @ pad n @ '']'')"
| "pretty n (JObj kvs) = (if kvs = [] then CHR ''{'' # ''}'' else
     ''{'' @ pad (n + 2) @ join ('','' @ pad (n + 2)) (map (\<lambda>(k, v). quote k @ '': '' @ pretty (n + 2) v) kvs)
       @ pad n @ ''}'')"
| "pretty n j = render j"

definition utf8 :: "string \<Rightarrow> string" where
  "utf8 s = concat (map (\<lambda>c. let n = of_char c :: nat in
     if n < 128 then [c] else [char_of (192 + n div 64), char_of (128 + n mod 64)]) s)"

definition dumps_indent :: "dict \<Rightarrow> string" where
  "dumps_indent value = utf8 (pretty 0 (sort_keys (JObj value)))"

section \<open>The encoding is injective\<close>

lemma esc_plain: "\<lbrakk>c \<noteq> CHR 0x22; of_char c \<noteq> (92::nat); (32::nat) \<le> of_char c\<rbrakk> \<Longrightarrow> esc c = [c]"
  by (auto simp: esc_def Let_def)

text \<open>Every escape is one plain character, or a backslash followed by a tag that no other
  escape starts with.\<close>

definition tag :: "char \<Rightarrow> string" where
  "tag c = (let n = of_char c :: nat in
     if c = CHR 0x22 \<or> n = 92 then [c] else if n = 10 then ''n'' else if n = 13 then ''r''
     else if n = 9 then ''t'' else if n = 8 then ''b'' else if n = 12 then ''f''
     else ''u00'' @ [hexdig (n div 16), hexdig (n mod 16)])"

definition special :: "char \<Rightarrow> bool" where
  "special c \<longleftrightarrow> c = CHR 0x22 \<or> of_char c = (92::nat) \<or> of_char c < (32::nat)"

lemma esc_special: "special c \<Longrightarrow> esc c = bs @ tag c"
  by (auto simp: esc_def tag_def special_def Let_def)

lemma esc_not_special: "\<not> special c \<Longrightarrow> esc c = [c]"
  by (rule esc_plain) (auto simp: special_def)

definition hexval :: "char \<Rightarrow> nat" where
  "hexval c = (let n = of_char c in if n < 58 then n - 48 else n - 87)"

definition untag :: "string \<Rightarrow> char \<times> string" where
  "untag s = (case s of [] \<Rightarrow> (CHR 0x00, [])
     | t # r \<Rightarrow> if t = CHR ''n'' then (CHR 0x0A, r) else if t = CHR ''r'' then (CHR 0x0D, r)
         else if t = CHR ''t'' then (CHR 0x09, r) else if t = CHR ''b'' then (CHR 0x08, r)
         else if t = CHR ''f'' then (CHR 0x0C, r)
         else if t = CHR ''u'' then (char_of (16 * hexval (r ! 2) + hexval (r ! 3)), drop 4 r)
         else (t, r))"

lemma hexval_hexdig: "n < 16 \<Longrightarrow> hexval (hexdig n) = n"
  by (auto simp: hexval_def hexdig_def Let_def)

lemma char_of_code: "of_char c = n \<Longrightarrow> c = char_of (n::nat)"
  by (metis char_of_char)

lemma control_chars:
  "char_of (10::nat) = CHR 0x0A" "char_of (13::nat) = CHR 0x0D" "char_of (9::nat) = CHR 0x09"
  "char_of (8::nat) = CHR 0x08" "char_of (12::nat) = CHR 0x0C" "char_of (92::nat) = CHR 0x5C"
  by code_simp+

lemma untag_tag:
  assumes "special c"
  shows "untag (tag c @ x) = (c, x)"
proof -
  let ?n = "of_char c :: nat"
  consider "c = CHR 0x22" | "?n = 92" | "?n = 10" | "?n = 13" | "?n = 9" | "?n = 8" | "?n = 12"
    | "c \<noteq> CHR 0x22" "?n < 32" "?n \<notin> {8, 9, 10, 12, 13}"
    using assms by (auto simp: special_def)
  then show ?thesis
  proof cases
    case 8
    then have "tag c = ''u00'' @ [hexdig (?n div 16), hexdig (?n mod 16)]" by (simp add: tag_def Let_def)
    moreover have "16 * hexval (hexdig (?n div 16)) + hexval (hexdig (?n mod 16)) = ?n"
      using 8(2) by (simp add: hexval_hexdig)
    ultimately show ?thesis by (simp add: untag_def)
  qed (drule char_of_code, simp add: tag_def untag_def control_chars | simp add: tag_def untag_def)+
qed

lemma tag_prefix_free:
  assumes "special c" and "special d" and "tag c @ x = tag d @ y"
  shows "c = d \<and> x = y"
proof -
  have "(c, x) = (d, y)" by (metis untag_tag assms)
  then show ?thesis by simp
qed

lemma esc_prefix_free:
  assumes "esc c @ x = esc d @ y"
  shows "c = d \<and> x = y"
proof -
  have bsc: "special (CHR 0x5C)" by (simp add: special_def)
  show ?thesis
    using assms tag_prefix_free[of c d x y] bsc
    by (cases "special c"; cases "special d") (auto simp: esc_special esc_not_special bs_def)
qed

lemma esc_head: "esc c @ x \<noteq> CHR 0x22 # y"
  by (cases "special c") (auto simp: esc_special esc_not_special bs_def special_def)

lemma quote_prefix_free:
  assumes "quote s @ x = quote t @ y"
  shows "s = t \<and> x = y"
proof -
  have "concat (map esc s) @ CHR 0x22 # x = concat (map esc t) @ CHR 0x22 # y \<Longrightarrow> s = t \<and> x = y"
  proof (induction s arbitrary: t)
    case Nil
    then show ?case using esc_head[of _ _ x] by (cases t) (auto dest: sym)
  next
    case (Cons c s)
    show ?case
    proof (cases t)
      case Nil
      with Cons.prems esc_head[of c _ y] show ?thesis by simp
    next
      case (Cons d u)
      with Cons.prems esc_prefix_free[of c "concat (map esc s) @ CHR 0x22 # x" d
          "concat (map esc u) @ CHR 0x22 # y"]
      have "c = d" "concat (map esc s) @ CHR 0x22 # x = concat (map esc u) @ CHR 0x22 # y" by auto
      with Cons.IH Cons show ?thesis by blast
    qed
  qed
  with assms show ?thesis by (simp add: quote_def)
qed

text \<open>A rendered value is never followed by a digit, so numbers end where they should.\<close>

definition delimited :: "string \<Rightarrow> bool" where
  "delimited s \<longleftrightarrow> (case s of [] \<Rightarrow> True | c # _ \<Rightarrow> \<not> is_digit c)"

lemma delimited_simps [simp]:
  "delimited []" "delimited (CHR '','' # s)" "delimited (CHR '']'' # s)" "delimited (CHR ''}'' # s)"
  by (simp_all add: delimited_def is_digit_def less_eq_char_def)

lemma str_of_nat_prefix_free:
  assumes "str_of_nat m @ x = str_of_nat n @ y" and "delimited x" and "delimited y"
  shows "m = n \<and> x = y"
proof -
  have tw: "takeWhile is_digit (str_of_nat n @ x) = str_of_nat n" if "delimited x" for n x
    using that str_of_nat_digits[of _ n]
    by (cases x) (auto simp: delimited_def takeWhile_append2 intro!: takeWhile_append2[THEN trans])
  from assms tw[of x m] tw[of y n] have "str_of_nat m = str_of_nat n" by simp
  with assms(1) show ?thesis by simp
qed

lemma str_of_int_prefix_free:
  assumes "str_of_int i @ x = str_of_int j @ y" and "delimited x" and "delimited y"
  shows "i = j \<and> x = y"
proof -
  have head: "str_of_nat n @ z \<noteq> CHR ''-'' # w" for n z w
    using str_of_nat_no_minus[of n] str_of_nat_nonempty[of n]
    by (cases "str_of_nat n") auto
  show ?thesis
  proof (cases "i < 0 \<longleftrightarrow> j < 0")
    case True
    show ?thesis
    proof (cases "i < 0")
      case True
      with \<open>i < 0 \<longleftrightarrow> j < 0\<close> assms have "nat (- i) = nat (- j) \<and> x = y"
        by (intro str_of_nat_prefix_free) (simp_all add: str_of_int_def)
      with True \<open>i < 0 \<longleftrightarrow> j < 0\<close> show ?thesis by auto
    next
      case False
      with \<open>i < 0 \<longleftrightarrow> j < 0\<close> assms have "nat i = nat j \<and> x = y"
        by (intro str_of_nat_prefix_free) (simp_all add: str_of_int_def)
      with False \<open>i < 0 \<longleftrightarrow> j < 0\<close> show ?thesis by auto
    qed
  next
    case False
    with assms(1) have "\<exists>n z w. str_of_nat n @ z = CHR ''-'' # w"
      by (cases "i < 0") (simp add: str_of_int_def, metis, simp add: str_of_int_def, metis)
    with head show ?thesis by blast
  qed
qed

text \<open>The first character of a rendered value tells its constructor.\<close>

definition head_class :: "char \<Rightarrow> nat" where
  "head_class c = (if c = CHR ''n'' then 0 else if c = CHR ''t'' \<or> c = CHR ''f'' then 1
     else if c = CHR ''-'' \<or> is_digit c then 2 else if c = CHR 0x22 then 3
     else if c = CHR ''['' then 4 else if c = CHR ''{'' then 5 else 6)"

fun constructor :: "json \<Rightarrow> nat" where
  "constructor JNull = 0"
| "constructor (JBool _) = 1"
| "constructor (JInt _) = 2"
| "constructor (JStr _) = 3"
| "constructor (JArr _) = 4"
| "constructor (JObj _) = 5"

lemma is_digit_chars [simp]:
  "\<not> is_digit (CHR ''n'')" "\<not> is_digit (CHR ''t'')" "\<not> is_digit (CHR ''f'')" "\<not> is_digit (CHR 0x22)"
  "\<not> is_digit (CHR ''['')" "\<not> is_digit (CHR ''{'')" "\<not> is_digit (CHR '','')" "\<not> is_digit (CHR '']'')"
  "\<not> is_digit (CHR ''}'')"
  by (simp_all add: is_digit_def less_eq_char_def)

lemma str_of_int_head: "\<exists>c s. str_of_int i = c # s \<and> head_class c = 2"
proof -
  obtain c s where cs: "str_of_nat (nat i) = c # s" by (cases "str_of_nat (nat i)") auto
  then have "is_digit c" using str_of_nat_digits[of c "nat i"] by simp
  then have "head_class c = 2" by (auto simp: head_class_def)
  with cs show ?thesis by (auto simp: str_of_int_def head_class_def)
qed

lemma render_head: "\<exists>c s. render v = c # s \<and> head_class c = constructor v"
  using str_of_int_head by (cases v) (auto simp: head_class_def quote_def)

lemma render_constructor: "render a @ x = render b @ y \<Longrightarrow> constructor a = constructor b"
  using render_head[of a] render_head[of b] by auto

lemma join_Cons: "join sep (z # zs) = z @ concat (map (\<lambda>w. sep @ w) zs)"
  by (induction zs arbitrary: z) auto

definition prefix_free_at :: "('a \<Rightarrow> string) \<Rightarrow> 'a \<Rightarrow> bool" where
  "prefix_free_at r z \<longleftrightarrow>
     (\<forall>w x y. r z @ x = r w @ y \<longrightarrow> delimited x \<longrightarrow> delimited y \<longrightarrow> z = w \<and> x = y)"

lemma tail_prefix_free:
  assumes "\<forall>z \<in> set xs. prefix_free_at r z" and "c \<noteq> CHR '',''" and "\<not> is_digit c"
    and "concat (map (\<lambda>z. CHR '','' # r z) xs) @ c # x = concat (map (\<lambda>z. CHR '','' # r z) ys) @ c # y"
  shows "xs = ys \<and> x = y"
  using assms(1,4)
proof (induction xs arbitrary: ys)
  case Nil
  with assms(2) show ?case by (cases ys) auto
next
  case (Cons z zs)
  show ?case
  proof (cases ys)
    case Nil
    with Cons.prems assms(2) show ?thesis by auto
  next
    case (Cons w ws)
    have d: "delimited (concat (map (\<lambda>z. CHR '','' # r z) us) @ c # u)" for us u
      using assms(3) by (cases us) (auto simp: delimited_def)
    from Cons.prems Cons have "r z @ (concat (map (\<lambda>z. CHR '','' # r z) zs) @ c # x)
        = r w @ (concat (map (\<lambda>z. CHR '','' # r z) ws) @ c # y)" by simp
    with Cons.prems(1) d have "z = w"
      "concat (map (\<lambda>z. CHR '','' # r z) zs) @ c # x = concat (map (\<lambda>z. CHR '','' # r z) ws) @ c # y"
      unfolding prefix_free_at_def by (metis list.set_intros(1))+
    with Cons.IH Cons.prems(1) Cons show ?thesis by simp
  qed
qed

lemma join_prefix_free:
  assumes free: "\<forall>z \<in> set xs. prefix_free_at r z" and c: "c \<noteq> CHR '',''" "\<not> is_digit c"
    and head: "\<And>z. \<exists>d s. r z = d # s \<and> d \<noteq> c"
    and eq: "join '','' (map r xs) @ c # x = join '','' (map r ys) @ c # y"
  shows "xs = ys \<and> x = y"
proof (cases xs)
  case Nil
  show ?thesis
  proof (cases ys)
    case (Cons w ws)
    with Nil eq head[of w] show ?thesis by (auto simp: join_Cons)
  qed (use Nil eq in simp)
next
  case (Cons z zs)
  note xs = this
  show ?thesis
  proof (cases ys)
    case Nil
    with Cons eq head[of z] show ?thesis by (auto simp: join_Cons)
  next
    case (Cons w ws)
    have d: "delimited (concat (map (\<lambda>z. CHR '','' # r z) us) @ c # u)" for us u
      using c by (cases us) (auto simp: delimited_def)
    have *: "concat (map (\<lambda>w. '','' @ w) (map r us)) = concat (map (\<lambda>z. CHR '','' # r z) us)" for us
      by (simp add: comp_def)
    from eq xs Cons have "r z @ (concat (map (\<lambda>z. CHR '','' # r z) zs) @ c # x)
        = r w @ (concat (map (\<lambda>z. CHR '','' # r z) ws) @ c # y)"
      by (simp only: list.map(2) join_Cons * append_assoc)
    with free xs d have "z = w"
      "concat (map (\<lambda>z. CHR '','' # r z) zs) @ c # x = concat (map (\<lambda>z. CHR '','' # r z) ws) @ c # y"
      unfolding prefix_free_at_def by (metis list.set_intros(1))+
    with tail_prefix_free[OF _ c this(2)] free xs Cons show ?thesis by simp
  qed
qed

lemma render_prefix_free: "prefix_free_at render a"
proof (induction a)
  case (JBool b)
  show ?case unfolding prefix_free_at_def
  proof (intro allI impI)
    fix w x y assume eq: "render (JBool b) @ x = render w @ y"
    from render_constructor[OF eq] obtain b' where "w = JBool b'" by (cases w) auto
    with eq show "JBool b = w \<and> x = y" by (cases b; cases b') auto
  qed
next
  case JNull
  show ?case unfolding prefix_free_at_def
  proof (intro allI impI)
    fix w x y assume eq: "render JNull @ x = render w @ y"
    from render_constructor[OF eq] have "w = JNull" by (cases w) auto
    with eq show "JNull = w \<and> x = y" by auto
  qed
next
  case (JInt i)
  show ?case unfolding prefix_free_at_def
  proof (intro allI impI)
    fix w x y assume eq: "render (JInt i) @ x = render w @ y" and d: "delimited x" "delimited y"
    from render_constructor[OF eq] obtain j where "w = JInt j" by (cases w) auto
    with eq d show "JInt i = w \<and> x = y" using str_of_int_prefix_free by auto
  qed
next
  case (JStr s)
  show ?case unfolding prefix_free_at_def
  proof (intro allI impI)
    fix w x y assume eq: "render (JStr s) @ x = render w @ y"
    from render_constructor[OF eq] obtain t where w: "w = JStr t" by (cases w) auto
    have "quote s @ x = quote t @ y" using eq w by simp
    from quote_prefix_free[OF this] w show "JStr s = w \<and> x = y" by simp
  qed
next
  case (JArr xs)
  show ?case unfolding prefix_free_at_def
  proof (intro allI impI)
    fix w x y assume eq: "render (JArr xs) @ x = render w @ y"
    from render_constructor[OF eq] obtain ys where w: "w = JArr ys" by (cases w) auto
    have head: "\<exists>d s. render z = d # s \<and> d \<noteq> CHR '']''" for z
      using render_head[of z] by (cases z) (force simp: head_class_def)+
    have "join '','' (map render xs) @ CHR '']'' # x = join '','' (map render ys) @ CHR '']'' # y"
      using eq w by simp
    from join_prefix_free[OF _ _ _ head this] JArr w show "JArr xs = w \<and> x = y" by auto
  qed
next
  case (JObj kvs)
  let ?r = "\<lambda>(k, v). quote k @ '':'' @ render v"
  show ?case unfolding prefix_free_at_def
  proof (intro allI impI)
    fix w x y assume eq: "render (JObj kvs) @ x = render w @ y"
    from render_constructor[OF eq] obtain ys where w: "w = JObj ys" by (cases w) auto
    have head: "\<exists>d s. ?r z = d # s \<and> d \<noteq> CHR ''}''" for z
      by (cases z) (simp add: quote_def)
    have free: "\<forall>z \<in> set kvs. prefix_free_at ?r z"
    proof
      fix z assume "z \<in> set kvs"
      then have v: "prefix_free_at render (snd z)"
        by (intro JObj[of z "snd z"]) (simp_all add: snds.simps)
      show "prefix_free_at ?r z" unfolding prefix_free_at_def
      proof (intro allI impI)
        fix u x y assume e: "?r z @ x = ?r u @ y" and d: "delimited x" "delimited y"
        obtain k a l b where zu: "z = (k, a)" "u = (l, b)" by (cases z; cases u)
        from e zu quote_prefix_free[of k "CHR '':'' # render a @ x" l "CHR '':'' # render b @ y"]
        have "k = l" "render a @ x = render b @ y" by auto
        with v d zu show "z = u \<and> x = y" by (auto simp: prefix_free_at_def)
      qed
    qed
    have "join '','' (map ?r kvs) @ CHR ''}'' # x = join '','' (map ?r ys) @ CHR ''}'' # y"
      using eq w by simp
    from join_prefix_free[OF free _ _ head this] w show "JObj kvs = w \<and> x = y" by auto
  qed
qed

lemma render_inj: "render a = render b \<Longrightarrow> a = b"
proof -
  assume eq: "render a = render b"
  have "render a @ [] = render b @ [] \<longrightarrow> delimited [] \<longrightarrow> delimited [] \<longrightarrow> a = b \<and> [] = ([] :: string)"
    using render_prefix_free[of a] unfolding prefix_free_at_def by blast
  with eq show "a = b" by simp
qed

lemma canonical_inj: "canonical_bytes a = canonical_bytes b \<longleftrightarrow> sort_keys a = sort_keys b"
  by (auto simp: canonical_bytes_def dest: render_inj)

lemma map_of_filter_key:
  "map_of kvs k = (case filter (\<lambda>kv. fst kv = k) kvs of [] \<Rightarrow> None | kv # _ \<Rightarrow> Some (snd kv))"
  by (induction kvs) auto

lemma map_of_sort_key: "map_of (sort_key fst kvs) = map_of kvs"
  by (rule ext) (simp add: map_of_filter_key[of _ k for k] sort_key_stable)

lemma sort_keys_fields:
  assumes "sort_keys (JObj d) = sort_keys (JObj e)"
  shows "map_option sort_keys (map_of d k) = map_option sort_keys (map_of e k)"
proof -
  have "map_of (sort_key fst (map (\<lambda>(k, v). (k, sort_keys v)) kvs)) k = map_option sort_keys (map_of kvs k)"
    for kvs :: dict
    by (simp add: map_of_sort_key map_of_map)
  with assms show ?thesis by (metis json.inject(5) sort_keys.simps(2))
qed

lemma sort_keys_get_field:
  "sort_keys (JObj d) = sort_keys (JObj e) \<Longrightarrow> sort_keys (get_field k d) = sort_keys (get_field k e)"
  using sort_keys_fields[of d e k] by (auto simp: get_field_def split: option.splits)

lemma sort_keys_atoms [simp]:
  "sort_keys j = JNull \<longleftrightarrow> j = JNull" "JNull = sort_keys j \<longleftrightarrow> j = JNull"
  "sort_keys j = JStr s \<longleftrightarrow> j = JStr s" "JStr s = sort_keys j \<longleftrightarrow> j = JStr s"
  "sort_keys j = JInt i \<longleftrightarrow> j = JInt i" "sort_keys j = JBool b \<longleftrightarrow> j = JBool b"
  by (cases j; auto)+

lemma digest_eq: "digest sha a = digest sha b \<Longrightarrow> collision sha \<or> sort_keys a = sort_keys b"
  by (auto simp: digest_def collision_def canonical_inj[symmetric])

section \<open>The indented encoding is injective\<close>

text \<open>Dropping the blanks and line breaks outside strings turns the indented text into the compact one.\<close>

datatype lexing = Outside | Inside | Escaped

fun compact :: "lexing \<Rightarrow> string \<Rightarrow> string" where
  "compact st [] = []"
| "compact Outside (c # cs) = (if c = CHR '' '' \<or> c = CHR 0x0A then compact Outside cs
     else c # compact (if c = CHR 0x22 then Inside else Outside) cs)"
| "compact Inside (c # cs) =
     c # compact (if c = CHR 0x22 then Outside else if c = CHR 0x5C then Escaped else Inside) cs"
| "compact Escaped (c # cs) = c # compact Inside cs"

lemma compact_plain:
  "\<forall>c \<in> set s. c \<notin> {CHR '' '', CHR 0x0A, CHR 0x22} \<Longrightarrow> compact Outside (s @ r) = s @ compact Outside r"
  by (induction s) auto

lemma hexdig_plain: "n < 16 \<Longrightarrow> hexdig n \<noteq> CHR 0x22 \<and> hexdig n \<noteq> CHR 0x5C"
proof -
  assume n: "n < 16"
  have "of_char (hexdig n) = (if n < 10 then 48 + n else 87 + n)" using n by (simp add: hexdig_def)
  then show ?thesis using n by (auto split: if_splits)
qed

lemma compact_tag:
  assumes "special c"
  shows "compact Escaped (tag c @ r) = tag c @ compact Inside r"
proof -
  let ?n = "of_char c :: nat"
  have "?n div 16 < 16" "?n mod 16 < 16" by (simp_all add: less_mult_imp_div_less)
  from this[THEN hexdig_plain] show ?thesis by (simp add: tag_def Let_def)
qed

lemma compact_esc: "compact Inside (esc c @ r) = esc c @ compact Inside r"
proof (cases "special c")
  case True
  then show ?thesis using compact_tag[of c r] by (simp add: esc_special bs_def)
next
  case False
  then have "c \<noteq> CHR 0x22" "c \<noteq> CHR 0x5C" by (auto simp: special_def)
  with False show ?thesis by (simp add: esc_not_special)
qed

lemma compact_quote: "compact Outside (quote s @ r) = quote s @ compact Outside r"
proof -
  have "compact Inside (concat (map esc s) @ CHR 0x22 # r) = concat (map esc s) @ CHR 0x22 # compact Outside r"
    by (induction s) (auto simp: compact_esc)
  then show ?thesis by (simp add: quote_def)
qed

lemma compact_pad: "compact Outside (pad n @ r) = compact Outside r"
  by (induction n) (auto simp: pad_def nl_def)

lemma compact_int: "compact Outside (str_of_int i @ r) = str_of_int i @ compact Outside r"
proof (rule compact_plain, intro ballI)
  fix c assume "c \<in> set (str_of_int i)"
  then have "c = CHR ''-'' \<or> is_digit c" using str_of_nat_digits by (auto simp: str_of_int_def split: if_splits)
  then show "c \<notin> {CHR '' '', CHR 0x0A, CHR 0x22}" by (auto simp: is_digit_def less_eq_char_def)
qed

lemma compact_join:
  assumes "\<And>x r. x \<in> set xs \<Longrightarrow> compact Outside (f x @ r) = g x @ compact Outside r"
  shows "compact Outside (join ('','' @ pad n) (map f xs) @ r) = join '','' (map g xs) @ compact Outside r"
  using assms
proof (induction xs arbitrary: r)
  case (Cons x xs)
  then show ?case by (cases xs) (simp_all add: compact_pad)
qed simp

lemma compact_pretty: "compact Outside (pretty n j @ r) = render j @ compact Outside r"
proof (induction n j arbitrary: r rule: pretty.induct)
  case (1 n xs)
  note join = compact_join[of xs "pretty (n + 2)" render "n + 2"]
  show ?case
  proof (cases "xs = []")
    case False
    with 1 join show ?thesis by (simp add: compact_pad)
  qed simp
next
  case (2 n kvs)
  have "compact Outside ((\<lambda>(k, v). quote k @ '': '' @ pretty (n + 2) v) kv @ r)
      = (\<lambda>(k, v). quote k @ '':'' @ render v) kv @ compact Outside r" if "kv \<in> set kvs" for kv r
    using 2 that by (cases kv) (fastforce simp: compact_quote)
  note join = compact_join[of kvs "\<lambda>(k, v). quote k @ '': '' @ pretty (n + 2) v"
    "\<lambda>(k, v). quote k @ '':'' @ render v" "n + 2", OF this]
  show ?case
  proof (cases "kvs = []")
    case False
    with join show ?thesis by (simp add: compact_pad)
  qed simp
qed (simp_all add: compact_quote compact_int)

lemma utf8_head:
  "utf8 (c # s) = (if of_char c < (128 :: nat) then [c]
     else [char_of (192 + of_char c div 64 :: nat), char_of (128 + of_char c mod 64 :: nat)]) @ utf8 s"
  by (simp add: utf8_def Let_def)

lemma utf8_unit:
  assumes "utf8 (c # s) = utf8 (d # t)"
  shows "c = d \<and> utf8 s = utf8 t"
proof -
  have lead: "of_char (char_of (192 + of_char x div 64 :: nat)) = (192 + of_char x div 64 :: nat)"
    and trail: "of_char (char_of (128 + of_char x mod 64 :: nat)) = (128 + of_char x mod 64 :: nat)" for x
  proof -
    have "of_char x div 64 < (4 :: nat)" "of_char x mod 64 < (64 :: nat)"
      by (simp_all add: less_mult_imp_div_less)
    then have "192 + of_char x div 64 < (256 :: nat)" "128 + of_char x mod 64 < (256 :: nat)" by linarith+
    then show "of_char (char_of (192 + of_char x div 64 :: nat)) = (192 + of_char x div 64 :: nat)"
      "of_char (char_of (128 + of_char x mod 64 :: nat)) = (128 + of_char x mod 64 :: nat)" by simp_all
  qed
  show ?thesis
  proof (cases "of_char c < (128 :: nat)"; cases "of_char d < (128 :: nat)")
    assume "\<not> of_char c < (128 :: nat)" "\<not> of_char d < (128 :: nat)"
    with assms have "char_of (192 + of_char c div 64 :: nat) = char_of (192 + of_char d div 64 :: nat)"
      "char_of (128 + of_char c mod 64 :: nat) = char_of (128 + of_char d mod 64 :: nat)" "utf8 s = utf8 t"
      by (simp_all add: utf8_head)
    then have "of_char c div 64 = (of_char d div 64 :: nat)" "of_char c mod 64 = (of_char d mod 64 :: nat)"
      using lead trail by (metis add_left_cancel)+
    then have "of_char c = (of_char d :: nat)" by (metis div_mult_mod_eq)
    with \<open>utf8 s = utf8 t\<close> show ?thesis by simp
  next
    assume c: "of_char c < (128 :: nat)" and d: "\<not> of_char d < (128 :: nat)"
    with assms have "c = char_of (192 + of_char d div 64 :: nat)" by (simp add: utf8_head)
    with c lead[of d] show ?thesis by simp
  next
    assume c: "\<not> of_char c < (128 :: nat)" and d: "of_char d < (128 :: nat)"
    with assms have "d = char_of (192 + of_char c div 64 :: nat)" by (simp add: utf8_head)
    with d lead[of c] show ?thesis by simp
  qed (use assms in \<open>simp add: utf8_head\<close>)
qed

lemma utf8_inj: "utf8 s = utf8 t \<Longrightarrow> s = t"
proof (induction s arbitrary: t)
  case Nil
  then show ?case by (cases t) (auto simp: utf8_def Let_def split: if_splits)
next
  case (Cons c s)
  show ?case
  proof (cases t)
    case Nil
    with Cons.prems show ?thesis by (auto simp: utf8_def Let_def split: if_splits)
  next
    case (Cons d u)
    with Cons.prems Cons.IH show ?thesis using utf8_unit by blast
  qed
qed

lemma dumps_indent_inj: "dumps_indent d = dumps_indent e \<Longrightarrow> sort_keys (JObj d) = sort_keys (JObj e)"
proof -
  assume "dumps_indent d = dumps_indent e"
  then have "pretty 0 (sort_keys (JObj d)) = pretty 0 (sort_keys (JObj e))"
    unfolding dumps_indent_def by (rule utf8_inj)
  then have "render (sort_keys (JObj d)) = render (sort_keys (JObj e))"
    using compact_pretty[of 0 "sort_keys (JObj d)" "[]"] compact_pretty[of 0 "sort_keys (JObj e)" "[]"] by simp
  then show ?thesis by (rule render_inj)
qed

text \<open>The canonical encoding that every digest is taken of is faithful: two JSON values have
  the same canonical bytes exactly when they are equal up to the order of object keys (so no two
  different requests, records or events share an encoding, whatever strings they contain).\<close>

theorem canonical_encoding_faithful:
  "canonical_bytes a = canonical_bytes b \<longleftrightarrow> sort_keys a = sort_keys b"
  by (rule canonical_inj)

end
