(* ===== verification/Effects_Policy.thy ===== *)
theory Effects_Policy
  imports Json Py_String
begin

text \<open>
  Effects, MCP invocation profiles and admission: the capability declarations of
  \<^verbatim>\<open>pipeline/capability_registry.py\<close> with the checks of \<^verbatim>\<open>_capability\<close>,
  and the fail-closed admission of \<^verbatim>\<open>pipeline/mcp_policy.py\<close>.  The registry itself
  is an argument: the lemmas hold for every table of declarations that passes the checks.  The
  command-line arguments and milestone metadata of a capability play no part in admission and
  are left out of the record.
\<close>

section \<open>Effects, profiles, capabilities\<close>

definition mcp_effects :: "string list" where
  "mcp_effects = [''workspace_read'', ''workspace_write_new'', ''external_execution'',
     ''provider_access'', ''evidence_publication'', ''service_state_read'', ''service_state_write'',
     ''remote_worker_dispatch'', ''protected_signing'', ''protected_publication'']"

definition mcp_output_scopes :: "string list" where
  "mcp_output_scopes = [''none'', ''designated-new-artifacts'', ''immutable-evidence-only'']"

record mcp_profile =
  profile_name :: string
  modes :: "string list"
  languages :: "string list"
  backends :: "string list"
  profile_effects :: "string list"
  required_effects :: "string list"
  providers :: "string list"
  output_scope :: string
  evidence :: string

record capability_spec =
  cap_name :: string
  cap_description :: string
  cli_command :: "string option"
  mcp_tool :: "string option"
  epistemic_boundary :: string
  trust_action :: bool
  mcp_isolation :: string
  mcp_profiles :: "mcp_profile list"

definition unknown_of :: "string list \<Rightarrow> string list" where
  "unknown_of effects = sorted_set (filter (\<lambda>e. e \<notin> set mcp_effects) effects)"

lemma unknown_of_Nil_iff [simp]: "unknown_of es = [] \<longleftrightarrow> set es \<subseteq> set mcp_effects"
  by (auto simp: unknown_of_def filter_empty_conv)

definition check_profile :: "string \<Rightarrow> mcp_profile \<Rightarrow> service_error + unit" where
  "check_profile isolation p = (let E = set (profile_effects p) in
     and_then (ensure (unknown_of (profile_effects p) = []) (PyValueError
       (''unknown MCP profile effects: '' @ join '', '' (unknown_of (profile_effects p))))) (\<lambda>_.
     and_then (ensure (set (required_effects p) \<subseteq> E)
       (PyValueError ''required MCP effects must be within the profile ceiling'')) (\<lambda>_.
     and_then (ensure (output_scope p \<in> set mcp_output_scopes)
       (PyValueError (''unknown MCP output scope: '' @ output_scope p))) (\<lambda>_.
     and_then (ensure (\<not> (providers p \<noteq> [] \<and> ''provider_access'' \<notin> E))
       (PyValueError ''MCP providers require the provider_access effect'')) (\<lambda>_.
     and_then (ensure (\<not> (''provider_access'' \<in> E \<and> providers p = []))
       (PyValueError ''MCP provider_access requires an explicit provider allowlist'')) (\<lambda>_.
     and_then (ensure (\<not> (isolation = ''non-executing'' \<and> ''external_execution'' \<in> E))
       (PyValueError ''non-executing MCP profiles cannot authorize execution'')) (\<lambda>_.
     and_then (ensure (\<not> (''remote_worker_dispatch'' \<in> E \<and> isolation \<noteq> ''a2a-coordination''))
       (PyValueError ''remote worker dispatch requires A2A coordination isolation'')) (\<lambda>_.
     and_then (ensure (\<not> (isolation = ''a2a-coordination'' \<and> E \<inter> {''external_execution'', ''provider_access''} \<noteq> {}))
       (PyValueError ''A2A coordination cannot acquire local execution or provider access'')) (\<lambda>_.
     and_then (ensure (\<not> (''protected_signing'' \<in> E \<and> isolation \<noteq> ''approval-coordination''))
       (PyValueError ''protected signing requires approval coordination isolation'')) (\<lambda>_.
     and_then (ensure (\<not> (isolation = ''approval-coordination'' \<and>
         E \<inter> {''external_execution'', ''provider_access'', ''remote_worker_dispatch''} \<noteq> {}))
       (PyValueError (''approval coordination cannot acquire general execution, provider, '' @
         ''or worker-dispatch access''))) (\<lambda>_.
     ensure (\<not> (''workspace_write_new'' \<in> E \<and> output_scope p \<noteq> ''designated-new-artifacts''))
       (PyValueError ''MCP workspace writes require a designated output scope''))))))))))))"

definition decode_capability :: "capability_spec \<Rightarrow> service_error + capability_spec" where
  "decode_capability spec =
     and_then (ensure (mcp_isolation spec \<in> {''a2a-coordination'', ''approval-coordination'',
         ''non-executing'', ''strict-java'', ''strict-execution'', ''unsupported''})
       (PyValueError (''unknown MCP isolation profile: '' @ mcp_isolation spec))) (\<lambda>_.
     and_then (ensure (\<not> (trust_action spec \<and> mcp_profiles spec \<noteq> []))
       (PyValueError ''human trust actions cannot have MCP invocation profiles'')) (\<lambda>_.
     and_then (ensure (\<not> (mcp_isolation spec \<noteq> ''unsupported'' \<and> mcp_profiles spec = []))
       (PyValueError ''admitted MCP capabilities require an invocation profile'')) (\<lambda>_.
     and_then (for_each (check_profile (mcp_isolation spec)) (mcp_profiles spec)) (\<lambda>_.
     Inr spec))))"

definition capability :: "capability_spec list \<Rightarrow> string \<Rightarrow> service_error + capability_spec" where
  "capability registry name = (let matches = filter (\<lambda>item. cap_name item = name) registry in
     if length matches \<noteq> 1 then
       Inl (PyKeyError (''capability registry expected exactly one '' @ py_repr name @ '' entry''))
     else Inr (hd matches))"

definition mcp_capabilities :: "capability_spec list \<Rightarrow> bool \<Rightarrow> capability_spec list" where
  "mcp_capabilities registry strict_isolation =
     (let capabilities = filter (\<lambda>item. (case mcp_tool item of None \<Rightarrow> False | Some t \<Rightarrow> t \<noteq> [])
         \<and> \<not> trust_action item) registry in
      if \<not> strict_isolation then capabilities
      else filter (\<lambda>item. mcp_isolation item \<in> {''a2a-coordination'', ''approval-coordination'',
          ''non-executing'', ''strict-java'', ''strict-execution''} \<and> mcp_profiles item \<noteq> []) capabilities)"

section \<open>Admission\<close>

record mcp_admission =
  adm_capability :: string
  admitted :: bool
  adm_mode :: string
  adm_language :: string
  adm_backend :: string
  adm_provider :: "string option"
  requested_effects :: "string list"
  adm_profile :: "mcp_profile option"
  reason :: string

definition granted_effects :: "mcp_admission \<Rightarrow> string list" where
  "granted_effects a = (if \<not> admitted a then [] else (case adm_profile a of
     None \<Rightarrow> []
   | Some p \<Rightarrow> sorted_set (filter (\<lambda>e. e \<in> set (profile_effects p)) (requested_effects a))))"

definition permits :: "mcp_admission \<Rightarrow> string \<Rightarrow> bool" where
  "permits a effect = (effect \<in> set (granted_effects a))"

text \<open>The tests of one profile, in the order of the loop body.\<close>

definition profile_matches :: "string \<Rightarrow> string \<Rightarrow> string \<Rightarrow> string option \<Rightarrow> string list \<Rightarrow> mcp_profile \<Rightarrow> bool" where
  "profile_matches mode language backend provider requested p \<longleftrightarrow>
     mode \<in> set (modes p) \<and> language \<in> set (languages p) \<and> backend \<in> set (backends p) \<and>
     set requested \<subseteq> set (profile_effects p) \<and>
     set (required_effects p) \<subseteq> set requested \<and>
     (case provider of None \<Rightarrow> True
      | Some q \<Rightarrow> q \<in> set (providers p) \<and> ''provider_access'' \<in> set (profile_effects p))"

definition normalized_provider :: "string option \<Rightarrow> string option" where
  "normalized_provider provider = (case provider of None \<Rightarrow> None
     | Some p \<Rightarrow> if p = [] then None else Some (str_lower (str_strip p)))"

definition admission :: "string \<Rightarrow> string \<Rightarrow> string \<Rightarrow> string \<Rightarrow> string option \<Rightarrow> string list \<Rightarrow> mcp_profile option
    \<Rightarrow> string \<Rightarrow> mcp_admission" where
  "admission name mode language backend provider requested profile why =
     \<lparr>adm_capability = name, admitted = (profile \<noteq> None), adm_mode = mode, adm_language = language,
      adm_backend = backend, adm_provider = provider, requested_effects = requested,
      adm_profile = profile, reason = why\<rparr>"

definition authorize_mcp_invocation :: "capability_spec list \<Rightarrow> string \<Rightarrow> string \<Rightarrow> string \<Rightarrow> string
    \<Rightarrow> string list \<Rightarrow> string option \<Rightarrow> mcp_admission" where
  "authorize_mcp_invocation registry name mode language backend effects provider =
     (let m = str_lower (str_strip mode); l = str_lower (str_strip language);
          b = str_lower (str_strip backend); p = normalized_provider provider;
          requested = sorted_set effects; base = admission name m l b p requested in
      if unknown_of requested \<noteq> [] then
        base None (''unknown requested effects: '' @ join '', '' (unknown_of requested))
      else (case capability registry name of
        Inl _ \<Rightarrow> base None ''unknown MCP capability''
      | Inr spec \<Rightarrow>
          if trust_action spec then base None ''human trust actions are never agent-admissible''
          else (case find (profile_matches m l b p requested) (mcp_profiles spec) of
            Some profile \<Rightarrow> base (Some profile) []
          | None \<Rightarrow> base None (''no admitted profile matches the requested command, mode, language, '' @
              ''backend, provider, and effects''))))"

definition require_mcp_effect :: "mcp_admission \<Rightarrow> string \<Rightarrow> service_error + unit" where
  "require_mcp_effect a effect =
     and_then (ensure (effect \<in> set mcp_effects)
       (MCPPolicyViolation (''unknown MCP effect boundary: '' @ effect))) (\<lambda>_.
     ensure (permits a effect)
       (MCPPolicyViolation (''MCP profile does not authorize '' @ effect @ '': '' @ adm_capability a)))"

section \<open>What is bound into evidence\<close>

abbreviation strings :: "string list \<Rightarrow> json" where
  "strings \<equiv> jstrings"

definition optional_string :: "string option \<Rightarrow> json" where
  "optional_string s = (case s of None \<Rightarrow> JNull | Some x \<Rightarrow> JStr x)"

definition canonical_profile_definition :: "mcp_profile \<Rightarrow> dict" where
  "canonical_profile_definition p =
     [(''name'', JStr (profile_name p)), (''modes'', strings (sorted_set (modes p))),
      (''languages'', strings (sorted_set (languages p))),
      (''backends'', strings (sorted_set (backends p))),
      (''effects'', strings (sorted_set (profile_effects p))),
      (''providers'', strings (sorted_set (providers p))),
      (''output_scope'', JStr (output_scope p)), (''evidence'', JStr (evidence p))] @
     (if required_effects p \<noteq> [] then [(''required_effects'', strings (sorted_set (required_effects p)))]
      else [])"

definition profile_definition_sha256 :: "(string \<Rightarrow> string) \<Rightarrow> mcp_profile \<Rightarrow> string" where
  "profile_definition_sha256 sha p = digest sha (JObj (canonical_profile_definition p))"

definition policy_version :: string where
  "policy_version = ''mcp-admission-v3''"

definition rejection :: "mcp_admission \<Rightarrow> dict" where
  "rejection a =
     [(''status'', JStr ''ISOLATION_UNSUPPORTED''), (''claim'', JStr ''NO_PROOF''),
      (''request_satisfied'', JBool False), (''tool'', JStr (adm_capability a)),
      (''mode'', JStr (adm_mode a)), (''language'', JStr (adm_language a)),
      (''backend'', JStr (adm_backend a)), (''strict_isolation_supported'', JBool False),
      (''durable_publication_supported'', JBool False), (''admission_profile'', JNull),
      (''requested_effects'', strings (requested_effects a)), (''granted_effects'', JArr []),
      (''admission_policy_version'', JStr policy_version),
      (''message'', JStr (if reason a \<noteq> [] then reason a
         else ''the requested invocation profile is not admitted''))]"

definition admission_summary :: "(string \<Rightarrow> string) \<Rightarrow> mcp_admission \<Rightarrow> dict" where
  "admission_summary sha a =
     [(''profile'', case adm_profile a of None \<Rightarrow> JNull | Some p \<Rightarrow> JStr (profile_name p)),
      (''mode'', JStr (adm_mode a)), (''language'', JStr (adm_language a)),
      (''backend'', JStr (adm_backend a)), (''provider'', optional_string (adm_provider a)),
      (''requested_effects'', strings (requested_effects a)),
      (''granted_effects'', strings (granted_effects a)),
      (''profile_definition'', case adm_profile a of None \<Rightarrow> JNull
         | Some p \<Rightarrow> JObj (canonical_profile_definition p)),
      (''profile_sha256'', case adm_profile a of None \<Rightarrow> JNull
         | Some p \<Rightarrow> JStr (profile_definition_sha256 sha p)),
      (''admission_policy_version'', JStr policy_version)]"

section \<open>Properties of admission\<close>

lemma decode_profile:
  assumes "decode_capability spec = Inr spec'" and "p \<in> set (mcp_profiles spec)"
  shows "check_profile (mcp_isolation spec) p = Inr () \<and> \<not> trust_action spec \<and>
    mcp_isolation spec \<noteq> []"
  using assms by (auto simp: decode_capability_def res_iffs)

lemma capability_in: "capability registry name = Inr spec \<Longrightarrow> spec \<in> set registry \<and> cap_name spec = name"
  unfolding capability_def Let_def
  by (cases "filter (\<lambda>item. cap_name item = name) registry")
     (auto split: if_splits dest: filter_eq_ConsD)

lemma find_SomeD: "find P xs = Some x \<Longrightarrow> x \<in> set xs \<and> P x"
  by (auto simp: find_Some_iff)

lemma authorize_permits:
  assumes "permits (authorize_mcp_invocation registry name mode language backend effects provider) e"
  shows "\<exists>spec p. capability registry name = Inr spec \<and> \<not> trust_action spec \<and> p \<in> set (mcp_profiles spec) \<and>
    profile_matches (str_lower (str_strip mode)) (str_lower (str_strip language))
      (str_lower (str_strip backend)) (normalized_provider provider) (sorted_set effects) p \<and>
    e \<in> set effects \<and> set effects \<subseteq> set mcp_effects"
proof -
  let ?match = "profile_matches (str_lower (str_strip mode)) (str_lower (str_strip language))
      (str_lower (str_strip backend)) (normalized_provider provider) (sorted_set effects)"
  from assms have known: "set effects \<subseteq> set mcp_effects"
    by (auto simp: authorize_mcp_invocation_def Let_def permits_def granted_effects_def admission_def
        split: if_splits)
  from assms known obtain spec where spec: "capability registry name = Inr spec" "\<not> trust_action spec"
    by (cases "capability registry name")
       (auto simp: authorize_mcp_invocation_def Let_def permits_def granted_effects_def admission_def
         split: if_splits)
  from assms known spec obtain p where p: "find ?match (mcp_profiles spec) = Some p"
    by (cases "find ?match (mcp_profiles spec)")
       (auto simp: authorize_mcp_invocation_def Let_def permits_def granted_effects_def admission_def)
  have "e \<in> set effects"
    using assms known spec p
    by (auto simp: authorize_mcp_invocation_def Let_def permits_def granted_effects_def admission_def)
  with spec find_SomeD[OF p] known show ?thesis by blast
qed

text \<open>Three capabilities: a local inspector, a worker coordinator and a human trust action.\<close>

definition sample_registry :: "capability_spec list" where
  "sample_registry =
     [\<lparr>cap_name = ''verify'', cap_description = ''verify'', cli_command = Some ''verify'',
       mcp_tool = Some ''verify'', epistemic_boundary = ''judge'', trust_action = False,
       mcp_isolation = ''strict-java'', mcp_profiles =
         [\<lparr>profile_name = ''java-esc'', modes = [''esc'', ''check''], languages = [''java''],
           backends = [''openjml''], profile_effects = [''workspace_read'', ''external_execution'',
             ''evidence_publication''], required_effects = [''external_execution''], providers = [],
           output_scope = ''none'', evidence = ''strict''\<rparr>]\<rparr>,
      \<lparr>cap_name = ''submit-worker-task'', cap_description = ''submit'', cli_command = None,
       mcp_tool = Some ''submit_worker_task'', epistemic_boundary = ''judge'', trust_action = False,
       mcp_isolation = ''a2a-coordination'', mcp_profiles =
         [\<lparr>profile_name = ''a2a'', modes = [''submit''], languages = [''none''], backends = [''a2a''],
           profile_effects = [''service_state_write'', ''remote_worker_dispatch''],
           required_effects = [], providers = [], output_scope = ''none'', evidence = ''none''\<rparr>]\<rparr>,
      \<lparr>cap_name = ''approve'', cap_description = ''approve'', cli_command = Some ''approve'',
       mcp_tool = None, epistemic_boundary = ''human'', trust_action = True,
       mcp_isolation = ''unsupported'', mcp_profiles = []\<rparr>]"

text \<open>What the registry has to say for an invocation: exactly one capability has the name, it is no human trust action, and
  one of its profiles includes the mode, language, backend and provider and all requested effects, all of them known, and
  requires none that was not requested.\<close>

definition admits :: "capability_spec list \<Rightarrow> string \<Rightarrow> string \<Rightarrow> string \<Rightarrow> string \<Rightarrow> string list \<Rightarrow> string option
    \<Rightarrow> mcp_profile \<Rightarrow> bool" where
  "admits registry name mode language backend effects provider p \<longleftrightarrow> (\<exists>spec.
     filter (\<lambda>s. cap_name s = name) registry = [spec] \<and> \<not> trust_action spec \<and> p \<in> set (mcp_profiles spec) \<and>
     str_lower (str_strip mode) \<in> set (modes p) \<and> str_lower (str_strip language) \<in> set (languages p) \<and>
     str_lower (str_strip backend) \<in> set (backends p) \<and> set (required_effects p) \<subseteq> set effects \<and>
     set effects \<subseteq> set (profile_effects p) \<inter> set mcp_effects \<and>
     (case provider of None \<Rightarrow> True | Some q \<Rightarrow> q = [] \<or>
        str_lower (str_strip q) \<in> set (providers p) \<and> ''provider_access'' \<in> set (profile_effects p)))"

lemma capability_Inr: "capability registry name = Inr spec \<longleftrightarrow> filter (\<lambda>s. cap_name s = name) registry = [spec]"
  by (auto simp: capability_def Let_def length_Suc_conv)

lemma admits_profile: "admits registry name mode language backend effects provider p \<longleftrightarrow> (\<exists>spec.
    capability registry name = Inr spec \<and> \<not> trust_action spec \<and> p \<in> set (mcp_profiles spec) \<and> set effects \<subseteq> set mcp_effects \<and>
    profile_matches (str_lower (str_strip mode)) (str_lower (str_strip language)) (str_lower (str_strip backend))
      (normalized_provider provider) (sorted_set effects) p)"
  unfolding admits_def capability_Inr profile_matches_def normalized_provider_def by (auto split: option.splits)

lemma authorize_profile:
  "(case adm_profile (authorize_mcp_invocation registry name mode language backend effects provider) of
     None \<Rightarrow> \<not> (\<exists>p. admits registry name mode language backend effects provider p)
   | Some p \<Rightarrow> admits registry name mode language backend effects provider p)"
proof (cases "unknown_of (sorted_set effects) = []")
  case False
  then have "\<not> set effects \<subseteq> set mcp_effects" by simp
  with False show ?thesis by (simp add: authorize_mcp_invocation_def Let_def admission_def admits_def)
next
  case True
  then have known: "set effects \<subseteq> set mcp_effects" by simp
  show ?thesis
  proof (cases "capability registry name")
    case (Inl _)
    then show ?thesis using True by (simp add: authorize_mcp_invocation_def Let_def admission_def admits_profile)
  next
    case (Inr spec)
    then show ?thesis using True known
      by (auto simp: authorize_mcp_invocation_def Let_def admission_def admits_profile find_None_iff
          dest: find_SomeD split: option.split)
  qed
qed

text \<open>C26: admission fails closed, and opens for nothing else: an invocation is admitted exactly if the registry admits it,
  that is, exactly one capability has its name, that capability is no human trust action, and one of its profiles includes
  the mode, the language, the backend, the provider and every requested effect, all known, and requires only requested ones;
  the profile recorded in the admission is one of these; and what an admission permits is exactly what was requested.\<close>

theorem admission_fail_closed:
  "(admitted (authorize_mcp_invocation registry name mode language backend effects provider) \<longleftrightarrow> (\<exists>p. admits registry name mode language backend effects provider p)) \<and>
    (\<forall>p. adm_profile (authorize_mcp_invocation registry name mode language backend effects provider) = Some p \<longrightarrow>
       admits registry name mode language backend effects provider p) \<and>
    (permits (authorize_mcp_invocation registry name mode language backend effects provider) e \<longleftrightarrow> (\<exists>p. admits registry name mode language backend effects provider p) \<and> e \<in> set effects)"
  (is "(admitted ?a \<longleftrightarrow> _) \<and> _")
proof -
  have f: "admitted ?a \<longleftrightarrow> adm_profile ?a \<noteq> None" "requested_effects ?a = sorted_set effects"
    unfolding authorize_mcp_invocation_def Let_def
    by (simp_all add: admission_def split: sum.split option.split)
  note p = authorize_profile[of registry name mode language backend effects provider]
  have "permits ?a e \<longleftrightarrow> (\<exists>p. admits registry name mode language backend effects provider p) \<and> e \<in> set effects"
    using p f by (auto simp: permits_def granted_effects_def admits_def split: option.splits)
  with p f(1) show ?thesis by (auto split: option.splits)
qed

lemma admission_fail_closed_witness:
  "\<exists>p. admits sample_registry ''verify'' '' ESC'' ''java'' ''openjml'' [''external_execution'', ''workspace_read''] None p"
proof -
  have "admitted (authorize_mcp_invocation sample_registry ''verify'' '' ESC'' ''java'' ''openjml''
    [''external_execution'', ''workspace_read''] None)" by code_simp
  with admission_fail_closed[where registry = sample_registry] show ?thesis by blast
qed

lemma trust_actions_never_admitted:
  "spec \<in> set registry \<Longrightarrow> trust_action spec \<Longrightarrow>
     \<not> admitted (authorize_mcp_invocation registry (cap_name spec) mode language backend effects provider)"
proof
  assume s: "spec \<in> set registry" "trust_action spec"
    and "admitted (authorize_mcp_invocation registry (cap_name spec) mode language backend effects provider)"
  then have "adm_profile (authorize_mcp_invocation registry (cap_name spec) mode language backend effects provider) \<noteq> None"
    by (auto simp: authorize_mcp_invocation_def Let_def admission_def split: sum.splits option.splits if_splits)
  with authorize_profile[of registry "cap_name spec" mode language backend effects provider]
  obtain other where "filter (\<lambda>x. cap_name x = cap_name spec) registry = [other]" "\<not> trust_action other"
    by (auto simp: admits_def)
  moreover have "spec \<in> set (filter (\<lambda>x. cap_name x = cap_name spec) registry)" using s(1) by simp
  ultimately show False using s(2) by (metis empty_iff list.set(1) set_ConsD)
qed

text \<open>Isolation classes separate authority: with a registry of decoded declarations, whatever
  is requested, local execution is never granted to a non-executing, worker-coordination or
  approval capability, worker dispatch is granted only under A2A coordination, protected signing
  only under approval coordination, and workspace writes only with a designated output scope.\<close>

theorem isolation_separates_effects:
  assumes "\<forall>spec \<in> set registry. decode_capability spec = Inr spec"
    and "permits (authorize_mcp_invocation registry name mode language backend effects provider) e"
  shows "\<exists>spec p. capability registry name = Inr spec \<and> p \<in> set (mcp_profiles spec) \<and>
    (e = ''external_execution'' \<longrightarrow>
       mcp_isolation spec \<notin> {''non-executing'', ''a2a-coordination'', ''approval-coordination''}) \<and>
    (e = ''remote_worker_dispatch'' \<longrightarrow> mcp_isolation spec = ''a2a-coordination'') \<and>
    (e = ''protected_signing'' \<longrightarrow> mcp_isolation spec = ''approval-coordination'') \<and>
    (e = ''workspace_write_new'' \<longrightarrow> output_scope p = ''designated-new-artifacts'')"
proof -
  from authorize_permits[OF assms(2)] obtain spec p where
    sp: "capability registry name = Inr spec" "p \<in> set (mcp_profiles spec)"
      "e \<in> set effects" "set effects \<subseteq> set (profile_effects p)"
    by (auto simp: profile_matches_def)
  then have e: "e \<in> set (profile_effects p)" by blast
  have "decode_capability spec = Inr spec" using assms(1) capability_in[OF sp(1)] by blast
  from decode_profile[OF this sp(2)] have "check_profile (mcp_isolation spec) p = Inr ()" by blast
  then have
    "\<not> (mcp_isolation spec = ''non-executing'' \<and> ''external_execution'' \<in> set (profile_effects p))"
    "\<not> (''remote_worker_dispatch'' \<in> set (profile_effects p) \<and> mcp_isolation spec \<noteq> ''a2a-coordination'')"
    "\<not> (mcp_isolation spec = ''a2a-coordination'' \<and>
      set (profile_effects p) \<inter> {''external_execution'', ''provider_access''} \<noteq> {})"
    "\<not> (''protected_signing'' \<in> set (profile_effects p) \<and> mcp_isolation spec \<noteq> ''approval-coordination'')"
    "\<not> (mcp_isolation spec = ''approval-coordination'' \<and>
      set (profile_effects p) \<inter> {''external_execution'', ''provider_access'', ''remote_worker_dispatch''} \<noteq> {})"
    "\<not> (''workspace_write_new'' \<in> set (profile_effects p) \<and> output_scope p \<noteq> ''designated-new-artifacts'')"
    unfolding check_profile_def Let_def and_then_Inr_iff ensure_Inr_iff
    by - (elim exE conjE, assumption)+
  note ban = this
  show ?thesis
  proof (intro exI[of _ spec] exI[of _ p] conjI impI sp(1,2))
    assume "e = ''external_execution''"
    then have x: "''external_execution'' \<in> set (profile_effects p)" using e by simp
    show "mcp_isolation spec \<notin> {''non-executing'', ''a2a-coordination'', ''approval-coordination''}"
      unfolding insert_iff empty_iff using x ban(1,3,5) by blast
  next
    assume "e = ''remote_worker_dispatch''"
    then show "mcp_isolation spec = ''a2a-coordination''" using e ban(2) by blast
  next
    assume "e = ''protected_signing''"
    then show "mcp_isolation spec = ''approval-coordination''" using e ban(4) by blast
  next
    assume "e = ''workspace_write_new''"
    then show "output_scope p = ''designated-new-artifacts''" using e ban(6) by blast
  qed
qed

lemma isolation_separates_effects_witness:
  "\<exists>spec. capability sample_registry ''submit-worker-task'' = Inr spec \<and>
    mcp_isolation spec = ''a2a-coordination''"
proof -
  have reg: "\<forall>spec \<in> set sample_registry. decode_capability spec = Inr spec" by code_simp
  have perm: "permits (authorize_mcp_invocation sample_registry ''submit-worker-task'' ''submit'' ''none''
    ''a2a'' [''remote_worker_dispatch''] None) ''remote_worker_dispatch''" by code_simp
  from isolation_separates_effects[OF reg perm] show ?thesis by (elim exE conjE) auto
qed

lemma strings_inj: "sort_keys (strings xs) = sort_keys (strings ys) \<longleftrightarrow> xs = ys"
  by (auto simp: jstrings_def comp_def inj_map_eq_map inj_on_def)

text \<open>The profile digest that evidence carries binds the complete permission ceiling: two
  profiles with the same digest have the same name, output scope and evidence class and the same
  sets of modes, languages, backends, effects, required effects and providers, or SHA-256 has a
  collision.\<close>

theorem profile_digest_binds_ceiling:
  assumes "profile_definition_sha256 sha p = profile_definition_sha256 sha q"
  shows "collision sha \<or>
    profile_name p = profile_name q \<and> output_scope p = output_scope q \<and> evidence p = evidence q \<and>
    set (modes p) = set (modes q) \<and> set (languages p) = set (languages q) \<and>
    set (backends p) = set (backends q) \<and> set (profile_effects p) = set (profile_effects q) \<and>
    set (providers p) = set (providers q) \<and> set (required_effects p) = set (required_effects q)"
proof (cases "collision sha")
  case False
  let ?d = canonical_profile_definition
  from assms False digest_eq have "sort_keys (JObj (?d p)) = sort_keys (JObj (?d q))"
    unfolding profile_definition_sha256_def by blast
  note field = sort_keys_get_field[OF this]
  have req: "get_field ''required_effects'' (?d p) = (if required_effects p = [] then JNull
      else strings (sorted_set (required_effects p)))" for p
    by (simp add: canonical_profile_definition_def get_field_def)
  have arr: "sort_keys (strings xs) \<noteq> JNull" for xs by (simp add: jstrings_def)
  have "set (required_effects p) = set (required_effects q)"
    using field[of "''required_effects''"] arr
    unfolding req by (auto simp: strings_inj sorted_set_eq_iff split: if_splits)
  moreover have "profile_name p = profile_name q" "output_scope p = output_scope q" "evidence p = evidence q"
    using field[of "''name''"] field[of "''output_scope''"] field[of "''evidence''"]
    by (simp_all add: canonical_profile_definition_def)
  moreover have "set (modes p) = set (modes q)" "set (languages p) = set (languages q)"
    "set (backends p) = set (backends q)" "set (profile_effects p) = set (profile_effects q)"
    "set (providers p) = set (providers q)"
    using field[of "''modes''"] field[of "''languages''"] field[of "''backends''"] field[of "''effects''"]
      field[of "''providers''"]
    by (simp_all add: canonical_profile_definition_def strings_inj sorted_set_eq_iff)
  ultimately show ?thesis by blast
qed blast

lemma profile_digest_binds_ceiling_witness:
  "collision (\<lambda>s. s) \<or> set (modes (hd (mcp_profiles (hd sample_registry)))) = {''check'', ''esc''}"
proof -
  let ?p = "hd (mcp_profiles (hd sample_registry))"
  let ?q = "?p\<lparr>modes := [''check'', ''esc'', ''check'']\<rparr>"
  have "profile_definition_sha256 (\<lambda>s. s) ?p = profile_definition_sha256 (\<lambda>s. s) ?q" by code_simp
  from profile_digest_binds_ceiling[OF this] show ?thesis by auto
qed

end
