(* ===== verification/Path_Scope.thy ===== *)
theory Path_Scope
  imports Json Py_String
begin

text \<open>
  Path scopes of \<^verbatim>\<open>pipeline/a2a_coordination.py\<close> (\<^verbatim>\<open>_scope\<close>,
  \<^verbatim>\<open>_scope_prefix\<close>, \<^verbatim>\<open>_scope_contains\<close>, \<^verbatim>\<open>_path_allowed\<close>)
  over the part of \<^verbatim>\<open>PurePosixPath\<close> and \<^verbatim>\<open>fnmatch\<close> that they use.  A
  scope is a relative path, or a directory tree written with a trailing \<open>/**\<close>.  The lemmas
  relate the textual tests to the set of paths a scope admits.
\<close>

section \<open>Strings and POSIX paths\<close>

fun split_slash :: "string \<Rightarrow> string list" where
  "split_slash [] = [[]]"
| "split_slash (c # cs) = (if c = CHR ''/'' then [] # split_slash cs
     else (case split_slash cs of [] \<Rightarrow> [[c]] | p # ps \<Rightarrow> (c # p) # ps))"

text \<open>\<open>PurePosixPath(v)\<close>: its root, its components without empty and dot parts, its text.\<close>

definition path_root :: "string \<Rightarrow> string" where
  "path_root v = (if starts_with ''//'' v \<and> \<not> starts_with ''///'' v then ''//''
     else if starts_with ''/'' v then ''/'' else [])"

definition path_tail :: "string \<Rightarrow> string list" where
  "path_tail v = filter (\<lambda>p. p \<noteq> [] \<and> p \<noteq> ''.'') (split_slash v)"

definition path_parts :: "string \<Rightarrow> string list" where
  "path_parts v = (if path_root v = [] then [] else [path_root v]) @ path_tail v"

definition as_posix :: "string \<Rightarrow> string" where
  "as_posix v = (let t = path_root v @ join ''/'' (path_tail v) in if t = [] then ''.'' else t)"

definition is_wild :: "char \<Rightarrow> bool" where
  "is_wild c \<longleftrightarrow> c = CHR ''*'' \<or> c = CHR ''?'' \<or> c = CHR ''[''"

definition has_wild :: "string \<Rightarrow> bool" where
  "has_wild s \<longleftrightarrow> (\<exists>c \<in> set s. is_wild c)"

text \<open>\<open>fnmatchcase\<close> for patterns of literals, \<open>*\<close> and \<open>?\<close>; a bracket cannot
  occur in a pattern that \<open>scope\<close> has accepted.\<close>

fun fnmatchcase :: "string \<Rightarrow> string \<Rightarrow> bool" where
  "fnmatchcase s [] = (s = [])"
| "fnmatchcase [] (p # ps) = (p = CHR ''*'' \<and> fnmatchcase [] ps)"
| "fnmatchcase (c # s) (p # ps) =
     (if p = CHR ''*'' then fnmatchcase (c # s) ps \<or> fnmatchcase s (p # ps)
      else (p = CHR ''?'' \<or> p = c) \<and> fnmatchcase s ps)"

section \<open>Scopes\<close>

definition protected_names :: "string list" where
  "protected_names = [''.git'', ''.formalspecgen'']"

definition scope :: "string \<Rightarrow> service_error + string" where
  "scope v = (let parts = path_parts v; wildcard_parts = filter has_wild parts in
     and_then (ensure (\<not> (path_root v \<noteq> [] \<or> parts = [] \<or> ''..'' \<in> set parts))
       (A2ACoordinationError ''INVALID_PATH_SCOPE'' (''unsafe path scope: '' @ v))) (\<lambda>_.
     and_then (ensure (\<not> (\<exists>p \<in> set parts. p \<in> set protected_names))
       (A2ACoordinationError ''PROTECTED_PATH_SCOPE''
         (''service or repository metadata is protected: '' @ v))) (\<lambda>_.
     and_then (ensure (\<not> (wildcard_parts \<noteq> [] \<and> \<not> (length wildcard_parts = 1 \<and> last parts = ''**'')))
       (A2ACoordinationError ''INVALID_PATH_SCOPE''
         (''only a trailing '' @ py_repr ''/**'' @ '' wildcard is supported''))) (\<lambda>_.
     Inr (as_posix v)))))"

definition rstrip_slash :: "string \<Rightarrow> string" where
  "rstrip_slash s = rev (dropWhile (\<lambda>c. c = CHR ''/'') (rev s))"

definition scope_prefix :: "string \<Rightarrow> string \<times> bool" where
  "scope_prefix v = (if ends_with ''/**'' v then (rstrip_slash (take (length v - 3) v), True) else (v, False))"

definition scope_contains :: "string \<Rightarrow> string \<Rightarrow> bool" where
  "scope_contains container candidate =
     (case (scope_prefix container, scope_prefix candidate) of
        ((container_value, container_tree), (candidate_value, candidate_tree)) \<Rightarrow>
          if \<not> container_tree then \<not> candidate_tree \<and> container_value = candidate_value
          else candidate_value = container_value \<or> starts_with (container_value @ ''/'') candidate_value)"

definition path_allowed :: "string \<Rightarrow> string list \<Rightarrow> bool" where
  "path_allowed path scopes =
     (\<exists>item \<in> set scopes. if ends_with ''/**'' item then fnmatchcase path item else path = item)"

section \<open>What an accepted scope looks like\<close>

lemma split_slash_nonempty [simp]: "split_slash s \<noteq> []"
  by (induction s) (auto split: list.splits)

lemma split_slash_no_slash: "p \<in> set (split_slash s) \<Longrightarrow> CHR ''/'' \<notin> set p"
  by (induction s arbitrary: p) (auto split: list.splits if_splits)

lemma split_slash_segment:
  "CHR ''/'' \<notin> set p \<Longrightarrow> split_slash (p @ CHR ''/'' # s) = p # split_slash s"
  by (induction p) auto

lemma split_slash_append: "split_slash (u @ CHR ''/'' # w) = split_slash u @ split_slash w"
  by (induction u) (auto split: list.splits)

lemma split_slash_single: "CHR ''/'' \<notin> set p \<Longrightarrow> split_slash p = [p]"
  by (induction p) auto

lemma split_slash_join:
  "ps \<noteq> [] \<Longrightarrow> \<forall>p \<in> set ps. CHR ''/'' \<notin> set p \<Longrightarrow> split_slash (join ''/'' ps) = ps"
  by (induction "''/''" ps rule: join.induct) (auto simp: split_slash_segment split_slash_single)

lemma join_eq_Nil: "ps \<noteq> [] \<Longrightarrow> [] \<notin> set ps \<Longrightarrow> join sep ps \<noteq> []"
  by (cases ps) (auto simp: join_Cons)

definition wf_scope :: "string \<Rightarrow> bool" where
  "wf_scope s \<longleftrightarrow> (\<exists>ps l. s = join ''/'' (ps @ [l]) \<and>
     (\<forall>p \<in> set (ps @ [l]). p \<noteq> [] \<and> p \<noteq> ''.'' \<and> p \<noteq> ''..'' \<and> p \<notin> set protected_names \<and>
        CHR ''/'' \<notin> set p) \<and>
     (\<forall>p \<in> set ps. \<not> has_wild p) \<and> (has_wild l \<longrightarrow> l = ''**''))"

lemma scope_wf:
  assumes "scope v = Inr s"
  shows "wf_scope s"
proof -
  have root: "path_root v = []" and ne: "path_tail v \<noteq> []" and dd: "''..'' \<notin> set (path_tail v)"
    and prot: "\<forall>p \<in> set (path_tail v). p \<notin> set protected_names"
    and wild: "filter has_wild (path_tail v) = [] \<or>
      length (filter has_wild (path_tail v)) = 1 \<and> last (path_tail v) = ''**''"
    and s: "s = join ''/'' (path_tail v)"
    using assms join_eq_Nil[of "path_tail v" "''/''"]
    by (auto simp: scope_def Let_def res_iffs path_parts_def as_posix_def path_tail_def split: if_splits)
  obtain ps l where ps: "path_tail v = ps @ [l]" using ne by (metis append_butlast_last_id)
  have w: "(\<forall>p \<in> set ps. \<not> has_wild p) \<and> (has_wild l \<longrightarrow> l = ''**'')"
  proof (cases "filter has_wild (path_tail v) = []")
    case True
    then show ?thesis by (auto simp: ps filter_empty_conv)
  next
    case False
    with wild ps have l: "l = ''**''" "length (filter has_wild (ps @ [l])) = 1" by auto
    have "has_wild ''**''" by (simp add: has_wild_def is_wild_def)
    with l have "filter has_wild ps = []" by auto
    with l show ?thesis by (auto simp: filter_empty_conv)
  qed
  have "\<forall>p \<in> set (path_tail v). p \<noteq> [] \<and> p \<noteq> ''.'' \<and> CHR ''/'' \<notin> set p"
    by (auto simp: path_tail_def dest: split_slash_no_slash)
  with dd prot w s ps show ?thesis unfolding wf_scope_def by (intro exI[of _ ps] exI[of _ l]) auto
qed


lemma scope_of_wf:
  assumes "wf_scope s"
  shows "scope s = Inr s" and "path_root s = []"
proof -
  from assms obtain ps l where s: "s = join ''/'' (ps @ [l])" and
    parts: "\<forall>p \<in> set (ps @ [l]). p \<noteq> [] \<and> p \<noteq> ''.'' \<and> p \<noteq> ''..'' \<and> p \<notin> set protected_names \<and>
        CHR ''/'' \<notin> set p" and
    wild: "\<forall>p \<in> set ps. \<not> has_wild p" "has_wild l \<longrightarrow> l = ''**''"
    unfolding wf_scope_def by blast
  have split: "split_slash s = ps @ [l]" unfolding s by (rule split_slash_join) (use parts in auto)
  have tail: "path_tail s = ps @ [l]"
    unfolding path_tail_def split by (rule filter_True) (use parts in auto)
  have "\<not> starts_with ''/'' s"
  proof
    assume "starts_with ''/'' s"
    then have "hd (split_slash s) = []" by (auto simp: starts_with_iff)
    with split parts show False by (cases ps) auto
  qed
  then show root: "path_root s = []" by (auto simp: path_root_def starts_with_iff)
  have posix: "as_posix s = s"
    unfolding as_posix_def root tail using s join_eq_Nil[of "ps @ [l]" "''/''"] parts by (auto simp: Let_def)
  have "filter has_wild ps = []" using wild by (auto simp: filter_empty_conv)
  then show "scope s = Inr s"
    using parts wild by (auto simp: scope_def Let_def path_parts_def root tail posix)
qed

lemma scope_idem: "scope v = Inr s \<Longrightarrow> scope s = Inr s"
  by (rule scope_of_wf[OF scope_wf])

lemma join_snoc: "ps \<noteq> [] \<Longrightarrow> join sep (ps @ [l]) = join sep ps @ sep @ l"
  by (cases ps) (auto simp: join_Cons)

lemma not_wild_join: "\<forall>p \<in> set ps. \<not> has_wild p \<Longrightarrow> \<not> has_wild (join ''/'' ps)"
  by (cases ps) (auto simp: join_Cons has_wild_def is_wild_def)

lemma fnmatch_star: "fnmatchcase s ''*''"
  by (induction s) auto

lemma fnmatch_two_stars: "fnmatchcase s ''**''"
  by (induction s) auto

lemma fnmatch_literal_prefix:
  "\<not> has_wild p \<Longrightarrow> fnmatchcase s (p @ q) \<longleftrightarrow> (\<exists>u. s = p @ u \<and> fnmatchcase u q)"
proof (induction p arbitrary: s)
  case (Cons c p)
  then show ?case by (cases s) (auto simp: has_wild_def is_wild_def)
qed simp

lemma no_slash_last: "p \<noteq> [] \<Longrightarrow> CHR ''/'' \<notin> set p \<Longrightarrow> last p \<noteq> CHR ''/''"
  by (metis last_in_set)

lemma rstrip_no_slash: "s \<noteq> [] \<Longrightarrow> last s \<noteq> CHR ''/'' \<Longrightarrow> rstrip_slash s = s"
  by (cases s rule: rev_cases) (auto simp: rstrip_slash_def)

text \<open>A directory tree scope is a plain prefix followed by \<open>/**\<close>.\<close>

lemma tree_scope:
  assumes "wf_scope s" and "ends_with ''/**'' s"
  shows "\<exists>p. s = p @ ''/**'' \<and> p \<noteq> [] \<and> scope_prefix s = (p, True) \<and>
    (\<forall>x. fnmatchcase x s \<longleftrightarrow> starts_with (p @ ''/'') x)"
proof -
  from assms(1) obtain ps l where s: "s = join ''/'' (ps @ [l])" and
    parts: "\<forall>p \<in> set (ps @ [l]). p \<noteq> [] \<and> CHR ''/'' \<notin> set p" and
    wild: "\<forall>p \<in> set ps. \<not> has_wild p" "has_wild l \<longrightarrow> l = ''**''"
    unfolding wf_scope_def by blast
  from assms(2) obtain u where u: "s = u @ ''/**''" by (auto simp: ends_with_iff)
  have ne: "ps \<noteq> []"
  proof
    assume "ps = []"
    then have "CHR ''/'' \<in> set l" using s u by auto
    with parts show False by auto
  qed
  then have s2: "s = join ''/'' ps @ ''/'' @ l" using s by (simp add: join_snoc)
  have "split_slash s = ps @ [l]" unfolding s by (rule split_slash_join) (use parts in auto)
  moreover have "last (split_slash (u @ CHR ''/'' # ''**'')) = ''**''"
    by (simp add: split_slash_append)
  ultimately have l: "l = ''**''" using u by simp
  let ?p = "join ''/'' ps"
  have sp: "s = ?p @ ''/**''" using s2 l by simp
  have pne: "?p \<noteq> []" using join_eq_Nil[OF ne] parts by auto
  have "last ?p = last (last ps)"
  proof -
    obtain ys y where y: "ps = ys @ [y]" using ne by (metis append_butlast_last_id)
    then have "y \<noteq> []" using parts by auto
    with y show ?thesis by (cases "ys = []") (simp_all add: join_snoc)
  qed
  then have lp: "last ?p \<noteq> CHR ''/''"
    using ne parts no_slash_last[of "last ps"] by auto
  have nw: "\<not> has_wild (?p @ ''/'')" using not_wild_join[OF wild(1)] by (auto simp: has_wild_def is_wild_def)
  have "scope_prefix s = (?p, True)"
    using assms(2) rstrip_no_slash[OF pne lp] by (simp add: scope_prefix_def sp)
  moreover have "fnmatchcase x s \<longleftrightarrow> starts_with (?p @ ''/'') x" for x
    using fnmatch_literal_prefix[OF nw, of x "''**''"] fnmatch_two_stars
    by (simp add: sp starts_with_iff)
  ultimately show ?thesis using sp pne by blast
qed

lemma plain_scope: "\<not> ends_with ''/**'' s \<Longrightarrow> scope_prefix s = (s, False)"
  by (simp add: scope_prefix_def)

text \<open>The paths one scope admits.\<close>

lemma path_allowed_single:
  assumes "wf_scope s"
  shows "path_allowed x [s] \<longleftrightarrow> (case scope_prefix s of (p, tree) \<Rightarrow>
    if tree then starts_with (p @ ''/'') x else x = p)"
proof (cases "ends_with ''/**'' s")
  case True
  from tree_scope[OF assms True] obtain p where
    "scope_prefix s = (p, True)" "\<forall>x. fnmatchcase x s \<longleftrightarrow> starts_with (p @ ''/'') x" by blast
  with True show ?thesis by (simp add: path_allowed_def)
qed (simp add: path_allowed_def plain_scope)

lemma path_allowed_iff: "path_allowed x scopes \<longleftrightarrow> (\<exists>s \<in> set scopes. path_allowed x [s])"
  by (auto simp: path_allowed_def)

lemma scope_contains_allowed:
  assumes "wf_scope c" and "wf_scope d" and "scope_contains c d" and "path_allowed x [d]"
  shows "path_allowed x [c] \<or> x = fst (scope_prefix c) \<and> d = x"
proof (cases "ends_with ''/**'' c")
  case True
  from tree_scope[OF assms(1) True] obtain p where p: "scope_prefix c = (p, True)" by blast
  show ?thesis
  proof (cases "ends_with ''/**'' d")
    case True
    from tree_scope[OF assms(2) True] obtain q where q: "scope_prefix d = (q, True)" by blast
    have "q = p \<or> starts_with (p @ ''/'') q" using assms(3) p q by (auto simp: scope_contains_def)
    moreover have "starts_with (q @ ''/'') x" using assms(4) q path_allowed_single[OF assms(2)] by simp
    ultimately have "starts_with (p @ ''/'') x" by (auto simp: starts_with_iff)
    then show ?thesis using p path_allowed_single[OF assms(1)] by simp
  next
    case False
    then have q: "scope_prefix d = (d, False)" "x = d"
      using plain_scope assms(4) path_allowed_single[OF assms(2)] by auto
    with assms(3) p have "d = p \<or> starts_with (p @ ''/'') d" by (auto simp: scope_contains_def)
    then show ?thesis using p q path_allowed_single[OF assms(1)] by auto
  qed
next
  case False
  with assms(3) have "scope_prefix d = (c, False)"
    by (auto simp: scope_contains_def plain_scope split: prod.splits)
  then show ?thesis
    using False assms path_allowed_single[OF assms(1)] path_allowed_single[OF assms(2)]
    by (auto simp: plain_scope)
qed

section \<open>Properties of scopes\<close>

text \<open>An accepted scope is normalised and safe: it is returned unchanged when checked again,
  it is a relative path without empty, dot or parent components, it does not pass through
  \<^verbatim>\<open>.git\<close> or \<^verbatim>\<open>.formalspecgen\<close>, and its only wildcard is a last
  component \<open>**\<close>.\<close>

theorem accepted_scope_safe:
  assumes "scope v = Inr s"
  shows "scope s = Inr s \<and> path_root s = [] \<and> path_parts s \<noteq> [] \<and>
    (\<forall>p \<in> set (path_parts s). p \<noteq> [] \<and> p \<noteq> ''.'' \<and> p \<noteq> ''..'' \<and> p \<noteq> ''.git'' \<and>
       p \<noteq> ''.formalspecgen'' \<and> CHR ''/'' \<notin> set p \<and> (has_wild p \<longrightarrow> p = ''**''))"
proof -
  have wf: "wf_scope s" by (rule scope_wf[OF assms])
  then obtain ps l where s: "s = join ''/'' (ps @ [l])" and
    parts: "\<forall>p \<in> set (ps @ [l]). p \<noteq> [] \<and> p \<noteq> ''.'' \<and> p \<noteq> ''..'' \<and> p \<notin> set protected_names \<and>
        CHR ''/'' \<notin> set p" and
    wild: "\<forall>p \<in> set ps. \<not> has_wild p" "has_wild l \<longrightarrow> l = ''**''"
    unfolding wf_scope_def by blast
  have root: "path_root s = []" by (rule scope_of_wf(2)[OF wf])
  have "split_slash s = ps @ [l]" unfolding s by (rule split_slash_join) (use parts in auto)
  then have "path_parts s = ps @ [l]"
    unfolding path_parts_def path_tail_def root by (simp add: filter_True parts del: filter_append)
  with parts wild root scope_of_wf(1)[OF wf] show ?thesis by (auto simp: protected_names_def)
qed

lemma accepted_scope_safe_witness:
  "scope ''src/./core//**'' = Inr ''src/core/**'' \<and> scope ''src/core/**'' = Inr ''src/core/**''"
proof -
  have "scope ''src/./core//**'' = Inr ''src/core/**''" by code_simp
  with accepted_scope_safe[OF this] show ?thesis by simp
qed

text \<open>The textual containment test is sound for the paths scopes admit: when an accepted scope
  contains another, every path the inner one admits is admitted by the outer one, with exactly
  one exception, a plain path \<open>d\<close> under the tree \<open>d/**\<close>.\<close>

theorem scope_containment_sound:
  assumes "scope v = Inr c" and "scope w = Inr d" and "scope_contains c d" and "path_allowed x [d]"
  shows "path_allowed x [c] \<or> x = d \<and> c = d @ ''/**''"
proof (cases "ends_with ''/**'' c")
  case True
  from tree_scope[OF scope_wf[OF assms(1)] True] scope_contains_allowed[OF scope_wf scope_wf assms(3,4)] assms(1,2)
  show ?thesis by fastforce
next
  case False
  have "path_allowed x [c] \<or> x = c"
    using scope_contains_allowed[OF scope_wf[OF assms(1)] scope_wf[OF assms(2)] assms(3,4)]
      plain_scope[OF False] by auto
  then show ?thesis using False by (auto simp: path_allowed_def)
qed

lemma scope_containment_sound_witness:
  "path_allowed ''src/core/a.py'' [''src/**''] \<or> ''src/core/a.py'' = ''src/core/**'' \<and>
    ''src/**'' = ''src/core/**'' @ ''/**''"
  by (rule scope_containment_sound[where v = "''src/**''" and w = "''src/core/**''"]) code_simp+

text \<open>The exception is real, and a bare \<open>**\<close>, which \<open>scope\<close> accepts, admits only
  the literal name.\<close>

lemma containment_exception:
  "scope_contains ''docs/**'' ''docs'' \<and> \<not> path_allowed ''docs'' [''docs/**'']"
  by code_simp

lemma bare_wildcard_is_literal:
  "scope ''**'' = Inr ''**'' \<and> \<not> path_allowed ''src/main.py'' [''**''] \<and> path_allowed ''**'' [''**'']"
  by code_simp

end
