(* ===== verification/Workflow_Contracts.thy ===== *)
theory Workflow_Contracts
  imports Effects_Policy Path_Scope
begin

text \<open>
  The typed application contracts of \<^verbatim>\<open>pipeline/workflow_contracts.py\<close>: effect
  authorities, the permission-carrying \<^verbatim>\<open>WorkflowContext\<close> with its attenuation to
  child stages, the workflow requests with the effects they require, and the result envelope.
  Resolving, absolutising and expanding paths touch the file system and are arguments
  (\<open>resolve\<close>, \<open>absolute\<close>, \<open>expand\<close>, \<open>present\<close>).
\<close>

section \<open>Authorities\<close>

datatype authority =
    FixedEffectAuthority "string list"
  | AttenuatedEffectAuthority authority "string list"
  | AdmissionAuthority mcp_admission

fun authority_permits :: "authority \<Rightarrow> string \<Rightarrow> bool" where
  "authority_permits (FixedEffectAuthority effects) effect = (effect \<in> set effects)"
| "authority_permits (AttenuatedEffectAuthority parent effects) effect =
     (effect \<in> set effects \<and> authority_permits parent effect)"
| "authority_permits (AdmissionAuthority a) effect = permits a effect"

fun authority_summary :: "(string \<Rightarrow> string) \<Rightarrow> authority \<Rightarrow> dict" where
  "authority_summary sha (FixedEffectAuthority effects) =
     [(''kind'', JStr ''cli-explicit-effects''), (''granted_effects'', strings effects)]"
| "authority_summary sha (AttenuatedEffectAuthority parent effects) =
     [(''kind'', JStr ''attenuated-workflow-authority''), (''granted_effects'', strings effects),
      (''parent'', JObj (authority_summary sha parent))]"
| "authority_summary sha (AdmissionAuthority a) = admission_summary sha a"

text \<open>What a child grant is: the parent's grant, cut down to a list of effects.\<close>

locale effect_authority =
  fixes grants :: "'a \<Rightarrow> string \<Rightarrow> bool"
    and attenuate :: "'a \<Rightarrow> string list \<Rightarrow> 'a"
  assumes attenuate_grants: "grants (attenuate a es) e \<longleftrightarrow> e \<in> set es \<and> grants a e"
begin

lemma attenuations_grant:
  "grants (foldl attenuate a ess) e \<longleftrightarrow> grants a e \<and> (\<forall>es \<in> set ess. e \<in> set es)"
  by (induction ess arbitrary: a) (auto simp: attenuate_grants)

lemma never_widens: "grants (foldl attenuate a ess) e \<Longrightarrow> grants a e"
  by (simp add: attenuations_grant)

end

interpretation authority: effect_authority authority_permits AttenuatedEffectAuthority
  by unfold_locales simp

section \<open>The workflow context\<close>

datatype workflow_interface = CLI | MCP

definition interface_value :: "workflow_interface \<Rightarrow> string" where
  "interface_value i = (case i of CLI \<Rightarrow> ''cli'' | MCP \<Rightarrow> ''mcp'')"

definition normalized_effects :: "string list \<Rightarrow> service_error + string list" where
  "normalized_effects effects = (if unknown_of effects \<noteq> []
     then Inl (PyValueError (''unknown workflow effects: '' @ join '', '' (unknown_of effects)))
     else Inr (sorted_set effects))"

record workflow_context =
  ctx_interface :: workflow_interface
  ctx_authority :: authority
  workspace_root :: string
  ctx_effects :: "string list"
  output_root :: "string option"
  resource_budget :: "(string \<times> int) list"

definition make_context :: "(string \<Rightarrow> string) \<Rightarrow> workflow_interface \<Rightarrow> authority \<Rightarrow> string \<Rightarrow> string list
    \<Rightarrow> string option \<Rightarrow> (string \<times> int) list \<Rightarrow> service_error + workflow_context" where
  "make_context resolve interface auth root effects out budget =
     and_then (normalized_effects effects) (\<lambda>normalized.
     and_then (ensure (\<forall>kv \<in> set budget. 0 \<le> snd kv)
       (PyValueError ''workflow resource budgets must be non-negative integers'')) (\<lambda>_.
     let missing = filter (\<lambda>e. \<not> authority_permits auth e) normalized in
     if missing \<noteq> [] then
       Inl (MCPPolicyViolation (''workflow authority is missing required effects: '' @ join '', '' missing))
     else Inr \<lparr>ctx_interface = interface, ctx_authority = auth, workspace_root = resolve root,
       ctx_effects = normalized, output_root = out, resource_budget = budget\<rparr>))"

definition for_cli :: "(string \<Rightarrow> string) \<Rightarrow> string list \<Rightarrow> string \<Rightarrow> string option \<Rightarrow> (string \<times> int) list
    \<Rightarrow> service_error + workflow_context" where
  "for_cli resolve required root out budget =
     and_then (normalized_effects required) (\<lambda>effects.
     make_context resolve CLI (FixedEffectAuthority effects) root effects out budget)"

definition for_mcp :: "(string \<Rightarrow> string) \<Rightarrow> authority \<Rightarrow> string list \<Rightarrow> string \<Rightarrow> string option
    \<Rightarrow> (string \<times> int) list \<Rightarrow> service_error + workflow_context" where
  "for_mcp resolve auth required root out budget = make_context resolve MCP auth root required out budget"

definition require :: "workflow_context \<Rightarrow> string \<Rightarrow> service_error + unit" where
  "require c effect =
     and_then (ensure (effect \<in> set mcp_effects)
       (MCPPolicyViolation (''unknown workflow effect boundary: '' @ effect))) (\<lambda>_.
     ensure (effect \<in> set (ctx_effects c) \<and> authority_permits (ctx_authority c) effect)
       (MCPPolicyViolation (''workflow context does not authorize '' @ effect)))"

definition child :: "(string \<Rightarrow> string) \<Rightarrow> workflow_context \<Rightarrow> string list \<Rightarrow> service_error + workflow_context" where
  "child resolve c effects =
     and_then (normalized_effects effects) (\<lambda>narrowed.
     and_then (ensure (set narrowed \<subseteq> set (ctx_effects c))
       (MCPPolicyViolation ''child workflow cannot widen parent authority'')) (\<lambda>_.
     make_context resolve (ctx_interface c) (AttenuatedEffectAuthority (ctx_authority c) narrowed)
       (workspace_root c) narrowed (output_root c) (resource_budget c)))"

text \<open>\<open>path != root and root not in path.parents\<close> on resolved paths.\<close>

definition path_text :: "string \<Rightarrow> string list \<Rightarrow> string" where
  "path_text root parts = (let t = root @ join ''/'' parts in if t = [] then ''.'' else t)"

definition path_parents :: "string \<Rightarrow> string list" where
  "path_parents p = map (\<lambda>k. path_text (path_root p) (take k (path_tail p))) [0..<length (path_tail p)]"

definition resolve_input :: "(string \<Rightarrow> string) \<Rightarrow> (string \<Rightarrow> string) \<Rightarrow> (string \<Rightarrow> bool) \<Rightarrow> workflow_context
    \<Rightarrow> string \<Rightarrow> bool \<Rightarrow> service_error + string" where
  "resolve_input expand resolve present c value must_exist =
     and_then (require c ''workspace_read'') (\<lambda>_.
     let supplied = expand value;
         path = (if path_root supplied = [] then resolve (workspace_root c @ ''/'' @ supplied)
                 else resolve supplied) in
     and_then (ensure (path = workspace_root c \<or> workspace_root c \<in> set (path_parents path))
       (PyValueError ''path must remain inside the current workspace'')) (\<lambda>_.
     if must_exist \<and> \<not> present path then Inl (PyException (''FileNotFoundError: '' @ path))
     else Inr path))"

definition context_summary :: "(string \<Rightarrow> string) \<Rightarrow> workflow_context \<Rightarrow> dict" where
  "context_summary sha c =
     [(''interface'', JStr (interface_value (ctx_interface c))),
      (''required_effects'', strings (ctx_effects c)),
      (''authority'', JObj (authority_summary sha (ctx_authority c))),
      (''workspace_root'', JStr (workspace_root c)),
      (''output_root'', case output_root c of None \<Rightarrow> JNull | Some p \<Rightarrow> JStr p),
      (''resource_budget'', JObj (map (\<lambda>(k, v). (k, JInt v)) (resource_budget c)))]"

section \<open>Workflow requests\<close>

definition given :: "string option \<Rightarrow> bool" where
  "given s \<longleftrightarrow> s \<noteq> None \<and> s \<noteq> Some []"

text \<open>\<open>Path(source).suffix\<close>: from the last dot of the final component, when the dot is
  neither its first nor its last character.\<close>

definition path_suffix :: "string \<Rightarrow> string" where
  "path_suffix v = (let name = (if path_tail v = [] then [] else last (path_tail v));
      ext = rev (takeWhile (\<lambda>c. c \<noteq> CHR ''.'') (rev name)); i = length name - length ext - 1
    in if CHR ''.'' \<in> set name \<and> 0 < i \<and> ext \<noteq> [] then CHR ''.'' # ext else [])"

definition source_language :: "string \<Rightarrow> string" where
  "source_language source = (let suffix = str_lower (path_suffix source) in
     case map_of [(''.java'', ''java''), (''.jml'', ''jml''), (''.rs'', ''rust''), (''.c'', ''c''),
       (''.cc'', ''cpp''), (''.cpp'', ''cpp''), (''.cxx'', ''cpp'')] suffix of
       Some language \<Rightarrow> language
     | None \<Rightarrow> (let rest = dropWhile (\<lambda>c. c = CHR ''.'') suffix
                in if rest = [] then ''unknown'' else rest))"

datatype workflow_request =
    VerificationRequest string string string "string option" string string
  | InspectionRequest string "string option" string
  | DocumentationRequest string string string bool "string option" "string option" "string option" string
  | CodebaseAnalysisRequest string string string "string option"
  | TraceabilityRequest string string string string "string option"
  | RefactorRequest string string "string option" bool string string
  | ApplyRefactorRequest string "string option" string string string "string option" string string
  | BisimulationRequest string string string "string option"
  | SecurityTemplateRequest string string string "string option"

definition lookup_default :: "(string \<times> string) list \<Rightarrow> string \<Rightarrow> string \<Rightarrow> string" where
  "lookup_default table k d = (case map_of table k of None \<Rightarrow> d | Some v \<Rightarrow> v)"

definition verification_request :: "(string \<Rightarrow> string) \<Rightarrow> string \<Rightarrow> string \<Rightarrow> string \<Rightarrow> string option
    \<Rightarrow> service_error + workflow_request" where
  "verification_request resolve source0 mode0 backend0 export =
     (let source = resolve source0; mode = str_lower (str_strip mode0);
          backend = str_lower (str_strip (if backend0 = [] then ''prusti'' else backend0)) in
      and_then (ensure (mode \<in> {''parse'', ''check'', ''esc''})
        (PyValueError (''unsupported verification mode: '' @ mode0))) (\<lambda>_.
      and_then (ensure (backend \<in> {''prusti'', ''kani''})
        (PyValueError (''unsupported Rust backend: '' @ backend0))) (\<lambda>_.
      let language = source_language source;
          effective = lookup_default [(''java'', ''openjml''), (''jml'', ''openjml''),
              (''c'', ''frama-c''), (''cpp'', ''esbmc'')] language
            (if language = ''rust'' then (if mode = ''esc'' then backend else ''rustc'') else ''unknown'')
      in Inr (VerificationRequest source mode backend export language effective))))"

definition inspection_request :: "(string \<Rightarrow> string) \<Rightarrow> string \<Rightarrow> string option \<Rightarrow> workflow_request" where
  "inspection_request resolve source0 export =
     (let source = resolve source0 in InspectionRequest source export (source_language source))"

definition documentation_request :: "(string \<Rightarrow> string) \<Rightarrow> string \<Rightarrow> string \<Rightarrow> string \<Rightarrow> bool \<Rightarrow> string option
    \<Rightarrow> string option \<Rightarrow> string option \<Rightarrow> service_error + workflow_request" where
  "documentation_request resolve source0 out root no_llm provider0 model export =
     (let source = resolve source0;
          provider = (if no_llm then None else Some (str_lower (str_strip
            (case provider0 of None \<Rightarrow> ''ollama'' | Some p \<Rightarrow> if p = [] then ''ollama'' else p)))) in
      and_then (ensure (provider \<in> {None, Some ''glm'', Some ''openai'', Some ''ollama''})
        (PyValueError (''unsupported documentation provider: '' @
          (case provider of None \<Rightarrow> ''None'' | Some p \<Rightarrow> p)))) (\<lambda>_.
      Inr (DocumentationRequest source out root no_llm provider (if no_llm then None else model)
        export (source_language source))))"

definition codebase_analysis_request :: "(string \<Rightarrow> string) \<Rightarrow> string \<Rightarrow> string \<Rightarrow> string \<Rightarrow> string option
    \<Rightarrow> workflow_request" where
  "codebase_analysis_request resolve target out project export =
     CodebaseAnalysisRequest (resolve target) (resolve out) (resolve project)
       (if given export then map_option resolve export else None)"

definition traceability_request :: "(string \<Rightarrow> string) \<Rightarrow> (string \<Rightarrow> string) \<Rightarrow> string \<Rightarrow> string \<Rightarrow> string
    \<Rightarrow> string \<Rightarrow> string option \<Rightarrow> workflow_request" where
  "traceability_request resolve absolute domain source requirements out export =
     TraceabilityRequest (resolve domain) (resolve source) (resolve requirements) (absolute out)
       (if given export then map_option absolute export else None)"

definition refactor_request :: "(string \<Rightarrow> string) \<Rightarrow> string \<Rightarrow> string \<Rightarrow> string option \<Rightarrow> bool
    \<Rightarrow> service_error + workflow_request" where
  "refactor_request resolve baseline0 refactored0 export signing_intent =
     (let baseline = resolve baseline0; refactored = resolve refactored0;
          language = source_language baseline;
          effective = lookup_default [(''java'', ''openjml''), (''jml'', ''openjml''), (''rust'', ''prusti''),
            (''c'', ''frama-c''), (''cpp'', ''esbmc'')] language ''unknown'' in
      and_then (ensure (\<not> (signing_intent \<and> \<not> given export))
        (PyValueError ''signed refactor verification requires a controlled JSON export'')) (\<lambda>_.
      Inr (RefactorRequest baseline refactored export signing_intent language effective)))"

definition refactor_patterns :: "(string \<times> string list) list" where
  "refactor_patterns =
     (let java = [''extract-method'', ''factory-method'', ''state'', ''decorator'', ''facade'',
          ''null-object'', ''strategy''] in
      [(''java'', java), (''jml'', java), (''rust'', [''extract-method'', ''strategy'']),
       (''c'', [''extract-method'']), (''cpp'', [''extract-method''])])"

definition apply_refactor_request :: "(string \<Rightarrow> string) \<Rightarrow> string \<Rightarrow> string option \<Rightarrow> string \<Rightarrow> string \<Rightarrow> string
    \<Rightarrow> string option \<Rightarrow> service_error + workflow_request" where
  "apply_refactor_request resolve source0 inspection0 pattern0 method0 out0 export =
     (let source = resolve source0;
          inspection = (if given inspection0 then map_option resolve inspection0 else None);
          pattern = str_lower (str_strip pattern0); meth = str_strip method0; out = str_strip out0;
          language = source_language source in
      and_then (ensure (case map_of refactor_patterns language of None \<Rightarrow> False
          | Some ps \<Rightarrow> pattern \<in> set ps)
        (PyValueError (''unsupported '' @ language @ '' refactor pattern: '' @ pattern))) (\<lambda>_.
      and_then (ensure (\<not> (language \<in> {''java'', ''jml''} \<and> inspection = None))
        (PyValueError ''Java/JML refactoring requires hash-bound inspection evidence'')) (\<lambda>_.
      and_then (ensure (\<not> (meth = [] \<or> 256 < length meth))
        (PyValueError ''refactor method must be a bounded identifier'')) (\<lambda>_.
      and_then (ensure (out \<noteq> []) (PyValueError ''refactor output is required'')) (\<lambda>_.
      Inr (ApplyRefactorRequest source inspection pattern meth out export language
        (lookup_default [(''java'', ''openjml''), (''jml'', ''openjml''), (''rust'', ''prusti''),
          (''c'', ''frama-c''), (''cpp'', ''esbmc'')] language [])))))))"

definition nonempty_path :: "string \<Rightarrow> string \<Rightarrow> service_error + unit" where
  "nonempty_path key value = ensure (value \<noteq> [] \<and> CHR 0x00 \<notin> set value)
     (PyValueError (key @ '' must be a nonempty path''))"

definition optional_path :: "string option \<Rightarrow> service_error + unit" where
  "optional_path export = (case export of None \<Rightarrow> Inr ()
     | Some v \<Rightarrow> nonempty_path ''result_export'' v)"

definition bisimulation_request :: "(string \<Rightarrow> string) \<Rightarrow> string \<Rightarrow> string \<Rightarrow> string \<Rightarrow> string option
    \<Rightarrow> service_error + workflow_request" where
  "bisimulation_request absolute baseline refactored mapping export =
     and_then (nonempty_path ''baseline'' baseline) (\<lambda>_.
     and_then (nonempty_path ''refactored'' refactored) (\<lambda>_.
     and_then (nonempty_path ''mapping'' mapping) (\<lambda>_.
     and_then (optional_path export) (\<lambda>_.
     Inr (BisimulationRequest (absolute baseline) (absolute refactored) (absolute mapping) export)))))"

definition security_template_request :: "(string \<Rightarrow> string) \<Rightarrow> string \<Rightarrow> string \<Rightarrow> string \<Rightarrow> string option
    \<Rightarrow> service_error + workflow_request" where
  "security_template_request absolute report target out export =
     and_then (nonempty_path ''report_path'' report) (\<lambda>_.
     and_then (nonempty_path ''target'' target) (\<lambda>_.
     and_then (nonempty_path ''out_dir'' out) (\<lambda>_.
     and_then (optional_path export) (\<lambda>_.
     Inr (SecurityTemplateRequest (absolute report) (absolute target) out export)))))"

definition effective_export :: "string \<Rightarrow> string option \<Rightarrow> string option" where
  "effective_export out export = (case export of
     None \<Rightarrow> Some (path_text (path_root out) (path_tail out @ [''poc-verdict.json'']))
   | Some e \<Rightarrow> if e = ''-'' then None else Some e)"

fun request_effects :: "workflow_interface \<Rightarrow> workflow_request \<Rightarrow> service_error + string list" where
  "request_effects i (VerificationRequest _ mode _ export language _) = normalized_effects (
     [''workspace_read''] @
     (if \<not> (language \<in> {''c'', ''cpp''} \<and> mode \<noteq> ''esc'') then [''external_execution''] else []) @
     (if i = MCP then [''evidence_publication''] else []) @
     (if given export then [''workspace_write_new''] else []))"
| "request_effects i (InspectionRequest _ export _) = normalized_effects (
     [''workspace_read''] @ (if given export then [''workspace_write_new''] else []))"
| "request_effects i (DocumentationRequest _ _ _ _ provider _ _ _) = normalized_effects (
     [''workspace_read'', ''workspace_write_new''] @ (if provider \<noteq> None then [''provider_access''] else []))"
| "request_effects i (CodebaseAnalysisRequest _ _ _ _) =
     normalized_effects [''workspace_read'', ''workspace_write_new'']"
| "request_effects i (TraceabilityRequest _ _ _ _ _) =
     normalized_effects [''workspace_read'', ''workspace_write_new'']"
| "request_effects i (RefactorRequest _ _ export signing _ _) = normalized_effects (
     [''workspace_read'', ''external_execution''] @
     (if i = MCP then [''evidence_publication''] else []) @
     (if given export then [''workspace_write_new''] else []) @
     (if i = MCP \<and> signing then [''service_state_write''] else []))"
| "request_effects i (ApplyRefactorRequest _ _ _ _ _ _ _ _) = normalized_effects (
     [''workspace_read'', ''workspace_write_new'', ''external_execution''] @
     (if i = MCP then [''evidence_publication''] else []))"
| "request_effects i (BisimulationRequest _ _ _ export) =
     Inr (if export \<noteq> None then [''workspace_read'', ''workspace_write_new''] else [''workspace_read''])"
| "request_effects i (SecurityTemplateRequest _ _ _ _) = Inr [''workspace_read'', ''workspace_write_new'']"

section \<open>The result envelope\<close>

definition opt :: "string option \<Rightarrow> json" where
  "opt s = (case s of None \<Rightarrow> JNull | Some x \<Rightarrow> JStr x)"

definition request_head :: "string \<Rightarrow> dict" where
  "request_head workflow =
     [(''schema'', JStr ''formalspecgen-workflow-contract-v1''), (''workflow'', JStr workflow)]"

fun request_dict :: "workflow_request \<Rightarrow> dict" where
  "request_dict (VerificationRequest source mode backend export language effective) =
     request_head ''verify'' @ [(''source'', JStr source), (''mode'', JStr mode),
       (''backend'', JStr backend), (''result_export'', opt export), (''language'', JStr language),
       (''effective_backend'', JStr effective)]"
| "request_dict (InspectionRequest source export language) =
     request_head ''inspect'' @ [(''source'', JStr source), (''result_export'', opt export),
       (''language'', JStr language), (''mode'', JStr ''inspect''),
       (''effective_backend'', JStr ''builtin-java-inspector'')]"
| "request_dict (DocumentationRequest source out root no_llm provider model export language) =
     request_head ''document-code'' @ [(''source'', JStr source), (''out'', JStr out),
       (''project_root'', JStr root), (''no_llm'', JBool no_llm), (''provider'', opt provider),
       (''model'', opt model), (''result_export'', opt export), (''language'', JStr language),
       (''mode'', JStr (if no_llm then ''deterministic'' else ''provider-assisted'')),
       (''effective_backend'', JStr ''builtin-documentation'')]"
| "request_dict (CodebaseAnalysisRequest target out project export) =
     request_head ''analyze-codebase'' @ [(''target_dir'', JStr target), (''out_dir'', JStr out),
       (''project_root'', JStr project), (''result_export'', opt export),
       (''language'', JStr ''polyglot''), (''mode'', JStr ''analyze''),
       (''effective_backend'', JStr ''builtin-codebase-analysis'')]"
| "request_dict (TraceabilityRequest domain source requirements out export) =
     request_head ''generate-traceability-matrix'' @ [(''domain'', JStr domain),
       (''source'', JStr source), (''requirements'', JStr requirements), (''out'', JStr out),
       (''result_export'', opt export), (''language'', JStr ''mixed''), (''mode'', JStr ''generate''),
       (''effective_backend'', JStr ''builtin-traceability'')]"
| "request_dict (RefactorRequest baseline refactored export signing language effective) =
     request_head ''verify-refactor'' @ [(''baseline'', JStr baseline),
       (''refactored'', JStr refactored), (''result_export'', opt export),
       (''signing_intent'', JBool signing), (''language'', JStr language),
       (''mode'', JStr (if signing then ''preserve-signing'' else ''preserve'')),
       (''effective_backend'', JStr effective)]"
| "request_dict (ApplyRefactorRequest source inspection pattern meth out export language effective) =
     request_head ''apply-refactor'' @ [(''source'', JStr source), (''inspection'', opt inspection),
       (''pattern'', JStr pattern), (''method'', JStr meth), (''out'', JStr out),
       (''result_export'', opt export), (''language'', JStr language), (''mode'', JStr pattern),
       (''effective_backend'', JStr effective)]"
| "request_dict (BisimulationRequest baseline refactored mapping export) =
     request_head ''verify-bisimulation'' @ [(''baseline'', JStr baseline),
       (''refactored'', JStr refactored), (''mapping'', JStr mapping), (''result_export'', opt export)]"
| "request_dict (SecurityTemplateRequest report target out export) =
     request_head ''security-exploit'' @ [(''report_path'', JStr report), (''target'', JStr target),
       (''out_dir'', JStr out), (''result_export'', opt export)]"

record result_envelope =
  env_workflow :: string
  env_interface :: workflow_interface
  env_request :: dict
  workflow_status :: string
  env_verification :: dict
  env_admission :: "dict option"
  env_execution :: "dict option"
  env_publication :: "dict option"
  env_approval :: "dict option"

fun as_mapping :: "json \<Rightarrow> dict option" where
  "as_mapping (JObj d) = Some d"
| "as_mapping _ = None"

definition verification_workflows :: "string list" where
  "verification_workflows =
     [''verify'', ''verify-refactor'', ''apply-refactor'', ''validate-architecture'', ''validate-domain'']"

definition from_payload :: "(json \<Rightarrow> string) \<Rightarrow> (string \<Rightarrow> string) \<Rightarrow> workflow_request \<Rightarrow> workflow_interface
    \<Rightarrow> dict \<Rightarrow> workflow_context option \<Rightarrow> result_envelope" where
  "from_payload repr sha request interface payload ctx =
     (let request_value = request_dict request;
          workflow = py_str repr (get_field ''workflow'' request_value);
          is_verification = workflow \<in> set verification_workflows;
          status = get_field ''status'' payload; final_status = get_field ''final_status'' payload in
      \<lparr>env_workflow = workflow, env_interface = interface, env_request = request_value,
       workflow_status = py_str repr (if json_true status then status
         else if json_true final_status then final_status else JStr ''UNKNOWN''),
       env_verification =
         [(''claim'', if is_verification then get_default ''claim'' (JStr ''NO_PROOF'') payload
             else JStr ''NO_PROOF''),
          (''request_satisfied'', JBool (if is_verification
             then json_true (get_default ''request_satisfied'' (JBool False) payload) else False))],
       env_admission = (case ctx of None \<Rightarrow> None
         | Some c \<Rightarrow> if interface = MCP then Some (authority_summary sha (ctx_authority c)) else None),
       env_execution = as_mapping (get_field ''execution'' payload),
       env_publication = (case as_mapping (get_field ''publication'' payload) of
           Some d \<Rightarrow> Some d | None \<Rightarrow> as_mapping (get_field ''evidence'' payload)),
       env_approval = as_mapping (get_field ''approval'' payload)\<rparr>)"

definition opt_mapping :: "dict option \<Rightarrow> json" where
  "opt_mapping d = (case d of None \<Rightarrow> JNull | Some kvs \<Rightarrow> if kvs = [] then JNull else JObj kvs)"

definition envelope_dict :: "result_envelope \<Rightarrow> dict" where
  "envelope_dict e =
     [(''schema'', JStr ''formalspecgen-workflow-result-v1''), (''workflow'', JStr (env_workflow e)),
      (''interface'', JStr (interface_value (env_interface e))), (''request'', JObj (env_request e)),
      (''workflow_status'', JStr (workflow_status e)), (''verification'', JObj (env_verification e)),
      (''admission'', opt_mapping (env_admission e)), (''execution'', opt_mapping (env_execution e)),
      (''publication'', opt_mapping (env_publication e)), (''approval'', opt_mapping (env_approval e))]"

definition bind_workflow_result :: "(json \<Rightarrow> string) \<Rightarrow> (string \<Rightarrow> string) \<Rightarrow> dict \<Rightarrow> workflow_request
    \<Rightarrow> workflow_interface \<Rightarrow> workflow_context option \<Rightarrow> dict" where
  "bind_workflow_result repr sha payload request interface ctx =
     AList.update ''workflow_result''
       (JObj (envelope_dict (from_payload repr sha request interface payload ctx))) payload"

section \<open>Properties of contexts, requests and results\<close>

lemma make_contextD:
  assumes "make_context resolve i auth root effects out budget = Inr c"
  shows "set (ctx_effects c) = set effects \<and> set effects \<subseteq> set mcp_effects \<and> ctx_authority c = auth \<and>
    resource_budget c = budget \<and> ctx_interface c = i \<and> (\<forall>e \<in> set effects. authority_permits auth e)"
  using assms
  by (auto simp: make_context_def normalized_effects_def and_then_Inr_iff Let_def filter_empty_conv
      split: if_splits)

text \<open>A context that could be built authorises exactly its declared effects: the declared
  effects are known ones that its authority permits, \<open>require\<close> passes on each of them and on no
  other effect.\<close>

lemma context_requires_exactly:
  assumes "make_context resolve i auth root effects out budget = Inr c"
  shows "require c e = Inr () \<longleftrightarrow> e \<in> set effects"
  using make_contextD[OF assms] by (auto simp: require_def and_then_Inr_iff)

definition verify_context :: workflow_context where
  "verify_context = \<lparr>ctx_interface = CLI,
     ctx_authority = FixedEffectAuthority [''external_execution'', ''workspace_read''],
     workspace_root = ''/work'', ctx_effects = [''external_execution'', ''workspace_read''],
     output_root = None, resource_budget = []\<rparr>"

lemma context_requires_exactly_witness:
  "require verify_context ''workspace_read'' = Inr () \<longleftrightarrow>
    ''workspace_read'' \<in> set [''workspace_read'', ''external_execution'']"
proof (rule context_requires_exactly)
  show "make_context id CLI (FixedEffectAuthority [''external_execution'', ''workspace_read'']) ''/work''
    [''workspace_read'', ''external_execution''] None [] = Inr verify_context" by code_simp
qed

inductive descendant :: "(string \<Rightarrow> string) \<Rightarrow> workflow_context \<Rightarrow> workflow_context \<Rightarrow> bool"
  for resolve where
  self: "descendant resolve c c"
| child: "descendant resolve c d \<Longrightarrow> child resolve d effects = Inr d' \<Longrightarrow> descendant resolve c d'"

lemma childD:
  assumes "child resolve c effects = Inr d"
  shows "\<exists>narrowed. ctx_authority d = AttenuatedEffectAuthority (ctx_authority c) narrowed \<and>
    set (ctx_effects d) = set narrowed \<and> set narrowed \<subseteq> set (ctx_effects c) \<and>
    resource_budget d = resource_budget c"
  using assms make_contextD by (fastforce simp: child_def and_then_Inr_iff)

lemma descendant_attenuates:
  assumes "descendant resolve c d"
  shows "(\<exists>ess. ctx_authority d = foldl AttenuatedEffectAuthority (ctx_authority c) ess) \<and>
    set (ctx_effects d) \<subseteq> set (ctx_effects c) \<and> resource_budget d = resource_budget c"
  using assms
proof induction
  case (self c)
  show ?case by (intro conjI exI[of _ "[]"]) simp_all
next
  case (child c d effects d')
  then obtain ess where ess: "ctx_authority d = foldl AttenuatedEffectAuthority (ctx_authority c) ess" by blast
  from childD[OF child.hyps(2)] obtain narrowed where
    n: "ctx_authority d' = AttenuatedEffectAuthority (ctx_authority d) narrowed"
      "set (ctx_effects d') = set narrowed" "set narrowed \<subseteq> set (ctx_effects d)"
      "resource_budget d' = resource_budget d" by blast
  have "ctx_authority d' = foldl AttenuatedEffectAuthority (ctx_authority c) (ess @ [narrowed])"
    using n(1) ess by simp
  moreover have "set (ctx_effects d') \<subseteq> set (ctx_effects c)" using n(2,3) child.IH by auto
  moreover have "resource_budget d' = resource_budget c" using n(4) child.IH by simp
  ultimately show ?case by blast
qed

text \<open>Authority only shrinks: however many stages deep, a context derived from another by
  \<open>child\<close> passes no effect boundary that the first would not pass, its authority permits
  nothing the first's does not, and it keeps the resource budget.\<close>

theorem child_never_widens_authority:
  assumes "descendant resolve c d"
  shows "(\<forall>e. require d e = Inr () \<longrightarrow> require c e = Inr ()) \<and>
    (\<forall>e. authority_permits (ctx_authority d) e \<longrightarrow> authority_permits (ctx_authority c) e) \<and>
    resource_budget d = resource_budget c"
proof -
  from descendant_attenuates[OF assms] obtain ess where
    ess: "ctx_authority d = foldl AttenuatedEffectAuthority (ctx_authority c) ess" and
    sub: "set (ctx_effects d) \<subseteq> set (ctx_effects c)" "resource_budget d = resource_budget c" by blast
  have "authority_permits (ctx_authority d) e \<Longrightarrow> authority_permits (ctx_authority c) e" for e
    unfolding ess by (rule authority.never_widens)
  with sub show ?thesis by (auto simp: require_def and_then_Inr_iff)
qed

lemma child_never_widens_authority_witness:
  "\<exists>d. child id verify_context [''workspace_read''] = Inr d \<and> resource_budget d = resource_budget verify_context"
proof -
  obtain d where d: "child id verify_context [''workspace_read''] = Inr d"
    by (cases "child id verify_context [''workspace_read'']")
       (simp_all add: child_def normalized_effects_def make_context_def verify_context_def mcp_effects_def
         sorted_set_def unknown_of_def)
  have "descendant id verify_context d" by (rule descendant.child[OF descendant.self d])
  from child_never_widens_authority[OF this] d show ?thesis by blast
qed

lemma normalized_effects_Inr:
  "set effects \<subseteq> set mcp_effects \<Longrightarrow> normalized_effects effects = Inr (sorted_set effects)"
  by (simp add: normalized_effects_def)

text \<open>Every workflow request has an effect plan, and the plan is modest: computing it never
  fails, it always includes reading the workspace, it never includes worker dispatch, protected
  signing or protected publication, and provider access only for documentation.\<close>

theorem request_effect_plan:
  "\<exists>es. request_effects i r = Inr es \<and> ''workspace_read'' \<in> set es \<and>
    set es \<inter> {''remote_worker_dispatch'', ''protected_signing'', ''protected_publication''} = {} \<and>
    (''provider_access'' \<notin> set es \<or> (\<exists>s out root l p m x lang. r = DocumentationRequest s out root l p m x lang))"
proof -
  have "normalized_effects es = Inr (sorted_set es)"
    if "set es \<subseteq> {''workspace_read'', ''workspace_write_new'', ''external_execution'', ''provider_access'',
      ''evidence_publication'', ''service_state_write''}" for es
    by (rule normalized_effects_Inr) (rule order_trans[OF that], simp add: mcp_effects_def)
  note known = this
  show ?thesis by (cases r) (simp_all add: known)
qed

lemma request_effect_plan_witness:
  "\<exists>es. request_effects MCP (VerificationRequest ''/a.java'' ''esc'' ''prusti'' None ''java'' ''openjml'') = Inr es
    \<and> ''workspace_read'' \<in> set es"
  using request_effect_plan[of MCP "VerificationRequest ''/a.java'' ''esc'' ''prusti'' None ''java'' ''openjml''"]
  by (elim exE conjE) (intro exI conjI, assumption+)

text \<open>The epistemic boundary of results: binding a result adds one field and changes no other,
  and the typed view claims anything but \<^verbatim>\<open>NO_PROOF\<close>, or a satisfied request, only
  for the verifying workflows and only when the payload itself says so.\<close>

theorem result_claim_boundary:
  "\<exists>view verdict.
    get_field ''workflow_result'' (bind_workflow_result repr sha payload r i ctx) = JObj view \<and>
    get_field ''verification'' view = JObj verdict \<and>
    (let verifying = (case r of VerificationRequest _ _ _ _ _ _ \<Rightarrow> True
        | RefactorRequest _ _ _ _ _ _ \<Rightarrow> True | ApplyRefactorRequest _ _ _ _ _ _ _ _ \<Rightarrow> True | _ \<Rightarrow> False) in
     get_field ''claim'' verdict =
       (if verifying then get_default ''claim'' (JStr ''NO_PROOF'') payload else JStr ''NO_PROOF'') \<and>
     get_field ''request_satisfied'' verdict =
       JBool (verifying \<and> json_true (get_field ''request_satisfied'' payload))) \<and>
    (\<forall>k. k \<noteq> ''workflow_result'' \<longrightarrow>
       get_field k (bind_workflow_result repr sha payload r i ctx) = get_field k payload)"
proof -
  have "json_true (get_default ''request_satisfied'' (JBool False) payload) =
      json_true (get_field ''request_satisfied'' payload)"
    by (simp add: get_default_def get_field_def split: option.splits)
  then show ?thesis
    by (cases r) (simp_all add: bind_workflow_result_def envelope_dict_def from_payload_def Let_def
        request_head_def verification_workflows_def)
qed

lemma result_claim_boundary_witness:
  "\<exists>view verdict.
    get_field ''workflow_result'' (bind_workflow_result (\<lambda>_. []) id [(''claim'', JStr ''PROVED'')]
      (InspectionRequest ''/A.java'' None ''java'') MCP None) = JObj view \<and>
    get_field ''verification'' view = JObj verdict \<and> get_field ''claim'' verdict = JStr ''NO_PROOF''"
  using result_claim_boundary[of "\<lambda>_. []" id "[(''claim'', JStr ''PROVED'')]"
      "InspectionRequest ''/A.java'' None ''java''" MCP None]
  by (auto simp: Let_def)

end
