(* ===== verification/A2A_Contracts.thy ===== *)
theory A2A_Contracts
  imports Effects_Policy Path_Scope
begin

text \<open>
  The typed contracts of \<^verbatim>\<open>pipeline/a2a_coordination.py\<close>: \<^verbatim>\<open>WorkItem\<close>,
  \<^verbatim>\<open>AuthorityGrant\<close>, \<^verbatim>\<open>WorkerProfile\<close> with their
  \<^verbatim>\<open>__post_init__\<close> checks and JSON forms, and \<^verbatim>\<open>CoordinationPolicy.load\<close>.
  The records hold values of the declared types; a JSON field of another type is rejected with
  \<open>PyTypeError\<close> when a record is decoded.  Resolving a directory and reading an ISO time
  (\<open>read_iso s\<close>: \<open>None\<close> when \<^verbatim>\<open>fromisoformat\<close> raises, otherwise whether the
  time has a zone, and its instant) are arguments.
\<close>

type_synonym iso_reader = "string \<Rightarrow> (bool \<times> int) option"

abbreviation fail :: "string \<Rightarrow> string \<Rightarrow> service_error" where
  "fail code message \<equiv> A2ACoordinationError code message"

section \<open>Work items\<close>

record work_item =
  work_item_id :: string
  base_revision :: string
  objective :: string
  workflow :: string
  variant :: "(string \<times> string) list"
  allowed_paths :: "string list"
  protected_paths :: "string list"
  acceptance_plan_ref :: string
  authority_ref :: string
  deliverables :: "string list"
  item_effects :: "string list"
  item_budget :: "(string \<times> int) list"
  parent_work_item_id :: "string option"

definition deliverable_kinds :: "string list" where
  "deliverable_kinds = [''patch'', ''changed-file-manifest'', ''test-results'', ''evidence-references'']"

definition make_work_item :: "work_item \<Rightarrow> service_error + work_item" where
  "make_work_item w =
     and_then (ensure (is_identifier (work_item_id w)) (fail ''INVALID_WORK_ITEM'' ''invalid work_item_id'')) (\<lambda>_.
     and_then (ensure (is_hex 40 (base_revision w))
       (fail ''INVALID_BASE_REVISION'' ''base_revision must be a full Git SHA-1'')) (\<lambda>_.
     and_then (ensure (str_strip (objective w) \<noteq> [] \<and> length (objective w) \<le> 8192)
       (fail ''INVALID_WORK_ITEM'' ''objective is empty or too large'')) (\<lambda>_.
     and_then (for_each (\<lambda>(value, name). ensure (is_identifier value)
         (fail ''INVALID_WORK_ITEM'' (''invalid '' @ name)))
       [(workflow w, ''workflow''), (acceptance_plan_ref w, ''acceptance_plan_ref''),
        (authority_ref w, ''authority_ref'')]) (\<lambda>_.
     and_then (map_res scope (allowed_paths w)) (\<lambda>allowed.
     and_then (map_res scope (protected_paths w)) (\<lambda>protected.
     and_then (ensure (allowed \<noteq> []) (fail ''INVALID_WORK_ITEM'' ''allowed_paths cannot be empty'')) (\<lambda>_.
     and_then (ensure (unknown_of (item_effects w) = [])
       (fail ''UNKNOWN_EFFECT'' (''unknown requested effects: '' @ join '', '' (unknown_of (item_effects w))))) (\<lambda>_.
     and_then (ensure (deliverables w \<noteq> [] \<and> set (deliverables w) \<subseteq> set deliverable_kinds)
       (fail ''INVALID_WORK_ITEM'' ''unsupported deliverable set'')) (\<lambda>_.
     and_then (ensure (\<forall>kv \<in> set (item_budget w). is_identifier (fst kv) \<and> 0 \<le> snd kv)
       (fail ''INVALID_BUDGET'' ''invalid resource budget'')) (\<lambda>_.
     and_then (case parent_work_item_id w of None \<Rightarrow> Inr ()
       | Some parent \<Rightarrow> ensure (is_identifier parent \<and> parent \<noteq> work_item_id w)
           (fail ''INVALID_WORK_ITEM'' ''invalid parent_work_item_id'')) (\<lambda>_.
     Inr (w\<lparr>objective := str_strip (objective w), allowed_paths := sorted_set allowed,
       protected_paths := sorted_set protected, deliverables := sorted_set (deliverables w),
       item_effects := sorted_set (item_effects w)\<rparr>))))))))))))"

definition jints :: "(string \<times> int) list \<Rightarrow> json" where
  "jints kvs = JObj (map (\<lambda>(k, v). (k, JInt v)) kvs)"

definition work_item_dict :: "work_item \<Rightarrow> dict" where
  "work_item_dict w =
     [(''work_item_id'', JStr (work_item_id w)), (''base_revision'', JStr (base_revision w)),
      (''objective'', JStr (objective w)), (''workflow'', JStr (workflow w)),
      (''variant'', JObj (map (\<lambda>(k, v). (k, JStr v)) (variant w))),
      (''allowed_paths'', jstrings (allowed_paths w)), (''protected_paths'', jstrings (protected_paths w)),
      (''acceptance_plan_ref'', JStr (acceptance_plan_ref w)), (''authority_ref'', JStr (authority_ref w)),
      (''deliverables'', jstrings (deliverables w)), (''requested_effects'', jstrings (item_effects w)),
      (''resource_budget'', jints (item_budget w)),
      (''parent_work_item_id'', optional_string (parent_work_item_id w)),
      (''schema'', JStr ''formalspecgen-work-item-v1'')]"

definition request_sha256 :: "(string \<Rightarrow> string) \<Rightarrow> work_item \<Rightarrow> string" where
  "request_sha256 sha w = digest sha (JObj (work_item_dict w))"

text \<open>\<^verbatim>\<open>WorkItem(**{... if key != "schema"})\<close>: unknown or missing arguments are type
  errors; the budget and the parent have defaults.\<close>

definition work_item_keys :: "string list" where
  "work_item_keys = [''work_item_id'', ''base_revision'', ''objective'', ''workflow'', ''variant'',
     ''allowed_paths'', ''protected_paths'', ''acceptance_plan_ref'', ''authority_ref'',
     ''deliverables'', ''requested_effects'', ''resource_budget'', ''parent_work_item_id'']"

definition argument :: "string \<Rightarrow> dict \<Rightarrow> service_error + json" where
  "argument k d = (case map_of d k of None \<Rightarrow> Inl PyTypeError | Some v \<Rightarrow> Inr v)"

definition item_of_dict :: "dict \<Rightarrow> service_error + work_item" where
  "item_of_dict d =
     and_then (ensure (\<forall>kv \<in> set d. fst kv = ''schema'' \<or> fst kv \<in> set work_item_keys) PyTypeError) (\<lambda>_.
     and_then (and_then (argument ''work_item_id'' d) as_str) (\<lambda>wid.
     and_then (and_then (argument ''base_revision'' d) as_str) (\<lambda>rev.
     and_then (and_then (argument ''objective'' d) as_str) (\<lambda>obj.
     and_then (and_then (argument ''workflow'' d) as_str) (\<lambda>flow.
     and_then (and_then (argument ''variant'' d) as_str_pairs) (\<lambda>var.
     and_then (and_then (argument ''allowed_paths'' d) as_strings) (\<lambda>allowed.
     and_then (and_then (argument ''protected_paths'' d) as_strings) (\<lambda>prot.
     and_then (and_then (argument ''acceptance_plan_ref'' d) as_str) (\<lambda>plan.
     and_then (and_then (argument ''authority_ref'' d) as_str) (\<lambda>auth.
     and_then (and_then (argument ''deliverables'' d) as_strings) (\<lambda>dels.
     and_then (and_then (argument ''requested_effects'' d) as_strings) (\<lambda>effs.
     and_then (as_ints (get_default ''resource_budget'' (JObj []) d)) (\<lambda>budget.
     and_then (as_optional (get_field ''parent_work_item_id'' d)) (\<lambda>parent.
     make_work_item \<lparr>work_item_id = wid, base_revision = rev, objective = obj, workflow = flow,
       variant = var, allowed_paths = allowed, protected_paths = prot, acceptance_plan_ref = plan,
       authority_ref = auth, deliverables = dels, item_effects = effs, item_budget = budget,
       parent_work_item_id = parent\<rparr>))))))))))))))"

section \<open>Authority grants and worker profiles\<close>

record authority_grant =
  grant_ref :: string
  grant_principal :: string
  project_root :: string
  grant_workers :: "string list"
  grant_workflows :: "string list"
  grant_effects :: "string list"
  grant_paths :: "string list"
  grant_budget :: "(string \<times> int) list"
  expires_at :: "string option"

definition make_grant :: "(string \<Rightarrow> string) \<Rightarrow> iso_reader \<Rightarrow> authority_grant \<Rightarrow> service_error + authority_grant" where
  "make_grant resolve read_iso g =
     and_then (ensure (unknown_of (grant_effects g) = [])
       (fail ''POLICY_INVALID'' ''authority has unknown effects'')) (\<lambda>_.
     and_then (map_res scope (grant_paths g)) (\<lambda>paths.
     and_then (case expires_at g of None \<Rightarrow> Inr ()
       | Some t \<Rightarrow> (case read_iso t of
           None \<Rightarrow> Inl (fail ''POLICY_INVALID'' ''invalid authority expiry'')
         | Some (zoned, _) \<Rightarrow> ensure zoned
             (fail ''POLICY_INVALID'' ''authority expiry must include a timezone''))) (\<lambda>_.
     Inr (g\<lparr>project_root := resolve (project_root g), grant_paths := paths\<rparr>))))"

definition grant_dict :: "authority_grant \<Rightarrow> dict" where
  "grant_dict g =
     [(''ref'', JStr (grant_ref g)), (''principal_id'', JStr (grant_principal g)),
      (''project_root'', JStr (project_root g)), (''workers'', jstrings (grant_workers g)),
      (''workflows'', jstrings (grant_workflows g)), (''effects'', jstrings (grant_effects g)),
      (''allowed_paths'', jstrings (grant_paths g)), (''max_budget'', jints (grant_budget g)),
      (''expires_at'', optional_string (expires_at g))]"

record worker_profile =
  worker_id :: string
  endpoint :: string
  agent_card_sha256 :: string
  worker_workflows :: "string list"
  worker_effects :: "string list"
  worker_paths :: "string list"
  worker_budget :: "(string \<times> int) list"
  auth_token_env :: "string option"

text \<open>\<open>urlparse\<close>: leading control characters and spaces are dropped and tabs and line breaks
  removed; then scheme, authority and host name.\<close>

definition is_scheme_char :: "char \<Rightarrow> bool" where
  "is_scheme_char c \<longleftrightarrow> is_alnum c \<or> c = CHR ''+'' \<or> c = CHR ''-'' \<or> c = CHR ''.''"

definition url_clean :: "string \<Rightarrow> string" where
  "url_clean url = filter (\<lambda>c. of_char c \<notin> {9, 10, 13 :: nat})
     (dropWhile (\<lambda>c. of_char c \<le> (32 :: nat)) url)"

definition url_scheme :: "string \<Rightarrow> string \<times> string" where
  "url_scheme url = (let s = takeWhile (\<lambda>c. c \<noteq> CHR '':'') url in
     if s \<noteq> [] \<and> length s < length url \<and> is_letter (hd s) \<and> list_all is_scheme_char s
     then (str_lower s, drop (length s + 1) url) else ([], url))"

definition url_netloc :: "string \<Rightarrow> string" where
  "url_netloc rest = (if starts_with ''//'' rest
     then takeWhile (\<lambda>c. c \<noteq> CHR ''/'' \<and> c \<noteq> CHR ''?'' \<and> c \<noteq> CHR ''#'') (drop 2 rest) else [])"

definition url_hostname :: "string \<Rightarrow> string option" where
  "url_hostname netloc =
     (let info = rev (takeWhile (\<lambda>c. c \<noteq> CHR ''@'') (rev netloc));
          host = (if CHR ''['' \<in> set info
            then takeWhile (\<lambda>c. c \<noteq> CHR '']'') (drop 1 (dropWhile (\<lambda>c. c \<noteq> CHR ''['') info))
            else takeWhile (\<lambda>c. c \<noteq> CHR '':'') info)
      in if host = [] then None
         else Some (str_lower (takeWhile (\<lambda>c. c \<noteq> CHR ''%'') host) @ dropWhile (\<lambda>c. c \<noteq> CHR ''%'') host))"

definition url_parse :: "string \<Rightarrow> service_error + string \<times> string option" where
  "url_parse url = (case url_scheme (url_clean url) of (scheme, rest) \<Rightarrow>
     let netloc = url_netloc rest in
     if (CHR ''['' \<in> set netloc) \<noteq> (CHR '']'' \<in> set netloc) then Inl (PyValueError ''Invalid IPv6 URL'')
     else Inr (scheme, url_hostname netloc))"

definition loopback_hosts :: "string list" where
  "loopback_hosts = [''127.0.0.1'', ''localhost'', ''::1'']"

definition make_worker :: "worker_profile \<Rightarrow> service_error + worker_profile" where
  "make_worker w =
     and_then (url_parse (endpoint w)) (\<lambda>(scheme, hostname).
     let loopback = (case hostname of None \<Rightarrow> False | Some h \<Rightarrow> h \<in> set loopback_hosts) in
     and_then (ensure (\<not> (scheme \<noteq> ''https'' \<and> \<not> (scheme = ''http'' \<and> loopback)))
       (fail ''POLICY_INVALID'' ''worker endpoint must use HTTPS (HTTP is loopback-only)'')) (\<lambda>_.
     and_then (ensure (is_hex 64 (agent_card_sha256 w))
       (fail ''POLICY_INVALID'' ''worker Agent Card digest is required'')) (\<lambda>_.
     and_then (ensure (unknown_of (worker_effects w) = [])
       (fail ''POLICY_INVALID'' ''worker has unknown effects'')) (\<lambda>_.
     and_then (map_res scope (worker_paths w)) (\<lambda>paths.
     Inr (w\<lparr>worker_paths := paths\<rparr>))))))"

definition worker_dict :: "worker_profile \<Rightarrow> dict" where
  "worker_dict w =
     [(''worker_id'', JStr (worker_id w)), (''endpoint'', JStr (endpoint w)),
      (''agent_card_sha256'', JStr (agent_card_sha256 w)), (''workflows'', jstrings (worker_workflows w)),
      (''effects'', jstrings (worker_effects w)), (''allowed_paths'', jstrings (worker_paths w)),
      (''max_budget'', jints (worker_budget w)), (''auth_token_env'', optional_string (auth_token_env w))]"

section \<open>The coordination policy\<close>

record coordination_policy =
  authorities :: "(string \<times> authority_grant) list"
  workers :: "(string \<times> worker_profile) list"

definition decode_grant :: "(string \<Rightarrow> string) \<Rightarrow> iso_reader \<Rightarrow> dict \<Rightarrow> service_error + authority_grant" where
  "decode_grant resolve read_iso d =
     and_then (and_then (dict_item ''ref'' d) as_str) (\<lambda>gref.
     and_then (and_then (dict_item ''principal_id'' d) as_str) (\<lambda>principal.
     and_then (and_then (dict_item ''project_root'' d) as_str) (\<lambda>root.
     and_then (and_then (dict_item ''workers'' d) as_strings) (\<lambda>ws.
     and_then (and_then (dict_item ''workflows'' d) as_strings) (\<lambda>flows.
     and_then (and_then (dict_item ''effects'' d) as_strings) (\<lambda>effs.
     and_then (and_then (dict_item ''allowed_paths'' d) as_strings) (\<lambda>paths.
     and_then (as_ints (get_default ''max_budget'' (JObj []) d)) (\<lambda>budget.
     and_then (as_optional (get_field ''expires_at'' d)) (\<lambda>expiry.
     make_grant resolve read_iso \<lparr>grant_ref = gref, grant_principal = principal, project_root = root,
       grant_workers = ws, grant_workflows = flows, grant_effects = effs, grant_paths = paths,
       grant_budget = budget, expires_at = expiry\<rparr>)))))))))"

definition decode_worker :: "dict \<Rightarrow> service_error + worker_profile" where
  "decode_worker d =
     and_then (and_then (dict_item ''worker_id'' d) as_str) (\<lambda>wid.
     and_then (and_then (dict_item ''endpoint'' d) as_str) (\<lambda>url.
     and_then (and_then (dict_item ''agent_card_sha256'' d) as_str) (\<lambda>card.
     and_then (and_then (dict_item ''workflows'' d) as_strings) (\<lambda>flows.
     and_then (and_then (dict_item ''effects'' d) as_strings) (\<lambda>effs.
     and_then (and_then (dict_item ''allowed_paths'' d) as_strings) (\<lambda>paths.
     and_then (as_ints (get_default ''max_budget'' (JObj []) d)) (\<lambda>budget.
     and_then (as_optional (get_field ''auth_token_env'' d)) (\<lambda>env.
     make_worker \<lparr>worker_id = wid, endpoint = url, agent_card_sha256 = card, worker_workflows = flows,
       worker_effects = effs, worker_paths = paths, worker_budget = budget, auth_token_env = env\<rparr>))))))))"

definition add_grant :: "(string \<Rightarrow> string) \<Rightarrow> iso_reader \<Rightarrow> json \<Rightarrow> (string \<times> authority_grant) list
    \<Rightarrow> service_error + (string \<times> authority_grant) list" where
  "add_grant resolve read_iso j gs =
     and_then (as_dict j) (\<lambda>d. and_then (decode_grant resolve read_iso d) (\<lambda>g.
     and_then (ensure (grant_ref g \<notin> set (map fst gs))
       (fail ''POLICY_INVALID'' ''duplicate authority ref'')) (\<lambda>_.
     Inr (gs @ [(grant_ref g, g)]))))"

definition add_worker :: "json \<Rightarrow> (string \<times> worker_profile) list
    \<Rightarrow> service_error + (string \<times> worker_profile) list" where
  "add_worker j ws =
     and_then (as_dict j) (\<lambda>d. and_then (decode_worker d) (\<lambda>w.
     and_then (ensure (worker_id w \<notin> set (map fst ws))
       (fail ''POLICY_INVALID'' ''duplicate worker id'')) (\<lambda>_.
     Inr (ws @ [(worker_id w, w)]))))"

text \<open>\<open>content\<close> is what reading and parsing the file gave: the text of the exception, or JSON.\<close>

definition load_policy :: "(string \<Rightarrow> string) \<Rightarrow> iso_reader \<Rightarrow> string + json
    \<Rightarrow> service_error + coordination_policy" where
  "load_policy resolve read_iso content = (case content of
     Inl exc \<Rightarrow> Inl (fail ''POLICY_UNAVAILABLE'' exc)
   | Inr j \<Rightarrow>
     and_then (as_dict j) (\<lambda>value.
     and_then (ensure (get_field ''schema'' value = JStr ''formalspecgen-a2a-policy-v1'')
       (fail ''POLICY_INVALID'' ''unsupported coordination policy'')) (\<lambda>_.
     and_then (as_list (get_default ''authorities'' (JArr []) value)) (\<lambda>as.
     and_then (fold_res (add_grant resolve read_iso) as []) (\<lambda>grants.
     and_then (as_list (get_default ''workers'' (JArr []) value)) (\<lambda>ws.
     and_then (fold_res add_worker ws []) (\<lambda>profiles.
     Inr \<lparr>authorities = grants, workers = profiles\<rparr>)))))))"

section \<open>Lemmas on contracts\<close>

lemma str_strip_idem [simp]: "str_strip (str_strip s) = str_strip s"
proof -
  let ?t = "dropWhile is_space s"
  have no_lead: "dropWhile is_space t = t \<Longrightarrow> dropWhile is_space (rev (dropWhile is_space (rev t)))
      = rev (dropWhile is_space (rev t))" for t
  proof -
    assume t: "dropWhile is_space t = t"
    let ?u = "rev (dropWhile is_space (rev t))"
    have "\<exists>v. t = ?u @ v"
      by (metis rev_append rev_rev_ident takeWhile_dropWhile_id)
    then obtain v where v: "t = ?u @ v" by blast
    show "dropWhile is_space ?u = ?u"
    proof (cases ?u)
      case (Cons c cs)
      then have "t = c # (cs @ v)" using v by simp
      with t have "\<not> is_space c" by (metis dropWhile_eq_Cons_conv)
      then show ?thesis using Cons by simp
    next
      case Nil
      then show ?thesis by (simp only: dropWhile.simps)
    qed
  qed
  have "dropWhile is_space ?t = ?t" by (rule dropWhile_idem)
  from no_lead[OF this] show ?thesis by (simp add: str_strip_def)
qed

lemma length_dropWhile_le: "length (dropWhile P xs) \<le> length xs"
  by (induction xs) auto

lemma length_str_strip: "length (str_strip s) \<le> length s"
  using length_dropWhile_le[of is_space s] length_dropWhile_le[of is_space "rev (dropWhile is_space s)"]
  by (simp add: str_strip_def)

lemma map_res_scope_idem: "map_res scope xs = Inr ys \<Longrightarrow> map_res scope ys = Inr ys"
  by (induction xs arbitrary: ys) (auto simp: and_then_Inr_iff scope_idem)

lemma map_res_id: "map_res f xs = Inr xs \<longleftrightarrow> (\<forall>x \<in> set xs. f x = Inr x)"
  by (induction xs) (auto simp: and_then_Inr_iff)

lemma scopes_sorted_set: "map_res scope xs = Inr ys \<Longrightarrow> map_res scope (sorted_set ys) = Inr (sorted_set ys)"
  using map_res_scope_idem[of xs ys] by (simp add: map_res_id)

lemma unknown_of_sorted_set [simp]: "unknown_of (sorted_set es) = [] \<longleftrightarrow> unknown_of es = []"
  by simp

lemma as_ints_jints [simp]: "as_ints (jints kvs) = Inr kvs"
  by (simp add: as_ints_def jints_def) (induction kvs, auto)

lemma as_str_pairs_pairs [simp]: "as_str_pairs (JObj (map (\<lambda>(k, v). (k, JStr v)) kvs)) = Inr kvs"
  by (simp add: as_str_pairs_def) (induction kvs, auto)

lemma as_optional_optional [simp]: "as_optional (optional_string p) = Inr p"
  by (cases p) (simp_all add: as_optional_def optional_string_def)

lemma make_work_itemD:
  assumes "make_work_item w = Inr v"
  shows "\<exists>allowed prot. map_res scope (allowed_paths w) = Inr allowed \<and> map_res scope (protected_paths w) = Inr prot \<and>
    allowed \<noteq> [] \<and>
    v = w\<lparr>objective := str_strip (objective w), allowed_paths := sorted_set allowed,
       protected_paths := sorted_set prot, deliverables := sorted_set (deliverables w),
       item_effects := sorted_set (item_effects w)\<rparr>"
  using assms unfolding make_work_item_def and_then_Inr_iff by (elim exE conjE) auto

lemma make_work_item_idem:
  assumes "make_work_item w = Inr v"
  shows "make_work_item v = Inr v"
proof -
  from make_work_itemD[OF assms] obtain allowed prot where
    sc: "map_res scope (allowed_paths w) = Inr allowed" "map_res scope (protected_paths w) = Inr prot"
      "allowed \<noteq> []" and
    v: "v = w\<lparr>objective := str_strip (objective w), allowed_paths := sorted_set allowed,
       protected_paths := sorted_set prot, deliverables := sorted_set (deliverables w),
       item_effects := sorted_set (item_effects w)\<rparr>" by blast
  note strip_len = order_trans[OF length_str_strip]
  show ?thesis
    using assms sc scopes_sorted_set[OF sc(1)] scopes_sorted_set[OF sc(2)]
    unfolding v by (auto simp: make_work_item_def and_then_Inr_iff strip_len split: option.splits)
qed

lemma item_of_work_item_dict: "item_of_dict (work_item_dict w) = make_work_item w"
proof -
  have keys: "\<forall>kv \<in> set (work_item_dict w). fst kv = ''schema'' \<or> fst kv \<in> set work_item_keys"
    by (simp add: work_item_dict_def work_item_keys_def)
  have args: "argument ''work_item_id'' (work_item_dict w) = Inr (JStr (work_item_id w))"
    "argument ''base_revision'' (work_item_dict w) = Inr (JStr (base_revision w))"
    "argument ''objective'' (work_item_dict w) = Inr (JStr (objective w))"
    "argument ''workflow'' (work_item_dict w) = Inr (JStr (workflow w))"
    "argument ''variant'' (work_item_dict w) = Inr (JObj (map (\<lambda>(k, v). (k, JStr v)) (variant w)))"
    "argument ''allowed_paths'' (work_item_dict w) = Inr (jstrings (allowed_paths w))"
    "argument ''protected_paths'' (work_item_dict w) = Inr (jstrings (protected_paths w))"
    "argument ''acceptance_plan_ref'' (work_item_dict w) = Inr (JStr (acceptance_plan_ref w))"
    "argument ''authority_ref'' (work_item_dict w) = Inr (JStr (authority_ref w))"
    "argument ''deliverables'' (work_item_dict w) = Inr (jstrings (deliverables w))"
    "argument ''requested_effects'' (work_item_dict w) = Inr (jstrings (item_effects w))"
    by (simp_all add: argument_def work_item_dict_def)
  have opts: "get_default ''resource_budget'' (JObj []) (work_item_dict w) = jints (item_budget w)"
    "get_field ''parent_work_item_id'' (work_item_dict w) = optional_string (parent_work_item_id w)"
    by (simp_all add: get_default_def work_item_dict_def)
  show ?thesis unfolding item_of_dict_def args opts using keys by (simp, cases w, simp)
qed

text \<open>Work items survive storage: normalising is idempotent, and the item rebuilt from the
  stored dictionary of an accepted item is that item, with the same request digest.\<close>

theorem work_item_roundtrip:
  assumes "make_work_item w = Inr v"
  shows "make_work_item v = Inr v \<and> item_of_dict (work_item_dict v) = Inr v"
  using make_work_item_idem[OF assms] item_of_work_item_dict[of v] by simp

definition sample_item :: work_item where
  "sample_item = \<lparr>work_item_id = ''task-1'', base_revision = replicate 40 (CHR ''a''),
     objective = ''tidy'', workflow = ''refactor'', variant = [(''lang'', ''python'')],
     allowed_paths = [''src/**''], protected_paths = [''src/core/**''], acceptance_plan_ref = ''plan-1'',
     authority_ref = ''grant-1'', deliverables = [''patch''],
     item_effects = [''workspace_read''], item_budget = [(''tokens'', 10)], parent_work_item_id = None\<rparr>"

lemma work_item_roundtrip_witness:
  "make_work_item sample_item = Inr sample_item \<and> item_of_dict (work_item_dict sample_item) = Inr sample_item"
  by (rule work_item_roundtrip[of "sample_item\<lparr>objective := '' tidy '', allowed_paths := [''./src//**'']\<rparr>"]) code_simp

lemma sort_keys_pairs:
  fixes xs ys :: "(string \<times> 'a) list"
  assumes "sort_keys (JObj (map (\<lambda>(k, v). (k, f v)) xs)) = sort_keys (JObj (map (\<lambda>(k, v). (k, f v)) ys))"
    and "\<And>a b. sort_keys (f a) = sort_keys (f b) \<Longrightarrow> a = b"
  shows "map_of xs = map_of ys"
proof
  fix k :: string
  have m: "map_of (map (\<lambda>(k, v). (k, f v)) zs) k = map_option f (map_of zs k)" for zs
    by (induction zs) auto
  from sort_keys_fields[OF assms(1), of k] show "map_of xs k = map_of ys k"
    unfolding m by (cases "map_of xs k"; cases "map_of ys k") (auto dest: assms(2))
qed

text \<open>The request digest, on which idempotency rests, binds the whole request: work items with
  equal digests agree in every field, the variant and the budget as dictionaries, or SHA-256 has a
  collision.\<close>

theorem request_digest_binds:
  assumes "request_sha256 sha w = request_sha256 sha v"
  shows "collision sha \<or>
    w = v\<lparr>variant := variant w, item_budget := item_budget w\<rparr> \<and>
    map_of (variant w) = map_of (variant v) \<and> map_of (item_budget w) = map_of (item_budget v)"
proof (cases "collision sha")
  case False
  with assms digest_eq have "sort_keys (JObj (work_item_dict w)) = sort_keys (JObj (work_item_dict v))"
    unfolding request_sha256_def by blast
  note field = sort_keys_get_field[OF this]
  have list: "sort_keys (jstrings xs) = sort_keys (jstrings ys) \<Longrightarrow> xs = ys" for xs ys
    by (simp add: strings_inj)
  have opt: "sort_keys (optional_string a) = sort_keys (optional_string b) \<Longrightarrow> a = b" for a b
    by (cases a; cases b) (auto simp: optional_string_def)
  have "work_item_id w = work_item_id v" "base_revision w = base_revision v" "objective w = objective v"
    "workflow w = workflow v" "acceptance_plan_ref w = acceptance_plan_ref v" "authority_ref w = authority_ref v"
    using field[of "''work_item_id''"] field[of "''base_revision''"] field[of "''objective''"]
      field[of "''workflow''"] field[of "''acceptance_plan_ref''"] field[of "''authority_ref''"]
    by (simp_all add: work_item_dict_def)
  moreover have "allowed_paths w = allowed_paths v" "protected_paths w = protected_paths v"
    "deliverables w = deliverables v" "item_effects w = item_effects v"
    by (rule list, use field[of "''allowed_paths''"] in \<open>simp add: work_item_dict_def\<close>)
       (rule list, use field[of "''protected_paths''"] field[of "''deliverables''"]
          field[of "''requested_effects''"] in \<open>simp add: work_item_dict_def\<close>)+
  moreover have "parent_work_item_id w = parent_work_item_id v"
    by (rule opt) (use field[of "''parent_work_item_id''"] in \<open>simp add: work_item_dict_def\<close>)
  moreover have "map_of (variant w) = map_of (variant v)"
    by (rule sort_keys_pairs[of JStr]) (use field[of "''variant''"] in \<open>simp_all add: work_item_dict_def\<close>)
  moreover have "map_of (item_budget w) = map_of (item_budget v)"
    by (rule sort_keys_pairs[of JInt])
       (use field[of "''resource_budget''"] in \<open>simp_all add: work_item_dict_def jints_def\<close>)
  ultimately show ?thesis by simp
qed blast

lemma request_digest_binds_witness:
  "collision id \<or> map_of (variant sample_item) = map_of [(''lang'', ''python'')]"
  using request_digest_binds[of id sample_item "sample_item\<lparr>variant := [(''lang'', ''python'')]\<rparr>"]
  by (auto simp: sample_item_def)

section \<open>A loaded policy\<close>

definition grant_ok :: "iso_reader \<Rightarrow> authority_grant \<Rightarrow> bool" where
  "grant_ok read_iso g \<longleftrightarrow> set (grant_effects g) \<subseteq> set mcp_effects \<and>
     (\<forall>s \<in> set (grant_paths g). scope s = Inr s) \<and>
     (\<forall>t. expires_at g = Some t \<longrightarrow> (\<exists>i. read_iso t = Some (True, i)))"

definition worker_ok :: "worker_profile \<Rightarrow> bool" where
  "worker_ok w \<longleftrightarrow> set (worker_effects w) \<subseteq> set mcp_effects \<and>
     (\<forall>s \<in> set (worker_paths w). scope s = Inr s) \<and> is_hex 64 (agent_card_sha256 w) \<and>
     (\<exists>scheme host. url_parse (endpoint w) = Inr (scheme, host) \<and>
        (scheme = ''https'' \<or> scheme = ''http'' \<and> (\<exists>h. host = Some h \<and> h \<in> set loopback_hosts)))"

lemma scopes_accepted: "map_res scope xs = Inr ys \<Longrightarrow> \<forall>s \<in> set ys. scope s = Inr s"
  using map_res_scope_idem[of xs ys] by (simp add: map_res_id)

lemma make_grant_ok: "make_grant resolve read_iso g = Inr g' \<Longrightarrow> grant_ok read_iso g'"
  by (auto simp: make_grant_def and_then_Inr_iff grant_ok_def dest!: scopes_accepted dest: subsetD
      split: option.splits)

lemma decode_grant_ok: "decode_grant resolve read_iso d = Inr g \<Longrightarrow> grant_ok read_iso g"
  unfolding decode_grant_def and_then_Inr_iff by (elim exE conjE) (rule make_grant_ok)

lemma make_worker_ok: "make_worker w = Inr w' \<Longrightarrow> worker_ok w'"
  by (auto simp: make_worker_def and_then_Inr_iff worker_ok_def Let_def dest!: scopes_accepted
      split: option.splits) blast+

lemma decode_worker_ok: "decode_worker d = Inr w \<Longrightarrow> worker_ok w"
  unfolding decode_worker_def and_then_Inr_iff by (elim exE conjE) (rule make_worker_ok)

definition grants_ok :: "iso_reader \<Rightarrow> (string \<times> authority_grant) list \<Rightarrow> bool" where
  "grants_ok read_iso gs \<longleftrightarrow> distinct (map fst gs) \<and> (\<forall>(r, g) \<in> set gs. grant_ref g = r \<and> grant_ok read_iso g)"

definition workers_ok :: "(string \<times> worker_profile) list \<Rightarrow> bool" where
  "workers_ok ws \<longleftrightarrow> distinct (map fst ws) \<and> (\<forall>(i, w) \<in> set ws. worker_id w = i \<and> worker_ok w)"

lemma add_grant_ok: "add_grant resolve read_iso j gs = Inr gs' \<Longrightarrow> grants_ok read_iso gs \<Longrightarrow> grants_ok read_iso gs'"
  by (auto simp: add_grant_def and_then_Inr_iff grants_ok_def dest: decode_grant_ok)

lemma add_worker_ok: "add_worker j ws = Inr ws' \<Longrightarrow> workers_ok ws \<Longrightarrow> workers_ok ws'"
  by (auto simp: add_worker_def and_then_Inr_iff workers_ok_def dest: decode_worker_ok)

lemma load_policy_ok:
  assumes "load_policy resolve read_iso content = Inr p"
  shows "grants_ok read_iso (authorities p) \<and> workers_ok (workers p)"
proof -
  from assms obtain as grants ws profiles where
    as: "fold_res (add_grant resolve read_iso) as [] = Inr grants" and
    ws: "fold_res add_worker ws [] = Inr profiles" and
    p: "p = \<lparr>authorities = grants, workers = profiles\<rparr>"
    by (auto simp: load_policy_def and_then_Inr_iff split: sum.splits)
  have "grants_ok read_iso grants"
    by (rule fold_res_invariant[OF as]) (simp add: grants_ok_def, rule add_grant_ok)
  moreover have "workers_ok profiles"
    by (rule fold_res_invariant[OF ws]) (simp add: workers_ok_def, rule add_worker_ok)
  ultimately show ?thesis by (simp add: p)
qed

text \<open>A loaded coordination policy is sound: authorities and workers are filed under their own
  identifiers, hold only known effects and safe normalised scopes, expiry times carry a time zone,
  every worker has a pinned card digest and is reached over HTTPS or on the loopback host.\<close>

theorem loaded_policy_sound:
  assumes "load_policy resolve read_iso content = Inr p"
  shows "(\<forall>r g. map_of (authorities p) r = Some g \<longrightarrow> grant_ref g = r \<and> grant_ok read_iso g) \<and>
    (\<forall>i w. map_of (workers p) i = Some w \<longrightarrow> worker_id w = i \<and> worker_ok w)"
  using load_policy_ok[OF assms] by (auto simp: grants_ok_def workers_ok_def dest!: map_of_SomeD)

definition policy_json :: json where
  "policy_json = JObj [(''schema'', JStr ''formalspecgen-a2a-policy-v1''),
     (''authorities'', JArr [JObj [(''ref'', JStr ''grant-1''), (''principal_id'', JStr ''alice''),
        (''project_root'', JStr ''/work''), (''workers'', jstrings [''w1'']),
        (''workflows'', jstrings [''refactor'']), (''effects'', jstrings [''workspace_read'']),
        (''allowed_paths'', jstrings [''src/**'']), (''max_budget'', jints [(''tokens'', 100)])]]),
     (''workers'', JArr [JObj [(''worker_id'', JStr ''w1''), (''endpoint'', JStr ''http://localhost:9/rpc''),
        (''agent_card_sha256'', JStr (replicate 64 (CHR ''a''))), (''workflows'', jstrings [''refactor'']),
        (''effects'', jstrings [''workspace_read'']), (''allowed_paths'', jstrings [''src/**'']),
        (''max_budget'', jints [(''tokens'', 50)])]])]"

definition sample_policy :: coordination_policy where
  "sample_policy = (case load_policy id (\<lambda>_. None) (Inr policy_json) of Inr p \<Rightarrow> p
     | Inl _ \<Rightarrow> \<lparr>authorities = [], workers = []\<rparr>)"

lemma sample_policy_loads: "load_policy id (\<lambda>_. None) (Inr policy_json) = Inr sample_policy"
  by code_simp

lemma loaded_policy_sound_witness:
  "worker_ok (snd (hd (workers sample_policy))) \<and> grant_ok (\<lambda>_. None) (snd (hd (authorities sample_policy)))"
proof -
  have "map_of (workers sample_policy) ''w1'' = Some (snd (hd (workers sample_policy)))"
    "map_of (authorities sample_policy) ''grant-1'' = Some (snd (hd (authorities sample_policy)))"
    by code_simp+
  with loaded_policy_sound[OF sample_policy_loads] show ?thesis by blast
qed

end
