(* ===== verification/Event_Log.thy ===== *)
theory Event_Log
  imports Json
begin

text \<open>
  The append-only, hash-chained event log that both \<^verbatim>\<open>TaskStore\<close>
  (\<^verbatim>\<open>pipeline/a2a_coordination.py\<close>) and \<^verbatim>\<open>AgentRunStore\<close>
  (\<^verbatim>\<open>pipeline/agentic/state_store.py\<close>) keep in a directory per task or run.  A
  directory maps file numbers to contents (\<open>None\<close> for bytes that are not JSON); the name of
  file \<open>n\<close> is \<^verbatim>\<open>f"{n:06d}.json"\<close>, and the glob of the code sees only the
  names with six digits.  The two stores share \<open>append_event\<close>; each has its own loader.
  The locale \<open>event_store\<close> is the contract between them and the rest of the code.
\<close>

type_synonym content = "json option"
type_synonym dir = "(nat \<times> content) list"

section \<open>The directory and one event\<close>

definition events :: "dir \<Rightarrow> content list" where
  "events d = map snd (sort_key fst (filter (\<lambda>nf. fst nf \<le> 999999) d))"

definition pop_field :: "string \<Rightarrow> dict \<Rightarrow> dict" where
  "pop_field k d = filter (\<lambda>kv. fst kv \<noteq> k) d"

text \<open>\<open>value == n\<close> for a JSON value and an integer, with \<open>True == 1\<close>.\<close>

definition json_is_int :: "json \<Rightarrow> int \<Rightarrow> bool" where
  "json_is_int j n \<longleftrightarrow> j = JInt n \<or> (\<exists>b. j = JBool b \<and> n = (if b then 1 else 0))"

lemma json_is_int_code [code]:
  "json_is_int j n = (case j of JInt i \<Rightarrow> i = n | JBool b \<Rightarrow> n = (if b then 1 else 0) | _ \<Rightarrow> False)"
  by (cases j) (auto simp: json_is_int_def)

text \<open>\<open>json.loads(text)["sha256"]\<close>.\<close>

definition stored_digest :: "content \<Rightarrow> service_error + json" where
  "stored_digest f = (case f of
     None \<Rightarrow> Inl PyJSONDecodeError
   | Some (JObj v) \<Rightarrow> (case map_of v ''sha256'' of None \<Rightarrow> Inl (PyKeyError ''sha256'') | Some s \<Rightarrow> Inr s)
   | Some _ \<Rightarrow> Inl PyTypeError)"

definition event_body :: "string \<Rightarrow> nat \<Rightarrow> json \<Rightarrow> dict \<Rightarrow> string \<Rightarrow> dict" where
  "event_body schema n previous record now =
     [(''schema'', JStr schema), (''sequence'', JInt (int n)), (''previous_sha256'', previous),
      (''record'', JObj record), (''recorded_at'', JStr now)]"

definition sealed :: "(string \<Rightarrow> string) \<Rightarrow> dict \<Rightarrow> dict" where
  "sealed sha body = body @ [(''sha256'', JStr (digest sha (JObj body)))]"

text \<open>The event is written to a temporary file and linked under its number, which fails when the
  number is taken; nothing else in the directory changes.\<close>

definition append_event :: "(string \<Rightarrow> string) \<Rightarrow> string \<Rightarrow> string \<Rightarrow> dict \<Rightarrow> dir \<Rightarrow> service_error + dir" where
  "append_event sha schema now record d = (let evs = events d; n = length evs + 1 in
     and_then (if evs = [] then Inr JNull else stored_digest (last evs)) (\<lambda>previous.
     if n \<in> fst ` set d then Inl PyFileExistsError
     else Inr (d @ [(n, Some (JObj (sealed sha (event_body schema n previous record now))))])))"

section \<open>Chains\<close>

text \<open>One event is linked to its predecessor; a chain links all events from the first.\<close>

definition link_ok :: "(string \<Rightarrow> string) \<Rightarrow> string \<Rightarrow> nat \<Rightarrow> json \<Rightarrow> content \<Rightarrow> bool" where
  "link_ok sha schema n previous f = (case f of
     Some (JObj v) \<Rightarrow> get_field ''schema'' v = JStr schema \<and> json_is_int (get_field ''sequence'' v) (int n) \<and>
       get_field ''previous_sha256'' v = previous \<and>
       get_field ''sha256'' v = JStr (digest sha (JObj (pop_field ''sha256'' v)))
   | _ \<Rightarrow> False)"

definition file_digest :: "content \<Rightarrow> json" where
  "file_digest f = (case f of Some (JObj v) \<Rightarrow> get_field ''sha256'' v | _ \<Rightarrow> JNull)"

definition file_record :: "content \<Rightarrow> json" where
  "file_record f = (case f of Some (JObj v) \<Rightarrow> get_field ''record'' v | _ \<Rightarrow> JNull)"

definition file_body :: "content \<Rightarrow> json" where
  "file_body f = (case f of Some (JObj v) \<Rightarrow> JObj (pop_field ''sha256'' v) | _ \<Rightarrow> JNull)"

fun chain_from :: "(string \<Rightarrow> string) \<Rightarrow> string \<Rightarrow> nat \<Rightarrow> json \<Rightarrow> content list \<Rightarrow> bool" where
  "chain_from sha schema n previous [] = True"
| "chain_from sha schema n previous (f # fs) =
     (link_ok sha schema n previous f \<and> chain_from sha schema (n + 1) (file_digest f) fs)"

definition head_digest :: "content list \<Rightarrow> json" where
  "head_digest fs = (if fs = [] then JNull else file_digest (last fs))"

definition chain :: "(string \<Rightarrow> string) \<Rightarrow> string \<Rightarrow> content list \<Rightarrow> bool" where
  "chain sha schema fs = chain_from sha schema 1 JNull fs"

lemma chain_from_append:
  "chain_from sha schema n p (fs @ gs) \<longleftrightarrow> chain_from sha schema n p fs \<and>
     chain_from sha schema (n + length fs) (if fs = [] then p else file_digest (last fs)) gs"
  by (induction fs arbitrary: n p) auto

lemma chain_snoc:
  "chain sha schema (fs @ [f]) \<longleftrightarrow> chain sha schema fs \<and> link_ok sha schema (length fs + 1) (head_digest fs) f"
  by (auto simp: chain_def chain_from_append head_digest_def)

lemma chain_Nil [simp]: "chain sha schema []"
  by (simp add: chain_def)

lemma pop_field_sealed:
  "''sha256'' \<notin> set (map fst body) \<Longrightarrow> pop_field ''sha256'' (sealed sha body) = body"
  by (force simp: pop_field_def sealed_def filter_id_conv)

lemma sealed_fields:
  "get_field k (sealed sha (event_body schema n p record now)) =
     (if k = ''sha256'' then JStr (digest sha (JObj (event_body schema n p record now)))
      else get_field k (event_body schema n p record now))"
  by (auto simp: sealed_def get_field_def event_body_def map_add_def split: option.splits)

lemma link_ok_sealed: "link_ok sha schema n p (Some (JObj (sealed sha (event_body schema n p record now))))"
  using pop_field_sealed[of "event_body schema n p record now" sha]
  by (simp add: link_ok_def sealed_fields json_is_int_def) (simp add: event_body_def)

lemma file_record_sealed: "file_record (Some (JObj (sealed sha (event_body schema n p record now)))) = JObj record"
  by (simp add: file_record_def sealed_fields) (simp add: event_body_def)

text \<open>A directory that only appends have written is numbered without gaps.\<close>

definition numbered :: "dir \<Rightarrow> bool" where
  "numbered d \<longleftrightarrow> map fst d = [1..<length d + 1]"

lemma numbered_Nil [simp]: "numbered []"
  by (simp add: numbered_def)

lemma numbered_sorted: "numbered d \<Longrightarrow> sorted (map fst d)"
  by (simp add: numbered_def del: upt_Suc)

lemma sort_key_sorted: "sorted (map f xs) \<Longrightarrow> sort_key f xs = xs"
  by (simp add: sort_key_id_if_sorted)

lemma numbered_events:
  assumes "numbered d" and "length d \<le> 999999"
  shows "events d = map snd d"
proof -
  have "\<forall>nf \<in> set d. fst nf \<le> 999999"
  proof
    fix nf assume "nf \<in> set d"
    then have "fst nf \<in> set (map fst d)" by simp
    with assms show "fst nf \<le> 999999" by (auto simp: numbered_def)
  qed
  then have "filter (\<lambda>nf. fst nf \<le> 999999) d = d" by (simp add: filter_id_conv)
  then show ?thesis using numbered_sorted[OF assms(1)] by (simp add: events_def sort_key_sorted)
qed

lemma numbered_snoc:
  "numbered d \<Longrightarrow> numbered (d @ [(length d + 1, f)])"
  by (simp add: numbered_def)

lemma append_eventD:
  assumes "append_event sha schema now record d = Inr d'"
  shows "\<exists>previous. d' = d @ [(length (events d) + 1,
      Some (JObj (sealed sha (event_body schema (length (events d) + 1) previous record now))))] \<and>
    (events d = [] \<longrightarrow> previous = JNull) \<and>
    (events d \<noteq> [] \<longrightarrow> stored_digest (last (events d)) = Inr previous)"
  using assms by (auto simp: append_event_def Let_def res_iffs split: if_splits)

lemma stored_digest_file: "stored_digest f = Inr j \<Longrightarrow> file_digest f = j"
  by (auto simp: stored_digest_def file_digest_def get_field_def split: option.splits json.splits)

lemma append_event_numbered:
  assumes "numbered d" and "length d < 999999" and "append_event sha schema now record d = Inr d'"
  shows "numbered d' \<and> (\<exists>f. events d' = events d @ [f] \<and> file_record f = JObj record \<and>
    link_ok sha schema (length (events d) + 1) (head_digest (events d)) f)"
proof -
  have ev: "events d = map snd d" using numbered_events assms(1,2) by simp
  from append_eventD[OF assms(3)] obtain previous where
    d': "d' = d @ [(length d + 1,
      Some (JObj (sealed sha (event_body schema (length d + 1) previous record now))))]" and
    prev: "events d = [] \<longrightarrow> previous = JNull"
      "events d \<noteq> [] \<longrightarrow> stored_digest (last (events d)) = Inr previous"
    by (auto simp: ev)
  have "numbered d'" using numbered_snoc[OF assms(1)] d' by simp
  moreover have "events d' = events d @ [snd (last d')]"
    using numbered_events[OF \<open>numbered d'\<close>] assms(2) d' ev by simp
  moreover have "previous = head_digest (events d)"
    using prev stored_digest_file by (auto simp: head_digest_def)
  ultimately show ?thesis using d' ev link_ok_sealed file_record_sealed by auto
qed

section \<open>Tampering\<close>

lemma link_digest:
  assumes "link_ok sha schema n p f"
  shows "file_digest f = JStr (digest sha (file_body f))" and "\<exists>v. f = Some (JObj v)"
  using assms by (auto simp: link_ok_def file_digest_def file_body_def split: option.splits json.splits)

lemma pop_field_get: "k \<noteq> ''sha256'' \<Longrightarrow> get_field k (pop_field ''sha256'' v) = get_field k v"
  by (induction v) (auto simp: pop_field_def get_field_def)

lemma chain_tamper:
  assumes "\<not> collision sha" and "chain sha schema fs" and "chain sha schema gs"
    and "head_digest fs = head_digest gs"
  shows "list_all2 (\<lambda>f g. sort_keys (file_body f) = sort_keys (file_body g)) fs gs"
  using assms(2-)
proof (induction fs arbitrary: gs rule: rev_induct)
  case Nil
  then show ?case
    by (cases gs rule: rev_cases) (auto simp: head_digest_def chain_snoc dest: link_digest(1))
next
  case (snoc f fs)
  from snoc.prems(1) have cf: "chain sha schema fs"
    and lf: "link_ok sha schema (length fs + 1) (head_digest fs) f" by (simp_all only: chain_snoc)
  show ?case
  proof (cases gs rule: rev_cases)
    case Nil
    with snoc.prems(3) link_digest(1)[OF lf] show ?thesis by (simp add: head_digest_def)
  next
    case (snoc gs' g)
    with snoc.prems(2) have cg: "chain sha schema gs'"
      and lg: "link_ok sha schema (length gs' + 1) (head_digest gs') g" by (simp_all only: chain_snoc)
    have "digest sha (file_body f) = digest sha (file_body g)"
      using snoc.prems(3) snoc link_digest(1)[OF lf] link_digest(1)[OF lg] by (simp add: head_digest_def)
    with assms(1) have "canonical_bytes (file_body f) = canonical_bytes (file_body g)"
      by (auto simp: digest_def collision_def)
    then have body: "sort_keys (file_body f) = sort_keys (file_body g)" by (simp add: canonical_inj)
    obtain v w where v: "f = Some (JObj v)" and w: "g = Some (JObj w)"
      using link_digest(2)[OF lf] link_digest(2)[OF lg] by blast
    from body v w have "sort_keys (JObj (pop_field ''sha256'' v)) = sort_keys (JObj (pop_field ''sha256'' w))"
      by (simp add: file_body_def)
    from sort_keys_get_field[OF this, of "''previous_sha256''"]
    have prev: "sort_keys (head_digest fs) = sort_keys (head_digest gs')"
      using lf lg v w by (simp add: link_ok_def pop_field_get)
    have atom: "head_digest hs = JNull \<or> (\<exists>s. head_digest hs = JStr s)" if "chain sha schema hs" for hs
      using that by (cases hs rule: rev_cases) (auto simp: head_digest_def chain_snoc dest: link_digest(1))
    have "head_digest fs = head_digest gs'"
      using prev atom[OF cf] atom[OF cg] by auto
    from snoc.IH[OF cf cg this] body snoc show ?thesis by (simp add: list_all2_appendI)
  qed
qed

section \<open>The contract of a store\<close>

locale event_store =
  fixes sha :: "string \<Rightarrow> string"
    and schema :: string
    and load :: "dir \<Rightarrow> service_error + dict"
    and add :: "string \<Rightarrow> dict \<Rightarrow> dir \<Rightarrow> service_error + dir"
    and ok :: "dict \<Rightarrow> bool"
  assumes load_iff: "load d = Inr r \<longleftrightarrow>
      events d \<noteq> [] \<and> chain sha schema (events d) \<and> file_record (last (events d)) = JObj r \<and> ok r"
    and add_append: "add now r d = append_event sha schema now r d"
begin

lemma add_preserves: "add now r d = Inr d' \<Longrightarrow> \<exists>new. d' = d @ [new]"
  unfolding add_append by (drule append_eventD) auto

lemma load_after_add:
  assumes "numbered d" and "length d < 999999" and "chain sha schema (events d)"
    and "add now r d = Inr d'" and "ok r"
  shows "load d' = Inr r" and "numbered d'" and "chain sha schema (events d')"
proof -
  from append_event_numbered[OF assms(1,2) assms(4)[unfolded add_append]] obtain f where
    f: "numbered d'" "events d' = events d @ [f]" "file_record f = JObj r"
      "link_ok sha schema (length (events d) + 1) (head_digest (events d)) f" by blast
  then show "numbered d'" "chain sha schema (events d')" using assms(3) by (simp_all only: chain_snoc)
  with f assms(5) show "load d' = Inr r" unfolding load_iff by simp
qed

text \<open>With room in a linked log no append fails.\<close>

lemma add_succeeds:
  assumes "numbered d" and "length d < 999999" and "chain sha schema (events d)"
  shows "\<exists>d'. add now r d = Inr d' \<and> length d' = Suc (length d)"
proof -
  have ev: "events d = map snd d" using numbered_events assms(1,2) by simp
  have fresh: "length d + 1 \<notin> fst ` set d"
  proof -
    have "set (map fst d) = {1..<length d + 1}" using assms(1) by (simp only: numbered_def set_upt)
    then show ?thesis by auto
  qed
  show ?thesis
  proof (cases "events d" rule: rev_cases)
    case Nil
    then show ?thesis using fresh ev by (simp add: add_append append_event_def Let_def)
  next
    case (snoc fs f)
    with assms(3) have "link_ok sha schema (length fs + 1) (head_digest fs) f" by (simp only: chain_snoc)
    then obtain v s where "f = Some (JObj v)" "get_field ''sha256'' v = JStr s"
      by (auto simp: link_ok_def split: option.splits json.splits)
    then have "stored_digest f = Inr (JStr s)"
      by (auto simp: stored_digest_def get_field_def split: option.splits)
    moreover have "length d = length (events d)" using ev by simp
    ultimately show ?thesis using snoc fresh by (simp add: add_append append_event_def Let_def)
  qed
qed

lemma loads_agree:
  assumes "load d = Inr r" and "load e = Inr s" and "head_digest (events d) = head_digest (events e)"
  shows "collision sha \<or> length (events d) = length (events e) \<and> sort_keys (JObj r) = sort_keys (JObj s)"
proof (cases "collision sha")
  case False
  from assms(1,2) have c: "chain sha schema (events d)" "chain sha schema (events e)" and
    ne: "events d \<noteq> []" "events e \<noteq> []" and
    rec: "file_record (last (events d)) = JObj r" "file_record (last (events e)) = JObj s"
    by (auto simp: load_iff)
  note all = chain_tamper[OF False c assms(3)]
  have "sort_keys (file_body (last (events d))) = sort_keys (file_body (last (events e)))"
    using all ne list_all2_lengthD[OF all]
    by (auto simp: last_conv_nth intro: list_all2_nthD)
  moreover obtain v w where vw: "last (events d) = Some (JObj v)" "last (events e) = Some (JObj w)"
    using rec by (auto simp: file_record_def split: option.splits json.splits)
  ultimately have "sort_keys (JObj (pop_field ''sha256'' v)) = sort_keys (JObj (pop_field ''sha256'' w))"
    by (simp add: file_body_def)
  from sort_keys_get_field[OF this, of "''record''"] rec vw
  have "sort_keys (JObj r) = sort_keys (JObj s)" by (simp add: file_record_def pop_field_get)
  with list_all2_lengthD[OF all] show ?thesis by blast
qed blast

end

end
