(* ===== verification/A2A_Store.thy ===== *)
theory A2A_Store
  imports A2A_Contracts Event_Log
begin

text \<open>
  \<^verbatim>\<open>TaskStore\<close> of \<^verbatim>\<open>pipeline/a2a_coordination.py\<close>: the directory
  of task event logs and every operation on it.  Each operation runs under the store's exclusive
  file lock, so it is one atomic step from a store to a store; a failing operation leaves the store
  as it was.  The record of a task is the JSON dictionary of the code.  The clock readings of one
  operation are \<open>clock 0\<close> (in a diagnostic), \<open>clock 1\<close> (the update time) and
  \<open>clock 2\<close> (in the event); fresh identifiers, lease deadlines and the reading and writing
  of ISO times are arguments.
\<close>

type_synonym store = "(string \<times> dir) list"
type_synonym clock = "nat \<Rightarrow> string"

definition terminal_states :: "string list" where
  "terminal_states = [''completed'', ''failed'', ''cancelled'', ''rejected'']"

definition is_terminal :: "json \<Rightarrow> bool" where
  "is_terminal j = (case j of JStr s \<Rightarrow> s \<in> set terminal_states | _ \<Rightarrow> False)"

definition event_schema :: string where
  "event_schema = ''formalspecgen-a2a-task-event-v1''"

section \<open>Loading and appending\<close>

definition directory :: "store \<Rightarrow> string \<Rightarrow> dir" where
  "directory st wid = (case map_of st wid of None \<Rightarrow> [] | Some d \<Rightarrow> d)"

definition check_work_item_id :: "string \<Rightarrow> service_error + unit" where
  "check_work_item_id wid = ensure (is_identifier wid) (fail ''INVALID_WORK_ITEM'' ''invalid work_item_id'')"

definition task_not_found :: service_error where
  "task_not_found = fail ''TASK_NOT_FOUND'' ''work item does not exist''"

text \<open>The loop of \<open>_load_unlocked\<close> over the sorted event files.\<close>

fun read_events :: "(string \<Rightarrow> string) \<Rightarrow> nat \<Rightarrow> json \<Rightarrow> json \<Rightarrow> content list \<Rightarrow> service_error + json" where
  "read_events sha n previous record [] = Inr record"
| "read_events sha n previous record (f # fs) = (case f of
     None \<Rightarrow> Inl PyJSONDecodeError
   | Some (JObj value) \<Rightarrow>
       and_then (ensure (get_field ''schema'' value = JStr event_schema \<and>
           json_is_int (get_field ''sequence'' value) (int n) \<and>
           get_field ''previous_sha256'' value = previous)
         (fail ''TASK_EVIDENCE_INVALID'' ''task event chain is invalid'')) (\<lambda>_.
       and_then (ensure (get_field ''sha256'' value = JStr (digest sha (JObj (pop_field ''sha256'' value))))
         (fail ''TASK_EVIDENCE_INVALID'' ''task event was altered'')) (\<lambda>_.
       read_events sha (n + 1) (get_field ''sha256'' value) (get_field ''record'' value) fs))
   | Some _ \<Rightarrow> Inl PyAttributeError)"

definition load_dir :: "(string \<Rightarrow> string) \<Rightarrow> dir \<Rightarrow> service_error + dict" where
  "load_dir sha d =
     and_then (ensure (events d \<noteq> []) task_not_found) (\<lambda>_.
     and_then (read_events sha 1 JNull JNull (events d)) (\<lambda>record.
     case record of JObj r \<Rightarrow> Inr r
     | _ \<Rightarrow> Inl (fail ''TASK_EVIDENCE_INVALID'' ''task record is missing'')))"

definition load_unlocked :: "(string \<Rightarrow> string) \<Rightarrow> store \<Rightarrow> string \<Rightarrow> service_error + dict" where
  "load_unlocked sha st wid = and_then (check_work_item_id wid) (\<lambda>_. load_dir sha (directory st wid))"

definition add_task_event :: "(string \<Rightarrow> string) \<Rightarrow> string \<Rightarrow> dict \<Rightarrow> dir \<Rightarrow> service_error + dir" where
  "add_task_event sha now record d = append_event sha event_schema now record d"

definition append_unlocked :: "(string \<Rightarrow> string) \<Rightarrow> string \<Rightarrow> dict \<Rightarrow> store \<Rightarrow> service_error + dict \<times> store" where
  "append_unlocked sha now record st =
     and_then (dict_item ''work_item_id'' record) (\<lambda>j. and_then (as_str j) (\<lambda>wid.
     and_then (check_work_item_id wid) (\<lambda>_.
     and_then (add_task_event sha now record (directory st wid)) (\<lambda>d.
     Inr (record, AList.update wid d st)))))"

definition authorize :: "dict \<Rightarrow> string \<Rightarrow> service_error + unit" where
  "authorize record who = ensure (get_field ''principal_id'' record = JStr who) task_not_found"

section \<open>Creating a task\<close>

definition all_latest :: "(string \<Rightarrow> string) \<Rightarrow> store \<Rightarrow> service_error + dict list" where
  "all_latest sha st = map_res (load_unlocked sha st) (filter is_identifier (sort (map fst st)))"

text \<open>\<open>_budget(record)\<close>, and \<open>int(budget.get(key, 0))\<close>.\<close>

definition budget_of :: "dict \<Rightarrow> service_error + dict" where
  "budget_of record = (case get_field ''work_item'' record of
     JObj w \<Rightarrow> as_dict (get_default ''resource_budget'' (JObj []) w)
   | _ \<Rightarrow> Inr [])"

definition budget_at :: "string \<Rightarrow> dict \<Rightarrow> service_error + int" where
  "budget_at key record = and_then (budget_of record) (\<lambda>b. as_int (get_default key (JInt 0) b))"

definition budget_total :: "string \<Rightarrow> dict list \<Rightarrow> service_error + int" where
  "budget_total key records =
     fold_res (\<lambda>r total. and_then (budget_at key r) (\<lambda>n. Inr (total + n))) records 0"

definition check_ceiling :: "dict \<Rightarrow> dict list \<Rightarrow> string \<Rightarrow> string \<Rightarrow> string \<times> int \<Rightarrow> service_error + unit" where
  "check_ceiling record others code message kc = (case kc of (key, ceiling) \<Rightarrow>
     and_then (budget_at key record) (\<lambda>requested.
     and_then (budget_total key others) (\<lambda>used.
     ensure (requested + used \<le> ceiling) (fail code (message @ key)))))"

definition nested :: "dict \<Rightarrow> service_error + dict" where
  "nested record = as_dict (get_default ''work_item'' (JObj []) record)"

definition strings_at :: "string \<Rightarrow> dict \<Rightarrow> service_error + string list" where
  "strings_at k d = as_strings (get_default k (JArr []) d)"

definition active_like :: "dict \<Rightarrow> dict \<Rightarrow> bool" where
  "active_like record r \<longleftrightarrow> \<not> is_terminal (get_field ''state'' r) \<and>
     get_field ''authority_sha256'' r = get_field ''authority_sha256'' record \<and>
     get_field ''principal_id'' r = get_field ''principal_id'' record"

definition is_sibling :: "json \<Rightarrow> dict \<Rightarrow> service_error + bool" where
  "is_sibling parent_id r = (if is_terminal (get_field ''state'' r) then Inr False
     else and_then (nested r) (\<lambda>w. Inr (get_field ''parent_work_item_id'' w = parent_id)))"

fun filter_res :: "('a \<Rightarrow> 'e + bool) \<Rightarrow> 'a list \<Rightarrow> 'e + 'a list" where
  "filter_res f [] = Inr []"
| "filter_res f (x # xs) = and_then (f x) (\<lambda>b. and_then (filter_res f xs) (\<lambda>ys.
     Inr (if b then x # ys else ys)))"

definition check_parent :: "dict \<Rightarrow> dict \<Rightarrow> service_error + unit" where
  "check_parent work parent_item =
     and_then (strings_at ''requested_effects'' work) (\<lambda>effects.
     and_then (strings_at ''requested_effects'' parent_item) (\<lambda>parent_effects.
     and_then (ensure (set effects \<subseteq> set parent_effects)
       (fail ''PARENT_AUTHORITY_DENIED'' ''child task widens parent effects'')) (\<lambda>_.
     and_then (strings_at ''allowed_paths'' work) (\<lambda>allowed.
     and_then (strings_at ''allowed_paths'' parent_item) (\<lambda>parent_allowed.
     and_then (for_each (\<lambda>s. ensure (\<exists>p \<in> set parent_allowed. scope_contains p s)
       (fail ''PARENT_AUTHORITY_DENIED'' ''child task widens parent path scope'')) allowed) (\<lambda>_.
     and_then (strings_at ''protected_paths'' work) (\<lambda>child_protected.
     and_then (strings_at ''protected_paths'' parent_item) (\<lambda>parent_protected.
     for_each (\<lambda>p. ensure (\<exists>s \<in> set child_protected. scope_contains s p)
       (fail ''PARENT_AUTHORITY_DENIED'' ''child task drops a parent protected path scope''))
       parent_protected))))))))"

definition check_aggregate_budget :: "(string \<Rightarrow> string) \<Rightarrow> store \<Rightarrow> dict \<Rightarrow> (string \<times> int) list
    \<Rightarrow> service_error + unit" where
  "check_aggregate_budget sha st record ceilings =
     and_then (all_latest sha st) (\<lambda>current.
     and_then (for_each (check_ceiling record (filter (active_like record) current)
       ''AGGREGATE_BUDGET_DENIED'' ''active worker tasks exceed aggregate budget: '') ceilings) (\<lambda>_.
     and_then (nested record) (\<lambda>work.
     let parent_id = get_field ''parent_work_item_id'' work in
     if parent_id = JNull then Inr ()
     else and_then (as_str parent_id) (\<lambda>pid.
       and_then (load_unlocked sha st pid) (\<lambda>parent.
       and_then (as_str (get_field ''principal_id'' record)) (\<lambda>who.
       and_then (authorize parent who) (\<lambda>_.
       and_then (nested parent) (\<lambda>parent_item.
       and_then (check_parent work parent_item) (\<lambda>_.
       and_then (filter_res (is_sibling parent_id) current) (\<lambda>siblings.
       and_then (and_then (budget_of parent) (\<lambda>b. as_ints (JObj b))) (\<lambda>parent_budget.
       for_each (check_ceiling record siblings ''PARENT_BUDGET_DENIED''
         ''child tasks exceed parent budget: '') parent_budget)))))))))))"

definition has_code :: "string \<Rightarrow> service_error \<Rightarrow> bool" where
  "has_code code e = (case e of A2ACoordinationError c _ \<Rightarrow> c = code | _ \<Rightarrow> False)"

definition create_task :: "(string \<Rightarrow> string) \<Rightarrow> string \<Rightarrow> dict \<Rightarrow> (string \<times> int) list \<Rightarrow> store
    \<Rightarrow> service_error + (dict \<times> bool) \<times> store" where
  "create_task sha now record ceilings st =
     and_then (and_then (dict_item ''work_item_id'' record) as_str) (\<lambda>wid.
     case load_unlocked sha st wid of
       Inr existing \<Rightarrow>
         if get_field ''request_sha256'' existing \<noteq> get_field ''request_sha256'' record then
           Inl (fail ''IDEMPOTENCY_CONFLICT'' ''work_item_id is already bound to a different request'')
         else Inr ((existing, False), st)
     | Inl e \<Rightarrow>
         if \<not> has_code ''TASK_NOT_FOUND'' e then Inl e
         else and_then (check_aggregate_budget sha st record ceilings) (\<lambda>_.
           and_then (append_unlocked sha now record st) (\<lambda>(created, st').
           Inr ((created, True), st'))))"

section \<open>Dispatch, leases, reconciliation\<close>

definition outcome :: "string \<Rightarrow> string \<Rightarrow> json" where
  "outcome status message = JObj [(''status'', JStr status), (''message'', JStr message)]"

definition coded_outcome :: "string \<Rightarrow> json \<Rightarrow> string \<Rightarrow> json" where
  "coded_outcome status code message =
     JObj [(''status'', JStr status), (''code'', code), (''message'', JStr message)]"

definition pending_acceptance :: json where
  "pending_acceptance = JObj [(''status'', JStr ''pending''), (''claim'', JStr ''NO_PROOF'')]"

text \<open>Every operation on an existing task loads the record, authorises the principal, computes a
  decision, and appends the changed record when there is one.\<close>

definition on_task :: "(string \<Rightarrow> string) \<Rightarrow> string \<Rightarrow> string \<Rightarrow> clock
    \<Rightarrow> (dict \<Rightarrow> service_error + 'a \<times> dict option) \<Rightarrow> store \<Rightarrow> service_error + ('a \<times> dict) \<times> store" where
  "on_task sha wid who clock decide st =
     and_then (load_unlocked sha st wid) (\<lambda>record.
     and_then (authorize record who) (\<lambda>_.
     and_then (decide record) (\<lambda>(x, change).
     case change of None \<Rightarrow> Inr ((x, record), st)
     | Some record' \<Rightarrow> and_then (append_unlocked sha (clock 2) record' st)
         (\<lambda>(updated, st'). Inr ((x, updated), st')))))"

definition dispatch_decision :: "clock \<Rightarrow> string \<Rightarrow> string \<Rightarrow> string \<Rightarrow> dict \<Rightarrow> service_error + bool \<times> dict option" where
  "dispatch_decision clock attempt owner lease record =
     (if is_terminal (get_field ''state'' record) \<or>
         get_default ''dispatch_state'' (JStr ''not_started'') record \<noteq> JStr ''not_started''
      then Inr (False, None)
      else Inr (True, Some (update_fields record
        [(''state'', JStr ''dispatching''), (''dispatch_state'', JStr ''in_flight''),
         (''dispatch_attempt_id'', JStr attempt), (''dispatch_owner_id'', JStr owner),
         (''dispatch_lease_expires_at'', JStr lease),
         (''worker_outcome'', outcome ''dispatching'' ''worker submission is in flight''),
         (''updated_at'', JStr (clock 1))])))"

definition begin_dispatch :: "(string \<Rightarrow> string) \<Rightarrow> clock \<Rightarrow> string \<Rightarrow> string \<Rightarrow> string \<Rightarrow> string \<Rightarrow> string
    \<Rightarrow> store \<Rightarrow> service_error + (bool \<times> dict) \<times> store" where
  "begin_dispatch sha clock wid who attempt owner lease =
     on_task sha wid who clock (dispatch_decision clock attempt owner lease)"

definition renew_decision :: "clock \<Rightarrow> string \<Rightarrow> string \<Rightarrow> string \<Rightarrow> dict \<Rightarrow> service_error + bool \<times> dict option" where
  "renew_decision clock attempt owner lease record =
     (if \<not> is_terminal (get_field ''state'' record) \<and>
         get_field ''dispatch_state'' record = JStr ''in_flight'' \<and>
         get_field ''dispatch_attempt_id'' record = JStr attempt \<and>
         get_field ''dispatch_owner_id'' record = JStr owner
      then Inr (True, Some (update_fields record
        [(''dispatch_lease_expires_at'', JStr lease), (''updated_at'', JStr (clock 1))]))
      else Inr (False, None))"

definition renew_dispatch_lease :: "(string \<Rightarrow> string) \<Rightarrow> clock \<Rightarrow> string \<Rightarrow> string \<Rightarrow> string \<Rightarrow> string \<Rightarrow> string
    \<Rightarrow> store \<Rightarrow> service_error + (bool \<times> dict) \<times> store" where
  "renew_dispatch_lease sha clock wid who attempt owner lease =
     on_task sha wid who clock (renew_decision clock attempt owner lease)"

definition lease_expired :: "iso_reader \<Rightarrow> json \<Rightarrow> int \<Rightarrow> service_error + bool" where
  "lease_expired read_iso value now =
     (case (case value of JStr s \<Rightarrow> read_iso s | _ \<Rightarrow> None) of
        None \<Rightarrow> Inl (fail ''TASK_EVIDENCE_INVALID'' ''dispatch lease is invalid'')
      | Some (zoned, deadline) \<Rightarrow> and_then (ensure zoned
          (fail ''TASK_EVIDENCE_INVALID'' ''dispatch lease has no timezone''))
          (\<lambda>_. Inr (deadline \<le> now)))"

definition recoverable :: "iso_reader \<Rightarrow> dict \<Rightarrow> int \<Rightarrow> service_error + bool" where
  "recoverable read_iso record now =
     (let dispatch_state = get_field ''dispatch_state'' record in
      if dispatch_state = JStr ''in_flight'' then
        lease_expired read_iso (get_field ''dispatch_lease_expires_at'' record) now
      else if dispatch_state = JStr ''recovering'' then
        lease_expired read_iso (get_field ''recovery_lease_expires_at'' record) now
      else Inr (dispatch_state = JStr ''uncertain''))"

definition claim_decision :: "(int \<Rightarrow> string) \<Rightarrow> iso_reader \<Rightarrow> (string \<Rightarrow> string) \<Rightarrow> int \<Rightarrow> int \<Rightarrow> string
    \<Rightarrow> dict \<Rightarrow> service_error + bool \<times> dict option" where
  "claim_decision write_iso read_iso uuid5 now lease_seconds owner record =
     (if is_terminal (get_field ''state'' record) \<or> json_true (get_field ''remote_task_id'' record)
      then Inr (False, None)
      else and_then (recoverable read_iso record now) (\<lambda>free.
        if \<not> free then Inr (False, None)
        else and_then (if json_true (get_field ''dispatch_attempt_id'' record) then Inr record
            else and_then (and_then (dict_item ''request_sha256'' record) as_str) (\<lambda>request.
              Inr (AList.update ''dispatch_attempt_id''
                (JStr (uuid5 (''formalspecgen-dispatch:'' @ request))) record))) (\<lambda>record.
          Inr (True, Some (update_fields record
            [(''state'', JStr (if json_true (get_field ''cancellation_requested'' record)
                then ''cancellation_pending'' else ''dispatch_uncertain'')),
             (''dispatch_state'', JStr ''recovering''), (''recovery_owner_id'', JStr owner),
             (''recovery_lease_expires_at'', JStr (write_iso (now + lease_seconds))),
             (''worker_outcome'', outcome ''reconciling'' ''reconciling an unresolved dispatch attempt''),
             (''updated_at'', JStr (write_iso now))])))))"

definition claim_reconciliation :: "(string \<Rightarrow> string) \<Rightarrow> clock \<Rightarrow> (int \<Rightarrow> string) \<Rightarrow> iso_reader \<Rightarrow> (string \<Rightarrow> string)
    \<Rightarrow> string \<Rightarrow> string \<Rightarrow> int \<Rightarrow> int \<Rightarrow> string \<Rightarrow> store \<Rightarrow> service_error + (bool \<times> dict) \<times> store" where
  "claim_reconciliation sha clock write_iso read_iso uuid5 wid who now lease_seconds owner =
     on_task sha wid who clock (claim_decision write_iso read_iso uuid5 now lease_seconds owner)"

section \<open>Remote events\<close>

record remote_event =
  attempt_id :: string
  event_kind :: string
  ev_remote_id :: "string option"
  ev_remote_state :: "string option"
  ev_result :: "dict option"
  ev_operation :: "string option"
  ev_code :: "string option"
  ev_message :: string

definition add_diagnostic :: "string \<Rightarrow> string \<Rightarrow> string \<Rightarrow> dict \<Rightarrow> dict \<Rightarrow> service_error + dict" where
  "add_diagnostic now code message details record =
     and_then (as_list (get_default ''coordination_diagnostics'' (JArr []) record)) (\<lambda>old.
     let diagnostic = JObj (update_fields
           [(''code'', JStr code), (''message'', JStr message), (''observed_at'', JStr now)] details);
         diagnostics = old @ [diagnostic]
     in and_then (as_int (get_default ''coordination_diagnostic_count'' (JInt 0) record)) (\<lambda>n.
     Inr (update_fields record
       [(''coordination_diagnostics'', JArr (drop (length diagnostics - 64) diagnostics)),
        (''coordination_diagnostic_count'', JInt (n + 1))])))"

definition nonempty :: "string option \<Rightarrow> bool" where
  "nonempty s \<longleftrightarrow> s \<noteq> None \<and> s \<noteq> Some []"

definition code_or :: "string option \<Rightarrow> string \<Rightarrow> string" where
  "code_or code other = (case code of Some (c # cs) \<Rightarrow> c # cs | _ \<Rightarrow> other)"

definition opt_dict :: "dict option \<Rightarrow> json" where
  "opt_dict d = (case d of None \<Rightarrow> JNull | Some kvs \<Rightarrow> JObj kvs)"

definition same_json :: "json \<Rightarrow> json \<Rightarrow> bool" where
  "same_json a b \<longleftrightarrow> sort_keys a = sort_keys b"

definition state_terminal :: "string option \<Rightarrow> bool" where
  "state_terminal s = (case s of None \<Rightarrow> False | Some x \<Rightarrow> x \<in> set terminal_states)"

text \<open>The branches of \<open>transition_remote_event\<close>; each ends by setting the update time.\<close>

definition stamped :: "clock \<Rightarrow> dict \<Rightarrow> dict" where
  "stamped clock record = AList.update ''updated_at'' (JStr (clock 1)) record"

definition stale_attempt :: "clock \<Rightarrow> remote_event \<Rightarrow> dict \<Rightarrow> service_error + dict" where
  "stale_attempt clock ev record = add_diagnostic (clock 0) ''STALE_DISPATCH_ATTEMPT''
     ''event belongs to another dispatch attempt''
     [(''event_kind'', JStr (event_kind ev)), (''attempt_id'', JStr (attempt_id ev))] record"

definition id_conflict :: "clock \<Rightarrow> remote_event \<Rightarrow> dict \<Rightarrow> service_error + dict" where
  "id_conflict clock ev record =
     and_then (add_diagnostic (clock 0) ''REMOTE_TASK_ID_CONFLICT'' ''event identifies another remote task''
       [(''event_kind'', JStr (event_kind ev)), (''remote_task_id'', optional_string (ev_remote_id ev))] record)
       (\<lambda>record. Inr (AList.update ''coordination_status'' (JStr ''inconsistent'') record))"

definition late_event :: "clock \<Rightarrow> remote_event \<Rightarrow> dict \<Rightarrow> service_error + dict" where
  "late_event clock ev record =
     (if event_kind ev = ''observation'' then
        let incoming_terminal = state_terminal (ev_remote_state ev) in
        and_then (add_diagnostic (clock 0)
          (if incoming_terminal then ''TERMINAL_STATE_CONFLICT'' else ''STALE_REMOTE_OBSERVATION'')
          ''remote event cannot replace a terminal outcome''
          [(''remote_state'', optional_string (ev_remote_state ev)),
           (''remote_task_id'', optional_string (ev_remote_id ev))] record) (\<lambda>record.
        Inr (if incoming_terminal
          then AList.update ''coordination_status'' (JStr ''inconsistent'') record else record))
      else add_diagnostic (clock 0)
        (if event_kind ev = ''protocol_error'' then ''LATE_PROTOCOL_ERROR'' else ''LATE_TRANSPORT_ERROR'')
        ''remote error arrived after a terminal outcome''
        [(''operation'', optional_string (ev_operation ev)), (''error_code'', optional_string (ev_code ev))]
        record)"

definition protocol_error :: "clock \<Rightarrow> remote_event \<Rightarrow> dict \<Rightarrow> service_error + dict" where
  "protocol_error clock ev record =
     (let remote_terminal = state_terminal (ev_remote_state ev) in
      add_diagnostic (clock 0) (code_or (ev_code ev) ''WORKER_RESULT_INVALID'') (ev_message ev)
        [(''operation'', JStr ''observation''), (''remote_state'', optional_string (ev_remote_state ev))]
        (update_fields record
          [(''state'', JStr (if remote_terminal then ''failed'' else ''dispatch_uncertain'')),
           (''dispatch_state'', JStr ''confirmed''),
           (''remote_state'', optional_string (ev_remote_state ev)),
           (''remote_task_id'', optional_string (ev_remote_id ev)),
           (''worker_outcome'', coded_outcome (if remote_terminal then ''failed'' else ''remote_observation_invalid'')
              (optional_string (ev_code ev)) (ev_message ev)),
           (''acceptance'', pending_acceptance)]))"

definition cancelling :: "dict \<Rightarrow> bool" where
  "cancelling record = json_true (get_default ''cancellation_requested'' (JBool False) record)"

definition transport_error :: "clock \<Rightarrow> remote_event \<Rightarrow> dict \<Rightarrow> service_error + dict" where
  "transport_error clock ev record =
     add_diagnostic (clock 0) (code_or (ev_code ev) ''REMOTE_TRANSPORT_ERROR'') (ev_message ev)
       [(''operation'', optional_string (ev_operation ev))]
       (update_fields record
         (if ev_operation ev = Some ''cancel'' then
            [(''state'', JStr ''cancellation_pending''), (''cancellation_status'', JStr ''uncertain''),
             (''worker_outcome'', coded_outcome ''cancellation_uncertain''
                (optional_string (ev_code ev)) (ev_message ev))]
          else
            [(''state'', JStr (if cancelling record then ''cancellation_pending'' else ''dispatch_uncertain'')),
             (''dispatch_state'', JStr ''uncertain''),
             (''worker_outcome'', coded_outcome (if ev_operation ev = Some ''reconcile''
                then ''reconciliation_failed'' else ''dispatch_uncertain'')
                (optional_string (ev_code ev)) (ev_message ev))]))"

definition observation :: "remote_event \<Rightarrow> string \<Rightarrow> dict \<Rightarrow> dict" where
  "observation ev remote_state record =
     (let terminal = remote_state \<in> set terminal_states;
          observed = update_fields record
            [(''state'', JStr (if cancelling record \<and> \<not> terminal then ''cancellation_pending'' else remote_state)),
             (''dispatch_state'', JStr ''confirmed''), (''remote_state'', JStr remote_state),
             (''remote_task_id'', optional_string (ev_remote_id ev)),
             (''worker_result'', opt_dict (ev_result ev)),
             (''worker_outcome'', outcome remote_state (ev_message ev)),
             (''acceptance'', pending_acceptance)]
      in if cancelling record
         then AList.update ''cancellation_status'' (JStr (if terminal then ''remote_terminal'' else ''pending'')) observed
         else observed)"

definition transition_decision :: "clock \<Rightarrow> remote_event \<Rightarrow> dict \<Rightarrow> service_error + unit \<times> dict option" where
  "transition_decision clock ev record =
     (let appended = (\<lambda>m. and_then m (\<lambda>r. Inr ((), Some (stamped clock r)))) in
      if get_field ''dispatch_attempt_id'' record \<noteq> JStr (attempt_id ev) then
        appended (stale_attempt clock ev record)
      else if nonempty (ev_remote_id ev) \<and> json_true (get_field ''remote_task_id'' record) \<and>
          optional_string (ev_remote_id ev) \<noteq> get_field ''remote_task_id'' record then
        appended (id_conflict clock ev record)
      else if is_terminal (get_field ''state'' record) then
        (if event_kind ev = ''observation'' \<and>
            optional_string (ev_remote_state ev) = get_field ''remote_state'' record \<and>
            same_json (opt_dict (ev_result ev)) (get_field ''worker_result'' record)
         then Inr ((), None)
         else appended (late_event clock ev record))
      else if event_kind ev = ''protocol_error'' then appended (protocol_error clock ev record)
      else if event_kind ev = ''transport_error'' then appended (transport_error clock ev record)
      else (case (event_kind ev = ''observation'', ev_remote_state ev) of
          (True, Some remote_state) \<Rightarrow> appended (Inr (observation ev remote_state record))
        | _ \<Rightarrow> Inl (fail ''TASK_EVIDENCE_INVALID'' ''invalid remote transition event'')))"

definition transition_remote_event :: "(string \<Rightarrow> string) \<Rightarrow> clock \<Rightarrow> string \<Rightarrow> string \<Rightarrow> remote_event
    \<Rightarrow> store \<Rightarrow> service_error + (unit \<times> dict) \<times> store" where
  "transition_remote_event sha clock wid who ev =
     on_task sha wid who clock (transition_decision clock ev)"

section \<open>Cancellation, updates, reads\<close>

definition cancellation_decision :: "clock \<Rightarrow> dict \<Rightarrow> service_error + unit \<times> dict option" where
  "cancellation_decision clock record =
     (if is_terminal (get_field ''state'' record) then Inr ((), None)
      else let now = JStr (clock 1);
        requested = set_default ''cancellation_requested_at'' now
          (AList.update ''cancellation_requested'' (JBool True) record);
        cancelled = update_fields requested
          (if get_default ''dispatch_state'' (JStr ''not_started'') requested = JStr ''not_started'' then
            [(''state'', JStr ''cancelled''), (''cancellation_status'', JStr ''confirmed_local''),
             (''worker_outcome'', outcome ''cancelled'' ''cancelled before dispatch began'')]
           else
            [(''state'', JStr ''cancellation_pending''), (''cancellation_status'', JStr ''pending''),
             (''worker_outcome'', outcome ''cancellation_pending''
                ''remote cancellation has not been confirmed'')])
      in Inr ((), Some (AList.update ''updated_at'' now cancelled)))"

definition request_cancellation :: "(string \<Rightarrow> string) \<Rightarrow> clock \<Rightarrow> string \<Rightarrow> string
    \<Rightarrow> store \<Rightarrow> service_error + (unit \<times> dict) \<times> store" where
  "request_cancellation sha clock wid who = on_task sha wid who clock (cancellation_decision clock)"

definition update_task :: "(string \<Rightarrow> string) \<Rightarrow> clock \<Rightarrow> string \<Rightarrow> string \<Rightarrow> dict
    \<Rightarrow> store \<Rightarrow> service_error + (unit \<times> dict) \<times> store" where
  "update_task sha clock wid who changes =
     on_task sha wid who clock (\<lambda>record. Inr ((), Some (stamped clock (update_fields record changes))))"

definition get_task :: "(string \<Rightarrow> string) \<Rightarrow> store \<Rightarrow> string \<Rightarrow> string \<Rightarrow> service_error + dict" where
  "get_task sha st wid who =
     and_then (load_unlocked sha st wid) (\<lambda>record. and_then (authorize record who) (\<lambda>_. Inr record))"

end
