(* ===== verification/A2A_Lifecycle.thy ===== *)
theory A2A_Lifecycle
  imports A2A_Store
begin

text \<open>
  The life of a worker task.  \<open>task_change\<close> is the relation between the record an operation
  of \<^verbatim>\<open>TaskStore\<close> loads and the record it appends; \<open>store_step\<close> lets any
  coordinator perform any operation with any arguments, so its reflexive transitive closure covers
  every interleaving of processes sharing the store (each operation holds the store's lock).  The
  store is shown to refine, task by task, the transition system of \<open>task_change\<close>, and the
  invariants of records are proved there.
\<close>

section \<open>The store as an event store\<close>

lemma link_ok_iff:
  "link_ok sha event_schema n p f \<longleftrightarrow> (\<exists>v. f = Some (JObj v) \<and>
     get_field ''schema'' v = JStr event_schema \<and> json_is_int (get_field ''sequence'' v) (int n) \<and>
     get_field ''previous_sha256'' v = p \<and>
     get_field ''sha256'' v = JStr (digest sha (JObj (pop_field ''sha256'' v))))"
  by (auto simp: link_ok_def split: option.splits json.splits)

lemma read_events_iff:
  "read_events sha n p r fs = Inr r' \<longleftrightarrow>
     chain_from sha event_schema n p fs \<and> r' = (if fs = [] then r else file_record (last fs))"
proof (induction fs arbitrary: n p r)
  case (Cons f fs)
  show ?case
  proof (cases "\<exists>v. f = Some (JObj v)")
    case True
    then obtain v where f: "f = Some (JObj v)" by blast
    show ?thesis
      by (auto simp: f and_then_Inr_iff Cons.IH link_ok_iff file_record_def file_digest_def)
  next
    case False
    then have "read_events sha n p r (f # fs) \<noteq> Inr r'" by (auto split: option.splits json.splits)
    moreover have "\<not> link_ok sha event_schema n p f" using False by (auto simp: link_ok_iff)
    ultimately show ?thesis by simp
  qed
qed auto

interpretation tasks: event_store sha event_schema "load_dir sha" "add_task_event sha" "\<lambda>_. True" for sha
proof
  show "load_dir sha d = Inr r \<longleftrightarrow> events d \<noteq> [] \<and> chain sha event_schema (events d) \<and>
      file_record (last (events d)) = JObj r \<and> True" for d r
    by (auto simp: load_dir_def and_then_Inr_iff read_events_iff chain_def split: json.splits)
  show "add_task_event sha now r d = append_event sha event_schema now r d" for now r d
    by (simp add: add_task_event_def)
qed

section \<open>Changes of one record\<close>

definition frozen_fields :: "string list" where
  "frozen_fields = [''state'', ''dispatch_state'', ''dispatch_attempt_id'', ''remote_state'',
     ''remote_task_id'', ''worker_result'', ''worker_outcome'', ''acceptance'',
     ''cancellation_requested'', ''cancellation_status'']"

definition identity_fields :: "string list" where
  "identity_fields = [''schema'', ''work_item_id'', ''request_sha256'', ''principal_id'', ''worker_id'',
     ''work_item'', ''authority_sha256'', ''worker_profile_sha256'', ''created_at'']"

text \<open>\<^verbatim>\<open>TaskStore.update\<close> writes whatever its caller names.  No code of the repository but its tests calls
  it; it is a step here when it leaves these fields alone, as that use does, which sets the expiry of a lease.\<close>

definition guarded_fields :: "string list" where
  "guarded_fields = identity_fields @ frozen_fields @ [''coordination_diagnostics'', ''coordination_diagnostic_count'']"

definition harmless :: "dict \<Rightarrow> bool" where
  "harmless changes \<longleftrightarrow> (\<forall>(k, _) \<in> set changes. k \<notin> set guarded_fields)"

inductive task_change :: "dict \<Rightarrow> dict \<Rightarrow> bool" where
  dispatch: "dispatch_decision clock attempt owner lease r = Inr (x, Some r') \<Longrightarrow> task_change r r'"
| renew: "renew_decision clock attempt owner lease r = Inr (x, Some r') \<Longrightarrow> task_change r r'"
| claim: "claim_decision write_iso read_iso uuid5 now seconds owner r = Inr (x, Some r') \<Longrightarrow> task_change r r'"
| remote: "transition_decision clock ev r = Inr (u, Some r') \<Longrightarrow> task_change r r'"
| cancel: "cancellation_decision clock r = Inr (u, Some r') \<Longrightarrow> task_change r r'"
| update: "harmless changes \<Longrightarrow> task_change r (stamped clock (update_fields r changes))"

text \<open>What an operation can write, branch by branch.\<close>

lemma add_diagnosticD:
  assumes "add_diagnostic now code message details r = Inr r'"
  shows "\<exists>old n d. get_default ''coordination_diagnostics'' (JArr []) r = JArr old \<and>
    as_int (get_default ''coordination_diagnostic_count'' (JInt 0) r) = Inr n \<and>
    r' = update_fields r [(''coordination_diagnostics'', JArr (drop (length old - 63) (old @ [d]))),
       (''coordination_diagnostic_count'', JInt (n + 1))]"
proof -
  from assms obtain old n where
    old: "as_list (get_default ''coordination_diagnostics'' (JArr []) r) = Inr old" and
    n: "as_int (get_default ''coordination_diagnostic_count'' (JInt 0) r) = Inr n" and
    r': "r' = update_fields r [(''coordination_diagnostics'', JArr (drop (Suc (length old) - 64)
         (old @ [JObj (update_fields [(''code'', JStr code), (''message'', JStr message),
            (''observed_at'', JStr now)] details)]))), (''coordination_diagnostic_count'', JInt (n + 1))]"
    by (auto simp: add_diagnostic_def and_then_Inr_iff Let_def)
  from old have "get_default ''coordination_diagnostics'' (JArr []) r = JArr old"
    by (cases "get_default ''coordination_diagnostics'' (JArr []) r") auto
  with n r' show ?thesis by (intro exI) (auto simp: Suc_diff_le)
qed

lemma add_diagnostic_frame:
  assumes "add_diagnostic now code message details r = Inr r'"
    and "k \<noteq> ''coordination_diagnostics''" and "k \<noteq> ''coordination_diagnostic_count''"
  shows "get_field k r' = get_field k r"
  using add_diagnosticD[OF assms(1)] assms(2,3) by auto

section \<open>The invariant of records\<close>

definition dispatch_states :: "string list" where
  "dispatch_states = [''not_started'', ''in_flight'', ''recovering'', ''uncertain'', ''confirmed'']"

definition is_bool :: "json \<Rightarrow> bool" where
  "is_bool j = (case j of JBool _ \<Rightarrow> True | _ \<Rightarrow> False)"

definition diagnostics_ok :: "dict \<Rightarrow> bool" where
  "diagnostics_ok r = (case (get_field ''coordination_diagnostics'' r, get_field ''coordination_diagnostic_count'' r) of
     (JArr ds, JInt n) \<Rightarrow> int (length ds) = min 64 n | _ \<Rightarrow> False)"

text \<open>A task that was not dispatched has no attempt and is queued or locally cancelled; a terminal
  state has its cause on record.\<close>

definition phase_ok :: "dict \<Rightarrow> bool" where
  "phase_ok r = (case (get_field ''state'' r, get_field ''dispatch_state'' r) of
     (JStr s, JStr d) \<Rightarrow> d \<in> set dispatch_states \<and>
       (if d = ''not_started'' then get_field ''dispatch_attempt_id'' r = JNull \<and>
           (s = ''queued'' \<or> s = ''cancelled'' \<and> get_field ''cancellation_requested'' r = JBool True)
        else if s \<in> set terminal_states then d = ''confirmed'' \<and>
           (get_field ''remote_state'' r = JStr s \<or> s = ''failed'' \<and> is_terminal (get_field ''remote_state'' r))
        else True)
   | _ \<Rightarrow> False)"

definition record_ok :: "dict \<Rightarrow> bool" where
  "record_ok r \<longleftrightarrow> get_field ''acceptance'' r = pending_acceptance \<and>
     is_bool (get_field ''cancellation_requested'' r) \<and> diagnostics_ok r \<and> phase_ok r"

lemma phase_okE:
  assumes "phase_ok r"
  obtains s d where "get_field ''state'' r = JStr s" "get_field ''dispatch_state'' r = JStr d"
    "d \<in> set dispatch_states"
    "d = ''not_started'' \<Longrightarrow> get_field ''dispatch_attempt_id'' r = JNull \<and>
       (s = ''queued'' \<or> s = ''cancelled'' \<and> get_field ''cancellation_requested'' r = JBool True)"
    "\<lbrakk>d \<noteq> ''not_started''; s \<in> set terminal_states\<rbrakk> \<Longrightarrow> d = ''confirmed'' \<and>
       (get_field ''remote_state'' r = JStr s \<or> s = ''failed'' \<and> is_terminal (get_field ''remote_state'' r))"
  using assms by (auto simp: phase_ok_def split: json.splits if_splits)

lemma phase_okI:
  assumes "get_field ''state'' r = JStr s" "get_field ''dispatch_state'' r = JStr d"
    "d \<in> set dispatch_states"
    "d = ''not_started'' \<Longrightarrow> get_field ''dispatch_attempt_id'' r = JNull \<and>
       (s = ''queued'' \<or> s = ''cancelled'' \<and> get_field ''cancellation_requested'' r = JBool True)"
    "\<lbrakk>d \<noteq> ''not_started''; s \<in> set terminal_states\<rbrakk> \<Longrightarrow> d = ''confirmed'' \<and>
       (get_field ''remote_state'' r = JStr s \<or> s = ''failed'' \<and> is_terminal (get_field ''remote_state'' r))"
  shows "phase_ok r"
  using assms by (simp add: phase_ok_def)

text \<open>A change of fields that no part of the invariant reads.\<close>

definition phase_fields :: "string list" where
  "phase_fields = [''state'', ''dispatch_state'', ''dispatch_attempt_id'', ''cancellation_requested'', ''remote_state'']"

lemma phase_ok_cong:
  assumes "\<And>k. k \<in> set phase_fields \<Longrightarrow> get_field k r' = get_field k r"
  shows "phase_ok r' = phase_ok r"
proof -
  have eqs: "get_field ''state'' r' = get_field ''state'' r"
    "get_field ''dispatch_state'' r' = get_field ''dispatch_state'' r"
    "get_field ''dispatch_attempt_id'' r' = get_field ''dispatch_attempt_id'' r"
    "get_field ''cancellation_requested'' r' = get_field ''cancellation_requested'' r"
    "get_field ''remote_state'' r' = get_field ''remote_state'' r"
    using assms by (simp_all add: phase_fields_def)
  show ?thesis unfolding phase_ok_def eqs ..
qed

lemma diagnostics_ok_cong:
  assumes "get_field ''coordination_diagnostics'' r' = get_field ''coordination_diagnostics'' r"
    and "get_field ''coordination_diagnostic_count'' r' = get_field ''coordination_diagnostic_count'' r"
  shows "diagnostics_ok r' = diagnostics_ok r"
  using assms by (simp add: diagnostics_ok_def)

lemma add_diagnostic_ok:
  assumes "add_diagnostic now code message details r = Inr r'" and "diagnostics_ok r"
  shows "diagnostics_ok r'"
proof -
  obtain ds n where r: "get_field ''coordination_diagnostics'' r = JArr ds"
      "get_field ''coordination_diagnostic_count'' r = JInt n" "int (length ds) = min 64 n"
    using assms(2) by (auto simp: diagnostics_ok_def split: json.splits)
  then have "get_default ''coordination_diagnostics'' (JArr []) r = JArr ds"
    "get_default ''coordination_diagnostic_count'' (JInt 0) r = JInt n"
    by (auto simp: get_field_def get_default_def split: option.splits)
  with add_diagnosticD[OF assms(1)] obtain d where
    "r' = update_fields r [(''coordination_diagnostics'', JArr (drop (length ds - 63) (ds @ [d]))),
       (''coordination_diagnostic_count'', JInt (n + 1))]" by auto
  with r(3) show ?thesis by (simp add: diagnostics_ok_def min_def split: if_splits)
qed

lemma record_ok_frame:
  assumes "record_ok r" and "get_field ''acceptance'' r' = get_field ''acceptance'' r"
    and "\<And>k. k \<in> set phase_fields \<Longrightarrow> get_field k r' = get_field k r" and "diagnostics_ok r'"
  shows "record_ok r'"
proof -
  have "get_field ''cancellation_requested'' r' = get_field ''cancellation_requested'' r"
    using assms(3) by (simp add: phase_fields_def)
  with assms phase_ok_cong[of r' r] show ?thesis by (simp add: record_ok_def)
qed

lemma get_stamped [simp]: "get_field k (stamped clock r) = (if k = ''updated_at'' then JStr (clock 1) else get_field k r)"
  by (simp add: stamped_def)

lemma diagnostics_ok_stamped [simp]: "diagnostics_ok (stamped clock r) = diagnostics_ok r"
  by (rule diagnostics_ok_cong) simp_all

lemma record_ok_stamped [simp]: "record_ok r \<Longrightarrow> record_ok (stamped clock r)"
  by (rule record_ok_frame) (auto simp: phase_fields_def record_ok_def)

lemma add_diagnostic_record_ok:
  assumes "add_diagnostic now code message details r = Inr r'" and "record_ok r"
  shows "record_ok r'"
  using assms(2)
proof (rule record_ok_frame)
  show "diagnostics_ok r'" using add_diagnostic_ok[OF assms(1)] assms(2) by (simp add: record_ok_def)
qed (auto simp: add_diagnostic_frame[OF assms(1)] phase_fields_def)

lemma inconsistent_record_ok:
  "record_ok r \<Longrightarrow> record_ok (AList.update ''coordination_status'' v r)"
  by (rule record_ok_frame) (auto simp: phase_fields_def record_ok_def intro: diagnostics_ok_cong[THEN iffD2])

lemma dispatch_ok:
  assumes "dispatch_decision clock attempt owner lease r = Inr (x, Some r')" and "record_ok r"
  shows "record_ok r'"
proof -
  from assms(1) have r': "r' = update_fields r
        [(''state'', JStr ''dispatching''), (''dispatch_state'', JStr ''in_flight''),
         (''dispatch_attempt_id'', JStr attempt), (''dispatch_owner_id'', JStr owner),
         (''dispatch_lease_expires_at'', JStr lease),
         (''worker_outcome'', outcome ''dispatching'' ''worker submission is in flight''),
         (''updated_at'', JStr (clock 1))]"
    by (simp add: dispatch_decision_def split: if_splits)
  have "phase_ok r'"
    by (rule phase_okI[of _ "''dispatching''" "''in_flight''"])
       (simp_all add: r' dispatch_states_def terminal_states_def)
  moreover have "diagnostics_ok r'"
    using assms(2) diagnostics_ok_cong[of r' r] by (simp add: record_ok_def r')
  ultimately show ?thesis using assms(2) by (simp add: record_ok_def r')
qed

lemma renew_ok:
  assumes "renew_decision clock attempt owner lease r = Inr (x, Some r')" and "record_ok r"
  shows "record_ok r'"
proof -
  from assms(1) have r': "r' = update_fields r [(''dispatch_lease_expires_at'', JStr lease), (''updated_at'', JStr (clock 1))]"
    by (simp add: renew_decision_def split: if_splits)
  from assms(2) show ?thesis
    by (rule record_ok_frame)
       (use assms(2) diagnostics_ok_cong[of r' r] in \<open>auto simp: r' phase_fields_def record_ok_def\<close>)
qed

lemma cancellation_ok:
  assumes "cancellation_decision clock r = Inr (u, Some r')" and "record_ok r"
  shows "record_ok r'"
proof -
  from assms(2) have ph: "phase_ok r" and acc: "get_field ''acceptance'' r = pending_acceptance"
    by (simp_all add: record_ok_def)
  from ph obtain s d where r: "get_field ''state'' r = JStr s" "get_field ''dispatch_state'' r = JStr d"
    "d \<in> set dispatch_states" "d = ''not_started'' \<Longrightarrow> get_field ''dispatch_attempt_id'' r = JNull"
    by (rule phase_okE) blast
  have d: "get_default ''dispatch_state'' v r = JStr d" for v
    using r(2) by (simp add: get_default_present)
  define q where "q = set_default ''cancellation_requested_at'' (JStr (clock 1))
    (AList.update ''cancellation_requested'' (JBool True) r)"
  have q: "get_field k q = (if k = ''cancellation_requested'' then JBool True else get_field k r)"
    "get_default k v q = (if k = ''cancellation_requested'' then JBool True else get_default k v r)"
    if "k \<noteq> ''cancellation_requested_at''" for k v using that by (auto simp: q_def set_default_def)
  have dq: "get_default ''dispatch_state'' v q = JStr d" for v by (simp add: q d)
  from assms(1) have r': "r' = AList.update ''updated_at'' (JStr (clock 1)) (update_fields q
      (if d = ''not_started'' then
            [(''state'', JStr ''cancelled''), (''cancellation_status'', JStr ''confirmed_local''),
             (''worker_outcome'', outcome ''cancelled'' ''cancelled before dispatch began'')]
           else
            [(''state'', JStr ''cancellation_pending''), (''cancellation_status'', JStr ''pending''),
             (''worker_outcome'', outcome ''cancellation_pending''
                ''remote cancellation has not been confirmed'')]))"
    by (simp add: cancellation_decision_def Let_def dq flip: q_def del: One_nat_def split: if_splits)
  have "phase_ok r'"
  proof (cases "d = ''not_started''")
    case True
    with r show ?thesis
      by (intro phase_okI[of _ "''cancelled''" "''not_started''"])
         (simp_all add: r' q dispatch_states_def terminal_states_def)
  next
    case False
    with r(2,3) show ?thesis
      by (intro phase_okI[of _ "''cancellation_pending''" d]) (simp_all add: r' q terminal_states_def)
  qed
  moreover have "diagnostics_ok r'"
    using assms(2) diagnostics_ok_cong[of r' r] by (simp add: record_ok_def r' q)
  moreover have "is_bool (get_field ''cancellation_requested'' r')" "get_field ''acceptance'' r' = pending_acceptance"
    by (simp_all add: r' q is_bool_def acc)
  ultimately show ?thesis by (simp add: record_ok_def)
qed

definition claimed :: "(int \<Rightarrow> string) \<Rightarrow> int \<Rightarrow> int \<Rightarrow> string \<Rightarrow> dict \<Rightarrow> dict" where
  "claimed write_iso now seconds owner q =
     update_fields q [(''state'', JStr (if json_true (get_field ''cancellation_requested'' q)
                then ''cancellation_pending'' else ''dispatch_uncertain'')),
             (''dispatch_state'', JStr ''recovering''), (''recovery_owner_id'', JStr owner),
             (''recovery_lease_expires_at'', JStr (write_iso (now + seconds))),
             (''worker_outcome'', outcome ''reconciling'' ''reconciling an unresolved dispatch attempt''),
             (''updated_at'', JStr (write_iso now))]"

lemma claimD:
  assumes "claim_decision write_iso read_iso uuid5 now seconds owner r = Inr (x, Some r')"
  shows "\<not> is_terminal (get_field ''state'' r)" and "recoverable read_iso r now = Inr True"
    and "\<exists>q w. (q = r \<or> \<not> json_true (get_field ''dispatch_attempt_id'' r) \<and> q = AList.update ''dispatch_attempt_id'' w r) \<and>
      r' = claimed write_iso now seconds owner q"
proof -
  have eq: "claim_decision write_iso read_iso uuid5 now seconds owner r =
     (if is_terminal (get_field ''state'' r) \<or> json_true (get_field ''remote_task_id'' r)
      then Inr (False, None)
      else and_then (recoverable read_iso r now) (\<lambda>free.
        if \<not> free then Inr (False, None)
        else and_then (if json_true (get_field ''dispatch_attempt_id'' r) then Inr r
            else and_then (and_then (dict_item ''request_sha256'' r) as_str) (\<lambda>request.
              Inr (AList.update ''dispatch_attempt_id''
                (JStr (uuid5 (''formalspecgen-dispatch:'' @ request))) r))) (\<lambda>q.
          Inr (True, Some (claimed write_iso now seconds owner q)))))"
    by (simp only: claim_decision_def claimed_def)
  from assms show "\<not> is_terminal (get_field ''state'' r)" and "recoverable read_iso r now = Inr True"
    and "\<exists>q w. (q = r \<or> \<not> json_true (get_field ''dispatch_attempt_id'' r) \<and> q = AList.update ''dispatch_attempt_id'' w r) \<and>
      r' = claimed write_iso now seconds owner q"
    unfolding eq by (auto simp: and_then_Inr_iff split: if_splits)
qed

lemma claim_ok:
  assumes "claim_decision write_iso read_iso uuid5 now seconds owner r = Inr (x, Some r')" and "record_ok r"
  shows "record_ok r'"
proof -
  obtain q w where q: "q = r \<or> q = AList.update ''dispatch_attempt_id'' w r" and
    r': "r' = claimed write_iso now seconds owner q"
    using claimD(3)[OF assms(1)] by blast
  note r' = r'[unfolded claimed_def]
  have other: "get_field k q = get_field k r" if "k \<noteq> ''dispatch_attempt_id''" for k
    using q that by auto
  have "phase_ok r'"
    by (rule phase_okI[of _ "if json_true (get_field ''cancellation_requested'' q)
                then ''cancellation_pending'' else ''dispatch_uncertain''" "''recovering''"])
       (simp_all add: r' dispatch_states_def terminal_states_def split: if_splits)
  moreover have "diagnostics_ok r'"
    using assms(2) diagnostics_ok_cong[of r' r] by (simp add: record_ok_def r' other)
  ultimately show ?thesis using assms(2) by (simp add: record_ok_def r' other)
qed

lemma transition_cases:
  assumes "transition_decision clock ev r = Inr (u, Some r')"
  obtains q where "r' = stamped clock q" "stale_attempt clock ev r = Inr q"
    | q where "r' = stamped clock q" "id_conflict clock ev r = Inr q"
    | q where "r' = stamped clock q" "is_terminal (get_field ''state'' r)" "late_event clock ev r = Inr q"
    | q where "r' = stamped clock q" "\<not> is_terminal (get_field ''state'' r)"
        "get_field ''dispatch_attempt_id'' r = JStr (attempt_id ev)" "protocol_error clock ev r = Inr q"
    | q where "r' = stamped clock q" "\<not> is_terminal (get_field ''state'' r)"
        "get_field ''dispatch_attempt_id'' r = JStr (attempt_id ev)" "transport_error clock ev r = Inr q"
    | rs where "r' = stamped clock (observation ev rs r)" "\<not> is_terminal (get_field ''state'' r)"
        "get_field ''dispatch_attempt_id'' r = JStr (attempt_id ev)" "event_kind ev = ''observation''"
        "ev_remote_state ev = Some rs"
proof (cases "get_field ''dispatch_attempt_id'' r = JStr (attempt_id ev)")
  case False
  with assms have "\<exists>q. r' = stamped clock q \<and> stale_attempt clock ev r = Inr q"
    by (auto simp: transition_decision_def and_then_Inr_iff)
  with that(1) show ?thesis by blast
next
  case attempt: True
  show ?thesis
  proof (cases "nonempty (ev_remote_id ev) \<and> json_true (get_field ''remote_task_id'' r) \<and>
          optional_string (ev_remote_id ev) \<noteq> get_field ''remote_task_id'' r")
    case True
    with assms attempt have "\<exists>q. r' = stamped clock q \<and> id_conflict clock ev r = Inr q"
      by (auto simp: transition_decision_def and_then_Inr_iff)
    with that(2) show ?thesis by blast
  next
    case bound: False
    show ?thesis
    proof (cases "is_terminal (get_field ''state'' r)")
      case True
      with assms attempt bound have "\<exists>q. r' = stamped clock q \<and> late_event clock ev r = Inr q"
        unfolding transition_decision_def Let_def
        by (simp only: if_False if_True simp_thms split: if_splits) (auto simp: and_then_Inr_iff)
      with that(3) True show ?thesis by blast
    next
      case open_state: False
      consider (protocol) "event_kind ev = ''protocol_error''" | (transport) "event_kind ev = ''transport_error''"
        | (other) "event_kind ev \<noteq> ''protocol_error''" "event_kind ev \<noteq> ''transport_error''" by blast
      then show ?thesis
      proof cases
        case protocol
        with assms attempt bound open_state have "\<exists>q. r' = stamped clock q \<and> protocol_error clock ev r = Inr q"
          unfolding transition_decision_def Let_def
          by (simp only: if_False if_True simp_thms) (auto simp: and_then_Inr_iff)
        with that(4) attempt open_state show ?thesis by blast
      next
        case transport
        have "''transport_error'' \<noteq> ''protocol_error''" by simp
        with transport assms attempt bound open_state have "\<exists>q. r' = stamped clock q \<and> transport_error clock ev r = Inr q"
          unfolding transition_decision_def Let_def
          by (simp only: if_False if_True simp_thms) (auto simp: and_then_Inr_iff)
        with that(5) attempt open_state show ?thesis by blast
      next
        case other
        with assms attempt bound open_state have
          "event_kind ev = ''observation'' \<and> (\<exists>rs. ev_remote_state ev = Some rs \<and> r' = stamped clock (observation ev rs r))"
          unfolding transition_decision_def Let_def
          by (simp only: if_False if_True simp_thms) (auto split: option.splits bool.splits)
        with that(6) attempt open_state show ?thesis by blast
      qed
    qed
  qed
qed

lemma stale_attemptD: "stale_attempt clock ev r = Inr q \<Longrightarrow>
    \<exists>code m ds. add_diagnostic (clock 0) code m ds r = Inr q"
  unfolding stale_attempt_def by blast

lemma id_conflictD: "id_conflict clock ev r = Inr q \<Longrightarrow> \<exists>code m ds p v.
    add_diagnostic (clock 0) code m ds r = Inr p \<and> q = AList.update ''coordination_status'' v p"
  unfolding id_conflict_def by (simp only: and_then_Inr_iff sum.inject) blast

lemma late_eventD: "late_event clock ev r = Inr q \<Longrightarrow> \<exists>code m ds p v.
    add_diagnostic (clock 0) code m ds r = Inr p \<and> (q = p \<or> q = AList.update ''coordination_status'' v p)"
  unfolding late_event_def Let_def by (simp only: and_then_Inr_iff sum.inject split: if_splits) blast+

text \<open>A remote event that does not belong to the open attempt adds a diagnostic and at most the
  verdict that the coordination is inconsistent.\<close>

definition note_fields :: "string list" where
  "note_fields = [''coordination_diagnostics'', ''coordination_diagnostic_count'', ''coordination_status'', ''updated_at'']"

lemma note_only:
  assumes "stale_attempt clock ev r = Inr q \<or> id_conflict clock ev r = Inr q \<or> late_event clock ev r = Inr q"
  shows "k \<notin> set note_fields \<Longrightarrow> get_field k q = get_field k r" and "record_ok r \<Longrightarrow> record_ok q"
proof -
  have "\<exists>code m ds p v. add_diagnostic (clock 0) code m ds r = Inr p \<and>
      (q = p \<or> q = AList.update ''coordination_status'' v p)"
    using assms
  proof (elim disjE)
    assume "stale_attempt clock ev r = Inr q"
    then show ?thesis using stale_attemptD[of clock ev r q] by blast
  next
    assume "id_conflict clock ev r = Inr q"
    then show ?thesis using id_conflictD[of clock ev r q] by blast
  qed (rule late_eventD)
  then obtain code m ds p v where p: "add_diagnostic (clock 0) code m ds r = Inr p"
    and q: "q = p \<or> q = AList.update ''coordination_status'' v p" by blast
  show "get_field k q = get_field k r" if k: "k \<notin> set note_fields"
  proof -
    have ne: "k \<noteq> ''coordination_diagnostics''" "k \<noteq> ''coordination_diagnostic_count''" "k \<noteq> ''coordination_status''"
      using k by (simp_all add: note_fields_def)
    show ?thesis using q ne(3) add_diagnostic_frame[OF p ne(1,2)] by (elim disjE) simp_all
  qed
  show "record_ok q" if "record_ok r"
    using q add_diagnostic_record_ok[OF p that] inconsistent_record_ok by (elim disjE) simp_all
qed

lemmas note_ok = note_only(2)[OF disjI1] note_only(2)[OF disjI2[OF disjI1]] note_only(2)[OF disjI2[OF disjI2]]
lemmas note_frame = note_only(1)[OF disjI1] note_only(1)[OF disjI2[OF disjI1]] note_only(1)[OF disjI2[OF disjI2]]

lemma is_terminal_optional: "is_terminal (optional_string s) = state_terminal s"
  by (cases s) (simp_all add: is_terminal_def state_terminal_def optional_string_def)

lemma protocol_error_ok:
  assumes "protocol_error clock ev r = Inr q" and "record_ok r"
  shows "record_ok q"
proof -
  define p where "p = update_fields r
          [(''state'', JStr (if state_terminal (ev_remote_state ev) then ''failed'' else ''dispatch_uncertain'')),
           (''dispatch_state'', JStr ''confirmed''),
           (''remote_state'', optional_string (ev_remote_state ev)),
           (''remote_task_id'', optional_string (ev_remote_id ev)),
           (''worker_outcome'', coded_outcome (if state_terminal (ev_remote_state ev) then ''failed'' else ''remote_observation_invalid'')
              (optional_string (ev_code ev)) (ev_message ev)),
           (''acceptance'', pending_acceptance)]"
  have "phase_ok p"
    by (rule phase_okI[of _ "if state_terminal (ev_remote_state ev) then ''failed'' else ''dispatch_uncertain''" "''confirmed''"])
       (simp_all add: p_def dispatch_states_def terminal_states_def is_terminal_optional split: if_splits)
  moreover have "diagnostics_ok p"
    using assms(2) diagnostics_ok_cong[of p r] by (simp add: record_ok_def p_def)
  ultimately have "record_ok p" using assms(2) by (simp add: record_ok_def p_def)
  moreover have "\<exists>code m ds. add_diagnostic (clock 0) code m ds p = Inr q"
    using assms(1) unfolding protocol_error_def Let_def p_def by blast
  ultimately show ?thesis using add_diagnostic_record_ok by blast
qed

lemma not_started_no_attempt:
  "record_ok r \<Longrightarrow> get_field ''dispatch_attempt_id'' r = JStr a \<Longrightarrow> get_field ''dispatch_state'' r \<noteq> JStr ''not_started''"
  by (auto simp: record_ok_def elim: phase_okE)

lemma transport_error_ok:
  assumes "transport_error clock ev r = Inr q" and "record_ok r"
    and "get_field ''dispatch_attempt_id'' r = JStr (attempt_id ev)"
  shows "record_ok q"
proof -
  let ?s = "if ev_operation ev = Some ''cancel'' \<or> cancelling r then ''cancellation_pending'' else ''dispatch_uncertain''"
  define p where "p = update_fields r
         (if ev_operation ev = Some ''cancel'' then
            [(''state'', JStr ''cancellation_pending''), (''cancellation_status'', JStr ''uncertain''),
             (''worker_outcome'', coded_outcome ''cancellation_uncertain''
                (optional_string (ev_code ev)) (ev_message ev))]
          else
            [(''state'', JStr (if cancelling r then ''cancellation_pending'' else ''dispatch_uncertain'')),
             (''dispatch_state'', JStr ''uncertain''),
             (''worker_outcome'', coded_outcome (if ev_operation ev = Some ''reconcile''
                then ''reconciliation_failed'' else ''dispatch_uncertain'')
                (optional_string (ev_code ev)) (ev_message ev))])"
  have ph: "phase_ok r" using assms(2) by (simp add: record_ok_def)
  then obtain d where d: "get_field ''dispatch_state'' r = JStr d" "d \<in> set dispatch_states"
    by (rule phase_okE)
  have "d \<noteq> ''not_started''" using not_started_no_attempt[OF assms(2,3)] d by simp
  then have "phase_ok p"
    using d by (intro phase_okI[of _ ?s "if ev_operation ev = Some ''cancel'' then d else ''uncertain''"])
      (simp_all add: p_def dispatch_states_def terminal_states_def split: if_splits)
  moreover have "diagnostics_ok p"
    using assms(2) diagnostics_ok_cong[of p r] by (simp add: record_ok_def p_def)
  ultimately have "record_ok p" using assms(2) by (simp add: record_ok_def p_def)
  moreover have "\<exists>code m ds. add_diagnostic (clock 0) code m ds p = Inr q"
    using assms(1) unfolding transport_error_def p_def by blast
  ultimately show ?thesis using add_diagnostic_record_ok by blast
qed

lemma observation_ok:
  assumes "record_ok r"
  shows "record_ok (observation ev rs r)"
proof -
  let ?o = "observation ev rs r"
  have "phase_ok ?o"
    by (rule phase_okI[of _ "if cancelling r \<and> rs \<notin> set terminal_states then ''cancellation_pending'' else rs" "''confirmed''"])
       (simp_all add: observation_def Let_def dispatch_states_def split: if_splits, simp add: terminal_states_def)
  moreover have "diagnostics_ok ?o"
    using assms diagnostics_ok_cong[of ?o r] by (simp add: record_ok_def observation_def Let_def)
  ultimately show ?thesis using assms by (simp add: record_ok_def observation_def Let_def)
qed

lemma transition_ok:
  assumes "transition_decision clock ev r = Inr (u, Some r')" and "record_ok r"
  shows "record_ok r'"
  using assms(1)
  by (rule transition_cases)
     (simp_all add: record_ok_stamped note_ok protocol_error_ok transport_error_ok observation_ok assms(2))

lemma update_frame:
  assumes "harmless changes" and "k \<in> set guarded_fields"
  shows "get_field k (stamped clock (update_fields r changes)) = get_field k r"
proof -
  have "''updated_at'' \<notin> set guarded_fields" by code_simp
  then have "k \<noteq> ''updated_at''" using assms(2) by metis
  have "k \<notin> fst ` set changes" using assms by (auto simp: harmless_def)
  then have "map_of (rev changes) k = None" by (simp add: map_of_eq_None_iff)
  then show ?thesis using \<open>k \<noteq> ''updated_at''\<close>
    by (simp add: get_field_def map_of_update_fields map_add_def stamped_def update_conv)
qed

lemma phase_guarded: "set phase_fields \<subseteq> set guarded_fields"
  by code_simp

lemma update_ok:
  assumes "harmless changes" and "record_ok r"
  shows "record_ok (stamped clock (update_fields r changes))"
proof (rule record_ok_frame[OF assms(2)])
  note f = update_frame[OF assms(1)]
  show "get_field ''acceptance'' (stamped clock (update_fields r changes)) = get_field ''acceptance'' r"
    by (rule f) (simp add: guarded_fields_def frozen_fields_def)
  show "get_field k (stamped clock (update_fields r changes)) = get_field k r" if "k \<in> set phase_fields" for k
    by (rule f) (use that phase_guarded in blast)
  have "''coordination_diagnostics'' \<in> set guarded_fields" "''coordination_diagnostic_count'' \<in> set guarded_fields"
    by (simp_all add: guarded_fields_def)
  from diagnostics_ok_cong[OF f[OF this(1)] f[OF this(2)]] assms(2)
  show "diagnostics_ok (stamped clock (update_fields r changes))" unfolding record_ok_def by blast
qed

lemma task_change_ok: "task_change r r' \<Longrightarrow> record_ok r \<Longrightarrow> record_ok r'"
  by (induction rule: task_change.induct)
     (auto dest: dispatch_ok renew_ok claim_ok transition_ok cancellation_ok intro: update_ok)

section \<open>What changes and what does not\<close>

definition live_fields :: "string list" where
  "live_fields = [''state'', ''dispatch_state'', ''remote_state'', ''remote_task_id'', ''worker_result'',
     ''worker_outcome'', ''acceptance'', ''cancellation_status''] @ note_fields"

lemma protocol_error_frame:
  assumes "protocol_error clock ev r = Inr q" and "k \<notin> set live_fields"
  shows "get_field k q = get_field k r"
  using assms add_diagnostic_frame[of "clock 0" _ _ _ _ q k]
  by (simp add: protocol_error_def Let_def live_fields_def note_fields_def)

lemma transport_error_frame:
  assumes "transport_error clock ev r = Inr q" and "k \<notin> set live_fields"
  shows "get_field k q = get_field k r"
  using assms add_diagnostic_frame[of "clock 0" _ _ _ _ q k]
  by (simp add: transport_error_def live_fields_def note_fields_def split: if_splits)

lemma observation_frame:
  "k \<notin> set live_fields \<Longrightarrow> get_field k (observation ev rs r) = get_field k r"
  by (simp add: observation_def Let_def live_fields_def note_fields_def)

lemma transition_frame:
  assumes "transition_decision clock ev r = Inr (u, Some r')" and "k \<notin> set live_fields"
  shows "get_field k r' = get_field k r"
proof -
  have "k \<notin> set note_fields" "k \<noteq> ''updated_at''" using assms(2) by (simp_all add: live_fields_def note_fields_def)
  with assms(1) show ?thesis
    by (elim transition_cases)
       (simp_all add: note_frame protocol_error_frame[OF _ assms(2)] transport_error_frame[OF _ assms(2)]
          observation_frame[OF assms(2)])
qed

lemma transition_terminal_frame:
  assumes "transition_decision clock ev r = Inr (u, Some r')" and "is_terminal (get_field ''state'' r)"
    and "k \<notin> set note_fields"
  shows "get_field k r' = get_field k r"
  using assms(1)
proof (rule transition_cases)
qed (use assms(2,3) in \<open>simp_all add: note_frame note_fields_def\<close>)

lemma cancellationD:
  assumes "cancellation_decision clock r = Inr (u, Some r')"
  shows "\<not> is_terminal (get_field ''state'' r) \<and> (\<exists>s c w. r' = AList.update ''updated_at'' (JStr (clock 1))
    (update_fields (set_default ''cancellation_requested_at'' (JStr (clock 1))
        (AList.update ''cancellation_requested'' (JBool True) r))
      [(''state'', s), (''cancellation_status'', c), (''worker_outcome'', w)]))"
proof -
  define q where "q = set_default ''cancellation_requested_at'' (JStr (clock 1))
    (AList.update ''cancellation_requested'' (JBool True) r)"
  show ?thesis using assms unfolding cancellation_decision_def Let_def q_def[symmetric]
    by (auto simp del: One_nat_def split: if_splits)
qed

lemma cancellation_frame:
  assumes "cancellation_decision clock r = Inr (u, Some r')"
    and "k \<notin> set [''cancellation_requested'', ''cancellation_requested_at'', ''state'', ''cancellation_status'', ''worker_outcome'', ''updated_at'']"
  shows "get_field k r' = get_field k r"
proof -
  obtain s c w where r': "r' = AList.update ''updated_at'' (JStr (clock 1))
    (update_fields (set_default ''cancellation_requested_at'' (JStr (clock 1))
        (AList.update ''cancellation_requested'' (JBool True) r))
      [(''state'', s), (''cancellation_status'', c), (''worker_outcome'', w)])"
    using cancellationD[OF assms(1)] by blast
  show ?thesis using assms(2) by (simp add: r' set_default_def)
qed

lemma dispatchD:
  assumes "dispatch_decision clock attempt owner lease r = Inr (x, Some r')"
  shows "\<not> is_terminal (get_field ''state'' r)"
    and "get_default ''dispatch_state'' (JStr ''not_started'') r = JStr ''not_started''"
    and "get_field ''dispatch_state'' r' = JStr ''in_flight''"
    and "get_field ''dispatch_attempt_id'' r' = JStr attempt"
    and "k \<notin> set [''state'', ''dispatch_state'', ''dispatch_attempt_id'', ''dispatch_owner_id'',
       ''dispatch_lease_expires_at'', ''worker_outcome'', ''updated_at''] \<Longrightarrow> get_field k r' = get_field k r"
  using assms by (auto simp: dispatch_decision_def split: if_splits)

lemma renewD:
  assumes "renew_decision clock attempt owner lease r = Inr (x, Some r')"
  shows "\<not> is_terminal (get_field ''state'' r)" and "get_field ''dispatch_attempt_id'' r = JStr attempt"
    and "k \<notin> set [''dispatch_lease_expires_at'', ''updated_at''] \<Longrightarrow> get_field k r' = get_field k r"
  using assms by (auto simp: renew_decision_def split: if_splits)

lemma claim_frame:
  assumes "claim_decision write_iso read_iso uuid5 now seconds owner r = Inr (x, Some r')"
  shows "k \<notin> set [''state'', ''dispatch_state'', ''dispatch_attempt_id'', ''recovery_owner_id'',
       ''recovery_lease_expires_at'', ''worker_outcome'', ''updated_at''] \<Longrightarrow> get_field k r' = get_field k r"
    and "json_true (get_field ''dispatch_attempt_id'' r) \<Longrightarrow>
       get_field ''dispatch_attempt_id'' r' = get_field ''dispatch_attempt_id'' r"
    and "get_field ''dispatch_state'' r' = JStr ''recovering''"
proof -
  obtain q w where q: "q = r \<or> \<not> json_true (get_field ''dispatch_attempt_id'' r) \<and> q = AList.update ''dispatch_attempt_id'' w r"
    and r': "r' = claimed write_iso now seconds owner q" using claimD(3)[OF assms] by blast
  show "get_field ''dispatch_state'' r' = JStr ''recovering''" by (simp add: r' claimed_def)
  show "get_field ''dispatch_attempt_id'' r' = get_field ''dispatch_attempt_id'' r"
    if "json_true (get_field ''dispatch_attempt_id'' r)" using q that by (simp add: r' claimed_def)
  show "get_field k r' = get_field k r" if "k \<notin> set [''state'', ''dispatch_state'', ''dispatch_attempt_id'', ''recovery_owner_id'',
       ''recovery_lease_expires_at'', ''worker_outcome'', ''updated_at'']"
    using q that by (elim disjE) (simp_all add: r' claimed_def)
qed

lemma live_dispatch_state:
  "protocol_error clock ev r = Inr q \<Longrightarrow> get_field ''dispatch_state'' q = JStr ''confirmed''"
  "transport_error clock ev r = Inr q \<Longrightarrow> get_field ''dispatch_state'' q \<in> {JStr ''uncertain'', get_field ''dispatch_state'' r}"
  "get_field ''dispatch_state'' (observation ev rs r) = JStr ''confirmed''"
proof -
  have frame: "add_diagnostic (clock 0) c m ds p = Inr q \<Longrightarrow> get_field ''dispatch_state'' q = get_field ''dispatch_state'' p" for c m ds p
    by (rule add_diagnostic_frame) simp_all
  show "protocol_error clock ev r = Inr q \<Longrightarrow> get_field ''dispatch_state'' q = JStr ''confirmed''"
    using frame by (simp add: protocol_error_def Let_def)
  show "transport_error clock ev r = Inr q \<Longrightarrow> get_field ''dispatch_state'' q \<in> {JStr ''uncertain'', get_field ''dispatch_state'' r}"
    using frame by (simp add: transport_error_def split: if_splits)
  show "get_field ''dispatch_state'' (observation ev rs r) = JStr ''confirmed''"
    by (simp add: observation_def Let_def)
qed

lemma identity_frame:
  "task_change r r' \<Longrightarrow> k \<in> set identity_fields \<Longrightarrow> get_field k r' = get_field k r"
proof (induction rule: task_change.induct)
  case (dispatch clock attempt owner lease r x r')
  show ?case by (rule dispatchD(5)[OF dispatch(1)]) (use dispatch(2) in \<open>auto simp: identity_fields_def\<close>)
next
  case (renew clock attempt owner lease r x r')
  show ?case by (rule renewD(3)[OF renew(1)]) (use renew(2) in \<open>auto simp: identity_fields_def\<close>)
next
  case (claim write_iso read_iso uuid5 now seconds owner r x r')
  show ?case by (rule claim_frame(1)[OF claim(1)]) (use claim(2) in \<open>auto simp: identity_fields_def\<close>)
next
  case (remote clock ev r u r')
  show ?case by (rule transition_frame[OF remote(1)])
      (use remote(2) in \<open>auto simp: identity_fields_def live_fields_def note_fields_def\<close>)
next
  case (cancel clock r u r')
  show ?case by (rule cancellation_frame[OF cancel(1)]) (use cancel(2) in \<open>auto simp: identity_fields_def\<close>)
next
  case (update changes r clock)
  then show ?case by (intro update_frame) (simp_all add: guarded_fields_def)
qed

lemma terminal_frame:
  "task_change r r' \<Longrightarrow> is_terminal (get_field ''state'' r) \<Longrightarrow> k \<in> set frozen_fields \<Longrightarrow> get_field k r' = get_field k r"
proof (induction rule: task_change.induct)
  case (remote clock ev r u r')
  show ?case by (rule transition_terminal_frame[OF remote(1,2)])
      (use remote(3) in \<open>auto simp: frozen_fields_def note_fields_def\<close>)
next
  case (update changes r clock)
  then show ?case by (intro update_frame) (simp_all add: guarded_fields_def)
qed (auto dest: dispatchD(1) renewD(1) claimD(1) cancellationD)

lemma attempt_frame:
  "task_change r r' \<Longrightarrow> record_ok r \<Longrightarrow> json_true (get_field ''dispatch_attempt_id'' r) \<Longrightarrow>
     get_field ''dispatch_attempt_id'' r' = get_field ''dispatch_attempt_id'' r"
proof (induction rule: task_change.induct)
  case (dispatch clock attempt owner lease r x r')
  from dispatch(2) have "phase_ok r" by (simp add: record_ok_def)
  then obtain d where "get_field ''dispatch_state'' r = JStr d" "d = ''not_started'' \<Longrightarrow> get_field ''dispatch_attempt_id'' r = JNull"
    by (rule phase_okE) blast
  moreover from this have "get_default ''dispatch_state'' (JStr ''not_started'') r = JStr d"
    by (simp add: get_default_present)
  ultimately show ?case using dispatchD(2)[OF dispatch(1)] dispatch(3) by simp
next
  case (renew clock attempt owner lease r x r')
  show ?case by (rule renewD(3)[OF renew(1)]) simp
next
  case (claim write_iso read_iso uuid5 now seconds owner r x r')
  then show ?case by (simp add: claim_frame(2))
next
  case (remote clock ev r u r')
  show ?case by (rule transition_frame[OF remote(1)]) (simp add: live_fields_def note_fields_def)
next
  case (cancel clock r u r')
  show ?case by (rule cancellation_frame[OF cancel(1)]) simp
next
  case (update changes r clock)
  show ?case by (rule update_frame[OF update(1)]) (simp add: guarded_fields_def frozen_fields_def)
qed

lemma cancel_frame:
  "task_change r r' \<Longrightarrow> get_field ''cancellation_requested'' r = JBool True \<Longrightarrow>
     get_field ''cancellation_requested'' r' = JBool True"
proof (induction rule: task_change.induct)
  case (dispatch clock attempt owner lease r x r')
  show ?case by (subst dispatchD(5)[OF dispatch(1)]) (simp_all add: dispatch(2))
next
  case (renew clock attempt owner lease r x r')
  show ?case by (subst renewD(3)[OF renew(1)]) (simp_all add: renew(2))
next
  case (claim write_iso read_iso uuid5 now seconds owner r x r')
  show ?case by (subst claim_frame(1)[OF claim(1)]) (simp_all add: claim(2))
next
  case (remote clock ev r u r')
  show ?case by (subst transition_frame[OF remote(1)]) (simp_all add: remote(2) live_fields_def note_fields_def)
next
  case (cancel clock r u r')
  then show ?case using cancellationD[OF cancel(1)] by (auto simp: set_default_def)
next
  case (update changes r clock)
  show ?case by (subst update_frame[OF update(1)]) (simp_all add: update(2) guarded_fields_def frozen_fields_def)
qed

lemma dispatched_frame:
  "task_change r r' \<Longrightarrow> get_field ''dispatch_state'' r \<noteq> JStr ''not_started'' \<Longrightarrow>
     get_field ''dispatch_state'' r' \<noteq> JStr ''not_started''"
proof (induction rule: task_change.induct)
  case (dispatch clock attempt owner lease r x r')
  show ?case by (simp add: dispatchD(3)[OF dispatch(1)])
next
  case (renew clock attempt owner lease r x r')
  then show ?case by (subst renewD(3)[OF renew(1)]) simp_all
next
  case (claim write_iso read_iso uuid5 now seconds owner r x r')
  show ?case by (simp add: claim_frame(3)[OF claim(1)])
next
  case (remote clock ev r u r')
  from remote(1) show ?case
  proof (rule transition_cases)
  qed (use remote(2) in \<open>auto simp: note_frame note_fields_def live_dispatch_state(1,3) dest!: live_dispatch_state(2)\<close>)
next
  case (cancel clock r u r')
  then show ?case by (subst cancellation_frame[OF cancel(1)]) simp_all
next
  case (update changes r clock)
  show ?case by (subst update_frame[OF update(1)]) (simp_all add: update(2) guarded_fields_def frozen_fields_def)
qed

section \<open>Runs of the store\<close>

text \<open>The record that \<^verbatim>\<open>A2ACoordinator.submit\<close> creates.\<close>

definition initial_record :: "(string \<Rightarrow> string) \<Rightarrow> string \<Rightarrow> string \<Rightarrow> work_item \<Rightarrow> authority_grant
    \<Rightarrow> worker_profile \<Rightarrow> dict" where
  "initial_record sha now who w g worker =
     [(''schema'', JStr ''formalspecgen-a2a-task-record-v1''), (''work_item_id'', JStr (work_item_id w)),
      (''request_sha256'', JStr (request_sha256 sha w)), (''principal_id'', JStr who),
      (''worker_id'', JStr (worker_id worker)), (''state'', JStr ''queued''),
      (''dispatch_state'', JStr ''not_started''), (''dispatch_attempt_id'', JNull),
      (''dispatch_owner_id'', JNull), (''dispatch_lease_expires_at'', JNull),
      (''remote_task_id'', JNull), (''remote_state'', JNull),
      (''cancellation_requested'', JBool False), (''cancellation_status'', JStr ''not_requested''),
      (''work_item'', JObj (work_item_dict w)), (''worker_result'', JNull), (''worker_outcome'', JNull),
      (''coordination_status'', JStr ''consistent''), (''coordination_diagnostics'', JArr []),
      (''coordination_diagnostic_count'', JInt 0), (''acceptance'', pending_acceptance),
      (''authority_sha256'', JStr (digest sha (JObj (grant_dict g)))),
      (''worker_profile_sha256'', JStr (digest sha (JObj (worker_dict worker)))),
      (''created_at'', JStr now), (''updated_at'', JStr now)]"

lemma initial_record_ok: "record_ok (initial_record sha now who w g worker)"
  by (simp add: record_ok_def initial_record_def is_bool_def diagnostics_ok_def phase_ok_def
      dispatch_states_def)

definition room :: "store \<Rightarrow> string \<Rightarrow> bool" where
  "room st wid \<longleftrightarrow> length (directory st wid) < 999999"

inductive store_step :: "(string \<Rightarrow> string) \<Rightarrow> store \<Rightarrow> store \<Rightarrow> bool" for sha where
  create: "\<lbrakk>create_task sha now (initial_record sha t who w g worker) ceilings st = Inr (x, st');
      room st (work_item_id w)\<rbrakk> \<Longrightarrow> store_step sha st st'"
| dispatch: "\<lbrakk>begin_dispatch sha clock wid who attempt owner lease st = Inr (x, st'); room st wid\<rbrakk>
      \<Longrightarrow> store_step sha st st'"
| renew: "\<lbrakk>renew_dispatch_lease sha clock wid who attempt owner lease st = Inr (x, st'); room st wid\<rbrakk>
      \<Longrightarrow> store_step sha st st'"
| claim: "\<lbrakk>claim_reconciliation sha clock write_iso read_iso uuid5 wid who now seconds owner st = Inr (x, st');
      room st wid\<rbrakk> \<Longrightarrow> store_step sha st st'"
| remote: "\<lbrakk>transition_remote_event sha clock wid who ev st = Inr (x, st'); room st wid\<rbrakk>
      \<Longrightarrow> store_step sha st st'"
| cancel: "\<lbrakk>request_cancellation sha clock wid who st = Inr (x, st'); room st wid\<rbrakk>
      \<Longrightarrow> store_step sha st st'"
| update: "\<lbrakk>update_task sha clock wid who changes st = Inr (x, st'); harmless changes; room st wid\<rbrakk>
      \<Longrightarrow> store_step sha st st'"

definition log_ok :: "(string \<Rightarrow> string) \<Rightarrow> string \<Rightarrow> dir \<Rightarrow> bool" where
  "log_ok sha wid d \<longleftrightarrow> numbered d \<and> length d \<le> 999999 \<and> chain sha event_schema (events d) \<and>
     (d \<noteq> [] \<longrightarrow> (case file_record (last (events d)) of
        JObj r \<Rightarrow> get_field ''work_item_id'' r = JStr wid \<and> record_ok r | _ \<Rightarrow> False))"

definition store_ok :: "(string \<Rightarrow> string) \<Rightarrow> store \<Rightarrow> bool" where
  "store_ok sha st \<longleftrightarrow> (\<forall>wid. log_ok sha wid (directory st wid))"

lemma store_ok_Nil: "store_ok sha []"
  by (simp add: store_ok_def directory_def log_ok_def events_def)

lemma load_iff:
  "load_unlocked sha st wid = Inr r \<longleftrightarrow> is_identifier wid \<and> events (directory st wid) \<noteq> [] \<and>
     chain sha event_schema (events (directory st wid)) \<and>
     file_record (last (events (directory st wid))) = JObj r"
  by (auto simp: load_unlocked_def check_work_item_id_def and_then_Inr_iff tasks.load_iff)

lemma store_ok_load:
  assumes "store_ok sha st" and "load_unlocked sha st wid = Inr r"
  shows "record_ok r" and "get_field ''work_item_id'' r = JStr wid"
proof -
  have l: "log_ok sha wid (directory st wid)" using assms(1) by (simp add: store_ok_def)
  have "directory st wid \<noteq> []" "file_record (last (events (directory st wid))) = JObj r"
    using assms(2) by (auto simp: load_iff events_def)
  with l show "record_ok r" "get_field ''work_item_id'' r = JStr wid" by (simp_all add: log_ok_def)
qed

lemma append_unlockedD:
  assumes "append_unlocked sha now r st = Inr (u, st')"
  obtains wid d where "u = r" "get_field ''work_item_id'' r = JStr wid" "is_identifier wid"
    "add_task_event sha now r (directory st wid) = Inr d" "st' = AList.update wid d st"
proof -
  from assms obtain j wid d where "dict_item ''work_item_id'' r = Inr j" "as_str j = Inr wid"
    "is_identifier wid" "add_task_event sha now r (directory st wid) = Inr d"
    "u = r" "st' = AList.update wid d st"
    by (auto simp: append_unlocked_def and_then_Inr_iff check_work_item_id_def)
  moreover from this have "get_field ''work_item_id'' r = JStr wid"
    by (cases j) (auto simp: dict_item_def get_field_def split: option.splits)
  ultimately show thesis using that by blast
qed

lemma directory_update: "directory (AList.update wid d st) w = (if w = wid then d else directory st w)"
  by (simp add: directory_def)

text \<open>One append keeps the invariant and is seen by the next load.\<close>

lemma append_unlocked_ok:
  assumes "store_ok sha st" and "append_unlocked sha now r st = Inr (u, st')"
    and "record_ok r" and "get_field ''work_item_id'' r = JStr wid" and "room st wid"
  shows "store_ok sha st'" and "load_unlocked sha st' wid = Inr r"
    and "\<exists>new. directory st' wid = directory st wid @ [new]"
    and "w \<noteq> wid \<Longrightarrow> directory st' w = directory st w"
proof -
  from assms(2,4) obtain d where d: "is_identifier wid" "add_task_event sha now r (directory st wid) = Inr d"
    and st': "st' = AList.update wid d st" by (auto elim: append_unlockedD)
  have l: "log_ok sha wid (directory st wid)" using assms(1) by (simp add: store_ok_def)
  have load: "load_dir sha d = Inr r" and n: "numbered d" and c: "chain sha event_schema (events d)"
    using tasks.load_after_add[OF _ _ _ d(2)] l assms(5) by (simp_all add: log_ok_def room_def)
  show new: "\<exists>new. directory st' wid = directory st wid @ [new]"
    using tasks.add_preserves[OF d(2)] by (simp add: st' directory_update)
  show other: "directory st' w = directory st w" if "w \<noteq> wid" for w
    using that by (simp add: st' directory_update)
  show "load_unlocked sha st' wid = Inr r"
    using d(1) load by (simp add: load_unlocked_def check_work_item_id_def st' directory_update)
  have "length d \<le> 999999" using new assms(5) by (auto simp: room_def st' directory_update)
  then have "log_ok sha wid d" using n c load assms(3,4) by (simp add: log_ok_def tasks.load_iff)
  then show "store_ok sha st'"
    using assms(1) other by (simp add: store_ok_def st' directory_update)
qed

lemma on_taskE:
  assumes "on_task sha wid who clock decide st = Inr ((x, u), st')"
  obtains r where "load_unlocked sha st wid = Inr r" "get_field ''principal_id'' r = JStr who"
      "decide r = Inr (x, None)" "u = r" "st' = st"
    | r where "load_unlocked sha st wid = Inr r" "get_field ''principal_id'' r = JStr who"
      "decide r = Inr (x, Some u)" "append_unlocked sha (clock 2) u st = Inr (u, st')"
proof -
  let ?finish = "\<lambda>r y c. (case c of None \<Rightarrow> Inr ((y, r), st)
     | Some record' \<Rightarrow> and_then (append_unlocked sha (clock 2) record' st)
         (\<lambda>(updated, st'). Inr ((y, updated), st')))"
  from assms obtain r where l: "load_unlocked sha st wid = Inr r"
    and a: "and_then (authorize r who) (\<lambda>_. and_then (decide r) (\<lambda>(y, c). ?finish r y c)) = Inr ((x, u), st')"
    unfolding on_task_def by (subst (asm) and_then_Inr_iff) blast
  have who: "get_field ''principal_id'' r = JStr who"
    by (rule ccontr) (use a in \<open>simp add: authorize_def\<close>)
  with a have a': "and_then (decide r) (\<lambda>(y, c). ?finish r y c) = Inr ((x, u), st')"
    by (simp only: authorize_def ensure_simps and_then_simps simp_thms)
  then obtain z where z: "decide r = Inr z" "(case z of (y, c) \<Rightarrow> ?finish r y c) = Inr ((x, u), st')"
    by (cases "decide r") (simp_all only: and_then_simps sum.simps)
  obtain y c where zc: "z = (y, c)" by (cases z)
  have r: "decide r = Inr (y, c)" using z(1) by (simp only: zc)
  have rest: "?finish r y c = Inr ((x, u), st')" using z(2) by (simp only: zc prod.case)
  show thesis
  proof (cases c)
    case None
    have "x = y" "u = r" "st' = st" using rest by (simp_all add: None)
    with that(1) l who r None show ?thesis by blast
  next
    case (Some r')
    obtain v where v: "append_unlocked sha (clock 2) r' st = Inr (v, st')" "x = y" "u = v"
      using rest unfolding Some option.case by (cases "append_unlocked sha (clock 2) r' st") auto
    moreover have "v = r'" using v(1) by (rule append_unlockedD)
    ultimately show ?thesis using that(2) l who r Some by blast
  qed
qed

text \<open>The refinement of one store step: every log only grows, every task present stays present, and
  its record is unchanged or changed by one \<open>task_change\<close>.\<close>

definition refines :: "(string \<Rightarrow> string) \<Rightarrow> store \<Rightarrow> store \<Rightarrow> bool" where
  "refines sha st st' \<longleftrightarrow> store_ok sha st' \<and> (\<forall>w. \<exists>new. directory st' w = directory st w @ new) \<and>
     (\<forall>w r. load_unlocked sha st w = Inr r \<longrightarrow>
        (\<exists>r'. load_unlocked sha st' w = Inr r' \<and> task_change\<^sup>*\<^sup>* r r'))"

lemma refines_refl: "store_ok sha st \<Longrightarrow> refines sha st st"
  by (auto simp: refines_def intro: exI[of _ "[]"])

lemma refines_trans:
  assumes "refines sha st st'" and "refines sha st' st''"
  shows "refines sha st st''"
  unfolding refines_def
proof (intro conjI allI impI)
  show "store_ok sha st''" using assms(2) by (simp add: refines_def)
  show "\<exists>new. directory st'' w = directory st w @ new" for w
    using assms by (metis append.assoc refines_def)
  show "\<exists>r''. load_unlocked sha st'' w = Inr r'' \<and> task_change\<^sup>*\<^sup>* r r''"
    if "load_unlocked sha st w = Inr r" for w r
    using assms that unfolding refines_def by (meson rtranclp_trans)
qed

lemma load_same: "directory st' w = directory st w \<Longrightarrow> load_unlocked sha st' w = load_unlocked sha st w"
  by (simp add: load_unlocked_def)

lemma append_refines:
  assumes "store_ok sha st" and "append_unlocked sha now r' st = Inr (u, st')"
    and "record_ok r'" and "get_field ''work_item_id'' r' = JStr wid" and "room st wid"
    and "\<And>r. load_unlocked sha st wid = Inr r \<Longrightarrow> task_change r r'"
  shows "refines sha st st'"
  unfolding refines_def
proof (intro conjI allI impI)
  note ok = append_unlocked_ok[OF assms(1-5)]
  show "store_ok sha st'" by (rule ok(1))
  show "\<exists>new. directory st' w = directory st w @ new" for w
    using ok(3) ok(4)[of w] by (cases "w = wid") auto
  show "\<exists>r''. load_unlocked sha st' w = Inr r'' \<and> task_change\<^sup>*\<^sup>* r r''"
    if l: "load_unlocked sha st w = Inr r" for w r
  proof (cases "w = wid")
    case True
    with l ok(2) assms(6) show ?thesis by auto
  next
    case False
    with l load_same[OF ok(4)[OF False]] show ?thesis by auto
  qed
qed

lemma on_task_refines:
  assumes "store_ok sha st" and "on_task sha wid who clock decide st = Inr (x, st')" and "room st wid"
    and change: "\<And>y r u. decide r = Inr (y, Some u) \<Longrightarrow> task_change r u"
  shows "refines sha st st'"
proof -
  obtain y u where "x = (y, u)" by (cases x)
  with assms(2) have "on_task sha wid who clock decide st = Inr ((y, u), st')" by simp
  then show ?thesis
  proof (cases rule: on_taskE)
    case (1 r)
    then show ?thesis using refines_refl assms(1) by simp
  next
    case (2 r)
    note ch = change[OF 2(3)]
    have "record_ok u" using task_change_ok[OF ch] store_ok_load(1)[OF assms(1) 2(1)] by simp
    moreover have "get_field ''work_item_id'' u = JStr wid"
      using identity_frame[OF ch, of "''work_item_id''"] store_ok_load(2)[OF assms(1) 2(1)]
      by (simp add: identity_fields_def)
    ultimately show ?thesis
      using append_refines[OF assms(1) 2(4) _ _ assms(3)] ch 2(1) by simp
  qed
qed

lemma create_refines:
  assumes "store_ok sha st" and "room st (work_item_id w)"
    and "create_task sha now (initial_record sha t who w g worker) ceilings st = Inr (x, st')"
  shows "refines sha st st'"
proof -
  let ?r = "initial_record sha t who w g worker"
  have id: "dict_item ''work_item_id'' ?r = Inr (JStr (work_item_id w))" "get_field ''work_item_id'' ?r = JStr (work_item_id w)"
    by (simp_all add: initial_record_def dict_item_def)
  show ?thesis
  proof (cases "load_unlocked sha st (work_item_id w)")
    case (Inr r)
    with assms(3) have "st' = st" by (simp add: create_task_def id split: if_splits)
    then show ?thesis using refines_refl assms(1) by simp
  next
    case (Inl e)
    with assms(3) obtain u where u: "append_unlocked sha now ?r st = Inr (u, st')"
      by (auto simp: create_task_def id and_then_Inr_iff split: if_splits)
    show ?thesis
      by (rule append_refines[OF assms(1) u initial_record_ok id(2) assms(2)]) (simp add: Inl)
  qed
qed

lemma store_step_refines:
  "store_step sha st st' \<Longrightarrow> store_ok sha st \<Longrightarrow> refines sha st st'"
proof (induction rule: store_step.induct)
  case (create now t who w g worker ceilings st x st')
  show ?case by (rule create_refines[OF create(3,2,1)])
next
  case (update clock wid who changes st x st')
  show ?case
    by (rule on_task_refines[OF update(4) update(1)[unfolded update_task_def] update(3)])
       (use update(2) in \<open>auto intro: task_change.update\<close>)
qed (auto intro: on_task_refines task_change.intros simp: begin_dispatch_def renew_dispatch_lease_def
      claim_reconciliation_def transition_remote_event_def request_cancellation_def)

lemma store_run_refines:
  "(store_step sha)\<^sup>*\<^sup>* st st' \<Longrightarrow> store_ok sha st \<Longrightarrow> refines sha st st'"
proof (induction rule: rtranclp_induct)
  case base
  then show ?case by (rule refines_refl)
next
  case (step st' st'')
  then have r: "refines sha st st'" by simp
  then have "store_ok sha st'" by (simp add: refines_def)
  from refines_trans[OF r store_step_refines[OF step(2) this]] show ?case .
qed

lemma reachable_ok: "(store_step sha)\<^sup>*\<^sup>* [] st \<Longrightarrow> store_ok sha st"
  using store_run_refines[OF _ store_ok_Nil] by (simp add: refines_def)

text \<open>Conversely, a decided change of a task is stored: with room in the log no operation fails
  after its decision.\<close>

lemma append_succeeds:
  assumes "log_ok sha wid d" and "length d < 999999"
  shows "\<exists>d'. add_task_event sha now r d = Inr d'"
  using tasks.add_succeeds assms unfolding log_ok_def by blast

lemma on_task_stores:
  assumes "store_ok sha st" and "load_unlocked sha st wid = Inr r" and "get_field ''principal_id'' r = JStr who"
    and "decide r = Inr (x, Some u)" and "task_change r u" and "room st wid"
  shows "\<exists>st'. on_task sha wid who clock decide st = Inr ((x, u), st') \<and> load_unlocked sha st' wid = Inr u \<and>
    length (directory st' wid) = Suc (length (directory st wid))"
proof -
  have u: "record_ok u" "get_field ''work_item_id'' u = JStr wid"
    using task_change_ok[OF assms(5)] identity_frame[OF assms(5), of "''work_item_id''"]
      store_ok_load[OF assms(1,2)] by (simp_all add: identity_fields_def)
  have "log_ok sha wid (directory st wid)" using assms(1) by (simp add: store_ok_def)
  from append_succeeds[OF this] assms(6) obtain d where
    d: "add_task_event sha (clock 2) u (directory st wid) = Inr d" by (auto simp: room_def)
  have i: "is_identifier wid" using assms(2) by (simp add: load_iff)
  have "dict_item ''work_item_id'' u = Inr (JStr wid)"
    using u(2) by (simp add: dict_item_def get_field_def split: option.splits)
  then have app: "append_unlocked sha (clock 2) u st = Inr (u, AList.update wid d st)"
    using d i by (simp add: append_unlocked_def check_work_item_id_def)
  moreover have "load_unlocked sha (AList.update wid d st) wid = Inr u"
    using append_unlocked_ok(2)[OF assms(1) app u assms(6)] .
  moreover have "length (directory (AList.update wid d st) wid) = Suc (length (directory st wid))"
    using append_unlocked_ok(3)[OF assms(1) app u assms(6)] by auto
  ultimately show ?thesis using assms(2,3,4)
    by (intro exI[of _ "AList.update wid d st"]) (simp add: on_task_def authorize_def)
qed

section \<open>Sample run\<close>

definition sample_grant :: authority_grant where
  "sample_grant = \<lparr>grant_ref = ''grant-1'', grant_principal = ''alice'', project_root = ''/repo'',
     grant_workers = [''w1''], grant_workflows = [''refactor''], grant_effects = [''workspace_read''],
     grant_paths = [''src/**''], grant_budget = [(''tokens'', 20)], expires_at = None\<rparr>"

definition sample_worker :: worker_profile where
  "sample_worker = \<lparr>worker_id = ''w1'', endpoint = ''https://w1'', agent_card_sha256 = replicate 64 (CHR ''0''),
     worker_workflows = [''refactor''], worker_effects = [''workspace_read''], worker_paths = [''src/**''],
     worker_budget = [(''tokens'', 50)], auth_token_env = None\<rparr>"

definition sample_clock :: clock where
  "sample_clock n = ''t''"

definition sample_event :: remote_event where
  "sample_event = \<lparr>attempt_id = ''a1'', event_kind = ''observation'', ev_remote_id = Some ''r1'',
     ev_remote_state = Some ''completed'', ev_result = None, ev_operation = None, ev_code = None, ev_message = []\<rparr>"

text \<open>The runs below hold for every hash function.\<close>

definition sample_record :: "(string \<Rightarrow> string) \<Rightarrow> dict" where
  "sample_record sha = initial_record sha ''t'' ''alice'' sample_item sample_grant sample_worker"

definition sample_create :: "(string \<Rightarrow> string) \<Rightarrow> service_error + (dict \<times> bool) \<times> store" where
  "sample_create sha = create_task sha ''t'' (sample_record sha) [(''tokens'', 20)] []"

lemma sample_identifier: "is_identifier ''task-1''"
  by code_simp

lemma sample_fields:
  "dict_item ''work_item_id'' (sample_record sha) = Inr (JStr ''task-1'')"
  "get_field ''work_item'' (sample_record sha) = JObj (work_item_dict sample_item)"
  "map_of (sample_record sha) ''work_item'' = Some (JObj (work_item_dict sample_item))"
  by (simp_all add: sample_record_def initial_record_def dict_item_def sample_item_def)

lemma sample_create_Inr:
  "\<exists>e. sample_create sha = Inr ((sample_record sha, True), [(''task-1'', [(1, e)])])"
proof -
  have "load_unlocked sha [] ''task-1'' = Inl task_not_found"
    by (simp add: load_unlocked_def check_work_item_id_def sample_identifier load_dir_def directory_def events_def)
  moreover have "check_aggregate_budget sha [] (sample_record sha) [(''tokens'', 20)] = Inr ()"
    by (simp add: check_aggregate_budget_def all_latest_def check_ceiling_def budget_at_def budget_of_def
        sample_fields budget_total_def nested_def get_default_present work_item_dict_def sample_item_def jints_def
        optional_string_def get_default_def)
  ultimately show ?thesis
    by (simp add: sample_create_def create_task_def sample_fields has_code_def task_not_found_def
        append_unlocked_def check_work_item_id_def sample_identifier directory_def add_task_event_def
        append_event_def events_def)
qed

lemma sample_create_step:
  obtains st where "store_step sha [] st" "load_unlocked sha st ''task-1'' = Inr (sample_record sha)" "length (directory st ''task-1'') = 1"
    "\<forall>w. w \<noteq> ''task-1'' \<longrightarrow> directory st w = []"
proof -
  obtain e where c: "sample_create sha = Inr ((sample_record sha, True), [(''task-1'', [(1, e)])])"
    using sample_create_Inr by blast
  let ?st = "[(''task-1'', [(1, e)])] :: store"
  have wid: "work_item_id sample_item = ''task-1''" by (simp add: sample_item_def)
  have r0: "room [] ''task-1''" by (simp add: room_def directory_def)
  have "store_step sha [] ?st"
    by (rule store_step.create[OF c[unfolded sample_create_def sample_record_def]]) (simp add: wid r0)
  moreover have "load_unlocked sha ?st ''task-1'' = Inr (sample_record sha)"
  proof -
    have "append_unlocked sha ''t'' (sample_record sha) [] = Inr (sample_record sha, ?st)"
      using c unfolding sample_create_def create_task_def
      by (auto simp: sample_fields and_then_Inr_iff split: sum.splits if_splits)
    moreover have "get_field ''work_item_id'' (sample_record sha) = JStr ''task-1''"
      using sample_fields(1)[of sha] by (simp add: dict_item_def get_field_def split: option.splits)
    ultimately show ?thesis
      using append_unlocked_ok(2)[OF store_ok_Nil _ _ _ r0] initial_record_ok by (simp add: sample_record_def)
  qed
  moreover have "length (directory ?st ''task-1'') = 1" "\<forall>w. w \<noteq> ''task-1'' \<longrightarrow> directory ?st w = []"
    by (simp_all add: directory_def)
  ultimately show thesis using that by blast
qed

lemma sample_dispatch_step:
  obtains st st' r where "(store_step sha)\<^sup>*\<^sup>* [] st" "store_step sha st st'" "length (directory st' ''task-1'') = 2"
    "begin_dispatch sha clock ''task-1'' ''alice'' ''a1'' ''c1'' ''t1'' st = Inr ((True, r), st')"
    "load_unlocked sha st' ''task-1'' = Inr r" "get_field ''dispatch_attempt_id'' r = JStr ''a1''"
    "get_field ''state'' r = JStr ''dispatching''" "get_field ''principal_id'' r = JStr ''alice''"
    "get_field ''remote_task_id'' r = JNull"
proof -
  obtain st where st: "store_step sha [] st" "load_unlocked sha st ''task-1'' = Inr (sample_record sha)"
    "length (directory st ''task-1'') = 1"
    by (rule sample_create_step)
  then have run: "(store_step sha)\<^sup>*\<^sup>* [] st" and room: "room st ''task-1''" by (simp_all add: room_def)
  let ?d = "dispatch_decision clock ''a1'' ''c1'' ''t1''"
  have f: "get_field ''state'' (sample_record sha) = JStr ''queued''"
    "get_default ''dispatch_state'' v (sample_record sha) = JStr ''not_started''"
    "get_field ''principal_id'' (sample_record sha) = JStr ''alice''"
    "get_field ''remote_task_id'' (sample_record sha) = JNull" for v
    by (simp_all add: sample_record_def initial_record_def get_default_def)
  have "\<exists>u. ?d (sample_record sha) = Inr (True, Some u) \<and> get_field ''dispatch_attempt_id'' u = JStr ''a1'' \<and>
      get_field ''state'' u = JStr ''dispatching'' \<and> get_field ''principal_id'' u = JStr ''alice'' \<and>
      get_field ''remote_task_id'' u = JNull"
    by (simp add: dispatch_decision_def f is_terminal_def terminal_states_def)
  then obtain u where u: "?d (sample_record sha) = Inr (True, Some u)" "get_field ''dispatch_attempt_id'' u = JStr ''a1''"
      "get_field ''state'' u = JStr ''dispatching''" "get_field ''principal_id'' u = JStr ''alice''"
      "get_field ''remote_task_id'' u = JNull" by blast
  from on_task_stores[where clock = clock and decide = "?d", OF reachable_ok[OF run] st(2) f(3) u(1)
      task_change.dispatch[OF u(1)] room] st(3)
  obtain st' where st': "begin_dispatch sha clock ''task-1'' ''alice'' ''a1'' ''c1'' ''t1'' st = Inr ((True, u), st')"
    "load_unlocked sha st' ''task-1'' = Inr u" "length (directory st' ''task-1'') = 2"
    by (auto simp: begin_dispatch_def)
  show thesis
    using that[OF run store_step.dispatch[OF st'(1) room] st'(3,1,2) u(2,3,4,5)] .
qed

lemma sample_complete_step:
  obtains st st' r where "(store_step sha)\<^sup>*\<^sup>* [] st" "store_step sha st st'"
    "load_unlocked sha st' ''task-1'' = Inr r" "get_field ''state'' r = JStr ''completed''"
proof -
  obtain st0 st r where run0: "(store_step sha)\<^sup>*\<^sup>* [] st0" "store_step sha st0 st"
    and st: "length (directory st ''task-1'') = 2" "load_unlocked sha st ''task-1'' = Inr r"
    and f: "get_field ''dispatch_attempt_id'' r = JStr ''a1''" "get_field ''state'' r = JStr ''dispatching''"
      "get_field ''principal_id'' r = JStr ''alice''" "get_field ''remote_task_id'' r = JNull"
    by (rule sample_dispatch_step)
  have run: "(store_step sha)\<^sup>*\<^sup>* [] st" using run0 by (rule rtranclp.rtrancl_into_rtrancl)
  have room: "room st ''task-1''" using st(1) by (simp add: room_def)
  let ?t = "transition_decision sample_clock sample_event" and ?u = "stamped sample_clock (observation sample_event ''completed'' r)"
  have t: "?t r = Inr ((), Some ?u)"
    by (simp add: transition_decision_def f sample_event_def is_terminal_def terminal_states_def)
  have u: "get_field ''state'' ?u = JStr ''completed''"
    by (simp add: observation_def Let_def terminal_states_def)
  from on_task_stores[where clock = sample_clock and decide = ?t, OF reachable_ok[OF run] st(2) f(3) t
      task_change.remote[OF t] room]
  obtain st' where st': "transition_remote_event sha sample_clock ''task-1'' ''alice'' sample_event st = Inr (((), ?u), st')"
    "load_unlocked sha st' ''task-1'' = Inr ?u"
    by (auto simp: transition_remote_event_def)
  show thesis using that[OF run store_step.remote[OF st'(1) room] st'(2) u] .
qed

section \<open>Properties\<close>

lemma runs_frame:
  assumes "task_change\<^sup>*\<^sup>* r r'" and "record_ok r"
  shows "record_ok r'"
    and "\<And>k. k \<in> set identity_fields \<Longrightarrow> get_field k r' = get_field k r"
    and "\<And>k. is_terminal (get_field ''state'' r) \<Longrightarrow> k \<in> set frozen_fields \<Longrightarrow> get_field k r' = get_field k r"
    and "json_true (get_field ''dispatch_attempt_id'' r) \<Longrightarrow> get_field ''dispatch_attempt_id'' r' = get_field ''dispatch_attempt_id'' r"
    and "get_field ''cancellation_requested'' r = JBool True \<Longrightarrow> get_field ''cancellation_requested'' r' = JBool True"
    and "get_field ''dispatch_state'' r \<noteq> JStr ''not_started'' \<Longrightarrow> get_field ''dispatch_state'' r' \<noteq> JStr ''not_started''"
  using assms
proof (induction rule: rtranclp_induct)
  case (step r' r'')
  { case 1 with step show ?case by (blast intro: task_change_ok) }
  { case (2 k) with step show ?case using identity_frame[OF step(2)] by simp }
  { case (3 k)
    moreover have "''state'' \<in> set frozen_fields" by (simp add: frozen_fields_def)
    ultimately have "is_terminal (get_field ''state'' r')" using step by simp
    with step 3 show ?case using terminal_frame[OF step(2)] by simp }
  { case 4 with step show ?case using attempt_frame[OF step(2)] by simp }
  { case 5 with step show ?case using cancel_frame[OF step(2)] by simp }
  { case 6 with step show ?case using dispatched_frame[OF step(2)] by simp }
qed simp_all

lemma later_load:
  assumes "(store_step sha)\<^sup>*\<^sup>* [] st" and "(store_step sha)\<^sup>*\<^sup>* st st'" and "load_unlocked sha st wid = Inr r"
  obtains r' where "load_unlocked sha st' wid = Inr r'" "task_change\<^sup>*\<^sup>* r r'" "record_ok r"
  using store_run_refines[OF assms(2) reachable_ok[OF assms(1)]] assms(3)
    store_ok_load(1)[OF reachable_ok[OF assms(1)] assms(3)] unfolding refines_def by blast

text \<open>C9: the store refines the life of a task.  Over any interleaving of creations, dispatches, lease renewals,
  reconciliation claims, remote events and cancellations by any coordinators, with any arguments, and of
  updates of fields that none of these writes, a stored task stays readable, its history only grows, its record
  changes only along \<open>task_change\<close>, keeps the record invariant (a never-accepted result,
  bounded diagnostics, consistent phase) and never changes its identity: request digest, principal,
  worker, work item and authority digests.  An update of guarded fields, which only tests could make, is no step:
  \<open>update_rewrites_identity\<close> shows what it can do.\<close>

theorem store_refines_task_life:
  assumes "(store_step sha)\<^sup>*\<^sup>* [] st" and "(store_step sha)\<^sup>*\<^sup>* st st'"
    and "load_unlocked sha st wid = Inr r"
  shows "\<exists>r' new. load_unlocked sha st' wid = Inr r' \<and> task_change\<^sup>*\<^sup>* r r' \<and> record_ok r' \<and>
    directory st' wid = directory st wid @ new \<and>
    (\<forall>k \<in> set identity_fields. get_field k r' = get_field k r)"
proof -
  obtain r' where r': "load_unlocked sha st' wid = Inr r'" "task_change\<^sup>*\<^sup>* r r'" "record_ok r"
    using later_load[OF assms] .
  moreover have "\<exists>new. directory st' wid = directory st wid @ new"
    using store_run_refines[OF assms(2) reachable_ok[OF assms(1)]] by (simp add: refines_def)
  ultimately show ?thesis using runs_frame(1,2)[OF r'(2,3)] by blast
qed

lemma store_refines_task_life_witness:
  "\<exists>st r'. load_unlocked id st ''task-1'' = Inr r' \<and> record_ok r'"
proof -
  obtain st0 st r where "(store_step id)\<^sup>*\<^sup>* [] st0" "store_step id st0 st" "load_unlocked id st ''task-1'' = Inr r"
    by (rule sample_complete_step)
  then have "(store_step id)\<^sup>*\<^sup>* [] st" by (rule_tac rtranclp.rtrancl_into_rtrancl)
  from store_refines_task_life[OF this rtranclp.rtrancl_refl] \<open>load_unlocked id st ''task-1'' = Inr r\<close>
  show ?thesis by blast
qed

lemma update_rewrites_identity:
  "\<exists>st st' x r. (store_step id)\<^sup>*\<^sup>* [] st \<and> update_task id sample_clock ''task-1'' ''alice'' [(''worker_id'', JStr ''w2'')] st = Inr (x, st') \<and>
     load_unlocked id st ''task-1'' = Inr r \<and> get_field ''worker_id'' r = JStr ''w1'' \<and> get_field ''worker_id'' (snd x) = JStr ''w2''"
proof -
  let ?u = "stamped sample_clock (update_fields (sample_record id) [(''worker_id'', JStr ''w2'')])"
  obtain st where st: "store_step id [] st" "load_unlocked id st ''task-1'' = Inr (sample_record id)" "length (directory st ''task-1'') = 1"
    by (rule sample_create_step)
  have r: "get_field ''principal_id'' (sample_record id) = JStr ''alice''" "get_field ''worker_id'' (sample_record id) = JStr ''w1''"
    by (simp_all add: sample_record_def initial_record_def sample_worker_def)
  have "dict_item ''work_item_id'' ?u = Inr (JStr ''task-1'')"
    by (simp add: stamped_def sample_record_def initial_record_def dict_item_def sample_item_def update_conv)
  moreover have "log_ok id ''task-1'' (directory st ''task-1'')" using reachable_ok[of id st] st(1) by (auto simp: store_ok_def)
  from append_succeeds[OF this] st(3) obtain d where "add_task_event id (sample_clock 2) ?u (directory st ''task-1'') = Inr d" by auto
  ultimately have "update_task id sample_clock ''task-1'' ''alice'' [(''worker_id'', JStr ''w2'')] st =
      Inr (((), ?u), AList.update ''task-1'' d st)"
    using st(2) r(1) by (simp add: update_task_def on_task_def authorize_def append_unlocked_def check_work_item_id_def sample_identifier)
  then show ?thesis using r(2) st by (intro exI conjI r_into_rtranclp) (assumption | simp)+
qed

text \<open>C8: a terminal outcome is final: once a task is completed, failed, cancelled or rejected, no
  later operation (a late observation, an error, a cancellation, a second dispatch, a recovery) changes
  its state, its dispatch, its remote binding, its worker result or its cancellation status.\<close>

theorem terminal_outcome_final:
  assumes "(store_step sha)\<^sup>*\<^sup>* [] st" and "(store_step sha)\<^sup>*\<^sup>* st st'"
    and "load_unlocked sha st wid = Inr r" and "is_terminal (get_field ''state'' r)"
  shows "\<exists>r'. load_unlocked sha st' wid = Inr r' \<and> (\<forall>k \<in> set frozen_fields. get_field k r' = get_field k r)"
proof -
  obtain r' where "load_unlocked sha st' wid = Inr r'" "task_change\<^sup>*\<^sup>* r r'" "record_ok r"
    using later_load[OF assms(1-3)] .
  with runs_frame(3) assms(4) show ?thesis by blast
qed

lemma terminal_outcome_final_witness:
  "\<exists>st r'. load_unlocked id st ''task-1'' = Inr r' \<and> get_field ''state'' r' = JStr ''completed''"
proof -
  obtain st0 st r where "(store_step id)\<^sup>*\<^sup>* [] st0" "store_step id st0 st"
    and r: "load_unlocked id st ''task-1'' = Inr r" "get_field ''state'' r = JStr ''completed''"
    by (rule sample_complete_step)
  then have run: "(store_step id)\<^sup>*\<^sup>* [] st" by (rule_tac rtranclp.rtrancl_into_rtrancl)
  have "is_terminal (get_field ''state'' r)" by (simp add: r is_terminal_def terminal_states_def)
  from terminal_outcome_final[OF run rtranclp.rtrancl_refl r(1) this]
  obtain r' where "load_unlocked id st ''task-1'' = Inr r'" "\<forall>k \<in> set frozen_fields. get_field k r' = get_field k r"
    by blast
  moreover have "''state'' \<in> set frozen_fields" by (simp add: frozen_fields_def)
  ultimately show ?thesis using r(2) by metis
qed

lemma begin_dispatch_won:
  assumes "begin_dispatch sha clock wid who attempt owner lease st = Inr ((won, r), st')" and "room st wid"
    and "store_ok sha st"
  shows "load_unlocked sha st' wid = Inr r" and "won \<Longrightarrow> get_field ''dispatch_attempt_id'' r = JStr attempt"
    and "won \<Longrightarrow> get_field ''dispatch_state'' r = JStr ''in_flight''"
    and "won \<Longrightarrow> \<exists>q. load_unlocked sha st wid = Inr q \<and> get_default ''dispatch_state'' (JStr ''not_started'') q = JStr ''not_started''"
    and "\<not> won \<Longrightarrow> load_unlocked sha st wid = Inr r"
proof -
  from assms(1) have "load_unlocked sha st' wid = Inr r \<and> (won \<longrightarrow> get_field ''dispatch_attempt_id'' r = JStr attempt \<and>
     get_field ''dispatch_state'' r = JStr ''in_flight'' \<and>
     (\<exists>q. load_unlocked sha st wid = Inr q \<and> get_default ''dispatch_state'' (JStr ''not_started'') q = JStr ''not_started'')) \<and>
     (\<not> won \<longrightarrow> load_unlocked sha st wid = Inr r)"
    unfolding begin_dispatch_def
  proof (cases rule: on_taskE)
    case (1 q)
    then have "\<not> won" by (simp add: dispatch_decision_def split: if_splits)
    with 1 show ?thesis by simp
  next
    case (2 q)
    then have won: "won" by (simp add: dispatch_decision_def split: if_splits)
    note d = dispatchD[OF 2(3)]
    have ch: "task_change q r" using 2(3) by (rule task_change.dispatch)
    have "load_unlocked sha st' wid = Inr r"
      using append_unlocked_ok(2)[OF assms(3) 2(4) task_change_ok[OF ch] _ assms(2)]
        store_ok_load[OF assms(3) 2(1)] identity_frame[OF ch, of "''work_item_id''"]
      by (simp add: identity_fields_def)
    with 2 d(2-4) won show ?thesis by blast
  qed
  then show "load_unlocked sha st' wid = Inr r" and "won \<Longrightarrow> get_field ''dispatch_attempt_id'' r = JStr attempt"
    and "won \<Longrightarrow> get_field ''dispatch_state'' r = JStr ''in_flight''"
    and "won \<Longrightarrow> \<exists>q. load_unlocked sha st wid = Inr q \<and> get_default ''dispatch_state'' (JStr ''not_started'') q = JStr ''not_started''"
    and "\<not> won \<Longrightarrow> load_unlocked sha st wid = Inr r" by blast+
qed

text \<open>C4: a task is dispatched at most once: after one coordinator won the dispatch, every later
  \<open>begin_dispatch\<close> of any coordinator loses, whatever happened in between, and it still sees the
  attempt identifier of the winner.\<close>

theorem dispatch_at_most_once:
  assumes "(store_step sha)\<^sup>*\<^sup>* [] st" and "room st wid"
    and "begin_dispatch sha clock wid who attempt owner lease st = Inr ((True, r), st1)"
    and "(store_step sha)\<^sup>*\<^sup>* st1 st2" and "room st2 wid"
    and "begin_dispatch sha clock' wid who' attempt' owner' lease' st2 = Inr ((won, r2), st3)"
    and "attempt \<noteq> []"
  shows "\<not> won \<and> get_field ''dispatch_attempt_id'' r2 = JStr attempt"
proof -
  have st1: "(store_step sha)\<^sup>*\<^sup>* [] st1"
    using assms(1) store_step.dispatch[OF assms(3,2)] by (rule rtranclp.rtrancl_into_rtrancl)
  note first = begin_dispatch_won[OF assms(3,2) reachable_ok[OF assms(1)]]
  obtain q where q: "load_unlocked sha st2 wid = Inr q" "task_change\<^sup>*\<^sup>* r q" "record_ok r"
    using later_load[OF st1 assms(4) first(1)] .
  have "get_field ''dispatch_attempt_id'' q = JStr attempt"
    using runs_frame(4)[OF q(2,3)] first(2) assms(7) by simp
  moreover have ns: "get_field ''dispatch_state'' q \<noteq> JStr ''not_started''"
    using runs_frame(6)[OF q(2,3)] first(3) by simp
  moreover have ok: "store_ok sha st2"
    using store_run_refines[OF assms(4) reachable_ok[OF st1]] by (simp add: refines_def)
  note second = begin_dispatch_won[OF assms(6,5) this]
  have "get_default ''dispatch_state'' (JStr ''not_started'') q \<noteq> JStr ''not_started''"
  proof -
    have "phase_ok q" using store_ok_load(1)[OF ok q(1)] by (simp add: record_ok_def)
    then obtain d where "get_field ''dispatch_state'' q = JStr d" by (rule phase_okE)
    with ns show ?thesis by (simp add: get_default_present)
  qed
  then have "\<not> won" using second(4) q(1) by auto
  moreover from this have "r2 = q" using second(5) q(1) by simp
  ultimately show ?thesis by simp
qed

lemma dispatch_at_most_once_witness:
  "\<exists>st2 r2. begin_dispatch id sample_clock ''task-1'' ''alice'' ''a2'' ''c2'' ''t2'' st2 = Inr ((False, r2), st2) \<and>
     get_field ''dispatch_attempt_id'' r2 = JStr ''a1''"
proof -
  obtain st st' r where s: "(store_step id)\<^sup>*\<^sup>* [] st" "store_step id st st'" "length (directory st' ''task-1'') = 2"
    "begin_dispatch id sample_clock ''task-1'' ''alice'' ''a1'' ''c1'' ''t1'' st = Inr ((True, r), st')"
    "load_unlocked id st' ''task-1'' = Inr r" "get_field ''state'' r = JStr ''dispatching''"
    "get_field ''principal_id'' r = JStr ''alice''"
    by (rule sample_dispatch_step)
  have "length (directory st ''task-1'') \<le> length (directory st' ''task-1'')"
    using store_step_refines[OF s(2) reachable_ok[OF s(1)]] unfolding refines_def
    by (metis length_append le_add1)
  with s(3) have room: "room st ''task-1''" "room st' ''task-1''" by (simp_all add: room_def)
  have "get_field ''dispatch_state'' r = JStr ''in_flight''"
    using begin_dispatch_won(3)[OF s(4) room(1) reachable_ok[OF s(1)]] by simp
  then have "begin_dispatch id sample_clock ''task-1'' ''alice'' ''a2'' ''c2'' ''t2'' st' = Inr ((False, r), st')"
    using s(5,7) by (simp add: begin_dispatch_def on_task_def authorize_def dispatch_decision_def get_default_present)
  with dispatch_at_most_once[OF s(1) room(1) s(4) rtranclp.rtrancl_refl room(2) this] show ?thesis by auto
qed

end
