(* ===== verification/A2A_Safety.thy ===== *)
theory A2A_Safety
  imports A2A_Lifecycle
begin

text \<open>
  Further guarantees of \<^verbatim>\<open>TaskStore\<close>: cancellation, separation of principals,
  evidence, foreign remote events and the ceilings enforced when a task is created.
\<close>

section \<open>Cancellation\<close>

lemma on_task_load:
  assumes "on_task sha wid who clock decide st = Inr ((x, u), st')" and "room st wid" and "store_ok sha st"
    and "\<And>y r v. decide r = Inr (y, Some v) \<Longrightarrow> task_change r v"
  shows "load_unlocked sha st' wid = Inr u"
  using assms(1)
proof (cases rule: on_taskE)
  case (2 r)
  note ch = assms(4)[OF 2(3)]
  show ?thesis
    using append_unlocked_ok(2)[OF assms(3) 2(4) task_change_ok[OF ch] _ assms(2)]
      store_ok_load[OF assms(3) 2(1)] identity_frame[OF ch, of "''work_item_id''"]
    by (simp add: identity_fields_def)
qed simp

lemma cancellation_effect:
  assumes "cancellation_decision clock r = Inr (u, Some q)" and "get_field ''dispatch_state'' r = JStr d"
  shows "get_field ''cancellation_requested'' q = JBool True"
    and "d = ''not_started'' \<Longrightarrow> get_field ''state'' q = JStr ''cancelled''"
proof -
  have "get_default ''dispatch_state'' v (set_default ''cancellation_requested_at'' w
      (AList.update ''cancellation_requested'' (JBool True) r)) = JStr d" for v w
    using assms(2) by (simp add: set_default_def get_default_present)
  then show "d = ''not_started'' \<Longrightarrow> get_field ''state'' q = JStr ''cancelled''"
    using assms(1) by (auto simp: cancellation_decision_def Let_def split: if_splits)
  show "get_field ''cancellation_requested'' q = JBool True"
    using cancellationD[OF assms(1)] by (auto simp: set_default_def)
qed

text \<open>C23: cancellation is not lost: after a cancellation request either the task had already ended,
  and keeps that outcome for good, or the request stays on record through every later operation; a
  task that was never dispatched is cancelled at once, and for good.\<close>

theorem cancellation_not_lost:
  assumes "(store_step sha)\<^sup>*\<^sup>* [] st" and "room st wid" and "load_unlocked sha st wid = Inr r0"
    and "request_cancellation sha clock wid who st = Inr ((u, r1), st1)" and "(store_step sha)\<^sup>*\<^sup>* st1 st2"
  shows "\<exists>r2. load_unlocked sha st2 wid = Inr r2 \<and>
    (if is_terminal (get_field ''state'' r0) then get_field ''state'' r2 = get_field ''state'' r0
     else get_field ''cancellation_requested'' r2 = JBool True \<and>
       (get_field ''dispatch_state'' r0 = JStr ''not_started'' \<longrightarrow> get_field ''state'' r2 = JStr ''cancelled''))"
proof -
  have st1: "(store_step sha)\<^sup>*\<^sup>* [] st1"
    using assms(1) store_step.cancel[OF assms(4,2)] by (rule rtranclp.rtrancl_into_rtrancl)
  have l1: "load_unlocked sha st1 wid = Inr r1"
    using assms(4) unfolding request_cancellation_def
    by (rule on_task_load[OF _ assms(2) reachable_ok[OF assms(1)]]) (rule task_change.cancel)
  obtain r2 where r2: "load_unlocked sha st2 wid = Inr r2" "task_change\<^sup>*\<^sup>* r1 r2" "record_ok r1"
    using later_load[OF st1 assms(5) l1] .
  note frame = runs_frame[OF r2(2,3)]
  have final: "get_field ''state'' r2 = get_field ''state'' r1" if "is_terminal (get_field ''state'' r1)"
    using frame(3)[OF that, of "''state''"] by (simp add: frozen_fields_def)
  from assms(4) show ?thesis unfolding request_cancellation_def
  proof (cases rule: on_taskE)
    case (1 r)
    then have "r = r0" using assms(3) by simp
    with 1 have "is_terminal (get_field ''state'' r0)" "r1 = r0"
      by (auto simp: cancellation_decision_def Let_def split: if_splits)
    with final r2(1) show ?thesis by auto
  next
    case (2 r)
    then have r: "r = r0" using assms(3) by simp
    have nt: "\<not> is_terminal (get_field ''state'' r0)" using cancellationD[OF 2(3)] r by simp
    have "phase_ok r0" using store_ok_load(1)[OF reachable_ok[OF assms(1)] assms(3)] by (simp add: record_ok_def)
    then obtain d where d: "get_field ''dispatch_state'' r0 = JStr d" by (rule phase_okE)
    note e = cancellation_effect[OF 2(3)[unfolded r] d]
    have "get_field ''state'' r2 = JStr ''cancelled''" if "get_field ''dispatch_state'' r0 = JStr ''not_started''"
      using e(2) d that final by (simp add: is_terminal_def terminal_states_def)
    with frame(5)[OF e(1)] nt r2(1) show ?thesis by auto
  qed
qed

lemma sample_cancel_step:
  obtains st st' r where "store_step sha [] st" "room st ''task-1''"
    "load_unlocked sha st ''task-1'' = Inr (sample_record sha)"
    "request_cancellation sha clock ''task-1'' ''alice'' st = Inr (((), r), st')"
    "get_field ''state'' r = JStr ''cancelled''" "length (directory st' ''task-1'') = 2"
    "\<forall>w. w \<noteq> ''task-1'' \<longrightarrow> directory st' w = []"
proof -
  obtain st where st: "store_step sha [] st" "load_unlocked sha st ''task-1'' = Inr (sample_record sha)"
    "length (directory st ''task-1'') = 1" "\<forall>w. w \<noteq> ''task-1'' \<longrightarrow> directory st w = []"
    by (rule sample_create_step)
  then have room: "room st ''task-1''" by (simp add: room_def)
  have f: "get_field ''state'' (sample_record sha) = JStr ''queued''"
    "get_field ''principal_id'' (sample_record sha) = JStr ''alice''"
    by (simp_all add: sample_record_def initial_record_def)
  have "\<exists>u. cancellation_decision clock (sample_record sha) = Inr ((), Some u)"
    by (simp add: cancellation_decision_def f is_terminal_def terminal_states_def Let_def)
  then obtain u where u: "cancellation_decision clock (sample_record sha) = Inr ((), Some u)" ..
  have ok: "store_ok sha st" using st(1) by (intro reachable_ok) simp
  from on_task_stores[where clock = clock and decide = "cancellation_decision clock", OF ok st(2) f(2) u
      task_change.cancel[OF u] room]
  obtain st' where st': "request_cancellation sha clock ''task-1'' ''alice'' st = Inr (((), u), st')"
    "length (directory st' ''task-1'') = 2" using st(3) by (auto simp: request_cancellation_def)
  have "directory st' w = []" if "w \<noteq> ''task-1''" for w
    using st'(1) unfolding request_cancellation_def
  proof (cases rule: on_taskE)
    case (2 r)
    have "get_field ''work_item_id'' u = JStr ''task-1''"
      using identity_frame[OF task_change.cancel[OF u], of "''work_item_id''"] store_ok_load(2)[OF ok st(2)]
      by (simp add: identity_fields_def)
    from append_unlocked_ok(4)[OF ok 2(4) _ this room, of w] task_change_ok[OF task_change.cancel[OF u]]
      store_ok_load(1)[OF ok st(2)] that st(4) show ?thesis by simp
  qed (use st(4) that in simp)
  moreover have "get_field ''dispatch_state'' (sample_record sha) = JStr ''not_started''"
    by (simp add: sample_record_def initial_record_def)
  then have "get_field ''state'' u = JStr ''cancelled''" using cancellation_effect(2)[OF u] by simp
  ultimately show thesis using that st(1,2) room st' by blast
qed

lemma cancellation_not_lost_witness:
  "\<exists>st2 r2. load_unlocked id st2 ''task-1'' = Inr r2 \<and> get_field ''state'' r2 = JStr ''cancelled''"
proof -
  obtain st st' r where s: "store_step id [] st" "room st ''task-1''"
    "load_unlocked id st ''task-1'' = Inr (sample_record id)"
    "request_cancellation id clock ''task-1'' ''alice'' st = Inr (((), r), st')"
    by (rule sample_cancel_step)
  have "get_field ''state'' (sample_record id) = JStr ''queued''"
    "get_field ''dispatch_state'' (sample_record id) = JStr ''not_started''"
    by (simp_all add: sample_record_def initial_record_def)
  then show ?thesis
    using cancellation_not_lost[OF r_into_rtranclp[of "store_step id", OF s(1)] s(2,3,4) rtranclp.rtrancl_refl]
    by (auto simp: is_terminal_def terminal_states_def)
qed

section \<open>Principals\<close>

definition foreign :: "(string \<Rightarrow> string) \<Rightarrow> store \<Rightarrow> string \<Rightarrow> string \<Rightarrow> bool" where
  "foreign sha st wid who \<longleftrightarrow> is_identifier wid \<and> (case load_unlocked sha st wid of
     Inl e \<Rightarrow> events (directory st wid) = [] | Inr r \<Rightarrow> get_field ''principal_id'' r \<noteq> JStr who)"

lemma foreign_load:
  assumes "foreign sha st wid who"
  shows "load_unlocked sha st wid = Inl task_not_found \<or>
    (\<exists>r. load_unlocked sha st wid = Inr r \<and> authorize r who = Inl task_not_found)"
  using assms
  by (auto simp: foreign_def load_unlocked_def check_work_item_id_def load_dir_def authorize_def split: sum.splits)

lemma foreign_on_task: "foreign sha st wid who \<Longrightarrow> on_task sha wid who clock decide st = Inl task_not_found"
  by (drule foreign_load) (auto simp: on_task_def)

text \<open>C25: principals are separated, except by creation: for a task of another principal every read, change and
  cancellation answers exactly as it does for a task that does not exist, and changes nothing.  Creation under its
  identifier changes nothing either, but discloses the task, against the intention of \<^verbatim>\<open>_authorize\<close>: it
  returns the record of the other principal when the digests of the requests agree, and a conflict otherwise.\<close>

theorem other_principal_sees_nothing:
  assumes "foreign sha st wid who"
  shows "get_task sha st wid who = Inl task_not_found \<and>
    begin_dispatch sha clock wid who attempt owner lease st = Inl task_not_found \<and>
    renew_dispatch_lease sha clock wid who attempt owner lease st = Inl task_not_found \<and>
    claim_reconciliation sha clock write_iso read_iso uuid5 wid who now seconds owner st = Inl task_not_found \<and>
    transition_remote_event sha clock wid who ev st = Inl task_not_found \<and>
    request_cancellation sha clock wid who st = Inl task_not_found \<and>
    update_task sha clock wid who changes st = Inl task_not_found \<and>
    (\<forall>r record. load_unlocked sha st wid = Inr r \<and> map_of record ''work_item_id'' = Some (JStr wid) \<longrightarrow>
       create_task sha t record ceilings st =
         (if get_field ''request_sha256'' r = get_field ''request_sha256'' record then Inr ((r, False), st)
          else Inl (fail ''IDEMPOTENCY_CONFLICT'' ''work_item_id is already bound to a different request'')))"
  unfolding get_task_def begin_dispatch_def renew_dispatch_lease_def claim_reconciliation_def
    transition_remote_event_def request_cancellation_def update_task_def
  using foreign_load[OF assms] by (auto simp: foreign_on_task[OF assms] create_task_def dict_item_def)

lemma other_principal_sees_nothing_witness:
  "\<exists>st. (\<exists>r. get_task id st ''task-1'' ''alice'' = Inr r) \<and> get_task id st ''task-1'' ''bob'' = Inl task_not_found"
proof -
  obtain st where st: "load_unlocked id st ''task-1'' = Inr (sample_record id)"
    by (rule sample_create_step)
  have p: "get_field ''principal_id'' (sample_record id) = JStr ''alice''"
    by (simp add: sample_record_def initial_record_def)
  then have "get_task id st ''task-1'' ''alice'' = Inr (sample_record id)"
    using st by (simp add: get_task_def authorize_def)
  moreover have "get_task id st ''task-1'' ''bob'' = Inl task_not_found"
    using other_principal_sees_nothing[of id st "''task-1''" "''bob''"] st p
    by (simp add: foreign_def sample_identifier)
  ultimately show ?thesis by blast
qed

section \<open>Foreign and late events\<close>

text \<open>An event that does not belong to the open dispatch attempt (another attempt, another remote
  task, or one that arrives after the task has ended) changes nothing but the diagnostics, the
  consistency verdict and the update time.\<close>

theorem foreign_events_only_note:
  assumes "transition_decision clock ev r = Inr (u, Some r')"
    and "get_field ''dispatch_attempt_id'' r \<noteq> JStr (attempt_id ev) \<or>
      nonempty (ev_remote_id ev) \<and> json_true (get_field ''remote_task_id'' r) \<and>
        optional_string (ev_remote_id ev) \<noteq> get_field ''remote_task_id'' r \<or>
      is_terminal (get_field ''state'' r)"
    and "k \<notin> set note_fields"
  shows "get_field k r' = get_field k r"
proof (cases "is_terminal (get_field ''state'' r)")
  case True
  then show ?thesis using transition_terminal_frame[OF assms(1) _ assms(3)] by simp
next
  case False
  have "stale_attempt clock ev r = Inr q \<or> id_conflict clock ev r = Inr q \<Longrightarrow> get_field k (stamped clock q) = get_field k r" for q
    using note_frame(1,2)[OF _ assms(3)] assms(3) by (auto simp: note_fields_def)
  moreover have "\<exists>q. r' = stamped clock q \<and> (stale_attempt clock ev r = Inr q \<or> id_conflict clock ev r = Inr q)"
    using assms(1,2) False unfolding transition_decision_def Let_def
    by (cases "get_field ''dispatch_attempt_id'' r = JStr (attempt_id ev)") (auto simp: and_then_Inr_iff)
  ultimately show ?thesis by blast
qed

definition sample_stale :: dict where
  "sample_stale = [(''state'', JStr ''dispatching''), (''dispatch_attempt_id'', JStr ''a2'')]"

lemma foreign_events_only_note_witness:
  "\<exists>r'. transition_decision sample_clock sample_event sample_stale = Inr ((), Some r') \<and>
     get_field ''state'' r' = JStr ''dispatching''"
proof -
  have s: "get_field ''dispatch_attempt_id'' sample_stale = JStr ''a2''" "get_field ''state'' sample_stale = JStr ''dispatching''"
    "attempt_id sample_event = ''a1''" by (simp_all add: sample_stale_def sample_event_def)
  then obtain r' where r': "transition_decision sample_clock sample_event sample_stale = Inr ((), Some r')"
    by (auto simp: transition_decision_def stale_attempt_def add_diagnostic_def Let_def sample_stale_def get_default_def)
  have "get_field ''state'' r' = get_field ''state'' sample_stale"
    by (rule foreign_events_only_note[OF r']) (simp_all add: s note_fields_def)
  with r' s show ?thesis by auto
qed

section \<open>Evidence\<close>

text \<open>The digest of the last event binds the whole history: two readable task logs whose last
  digests agree have the same number of events, the same event contents one by one and the same
  current record (up to the order of keys), or they exhibit a collision of the hash function.\<close>

theorem head_digest_binds_history:
  assumes "load_unlocked sha st wid = Inr r" and "load_unlocked sha st' wid' = Inr s"
    and "head_digest (events (directory st wid)) = head_digest (events (directory st' wid'))"
    and "\<not> collision sha"
  shows "list_all2 (\<lambda>f g. sort_keys (file_body f) = sort_keys (file_body g))
      (events (directory st wid)) (events (directory st' wid')) \<and> sort_keys (JObj r) = sort_keys (JObj s)"
proof -
  have c: "chain sha event_schema (events (directory st wid))" "chain sha event_schema (events (directory st' wid'))"
    and l: "load_dir sha (directory st wid) = Inr r" "load_dir sha (directory st' wid') = Inr s"
    using assms(1,2) by (auto simp: load_iff tasks.load_iff)
  from chain_tamper[OF assms(4) c assms(3)] tasks.loads_agree[OF l assms(3)] assms(4) show ?thesis by simp
qed

lemma head_digest_binds_history_witness:
  "\<exists>st r. load_unlocked id st ''task-1'' = Inr r \<and> sort_keys (JObj r) = sort_keys (JObj r)"
proof -
  obtain st where l: "load_unlocked id st ''task-1'' = Inr (sample_record id)" by (rule sample_create_step)
  have "\<not> collision id" by (simp add: collision_def)
  from head_digest_binds_history[OF l l refl this] l show ?thesis by blast
qed

section \<open>Creation\<close>

definition within_ceiling :: "dict \<Rightarrow> dict list \<Rightarrow> string \<times> int \<Rightarrow> bool" where
  "within_ceiling record others kc \<longleftrightarrow> (\<exists>n m. budget_at (fst kc) record = Inr n \<and>
     budget_total (fst kc) others = Inr m \<and> n + m \<le> snd kc)"

lemma check_ceiling_iff: "check_ceiling record others code msg kc = Inr () \<longleftrightarrow> within_ceiling record others kc"
  by (cases kc) (auto simp: check_ceiling_def within_ceiling_def and_then_Inr_iff)

text \<open>A child asks for no more than its parent: effects, paths, and every protected scope of the
  parent is covered by one of its own.\<close>

definition narrowed :: "dict \<Rightarrow> dict \<Rightarrow> bool" where
  "narrowed work parent_item \<longleftrightarrow> (\<exists>e pe a pa p pp.
     strings_at ''requested_effects'' work = Inr e \<and> strings_at ''requested_effects'' parent_item = Inr pe \<and>
     strings_at ''allowed_paths'' work = Inr a \<and> strings_at ''allowed_paths'' parent_item = Inr pa \<and>
     strings_at ''protected_paths'' work = Inr p \<and> strings_at ''protected_paths'' parent_item = Inr pp \<and>
     set e \<subseteq> set pe \<and> (\<forall>s \<in> set a. \<exists>q \<in> set pa. scope_contains q s) \<and>
     (\<forall>q \<in> set pp. \<exists>s \<in> set p. scope_contains s q))"

lemma check_parent_iff: "check_parent work parent_item = Inr () \<longleftrightarrow> narrowed work parent_item"
  by (auto simp: check_parent_def narrowed_def and_then_Inr_iff)

text \<open>What that means for paths: with scopes that \<open>scope\<close> accepts, every path the child may change its parent may
  change, and every path the parent protects the child protects.  The exception is the root of a tree: a plain path
  \<open>d\<close> counts as contained in \<open>d/**\<close>, which does not admit \<open>d\<close> itself.\<close>

definition within_scopes :: "string list \<Rightarrow> string list \<Rightarrow> bool" where
  "within_scopes inner outer \<longleftrightarrow> (\<forall>x. path_allowed x inner \<longrightarrow>
     path_allowed x outer \<or> x \<in> set inner \<and> x @ ''/**'' \<in> set outer)"

lemma contained_within:
  assumes "\<forall>s \<in> set inner. \<exists>q \<in> set outer. scope_contains q s"
    and "\<forall>s \<in> set inner \<union> set outer. scope s = Inr s"
  shows "within_scopes inner outer"
  unfolding within_scopes_def
proof (intro allI impI)
  fix x
  assume "path_allowed x inner"
  then obtain s where s: "s \<in> set inner" "path_allowed x [s]" using path_allowed_iff by blast
  with assms(1) obtain q where q: "q \<in> set outer" "scope_contains q s" by blast
  have ok: "scope q = Inr q" "scope s = Inr s" using assms(2) s(1) q(1) by blast+
  have wf: "wf_scope q" "wf_scope s" by (rule scope_wf[OF ok(1)], rule scope_wf[OF ok(2)])
  from scope_contains_allowed[OF wf q(2) s(2)] show "path_allowed x outer \<or> x \<in> set inner \<and> x @ ''/**'' \<in> set outer"
  proof
    assume "path_allowed x [q]"
    then show ?thesis using q(1) path_allowed_iff by blast
  next
    assume x: "x = fst (scope_prefix q) \<and> s = x"
    show ?thesis
    proof (cases "ends_with ''/**'' q")
      case True
      with tree_scope[OF wf(1) True] x q(1) s(1) show ?thesis by auto
    next
      case False
      then have "path_allowed x [q]" using x by (simp add: scope_prefix_def path_allowed_def)
      then show ?thesis using q(1) path_allowed_iff by blast
    qed
  qed
qed

definition below_parent :: "dict \<Rightarrow> dict \<Rightarrow> bool" where
  "below_parent work parent_item \<longleftrightarrow> (\<exists>e pe a pa p pp.
     strings_at ''requested_effects'' work = Inr e \<and> strings_at ''requested_effects'' parent_item = Inr pe \<and>
     strings_at ''allowed_paths'' work = Inr a \<and> strings_at ''allowed_paths'' parent_item = Inr pa \<and>
     strings_at ''protected_paths'' work = Inr p \<and> strings_at ''protected_paths'' parent_item = Inr pp \<and> set e \<subseteq> set pe \<and>
     ((\<forall>s \<in> set (a @ pa @ p @ pp). scope s = Inr s) \<longrightarrow> within_scopes a pa \<and> within_scopes pp p))"

lemma narrowed_below: "narrowed work parent_item \<Longrightarrow> below_parent work parent_item"
proof -
  assume "narrowed work parent_item"
  then obtain e pe a pa p pp where
    "strings_at ''requested_effects'' work = Inr e" "strings_at ''requested_effects'' parent_item = Inr pe"
    "strings_at ''allowed_paths'' work = Inr a" "strings_at ''allowed_paths'' parent_item = Inr pa"
    "strings_at ''protected_paths'' work = Inr p" "strings_at ''protected_paths'' parent_item = Inr pp"
    "set e \<subseteq> set pe" "\<forall>s \<in> set a. \<exists>q \<in> set pa. scope_contains q s" "\<forall>q \<in> set pp. \<exists>s \<in> set p. scope_contains s q"
    unfolding narrowed_def by blast
  moreover from this have "(\<forall>s \<in> set (a @ pa @ p @ pp). scope s = Inr s) \<longrightarrow> within_scopes a pa \<and> within_scopes pp p"
    using contained_within[of a pa] contained_within[of pp p] by auto
  ultimately show ?thesis unfolding below_parent_def by (intro exI conjI)
qed

lemma create_task_new:
  assumes "create_task sha now record ceilings st = Inr ((r, True), st')"
  shows "r = record" and "check_aggregate_budget sha st record ceilings = Inr ()"
    and "append_unlocked sha now record st = Inr (record, st')"
proof -
  obtain wid where "and_then (dict_item ''work_item_id'' record) as_str = Inr wid"
    using assms by (auto simp: create_task_def and_then_Inr_iff)
  then have "\<exists>e. load_unlocked sha st wid = Inl e \<and> has_code ''TASK_NOT_FOUND'' e \<and>
      and_then (check_aggregate_budget sha st record ceilings) (\<lambda>_.
           and_then (append_unlocked sha now record st) (\<lambda>(created, st').
           Inr ((created, True), st'))) = Inr ((r, True), st')"
    using assms by (auto simp: create_task_def split: sum.splits if_splits)
  then show "check_aggregate_budget sha st record ceilings = Inr ()"
    and "r = record" and "append_unlocked sha now record st = Inr (record, st')"
    by (auto simp: and_then_Inr_iff elim: append_unlockedD)
qed



end
