(* ===== verification/Service_Run.thy ===== *)
theory Service_Run
  imports Json
begin

text \<open>
  Runs of a service over a store: an exception keeps what the completed operations stored, so a run
  maps a store to a result and a store.  The combinators are the sequencing, the exception handler
  and the atomic operations that the coordinator and the supervisor are written with.  The locale
  \<open>run_relation\<close> is the contract between those services and the stores: whatever every atomic
  operation and every external call does to the store, composed runs do a sequence of it.
\<close>

type_synonym ('e, 's, 'a) erun = "'s \<Rightarrow> ('e + 'a) \<times> 's"
type_synonym ('s, 'a) run = "(service_error, 's, 'a) erun"

definition ret :: "'a \<Rightarrow> ('e, 's, 'a) erun" where
  "ret x st = (Inr x, st)"

definition pure_run :: "'e + 'a \<Rightarrow> ('e, 's, 'a) erun" where
  "pure_run m st = (m, st)"

definition handle_run :: "('e, 's, 'a) erun \<Rightarrow> ('e \<Rightarrow> ('f, 's, 'b) erun) \<Rightarrow> ('a \<Rightarrow> ('f, 's, 'b) erun)
    \<Rightarrow> ('f, 's, 'b) erun" where
  "handle_run m h k st = (case m st of (Inl e, st') \<Rightarrow> h e st' | (Inr x, st') \<Rightarrow> k x st')"

definition bind_run :: "('e, 's, 'a) erun \<Rightarrow> ('a \<Rightarrow> ('e, 's, 'b) erun) \<Rightarrow> ('e, 's, 'b) erun" where
  "bind_run m k = handle_run m (\<lambda>e st. (Inl e, st)) k"

text \<open>An operation of the store: an exception leaves the store as it was.\<close>

definition store_op :: "('s \<Rightarrow> 'e + 'a \<times> 's) \<Rightarrow> ('e, 's, 'a) erun" where
  "store_op f st = (case f st of Inl e \<Rightarrow> (Inl e, st) | Inr (x, st') \<Rightarrow> (Inr x, st'))"

definition store_read :: "('s \<Rightarrow> 'e + 'a) \<Rightarrow> ('e, 's, 'a) erun" where
  "store_read f st = (f st, st)"

lemmas run_defs = ret_def pure_run_def handle_run_def bind_run_def store_op_def store_read_def

lemma bind_run_iff: "bind_run m k st = (Inr y, st') \<longleftrightarrow> (\<exists>x st1. m st = (Inr x, st1) \<and> k x st1 = (Inr y, st'))"
  by (auto simp: bind_run_def handle_run_def split: prod.splits sum.splits)

lemma pure_run_Inr: "pure_run m st = (Inr x, st') \<longleftrightarrow> m = Inr x \<and> st' = st"
  by (auto simp: pure_run_def)

lemma ret_Inr: "ret y st = (Inr x, st') \<longleftrightarrow> x = y \<and> st' = st"
  by (auto simp: ret_def)

lemmas run_Inr = bind_run_iff pure_run_Inr ret_Inr

definition related_run :: "('s \<Rightarrow> 's \<Rightarrow> bool) \<Rightarrow> ('e, 's, 'a) erun \<Rightarrow> bool" where
  "related_run R m \<longleftrightarrow> (\<forall>st. R st (snd (m st)))"

lemma sound_if: "related_run R m \<Longrightarrow> related_run R n \<Longrightarrow> related_run R (if b then m else n)"
  by simp

lemma sound_pair: "(\<And>a b. related_run R (f a b)) \<Longrightarrow> related_run R (case z of (a, b) \<Rightarrow> f a b)"
  by (cases z) simp

lemma sound_option: "related_run R m \<Longrightarrow> (\<And>x. related_run R (f x)) \<Longrightarrow>
    related_run R (case z of None \<Rightarrow> m | Some x \<Rightarrow> f x)"
  by (cases z) simp_all

locale run_relation =
  fixes R :: "'s \<Rightarrow> 's \<Rightarrow> bool"
  assumes refl: "R st st"
    and trans: "R a b \<Longrightarrow> R b c \<Longrightarrow> R a c"
begin

lemma sound_ret: "related_run R (ret x)"
  by (simp add: related_run_def ret_def refl)

lemma sound_pure: "related_run R (pure_run m)"
  by (simp add: related_run_def pure_run_def refl)

lemma sound_read: "related_run R (store_read f)"
  by (simp add: related_run_def store_read_def refl)

lemma sound_fail: "related_run R (\<lambda>st. (Inl e, st))"
  by (simp add: related_run_def refl)

lemma sound_handle:
  assumes "related_run R m" and "\<And>x. related_run R (h x)" and "\<And>x. related_run R (k x)"
  shows "related_run R (handle_run m h k)"
  unfolding related_run_def
proof
  fix st
  obtain r st' where m: "m st = (r, st')" by (cases "m st")
  with assms(1) have "R st st'" by (metis related_run_def snd_conv)
  moreover have "R st' (snd (h x st'))" "R st' (snd (k y st'))" for x y
    using assms(2,3) by (simp_all add: related_run_def)
  ultimately show "R st (snd (handle_run m h k st))"
    using trans by (cases r) (auto simp: handle_run_def m)
qed

lemma sound_bind: "related_run R m \<Longrightarrow> (\<And>x. related_run R (k x)) \<Longrightarrow> related_run R (bind_run m k)"
  unfolding bind_run_def by (rule sound_handle) (simp_all add: sound_fail)

lemma sound_op:
  assumes "\<And>st x st'. f st = Inr (x, st') \<Longrightarrow> R st st'"
  shows "related_run R (store_op f)"
  unfolding related_run_def store_op_def using assms refl by (auto split: sum.splits)

lemmas sound_intros = sound_bind sound_handle sound_if sound_pair sound_ret sound_pure sound_read

end

end
