(* ===== verification/A2A_Coordinator.thy ===== *)
theory A2A_Coordinator
  imports A2A_Safety Service_Run
begin

text \<open>
  \<^verbatim>\<open>A2ACoordinator\<close> of \<^verbatim>\<open>pipeline/a2a_coordination.py\<close>:
  authorisation of a work item against a grant and a worker, validation of what a worker reports,
  and the public operations over the store of A2A_Store.  A call of the worker client is an
  argument of the model that also takes and returns the store: while the call is in flight, other
  processes and the lease heartbeat of this one operate on the store.  An exception leaves the
  store as the completed operations made it, so a run maps a store to a result and a store.
\<close>

section \<open>Authorisation\<close>

definition check_expiry :: "iso_reader \<Rightarrow> int \<Rightarrow> string option \<Rightarrow> service_error + unit" where
  "check_expiry read_iso now expiry = (case expiry of None \<Rightarrow> Inr ()
     | Some t \<Rightarrow> (case read_iso t of
         None \<Rightarrow> Inl (PyValueError ''Invalid isoformat string'')
       | Some (zoned, deadline) \<Rightarrow> and_then (ensure zoned PyTypeError) (\<lambda>_.
           ensure (\<not> deadline \<le> now) (fail ''AUTHORITY_EXPIRED'' ''authority reference has expired''))))"

definition candidate_workers :: "coordination_policy \<Rightarrow> authority_grant \<Rightarrow> work_item \<Rightarrow> string option
    \<Rightarrow> worker_profile list" where
  "candidate_workers policy g w wanted =
     (let candidates = filter (\<lambda>p. worker_id p \<in> set (grant_workers g) \<and> workflow w \<in> set (worker_workflows p))
        (map snd (workers policy))
      in case wanted of None \<Rightarrow> candidates | Some i \<Rightarrow> filter (\<lambda>p. worker_id p = i) candidates)"

definition check_scope_granted :: "authority_grant \<Rightarrow> worker_profile \<Rightarrow> string \<Rightarrow> service_error + unit" where
  "check_scope_granted g p s = ensure
     ((\<exists>a \<in> set (grant_paths g). scope_contains a s) \<and> (\<exists>a \<in> set (worker_paths p). scope_contains a s))
     (fail ''AUTHORITY_DENIED'' (''path scope is not granted: '' @ s))"

definition check_budget_ceiling :: "authority_grant \<Rightarrow> worker_profile \<Rightarrow> string \<times> int \<Rightarrow> service_error + unit" where
  "check_budget_ceiling g p kv = (case kv of (key, requested) \<Rightarrow>
     let ceilings = List.map_filter (\<lambda>limits. map_of limits key) [grant_budget g, worker_budget p]
     in ensure (ceilings \<noteq> [] \<and> \<not> requested > Min (set ceilings))
       (fail ''BUDGET_DENIED'' (''budget exceeds ceiling: '' @ key)))"

definition authorize_item :: "iso_reader \<Rightarrow> int \<Rightarrow> coordination_policy \<Rightarrow> string \<Rightarrow> work_item \<Rightarrow> string
    \<Rightarrow> string option \<Rightarrow> service_error + authority_grant \<times> worker_profile" where
  "authorize_item read_iso now policy root w who wanted =
     (case map_of (authorities policy) (authority_ref w) of
       None \<Rightarrow> Inl (fail ''AUTHORITY_DENIED'' ''authority reference is unavailable'')
     | Some g \<Rightarrow>
       and_then (ensure (grant_principal g = who)
         (fail ''AUTHORITY_DENIED'' ''authority reference is unavailable'')) (\<lambda>_.
       and_then (ensure (project_root g = root)
         (fail ''AUTHORITY_DENIED'' ''authority belongs to another project'')) (\<lambda>_.
       and_then (check_expiry read_iso now (expires_at g)) (\<lambda>_.
       let candidates = candidate_workers policy g w wanted in
       and_then (ensure (workflow w \<in> set (grant_workflows g) \<and> candidates \<noteq> [])
         (fail ''AUTHORITY_DENIED'' ''workflow or worker is not authorized'')) (\<lambda>_.
       let p = hd (sort_key worker_id candidates) in
       and_then (ensure (set (item_effects w) \<subseteq> set (grant_effects g) \<and> set (item_effects w) \<subseteq> set (worker_effects p))
         (fail ''AUTHORITY_DENIED'' ''requested effects exceed worker grant'')) (\<lambda>_.
       and_then (for_each (check_scope_granted g p) (allowed_paths w)) (\<lambda>_.
       and_then (for_each (check_budget_ceiling g p) (item_budget w)) (\<lambda>_.
       Inr (g, p)))))))))"

text \<open>\<open>aggregate_ceiling\<close> of \<open>submit\<close>: the keys both sides bound (a set in the code, so its order
  is not specified; here the order of the grant).\<close>

definition aggregate_ceiling :: "authority_grant \<Rightarrow> worker_profile \<Rightarrow> (string \<times> int) list" where
  "aggregate_ceiling g p = List.map_filter (\<lambda>k. case (map_of (grant_budget g) k, map_of (worker_budget p) k) of
       (Some a, Some b) \<Rightarrow> Some (k, min a b) | _ \<Rightarrow> None) (remdups (map fst (grant_budget g)))"

definition item_of_record :: "dict \<Rightarrow> service_error + work_item" where
  "item_of_record record =
     and_then (dict_item ''work_item'' record) (\<lambda>j. and_then (as_dict j) item_of_dict)"

text \<open>\<open>_effective_item\<close>; \<open>replace\<close> runs the checks of the class again.\<close>

definition effective_item :: "(string \<Rightarrow> string) \<Rightarrow> store \<Rightarrow> work_item \<Rightarrow> string \<Rightarrow> service_error + work_item" where
  "effective_item sha st w who = (case parent_work_item_id w of
     None \<Rightarrow> Inr w
   | Some pid \<Rightarrow>
       and_then (get_task sha st pid who) (\<lambda>record.
       and_then (item_of_record record) (\<lambda>parent.
       make_work_item (w\<lparr>protected_paths := sorted_set (protected_paths w @ protected_paths parent)\<rparr>))))"

section \<open>What a worker reports\<close>

record remote_observation =
  obs_task_id :: string
  obs_state :: string
  obs_result :: "dict option"
  obs_message :: string

definition check_changed_file :: "(json \<Rightarrow> string) \<Rightarrow> work_item \<Rightarrow> json \<Rightarrow> service_error + unit" where
  "check_changed_file repr w raw = and_then (scope (py_str repr raw)) (\<lambda>path.
     ensure (path_allowed path (allowed_paths w) \<and>
        \<not> (\<exists>s \<in> set (protected_paths w). path_allowed path [s]))
       (fail ''WORKER_SCOPE_VIOLATION'' (''worker changed an unauthorized path: '' @ path)))"

definition check_artifact :: "(json \<Rightarrow> string) \<Rightarrow> json \<Rightarrow> service_error + unit" where
  "check_artifact repr artifact = ensure
     (case artifact of JObj a \<Rightarrow>
         is_identifier (py_str repr (get_default ''artifact_id'' (JStr []) a)) \<and>
         is_hex 64 (py_str repr (get_default ''sha256'' (JStr []) a))
       | _ \<Rightarrow> False)
     (fail ''WORKER_RESULT_INVALID'' ''invalid artifact reference'')"

definition list_or :: "string \<Rightarrow> json \<Rightarrow> service_error + json list" where
  "list_or message j = (case j of JArr xs \<Rightarrow> Inr xs | _ \<Rightarrow> Inl (fail ''WORKER_RESULT_INVALID'' message))"

definition validate_result :: "(json \<Rightarrow> string) \<Rightarrow> work_item \<Rightarrow> dict option \<Rightarrow> service_error + dict option" where
  "validate_result repr w value = (case value of None \<Rightarrow> Inr None
   | Some result \<Rightarrow>
     and_then (ensure (get_field ''schema'' result = JStr ''formalspecgen-worker-result-v1'' \<and>
         get_field ''work_item_id'' result = JStr (work_item_id w) \<and>
         get_field ''base_revision'' result = JStr (base_revision w))
       (fail ''WORKER_RESULT_INVALID'' ''worker result binding is invalid'')) (\<lambda>_.
     let patch = get_field ''patch_sha256'' result in
     and_then (ensure (patch = JNull \<or> is_hex 64 (py_str repr patch))
       (fail ''WORKER_RESULT_INVALID'' ''invalid patch digest'')) (\<lambda>_.
     and_then (list_or ''changed_files must be a list'' (get_default ''changed_files'' (JArr []) result)) (\<lambda>changed.
     and_then (for_each (check_changed_file repr w) changed) (\<lambda>_.
     and_then (list_or ''artifacts must be a list'' (get_default ''artifacts'' (JArr []) result)) (\<lambda>artifacts.
     and_then (for_each (check_artifact repr) artifacts) (\<lambda>_.
     Inr (Some result))))))))"

definition supported_states :: "string list" where
  "supported_states = [''submitted'', ''working'', ''input_required'', ''auth_required'',
     ''completed'', ''failed'', ''cancelled'', ''rejected'']"

text \<open>The event that \<open>_apply_observation\<close> records for an observation.\<close>

definition error_code :: "string \<Rightarrow> service_error \<Rightarrow> string" where
  "error_code other e = (case e of A2ACoordinationError code _ \<Rightarrow> code | _ \<Rightarrow> other)"

definition error_text :: "(service_error \<Rightarrow> string) \<Rightarrow> service_error \<Rightarrow> string" where
  "error_text exc_text e = (case e of A2ACoordinationError _ message \<Rightarrow> message | _ \<Rightarrow> exc_text e)"

definition observation_event :: "(json \<Rightarrow> string) \<Rightarrow> work_item \<Rightarrow> string \<Rightarrow> remote_observation
    \<Rightarrow> service_error + remote_event" where
  "observation_event repr w attempt obs =
     (let state = remove_prefix ''task_state_'' (str_lower (obs_state obs));
          event = \<lparr>attempt_id = attempt, event_kind = ''observation'', ev_remote_id = Some (obs_task_id obs),
            ev_remote_state = Some state, ev_result = None, ev_operation = None, ev_code = None,
            ev_message = obs_message obs\<rparr>
      in if state \<notin> set supported_states then
           Inr (event\<lparr>event_kind := ''protocol_error'', ev_code := Some ''WORKER_RESULT_INVALID'',
             ev_message := ''unknown worker task state''\<rparr>)
         else (case validate_result repr w (obs_result obs) of
             Inr result \<Rightarrow> Inr (event\<lparr>ev_result := result\<rparr>)
           | Inl (A2ACoordinationError code message) \<Rightarrow>
               Inr (event\<lparr>event_kind := ''protocol_error'', ev_code := Some code, ev_message := message\<rparr>)
           | Inl e \<Rightarrow> Inl e))"

definition transport_event :: "string \<Rightarrow> string \<Rightarrow> string option \<Rightarrow> string \<Rightarrow> string \<Rightarrow> remote_event" where
  "transport_event attempt operation remote_id code message =
     \<lparr>attempt_id = attempt, event_kind = ''transport_error'', ev_remote_id = remote_id,
       ev_remote_state = None, ev_result = None, ev_operation = Some operation, ev_code = Some code,
       ev_message = message\<rparr>"

section \<open>The coordinator and its world\<close>

record worker_client =
  client_submit :: "worker_profile \<Rightarrow> work_item \<Rightarrow> (store, remote_observation) run"
  client_get :: "worker_profile \<Rightarrow> string \<Rightarrow> (store, remote_observation) run"
  client_cancel :: "worker_profile \<Rightarrow> string \<Rightarrow> (store, remote_observation) run"
  client_reconcile :: "(worker_profile \<Rightarrow> work_item \<Rightarrow> (store, remote_observation option) run) option"

text \<open>The coordinator and what it reads of the world during one call: the clock of its n-th store
  operation, the current instant, a fresh attempt identifier, and the texts of values and
  exceptions.\<close>

record coordinator =
  hash :: "string \<Rightarrow> string"
  policy :: coordination_policy
  root_path :: string
  coordinator_id :: string
  lease_seconds :: int
  times :: "nat \<Rightarrow> clock"
  instant :: int
  write_time :: "int \<Rightarrow> string"
  read_time :: iso_reader
  uuid_of :: "string \<Rightarrow> string"
  fresh_attempt :: string
  text_of :: "json \<Rightarrow> string"
  exc_text :: "service_error \<Rightarrow> string"

section \<open>The operations of the coordinator\<close>

definition record_event :: "coordinator \<Rightarrow> string \<Rightarrow> string \<Rightarrow> remote_event \<Rightarrow> (store, dict) run" where
  "record_event e wid who ev =
     bind_run (store_op (transition_remote_event (hash e) (times e 2) wid who ev)) (\<lambda>(_, record). ret record)"

definition attempt_of :: "coordinator \<Rightarrow> dict \<Rightarrow> service_error + string" where
  "attempt_of e record = and_then (dict_item ''dispatch_attempt_id'' record) (\<lambda>j. Inr (py_str (text_of e) j))"

definition worker_of :: "coordinator \<Rightarrow> string \<Rightarrow> service_error + worker_profile" where
  "worker_of e i = (case map_of (workers (policy e)) i of None \<Rightarrow> Inl (PyKeyError i) | Some p \<Rightarrow> Inr p)"

definition record_observation :: "coordinator \<Rightarrow> work_item \<Rightarrow> string \<Rightarrow> string \<Rightarrow> remote_observation \<Rightarrow> (store, dict) run" where
  "record_observation e w who attempt obs =
     bind_run (pure_run (observation_event (text_of e) w attempt obs)) (record_event e (work_item_id w) who)"

definition cancel_remote :: "coordinator \<Rightarrow> worker_client \<Rightarrow> work_item \<Rightarrow> string \<Rightarrow> dict \<Rightarrow> (store, dict) run" where
  "cancel_remote e c w who record =
     (let remote_id = get_field ''remote_task_id'' record in
      if \<not> json_true remote_id then ret record
      else let rid = py_str (text_of e) remote_id in
        bind_run (pure_run (dict_item ''worker_id'' record)) (\<lambda>j.
        bind_run (pure_run (worker_of e (py_str (text_of e) j))) (\<lambda>p.
        handle_run (client_cancel c p rid)
          (\<lambda>exc. bind_run (pure_run (attempt_of e record)) (\<lambda>attempt.
            record_event e (work_item_id w) who
              (transport_event attempt ''cancel'' (Some rid) ''WORKER_UNAVAILABLE'' (error_text (exc_text e) exc))))
          (\<lambda>obs. bind_run (pure_run (attempt_of e record)) (\<lambda>attempt.
            record_observation e w who attempt obs)))))"

definition apply_observation :: "coordinator \<Rightarrow> worker_client \<Rightarrow> work_item \<Rightarrow> string \<Rightarrow> string
    \<Rightarrow> remote_observation \<Rightarrow> (store, dict) run" where
  "apply_observation e c w who attempt obs =
     bind_run (record_observation e w who attempt obs) (\<lambda>record.
       if json_true (get_field ''cancellation_requested'' record) \<and> \<not> is_terminal (get_field ''state'' record)
       then cancel_remote e c w who record else ret record)"

definition submit :: "coordinator \<Rightarrow> worker_client \<Rightarrow> work_item \<Rightarrow> string \<Rightarrow> string option \<Rightarrow> (store, dict) run" where
  "submit e c item0 who wanted =
     bind_run (store_read (\<lambda>st. effective_item (hash e) st item0 who)) (\<lambda>w.
     bind_run (pure_run (authorize_item (read_time e) (instant e) (policy e) (root_path e) w who wanted)) (\<lambda>(g, p).
     bind_run (store_op (create_task (hash e) (times e 0 2)
         (initial_record (hash e) (times e 0 1) who w g p) (aggregate_ceiling g p))) (\<lambda>(stored, created).
     if \<not> created then ret stored
     else bind_run (store_op (begin_dispatch (hash e) (times e 1) (work_item_id w) who
           (fresh_attempt e) (coordinator_id e) (write_time e (instant e + lease_seconds e)))) (\<lambda>(dispatch, record).
       if \<not> dispatch then ret record
       else bind_run (pure_run (attempt_of e record)) (\<lambda>attempt.
         handle_run (client_submit c p w)
           (\<lambda>exc. record_event e (work_item_id w) who
             (transport_event attempt ''submit'' None (error_code ''WORKER_UNAVAILABLE'' exc)
               (error_text (exc_text e) exc)))
           (apply_observation e c w who attempt))))))"

definition reconcile_task :: "coordinator \<Rightarrow> worker_client \<Rightarrow> worker_profile \<Rightarrow> work_item \<Rightarrow> string \<Rightarrow> string
    \<Rightarrow> dict \<Rightarrow> (store, dict) run" where
  "reconcile_task e c p w wid who record = (case client_reconcile c of
       None \<Rightarrow> ret record
     | Some reconcile \<Rightarrow>
       bind_run (store_op (claim_reconciliation (hash e) (times e 1) (write_time e) (read_time e) (uuid_of e)
           wid who (instant e) (lease_seconds e) (coordinator_id e))) (\<lambda>(claimed, record).
       if \<not> claimed then ret record
       else bind_run (pure_run (attempt_of e record)) (\<lambda>attempt.
         handle_run (reconcile p w)
           (\<lambda>exc. record_event e wid who
             (transport_event attempt ''reconcile'' None ''WORKER_UNAVAILABLE'' (error_text (exc_text e) exc)))
           (\<lambda>found. case found of
               None \<Rightarrow> record_event e wid who
                 (transport_event attempt ''reconcile'' None ''REMOTE_TASK_NOT_OBSERVED''
                   ''the worker did not report the dispatch attempt'')
             | Some obs \<Rightarrow> apply_observation e c w who attempt obs))))"

definition get_refreshed :: "coordinator \<Rightarrow> worker_client \<Rightarrow> string \<Rightarrow> string \<Rightarrow> bool \<Rightarrow> (store, dict) run" where
  "get_refreshed e c wid who refresh =
     bind_run (store_read (\<lambda>st. get_task (hash e) st wid who)) (\<lambda>record.
     if \<not> refresh then ret record
     else bind_run (pure_run (dict_item ''state'' record)) (\<lambda>state.
       if is_terminal state then ret record
       else bind_run (pure_run (dict_item ''worker_id'' record)) (\<lambda>j.
         bind_run (pure_run (worker_of e (py_str (text_of e) j))) (\<lambda>p.
         bind_run (pure_run (item_of_record record)) (\<lambda>w.
         if \<not> json_true (get_field ''remote_task_id'' record) then reconcile_task e c p w wid who record
         else if json_true (get_field ''cancellation_requested'' record) then cancel_remote e c w who record
         else bind_run (client_get c p (py_str (text_of e) (get_field ''remote_task_id'' record))) (\<lambda>obs.
           bind_run (pure_run (attempt_of e record)) (\<lambda>attempt.
           apply_observation e c w who attempt obs)))))))"

definition artifacts_view :: "coordinator \<Rightarrow> string \<Rightarrow> string \<Rightarrow> (store, dict) run" where
  "artifacts_view e wid who =
     bind_run (store_read (\<lambda>st. get_task (hash e) st wid who)) (\<lambda>record.
     bind_run (pure_run (let j = get_field ''worker_result'' record in
         if json_true j then as_dict j else Inr [])) (\<lambda>result.
     bind_run (pure_run (dict_item ''state'' record)) (\<lambda>state.
     bind_run (pure_run (dict_item ''acceptance'' record)) (\<lambda>acceptance.
     ret [(''status'', state), (''work_item_id'', JStr wid),
       (''artifacts'', get_default ''artifacts'' (JArr []) result),
       (''patch_sha256'', get_field ''patch_sha256'' result), (''acceptance'', acceptance),
       (''coordination_status'', get_default ''coordination_status'' (JStr ''consistent'') record),
       (''coordination_diagnostics'', get_default ''coordination_diagnostics'' (JArr []) record)]))))"

definition cancel_task :: "coordinator \<Rightarrow> worker_client \<Rightarrow> string \<Rightarrow> string \<Rightarrow> (store, dict) run" where
  "cancel_task e c wid who =
     bind_run (store_op (request_cancellation (hash e) (times e 0) wid who)) (\<lambda>(_, record).
     bind_run (pure_run (dict_item ''state'' record)) (\<lambda>state.
     if is_terminal state \<or> \<not> json_true (get_field ''remote_task_id'' record) then ret record
     else bind_run (pure_run (item_of_record record)) (\<lambda>w. cancel_remote e c w who record)))"

end
