(* ===== verification/A2A_Confinement.thy ===== *)
theory A2A_Confinement
  imports A2A_Coordinator
begin

text \<open>
  What the coordinator guarantees about a run: it acts on the store only through the operations of
  A2A_Lifecycle, it contacts a worker at most once per work item and only within the grant, and what
  it accepts from a worker stays inside the granted and outside the protected paths.
\<close>

section \<open>Runs are sequences of store operations\<close>

definition grows :: "store \<Rightarrow> store \<Rightarrow> bool" where
  "grows st st' \<longleftrightarrow> (\<forall>w. \<exists>new. directory st' w = directory st w @ new)"

definition roomy :: "store \<Rightarrow> bool" where
  "roomy st \<longleftrightarrow> (\<forall>w. room st w)"

definition steps :: "(string \<Rightarrow> string) \<Rightarrow> store \<Rightarrow> store \<Rightarrow> bool" where
  "steps sha st st' \<longleftrightarrow> grows st st' \<and> (roomy st' \<longrightarrow> (store_step sha)\<^sup>*\<^sup>* st st')"

lemma grows_refl: "grows st st"
  by (auto simp: grows_def intro: exI[of _ "[]"])

lemma grows_trans: "grows a b \<Longrightarrow> grows b c \<Longrightarrow> grows a c"
  unfolding grows_def by (metis append.assoc)

lemma grows_roomy: "grows a b \<Longrightarrow> roomy b \<Longrightarrow> roomy a"
  unfolding grows_def roomy_def room_def by (metis le_less_trans length_append le_add1)

lemma steps_refl: "steps sha st st"
  by (simp add: steps_def grows_refl)

lemma steps_trans: "steps sha a b \<Longrightarrow> steps sha b c \<Longrightarrow> steps sha a c"
  unfolding steps_def using grows_trans grows_roomy by (meson rtranclp_trans)

definition sound_run :: "(string \<Rightarrow> string) \<Rightarrow> ('e, store, 'a) erun \<Rightarrow> bool" where
  "sound_run sha m \<longleftrightarrow> related_run (steps sha) m"

interpretation coord: run_relation "steps sha" for sha
  by unfold_locales (rule steps_refl, rule steps_trans)

lemma append_grows:
  assumes "append_unlocked sha now r st = Inr (u, st')"
  shows "grows st st'"
proof -
  obtain wid d where d: "add_task_event sha now r (directory st wid) = Inr d" "st' = AList.update wid d st"
    using assms by (rule append_unlockedD)
  then show ?thesis using tasks.add_preserves[OF d(1)] grows_refl
    by (auto simp: grows_def directory_update)
qed

lemma on_task_grows: "on_task sha wid who clock decide st = Inr (x, st') \<Longrightarrow> grows st st'"
proof -
  assume a: "on_task sha wid who clock decide st = Inr (x, st')"
  obtain y u where "x = (y, u)" by (cases x)
  with a have "on_task sha wid who clock decide st = Inr ((y, u), st')" by simp
  then show ?thesis by (cases rule: on_taskE) (auto intro: grows_refl append_grows)
qed

lemma create_grows: "create_task sha now record ceilings st = Inr (x, st') \<Longrightarrow> grows st st'"
proof -
  assume a: "create_task sha now record ceilings st = Inr (x, st')"
  obtain r b where x: "x = (r, b)" by (cases x)
  show ?thesis
  proof (cases b)
    case True
    then have "create_task sha now record ceilings st = Inr ((r, True), st')" using a x by simp
    from append_grows[OF create_task_new(3)[OF this]] show ?thesis .
  next
    case False
    obtain wid where "and_then (dict_item ''work_item_id'' record) as_str = Inr wid"
      using a by (auto simp: create_task_def and_then_Inr_iff)
    with a x False have "st' = st"
      by (cases "load_unlocked sha st wid") (auto simp: create_task_def and_then_Inr_iff split: if_splits)
    then show ?thesis by (simp add: grows_refl)
  qed
qed

lemma stepsI:
  assumes "grows st st'" and "roomy st \<Longrightarrow> store_step sha st st'"
  shows "steps sha st st'"
  using assms grows_roomy[OF assms(1)] by (auto simp: steps_def)

lemma sound_ops:
  "sound_run sha (store_op (create_task sha now (initial_record sha t who w g p) ceilings))"
  "sound_run sha (store_op (begin_dispatch sha clock wid who attempt owner lease))"
  "sound_run sha (store_op (claim_reconciliation sha clock write_iso read_iso uuid5 wid who now' seconds owner))"
  "sound_run sha (store_op (transition_remote_event sha clock wid who ev))"
  "sound_run sha (store_op (request_cancellation sha clock wid who))"
  unfolding sound_run_def
  by (rule coord.sound_op, rule stepsI, rule create_grows, assumption, rule store_step.create, assumption, simp add: roomy_def)
     (rule coord.sound_op, rule stepsI, rule on_task_grows,
      simp add: begin_dispatch_def claim_reconciliation_def transition_remote_event_def request_cancellation_def,
      rule store_step.intros, assumption, simp add: roomy_def)+

lemmas sound_cases =
  sound_if[where R = "steps sha" for sha, folded sound_run_def]
  sound_pair[where R = "steps sha" for sha, folded sound_run_def]
  sound_option[where R = "steps sha" for sha, folded sound_run_def]

lemmas sound_intros = coord.sound_intros[folded sound_run_def] sound_cases sound_ops

definition sound_client :: "(string \<Rightarrow> string) \<Rightarrow> worker_client \<Rightarrow> bool" where
  "sound_client sha c \<longleftrightarrow> (\<forall>p w. sound_run sha (client_submit c p w)) \<and>
     (\<forall>p i. sound_run sha (client_get c p i)) \<and> (\<forall>p i. sound_run sha (client_cancel c p i)) \<and>
     (\<forall>rc p w. client_reconcile c = Some rc \<longrightarrow> sound_run sha (rc p w))"

lemma sound_record_event: "sound_run (hash e) (record_event e wid who ev)"
  unfolding record_event_def by (intro sound_intros)

lemma sound_record_observation: "sound_run (hash e) (record_observation e w who a obs)"
  unfolding record_observation_def by (intro sound_intros sound_record_event)

lemma sound_cancel_remote: "sound_client (hash e) c \<Longrightarrow> sound_run (hash e) (cancel_remote e c w who r)"
  unfolding cancel_remote_def Let_def
  by (intro sound_intros sound_record_event sound_record_observation) (simp add: sound_client_def)

lemma sound_apply: "sound_client (hash e) c \<Longrightarrow> sound_run (hash e) (apply_observation e c w who a obs)"
  unfolding apply_observation_def by (intro sound_intros sound_record_observation sound_cancel_remote)

lemma sound_reconcile:
  assumes "sound_client (hash e) c"
  shows "sound_run (hash e) (reconcile_task e c p w wid who r)"
proof (cases "client_reconcile c")
  case None
  then show ?thesis by (simp add: reconcile_task_def sound_intros)
next
  case (Some rc)
  with assms have "sound_run (hash e) (rc p w)" by (simp add: sound_client_def)
  then show ?thesis unfolding reconcile_task_def Some option.case
    by (intro sound_intros sound_record_event sound_apply assms)
qed

lemma sound_coordinator:
  assumes "sound_client (hash e) c"
  shows "sound_run (hash e) (submit e c w who wanted)"
    and "sound_run (hash e) (get_refreshed e c wid who refresh)"
    and "sound_run (hash e) (cancel_task e c wid who)"
    and "sound_run (hash e) (artifacts_view e wid who)"
proof -
  have c: "sound_run (hash e) (client_submit c p w)" "sound_run (hash e) (client_get c p i)" for p w i
    using assms by (simp_all add: sound_client_def)
  show "sound_run (hash e) (submit e c w who wanted)"
    unfolding submit_def by (intro sound_intros sound_record_event sound_apply assms c)
  show "sound_run (hash e) (get_refreshed e c wid who refresh)"
    unfolding get_refreshed_def by (intro sound_intros sound_apply sound_cancel_remote sound_reconcile assms c)
  show "sound_run (hash e) (cancel_task e c wid who)"
    unfolding cancel_task_def by (intro sound_intros sound_cancel_remote assms)
  show "sound_run (hash e) (artifacts_view e wid who)"
    unfolding artifacts_view_def by (intro sound_intros)
qed

section \<open>Samples\<close>

definition sample_coordinator :: coordinator where
  "sample_coordinator = \<lparr>hash = id, policy = sample_policy, root_path = ''/work'', coordinator_id = ''c1'',
     lease_seconds = 60, times = (\<lambda>_. sample_clock), instant = 0, write_time = (\<lambda>_. ''t''),
     read_time = (\<lambda>_. None), uuid_of = id, fresh_attempt = ''a1'', text_of = (\<lambda>_. []), exc_text = (\<lambda>_. [])\<rparr>"

definition silent_client :: worker_client where
  "silent_client = \<lparr>client_submit = (\<lambda>p w st. (Inl PyTypeError, st)), client_get = (\<lambda>p i st. (Inl PyTypeError, st)),
     client_cancel = (\<lambda>p i st. (Inl PyTypeError, st)), client_reconcile = None\<rparr>"

lemma silent_client_sound: "sound_client sha silent_client"
  by (simp add: sound_client_def silent_client_def sound_run_def coord.sound_fail)

section \<open>Properties\<close>

interpretation unchanged: run_relation "\<lambda>a b :: store. a = b"
  by unfold_locales auto

lemma artifacts_unchanged: "snd (artifacts_view e wid who st) = st"
proof -
  have "related_run (\<lambda>a b :: store. a = b) (artifacts_view e wid who)"
    unfolding artifacts_view_def by (intro unchanged.sound_intros)
  then show ?thesis by (simp add: related_run_def)
qed

text \<open>C27: the coordinator acts on the store only through its atomic operations: whatever the worker
  answers and whatever other processes do to the store meanwhile (as long as they too use the
  operations), a submission, a refresh and a cancellation keep every event that was in the store, and lead from the store
  they find to the one they leave by a sequence of atomic steps (while no task has used up its event numbers); and a look
  at the artifacts changes nothing.\<close>

theorem coordinator_runs_are_store_runs:
  assumes "sound_client (hash e) c"
  shows "(\<forall>st' \<in> {snd (submit e c w who wanted st), snd (get_refreshed e c wid who refresh st), snd (cancel_task e c wid who st)}.
      (\<forall>i. \<exists>new. directory st' i = directory st i @ new) \<and> (roomy st' \<longrightarrow> (store_step (hash e))\<^sup>*\<^sup>* st st')) \<and>
    snd (artifacts_view e wid who st) = st"
  using sound_coordinator(1-3)[OF assms] artifacts_unchanged
  unfolding sound_run_def related_run_def steps_def grows_def by blast

text \<open>A cancellation before dispatch: one step, which adds one event.\<close>

lemma coordinator_runs_are_store_runs_witness:
  "\<exists>st r st'. cancel_task sample_coordinator silent_client ''task-1'' ''alice'' st = (Inr r, st') \<and>
     get_field ''state'' r = JStr ''cancelled'' \<and> st' \<noteq> st \<and> (store_step id)\<^sup>*\<^sup>* st st'"
proof -
  have h: "hash sample_coordinator = id" "times sample_coordinator 0 = sample_clock" by (simp_all add: sample_coordinator_def)
  obtain st st' r where s: "store_step id [] st" "load_unlocked id st ''task-1'' = Inr (sample_record id)"
    "request_cancellation id sample_clock ''task-1'' ''alice'' st = Inr (((), r), st')"
    "get_field ''state'' r = JStr ''cancelled''" "length (directory st' ''task-1'') = 2"
    "\<forall>w. w \<noteq> ''task-1'' \<longrightarrow> directory st' w = []"
    by (rule sample_cancel_step)
  have "dict_item ''state'' r = Inr (JStr ''cancelled'')"
    using s(4) by (simp add: dict_item_def get_field_def split: option.splits)
  then have run: "cancel_task sample_coordinator silent_client ''task-1'' ''alice'' st = (Inr r, st')"
    using s(3,4) by (simp add: cancel_task_def run_defs h is_terminal_def terminal_states_def)
  have "roomy st'" unfolding roomy_def room_def
  proof
    show "length (directory st' w) < 999999" for w using s(5,6) by (cases "w = ''task-1''") auto
  qed
  with coordinator_runs_are_store_runs[OF silent_client_sound, of sample_coordinator, where wid = "''task-1''" and
      who = "''alice''" and st = st] run have "(store_step id)\<^sup>*\<^sup>* st st'" unfolding h(1) by simp
  moreover have "st' \<noteq> st"
  proof
    assume "st' = st"
    then have "load_unlocked id st ''task-1'' = Inr r"
      using on_task_load[OF s(3)[unfolded request_cancellation_def]] reachable_ok[OF r_into_rtranclp[of "store_step id", OF s(1)]]
        s(5) task_change.cancel by (simp add: room_def)
    moreover have "get_field ''state'' (sample_record id) = JStr ''queued''" by (simp add: sample_record_def initial_record_def)
    ultimately show False using s(2,4) by simp
  qed
  ultimately show ?thesis using run s(4) by blast
qed

text \<open>Submission is idempotent: submitting a work item whose identifier is already stored contacts
  no worker and changes nothing; it returns the stored record when the request is the same (same
  canonical digest) and raises a conflict otherwise.\<close>

theorem resubmission_is_idempotent:
  assumes "effective_item (hash e) st item0 who = Inr w"
    and "authorize_item (read_time e) (instant e) (policy e) (root_path e) w who wanted = Inr gp"
    and "load_unlocked (hash e) st (work_item_id w) = Inr r"
  shows "submit e c item0 who wanted st =
    (if get_field ''request_sha256'' r = JStr (request_sha256 (hash e) w) then (Inr r, st)
     else (Inl (fail ''IDEMPOTENCY_CONFLICT'' ''work_item_id is already bound to a different request''), st))"
proof -
  obtain g p where gp: "gp = (g, p)" by (cases gp)
  let ?r = "\<lambda>t. initial_record (hash e) t who w g p"
  have f: "dict_item ''work_item_id'' (?r t) = Inr (JStr (work_item_id w))"
    "get_field ''request_sha256'' (?r t) = JStr (request_sha256 (hash e) w)" for t
    by (simp_all add: initial_record_def dict_item_def)
  have "create_task (hash e) now (?r t) ceilings st =
      (if get_field ''request_sha256'' r = JStr (request_sha256 (hash e) w) then Inr ((r, False), st)
       else Inl (fail ''IDEMPOTENCY_CONFLICT'' ''work_item_id is already bound to a different request''))" for now t ceilings
    by (simp add: create_task_def f assms(3))
  then show ?thesis using assms(1,2)
    by (simp add: submit_def gp bind_run_def handle_run_def store_read_def pure_run_def store_op_def ret_def)
qed

lemma authorizeD:
  assumes "authorize_item read_iso now pol root w who wanted = Inr (g, p)"
  shows "map_of (authorities pol) (authority_ref w) = Some g" and "grant_principal g = who"
    and "project_root g = root" and "check_expiry read_iso now (expires_at g) = Inr ()"
    and "workflow w \<in> set (grant_workflows g)" and "p \<in> set (candidate_workers pol g w wanted)"
    and "set (item_effects w) \<subseteq> set (grant_effects g) \<inter> set (worker_effects p)"
    and "\<forall>s \<in> set (allowed_paths w). check_scope_granted g p s = Inr ()"
    and "\<forall>kv \<in> set (item_budget w). check_budget_ceiling g p kv = Inr ()"
proof -
  obtain g' where g': "map_of (authorities pol) (authority_ref w) = Some g'"
    using assms by (cases "map_of (authorities pol) (authority_ref w)") (simp_all add: authorize_item_def)
  have a: "grant_principal g' = who" "project_root g' = root" "check_expiry read_iso now (expires_at g') = Inr ()"
    "workflow w \<in> set (grant_workflows g')" "candidate_workers pol g' w wanted \<noteq> []" "g = g'"
    "p = hd (sort_key worker_id (candidate_workers pol g' w wanted))"
    "set (item_effects w) \<subseteq> set (grant_effects g')" "set (item_effects w) \<subseteq> set (worker_effects p)"
    "\<forall>s \<in> set (allowed_paths w). check_scope_granted g' p s = Inr ()"
    "\<forall>kv \<in> set (item_budget w). check_budget_ceiling g' p kv = Inr ()"
    using assms by (auto simp: authorize_item_def g' Let_def and_then_Inr_iff)
  from a(5,7) have p: "p \<in> set (candidate_workers pol g' w wanted)"
    by (metis hd_in_set set_empty set_sort)
  show "map_of (authorities pol) (authority_ref w) = Some g" using g' a(6) by simp
  show "p \<in> set (candidate_workers pol g w wanted)" using p a(6) by simp
  show "grant_principal g = who" "project_root g = root" "check_expiry read_iso now (expires_at g) = Inr ()"
    "workflow w \<in> set (grant_workflows g)"
    "set (item_effects w) \<subseteq> set (grant_effects g) \<inter> set (worker_effects p)"
    "\<forall>s \<in> set (allowed_paths w). check_scope_granted g p s = Inr ()"
    "\<forall>kv \<in> set (item_budget w). check_budget_ceiling g p kv = Inr ()"
    using a by blast+
qed

lemma budget_ceiling_iff:
  "check_budget_ceiling g p (k, n) = Inr () \<longleftrightarrow>
     (map_of (grant_budget g) k \<noteq> None \<or> map_of (worker_budget p) k \<noteq> None) \<and>
     (\<forall>c. map_of (grant_budget g) k = Some c \<or> map_of (worker_budget p) k = Some c \<longrightarrow> n \<le> c)"
  by (cases "map_of (grant_budget g) k"; cases "map_of (worker_budget p) k")
     (auto simp: check_budget_ceiling_def List.map_filter_def min_def)

text \<open>C11: an authorised submission stays within both the authority and the worker: the principal, project
  and expiry of the grant are respected, the worker is named by the grant and offers the workflow,
  the effects are within both, and every requested budget has a ceiling and is below each one there is.  Every path
  that the item may change is one that the grant allows and one that the worker may be given, with one exception, in the
  grant as in the profile of the worker: under a scope \<open>d/**\<close> an item may be authorised for the plain path
  \<open>d\<close>, which that scope does not admit.\<close>

theorem authorized_within_grant_and_worker:
  assumes "load_policy resolve read_iso content = Inr pol" and "make_work_item w0 = Inr w"
    and "authorize_item read_iso now pol root w who wanted = Inr (g, p)"
  shows "map_of (authorities pol) (authority_ref w) = Some g \<and> grant_principal g = who \<and> project_root g = root \<and>
    (case expires_at g of None \<Rightarrow> True | Some t \<Rightarrow> (\<exists>d. read_iso t = Some (True, d) \<and> now < d)) \<and>
    p \<in> snd ` set (workers pol) \<and> worker_id p \<in> set (grant_workers g) \<and>
    workflow w \<in> set (grant_workflows g) \<inter> set (worker_workflows p) \<and>
    set (item_effects w) \<subseteq> set (grant_effects g) \<inter> set (worker_effects p) \<and>
    within_scopes (allowed_paths w) (grant_paths g) \<and> within_scopes (allowed_paths w) (worker_paths p) \<and>
    (\<forall>(k, n) \<in> set (item_budget w).
       (map_of (grant_budget g) k \<noteq> None \<or> map_of (worker_budget p) k \<noteq> None) \<and>
       (\<forall>c. map_of (grant_budget g) k = Some c \<or> map_of (worker_budget p) k = Some c \<longrightarrow> n \<le> c))"
proof -
  note a = authorizeD[OF assms(3)]
  have e: "case expires_at g of None \<Rightarrow> True | Some t \<Rightarrow> (\<exists>d. read_iso t = Some (True, d) \<and> now < d)"
    using a(4) by (auto simp: check_expiry_def and_then_Inr_iff split: option.splits)
  have p: "p \<in> snd ` set (workers pol)" "worker_id p \<in> set (grant_workers g)" "workflow w \<in> set (worker_workflows p)"
    using a(6) by (auto simp: candidate_workers_def Let_def split: option.splits)
  have ok: "grant_ok read_iso g" "worker_ok p"
    using load_policy_ok[OF assms(1)] a(1,6)
    by (auto simp: grants_ok_def workers_ok_def candidate_workers_def Let_def dest!: map_of_SomeD split: option.splits)
  have own: "\<forall>s \<in> set (allowed_paths w). scope s = Inr s"
    using make_work_itemD[OF assms(2)] scopes_accepted by fastforce
  have s: "\<forall>s \<in> set (allowed_paths w). (\<exists>a \<in> set (grant_paths g). scope_contains a s) \<and>
       (\<exists>a \<in> set (worker_paths p). scope_contains a s)"
    using a(8) by (simp add: check_scope_granted_def)
  have s: "within_scopes (allowed_paths w) (grant_paths g)" "within_scopes (allowed_paths w) (worker_paths p)"
    using s own ok by (auto intro!: contained_within simp: grant_ok_def worker_ok_def)
  have b: "\<forall>(k, n) \<in> set (item_budget w).
       (map_of (grant_budget g) k \<noteq> None \<or> map_of (worker_budget p) k \<noteq> None) \<and>
       (\<forall>c. map_of (grant_budget g) k = Some c \<or> map_of (worker_budget p) k = Some c \<longrightarrow> n \<le> c)"
    using a(9) budget_ceiling_iff by fastforce
  show ?thesis using a(1-3,5,7) e p s b by blast
qed

definition sample_pair :: "authority_grant \<times> worker_profile" where
  "sample_pair = (snd (hd (authorities sample_policy)), snd (hd (workers sample_policy)))"

lemma sample_authorized:
  "authorize_item (\<lambda>_. None) 0 sample_policy ''/work'' sample_item ''alice'' None = Inr sample_pair"
  by code_simp

lemma authorized_within_grant_and_worker_witness:
  "grant_principal (fst sample_pair) = ''alice'' \<and> worker_id (snd sample_pair) \<in> set (grant_workers (fst sample_pair)) \<and>
     within_scopes (allowed_paths sample_item) (grant_paths (fst sample_pair))"
proof -
  have item: "make_work_item sample_item = Inr sample_item" by code_simp
  have "authorize_item (\<lambda>_. None) 0 sample_policy ''/work'' sample_item ''alice'' None = Inr (fst sample_pair, snd sample_pair)"
    by (simp add: sample_authorized)
  from authorized_within_grant_and_worker[OF sample_policy_loads item this] show ?thesis by blast
qed

lemma resubmission_is_idempotent_witness:
  "\<exists>st. submit sample_coordinator silent_client sample_item ''alice'' None st = (Inr (sample_record id), st)"
proof -
  obtain st where st: "load_unlocked id st ''task-1'' = Inr (sample_record id)" by (rule sample_create_step)
  have c: "hash sample_coordinator = id" "read_time sample_coordinator = (\<lambda>_. None)" "instant sample_coordinator = 0"
    "policy sample_coordinator = sample_policy" "root_path sample_coordinator = ''/work''"
    by (simp_all add: sample_coordinator_def)
  have e: "effective_item (hash sample_coordinator) st sample_item ''alice'' = Inr sample_item"
    by (simp add: effective_item_def sample_item_def)
  have i: "work_item_id sample_item = ''task-1''" by (simp add: sample_item_def)
  have "get_field ''request_sha256'' (sample_record id) = JStr (request_sha256 id sample_item)"
    by (simp add: sample_record_def initial_record_def)
  with resubmission_is_idempotent[OF e, unfolded c i, OF sample_authorized st] show ?thesis by (simp add: c) blast
qed

section \<open>Accepted worker results\<close>

lemma validateD:
  assumes "validate_result repr w v = Inr (Some r)"
  shows "v = Some r" and "get_field ''work_item_id'' r = JStr (work_item_id w)"
    and "get_field ''base_revision'' r = JStr (base_revision w)"
    and "\<exists>changed. get_default ''changed_files'' (JArr []) r = JArr changed \<and>
      (\<forall>raw \<in> set changed. check_changed_file repr w raw = Inr ())"
proof -
  obtain x where x: "v = Some x" using assms by (cases v) (simp_all add: validate_result_def)
  have "x = r" using assms by (auto simp: x validate_result_def Let_def and_then_Inr_iff)
  with x show "v = Some r" by simp
  show "get_field ''work_item_id'' r = JStr (work_item_id w)" "get_field ''base_revision'' r = JStr (base_revision w)"
    using assms \<open>x = r\<close> by (auto simp: x validate_result_def Let_def and_then_Inr_iff)
  from assms obtain changed where
    "list_or ''changed_files must be a list'' (get_default ''changed_files'' (JArr []) x) = Inr changed"
    "\<forall>raw \<in> set changed. check_changed_file repr w raw = Inr ()"
    by (auto simp: x validate_result_def Let_def and_then_Inr_iff)
  then show "\<exists>changed. get_default ''changed_files'' (JArr []) r = JArr changed \<and>
      (\<forall>raw \<in> set changed. check_changed_file repr w raw = Inr ())"
    using \<open>x = r\<close> by (auto simp: list_or_def split: json.splits)
qed

lemma contained_admits:
  assumes "scope a = Inr a" and "scope s = Inr s" and "scope_contains a s" and "path_allowed x [s]"
  shows "path_allowed x [a] \<or> a = x @ ''/**''"
proof -
  have wf: "wf_scope a" "wf_scope s" using assms(1,2) scope_wf by blast+
  from scope_contains_allowed[OF wf assms(3,4)] show ?thesis
  proof
    assume "x = fst (scope_prefix a) \<and> s = x"
    then have x: "x = fst (scope_prefix a)" by simp
    show ?thesis
    proof (cases "ends_with ''/**'' a")
      case True
      with tree_scope[OF wf(1) True] x show ?thesis by auto
    next
      case False
      then have "path_allowed x [a]"
        using x path_allowed_single[OF wf(1), of x] by (simp add: scope_prefix_def)
      then show ?thesis ..
    qed
  qed simp
qed

text \<open>C28: what a worker may change: every file of an accepted worker result is a normalised path that the
  work item allows and none of its protected scopes admits, and for a work item authorised under a
  loaded policy it also lies within a path scope of the grant and of the worker (up to the root
  directory itself of a granted tree).\<close>

theorem accepted_changes_confined:
  assumes "load_policy resolve read_iso content = Inr pol" and "make_work_item w0 = Inr w"
    and "authorize_item read_iso now pol root w who wanted = Inr (g, p)"
    and "validate_result repr w v = Inr (Some r)"
    and "get_default ''changed_files'' (JArr []) r = JArr changed" and "raw \<in> set changed"
  shows "\<exists>path. scope (py_str repr raw) = Inr path \<and> path_allowed path (allowed_paths w) \<and>
    (\<forall>s \<in> set (protected_paths w). \<not> path_allowed path [s]) \<and>
    (\<exists>a \<in> set (grant_paths g). path_allowed path [a] \<or> a = path @ ''/**'') \<and>
    (\<exists>a \<in> set (worker_paths p). path_allowed path [a] \<or> a = path @ ''/**'')"
proof -
  note a = authorizeD[OF assms(3)]
  obtain path where path: "scope (py_str repr raw) = Inr path" "path_allowed path (allowed_paths w)"
    "\<forall>s \<in> set (protected_paths w). \<not> path_allowed path [s]"
    using validateD(4)[OF assms(4)] assms(5,6) by (auto simp: check_changed_file_def and_then_Inr_iff)
  from path(2) obtain s where s: "s \<in> set (allowed_paths w)" "path_allowed path [s]"
    using path_allowed_iff by blast
  have sw: "scope s = Inr s"
    using make_work_itemD[OF assms(2)] scopes_accepted s(1) by fastforce
  have pol: "grant_ok read_iso g" "worker_ok p"
    using load_policy_ok[OF assms(1)] a(1,6)
    by (auto simp: grants_ok_def workers_ok_def candidate_workers_def Let_def dest!: map_of_SomeD split: option.splits)
  have "check_scope_granted g p s = Inr ()" using a(8) s(1) by blast
  then obtain x y where "x \<in> set (grant_paths g)" "scope_contains x s" "y \<in> set (worker_paths p)" "scope_contains y s"
    by (auto simp: check_scope_granted_def)
  then show ?thesis using path contained_admits[OF _ sw _ s(2)] pol unfolding grant_ok_def worker_ok_def by blast
qed

definition sample_result :: dict where
  "sample_result = [(''schema'', JStr ''formalspecgen-worker-result-v1''), (''work_item_id'', JStr ''task-1''),
     (''base_revision'', JStr (replicate 40 (CHR ''a''))), (''changed_files'', JArr [JStr ''src//util/a.py''])]"

lemma accepted_changes_confined_witness:
  "\<exists>path. scope ''src//util/a.py'' = Inr path \<and> path_allowed path (allowed_paths sample_item)"
proof -
  have "make_work_item sample_item = Inr sample_item"
    and v: "validate_result (\<lambda>_. []) sample_item (Some sample_result) = Inr (Some sample_result)"
    and c: "get_default ''changed_files'' (JArr []) sample_result = JArr [JStr ''src//util/a.py'']"
    by code_simp+
  moreover have "authorize_item (\<lambda>_. None) 0 sample_policy ''/work'' sample_item ''alice'' None =
      Inr (fst sample_pair, snd sample_pair)" by (simp add: sample_authorized)
  ultimately show ?thesis
    using accepted_changes_confined[OF sample_policy_loads, where v = "Some sample_result" and repr = "\<lambda>_. []"]
    by fastforce
qed

end
