(* ===== verification/Agent_Contracts.thy ===== *)
theory Agent_Contracts
  imports Workflow_Contracts A2A_Contracts
begin

text \<open>
  The goal of a supervised agent run, \<^verbatim>\<open>AgentGoal\<close> of
  \<^verbatim>\<open>pipeline/agentic/contracts.py\<close>: its checks, its JSON form and digest, its decoding from
  a stored run (\<^verbatim>\<open>AgentSupervisor._goal\<close>), and the resolution of its source inside the
  workspace.  As elsewhere the records hold values of the declared types.
\<close>

abbreviation run_fail :: "string \<Rightarrow> string \<Rightarrow> service_error" where
  "run_fail code message \<equiv> AgentRunError code message"

definition agent_actions :: "string list" where
  "agent_actions = [''inspect'', ''verify'']"

definition terminal_run_states :: "string list" where
  "terminal_run_states = [''completed'', ''failed'', ''blocked'', ''cancelled'']"

text \<open>\<^verbatim>\<open>tuple(dict.fromkeys(xs))\<close>: the first occurrence of every element.\<close>

fun uniq_from :: "'a list \<Rightarrow> 'a list \<Rightarrow> 'a list" where
  "uniq_from seen [] = []"
| "uniq_from seen (x # xs) = (if x \<in> set seen then uniq_from seen xs else x # uniq_from (x # seen) xs)"

definition uniq :: "'a list \<Rightarrow> 'a list" where
  "uniq xs = uniq_from [] xs"

definition relative_source :: "string \<Rightarrow> service_error + string" where
  "relative_source v =
     and_then (ensure (\<not> (path_root v \<noteq> [] \<or> path_parts v = [] \<or> ''..'' \<in> set (path_parts v)))
       (run_fail ''INVALID_SOURCE'' ''source must be a relative path inside the workspace'')) (\<lambda>_.
     and_then (ensure (\<not> (\<exists>p \<in> set (path_parts v). p \<in> set protected_names))
       (run_fail ''PROTECTED_SOURCE'' ''service and repository metadata are protected'')) (\<lambda>_.
     Inr (as_posix v)))"

record agent_goal =
  run_id :: string
  goal_objective :: string
  goal_revision :: string
  source :: string
  source_sha256 :: string
  goal_mode :: string
  goal_backend :: string
  permitted_workflows :: "string list"
  proposed_actions :: "string list"
  goal_paths :: "string list"
  goal_protected :: "string list"
  goal_budget :: "(string \<times> int) list"
  acceptance_policy :: string
  task_type :: string

definition budget_value :: "(string \<times> int) list \<Rightarrow> string \<Rightarrow> int" where
  "budget_value b k = (case map_of b k of None \<Rightarrow> 0 | Some n \<Rightarrow> n)"

definition budget_keys :: "string list" where
  "budget_keys = [''max_actions'', ''max_failures'', ''max_input_bytes'']"

definition check_goal_budget :: "(string \<times> int) list \<Rightarrow> service_error + unit" where
  "check_goal_budget b =
     and_then (ensure (fst ` set b \<subseteq> set budget_keys \<and> (\<forall>kv \<in> set b. 0 \<le> snd kv))
       (run_fail ''INVALID_BUDGET'' ''agent resource budget is invalid'')) (\<lambda>_.
     and_then (ensure (\<not> budget_value b ''max_actions'' < int (length agent_actions))
       (run_fail ''INVALID_BUDGET'' ''inspect-and-verify requires at least two actions'')) (\<lambda>_.
     and_then (ensure (\<not> budget_value b ''max_failures'' < 1)
       (run_fail ''INVALID_BUDGET'' ''max_failures must be at least one'')) (\<lambda>_.
     ensure (\<not> budget_value b ''max_input_bytes'' < 1)
       (run_fail ''INVALID_BUDGET'' ''max_input_bytes must be positive''))))"

definition check_plan :: "string list \<Rightarrow> string list \<Rightarrow> service_error + unit" where
  "check_plan workflows proposed =
     and_then (ensure (workflows = agent_actions)
       (run_fail ''UNSUPPORTED_PLAN'' ''the supervised profile requires exactly inspect then verify'')) (\<lambda>_.
     if proposed = agent_actions then Inr ()
     else let unknown = sorted_set (filter (\<lambda>a. a \<notin> set workflows) proposed) in
       Inl (if unknown \<noteq> []
         then run_fail ''UNKNOWN_ACTION'' (''unknown proposed actions: '' @ join '', '' unknown)
         else run_fail ''UNSUPPORTED_PLAN'' ''the proposed plan must inspect before verification''))"

definition make_goal :: "(string \<Rightarrow> string) \<Rightarrow> agent_goal \<Rightarrow> service_error + agent_goal" where
  "make_goal norm g =
     and_then (ensure (is_identifier (run_id g)) (run_fail ''INVALID_GOAL'' ''invalid run_id'')) (\<lambda>_.
     let objective = str_strip (goal_objective g) in
     and_then (ensure (objective \<noteq> [] \<and> length objective \<le> 8192)
       (run_fail ''INVALID_GOAL'' ''objective is empty or too large'')) (\<lambda>_.
     and_then (ensure (is_hex 40 (goal_revision g))
       (run_fail ''INVALID_BASE_REVISION'' ''base_revision must be a full Git SHA-1'')) (\<lambda>_.
     and_then (ensure (is_hex 64 (source_sha256 g))
       (run_fail ''INVALID_SOURCE_DIGEST'' ''source_sha256 is invalid'')) (\<lambda>_.
     and_then (relative_source (source g)) (\<lambda>src.
     let workflows = uniq (permitted_workflows g); proposed = proposed_actions g in
     and_then (check_plan workflows proposed) (\<lambda>_.
     and_then (map_res relative_source (if goal_paths g = [] then [src] else goal_paths g)) (\<lambda>allowed.
     and_then (ensure (src \<in> set allowed)
       (run_fail ''PATH_SCOPE_DENIED'' ''source is outside allowed_paths'')) (\<lambda>_.
     and_then (map_res relative_source (goal_protected g)) (\<lambda>prot.
     and_then (check_goal_budget (goal_budget g)) (\<lambda>_.
     and_then (ensure (acceptance_policy g = ''verification-request-satisfied'')
       (run_fail ''UNSUPPORTED_ACCEPTANCE'' ''unsupported acceptance policy'')) (\<lambda>_.
     and_then (ensure (task_type g = ''inspect-and-verify'')
       (run_fail ''UNSUPPORTED_GOAL'' ''unsupported agent task type'')) (\<lambda>_.
     and_then (verification_request norm src (goal_mode g) (goal_backend g) None) (\<lambda>_.
     Inr (g\<lparr>goal_objective := objective, source := src, permitted_workflows := workflows,
       proposed_actions := proposed, goal_paths := uniq allowed, goal_protected := uniq prot\<rparr>))))))))))))))"

definition goal_dict :: "agent_goal \<Rightarrow> dict" where
  "goal_dict g =
     [(''schema'', JStr ''formalspecgen-agent-goal-v1''), (''run_id'', JStr (run_id g)),
      (''objective'', JStr (goal_objective g)), (''base_revision'', JStr (goal_revision g)),
      (''source'', JStr (source g)), (''source_sha256'', JStr (source_sha256 g)),
      (''mode'', JStr (goal_mode g)), (''backend'', JStr (goal_backend g)),
      (''permitted_workflows'', jstrings (permitted_workflows g)),
      (''proposed_actions'', jstrings (proposed_actions g)), (''allowed_paths'', jstrings (goal_paths g)),
      (''protected_paths'', jstrings (goal_protected g)), (''resource_budget'', jints (goal_budget g)),
      (''acceptance_policy'', JStr (acceptance_policy g)), (''task_type'', JStr (task_type g))]"

definition goal_sha256 :: "(string \<Rightarrow> string) \<Rightarrow> agent_goal \<Rightarrow> string" where
  "goal_sha256 sha g = digest sha (JObj (goal_dict g))"

text \<open>\<open>_goal(record)\<close>: the five required arguments, the others with the defaults of the class.\<close>

definition goal_keys :: "string list" where
  "goal_keys = [''run_id'', ''objective'', ''base_revision'', ''source'', ''source_sha256'', ''mode'', ''backend'',
     ''permitted_workflows'', ''proposed_actions'', ''allowed_paths'', ''protected_paths'', ''resource_budget'',
     ''acceptance_policy'', ''task_type'']"

definition default_budget :: "(string \<times> int) list" where
  "default_budget = [(''max_actions'', 2), (''max_failures'', 1), (''max_input_bytes'', 1048576)]"

definition goal_of_dict :: "(string \<Rightarrow> string) \<Rightarrow> dict \<Rightarrow> service_error + agent_goal" where
  "goal_of_dict norm d =
     and_then (ensure (\<forall>kv \<in> set d. fst kv = ''schema'' \<or> fst kv \<in> set goal_keys) PyTypeError) (\<lambda>_.
     and_then (and_then (argument ''run_id'' d) as_str) (\<lambda>rid.
     and_then (and_then (argument ''objective'' d) as_str) (\<lambda>obj.
     and_then (and_then (argument ''base_revision'' d) as_str) (\<lambda>rev.
     and_then (and_then (argument ''source'' d) as_str) (\<lambda>src.
     and_then (and_then (argument ''source_sha256'' d) as_str) (\<lambda>sum.
     and_then (as_str (get_default ''mode'' (JStr ''esc'') d)) (\<lambda>mode.
     and_then (as_str (get_default ''backend'' (JStr ''prusti'') d)) (\<lambda>backend.
     and_then (as_strings (get_default ''permitted_workflows'' (jstrings agent_actions) d)) (\<lambda>flows.
     and_then (as_strings (get_default ''proposed_actions'' (jstrings agent_actions) d)) (\<lambda>proposed.
     and_then (as_strings (get_default ''allowed_paths'' (jstrings []) d)) (\<lambda>allowed.
     and_then (as_strings (get_default ''protected_paths'' (jstrings []) d)) (\<lambda>prot.
     and_then (as_ints (get_default ''resource_budget'' (jints default_budget) d)) (\<lambda>budget.
     and_then (as_str (get_default ''acceptance_policy'' (JStr ''verification-request-satisfied'') d)) (\<lambda>accept.
     and_then (as_str (get_default ''task_type'' (JStr ''inspect-and-verify'') d)) (\<lambda>kind.
     make_goal norm \<lparr>run_id = rid, goal_objective = obj, goal_revision = rev, source = src, source_sha256 = sum,
       goal_mode = mode, goal_backend = backend, permitted_workflows = flows, proposed_actions = proposed,
       goal_paths = allowed, goal_protected = prot, goal_budget = budget, acceptance_policy = accept,
       task_type = kind\<rparr>)))))))))))))))"

definition source_path :: "(string \<Rightarrow> string) \<Rightarrow> agent_goal \<Rightarrow> string \<Rightarrow> service_error + string" where
  "source_path resolve g workspace =
     (let root = resolve workspace; path = resolve (root @ ''/'' @ source g) in
      and_then (ensure (\<not> (path \<noteq> root \<and> root \<notin> set (path_parents path)))
        (run_fail ''PATH_SCOPE_DENIED'' ''source escapes the workspace'')) (\<lambda>_. Inr path))"

section \<open>An accepted goal is stable\<close>

lemma relative_sourceD:
  assumes "relative_source v = Inr s"
  shows "relative_source s = Inr s" and "path_root s = []" and "path_parts s \<noteq> []" and "''..'' \<notin> set (path_parts s)"
    and "set (path_parts s) \<inter> set protected_names = {}"
proof -
  have root: "path_root v = []" and ne: "path_tail v \<noteq> []" and dd: "''..'' \<notin> set (path_tail v)"
    and prot: "set (path_tail v) \<inter> set protected_names = {}" and s: "s = as_posix v"
    using assms by (auto simp: relative_source_def and_then_Inr_iff path_parts_def)
  have parts: "p \<noteq> [] \<and> p \<noteq> ''.'' \<and> CHR ''/'' \<notin> set p" if "p \<in> set (path_tail v)" for p
    using that by (auto simp: path_tail_def dest: split_slash_no_slash)
  have j: "s = join ''/'' (path_tail v)"
    using s root ne parts join_eq_Nil[of "path_tail v" "''/''"] by (auto simp: as_posix_def Let_def)
  have split: "split_slash s = path_tail v"
    unfolding j using ne parts by (intro split_slash_join) auto
  have tail: "path_tail s = path_tail v"
  proof -
    have "filter (\<lambda>p. p \<noteq> [] \<and> p \<noteq> ''.'') (path_tail v) = path_tail v"
      by (rule filter_True) (use parts in auto)
    then show ?thesis unfolding path_tail_def[of s] split .
  qed
  have "\<not> starts_with ''/'' s"
  proof
    assume "starts_with ''/'' s"
    then have "hd (split_slash s) = []" by (auto simp: starts_with_iff)
    with split parts ne show False by (metis list.set_sel(1))
  qed
  then show r: "path_root s = []" by (auto simp: path_root_def starts_with_iff)
  have posix: "as_posix s = s"
    unfolding as_posix_def r tail using j ne parts join_eq_Nil[of "path_tail v" "''/''"] by (auto simp: Let_def)
  show "path_parts s \<noteq> []" "''..'' \<notin> set (path_parts s)" "set (path_parts s) \<inter> set protected_names = {}"
    using ne dd prot by (simp_all add: path_parts_def r tail)
  then have "\<forall>p \<in> set (path_parts s). p \<notin> set protected_names" by blast
  with \<open>path_parts s \<noteq> []\<close> \<open>''..'' \<notin> set (path_parts s)\<close> show "relative_source s = Inr s"
    by (simp add: relative_source_def r posix)
qed

lemma uniq_from_set: "set (uniq_from seen xs) = set xs - set seen"
  by (induction xs arbitrary: seen) auto

lemma set_uniq [simp]: "set (uniq xs) = set xs"
  by (simp add: uniq_def uniq_from_set)

lemma uniq_from_distinct: "distinct (uniq_from seen xs)"
  by (induction xs arbitrary: seen) (auto simp: uniq_from_set)

lemma distinct_uniq [simp]: "distinct (uniq xs)"
  by (simp add: uniq_def uniq_from_distinct)

lemma uniq_from_id: "distinct xs \<Longrightarrow> set xs \<inter> set seen = {} \<Longrightarrow> uniq_from seen xs = xs"
  by (induction xs arbitrary: seen) auto

lemma uniq_idem [simp]: "uniq (uniq xs) = uniq xs"
  by (simp add: uniq_def uniq_from_id uniq_from_distinct)

lemma uniq_Nil_iff [simp]: "uniq xs = [] \<longleftrightarrow> xs = []"
  by (metis set_empty set_uniq)

lemma sources_stable:
  assumes "map_res relative_source xs = Inr ys"
  shows "map_res relative_source (uniq ys) = Inr (uniq ys)"
proof -
  have "\<forall>y \<in> set ys. relative_source y = Inr y"
    using assms by (induction xs arbitrary: ys) (auto simp: and_then_Inr_iff dest: relative_sourceD(1))
  then show ?thesis by (simp add: map_res_id)
qed

lemma check_plan_iff: "check_plan workflows proposed = Inr u \<longleftrightarrow> workflows = agent_actions \<and> proposed = agent_actions"
  by (auto simp: check_plan_def Let_def and_then_Inr_iff)

lemma make_goalD:
  assumes "make_goal norm g = Inr h"
  obtains src allowed prot vr where
    "h = g\<lparr>goal_objective := str_strip (goal_objective g), source := src,
       permitted_workflows := uniq (permitted_workflows g),
       proposed_actions := proposed_actions g, goal_paths := uniq allowed, goal_protected := uniq prot\<rparr>"
    "is_identifier (run_id g)" "str_strip (goal_objective g) \<noteq> []" "length (str_strip (goal_objective g)) \<le> 8192"
    "is_hex 40 (goal_revision g)" "is_hex 64 (source_sha256 g)" "relative_source (source g) = Inr src"
    "uniq (permitted_workflows g) = agent_actions" "proposed_actions g = agent_actions"
    "map_res relative_source (if goal_paths g = [] then [src] else goal_paths g) = Inr allowed"
    "src \<in> set allowed" "map_res relative_source (goal_protected g) = Inr prot"
    "check_goal_budget (goal_budget g) = Inr ()" "acceptance_policy g = ''verification-request-satisfied''"
    "task_type g = ''inspect-and-verify''" "verification_request norm src (goal_mode g) (goal_backend g) None = Inr vr"
  using assms unfolding make_goal_def Let_def
  by (elim and_then_InrE) (rule that, simp_all only: check_plan_iff ensure_Inr_iff sum.inject, simp_all)

lemma make_goal_stable:
  assumes "make_goal norm g = Inr h"
  shows "make_goal norm h = Inr h"
  using assms
proof (rule make_goalD)
  fix src allowed prot vr
  assume h: "h = g\<lparr>goal_objective := str_strip (goal_objective g), source := src,
       permitted_workflows := uniq (permitted_workflows g),
       proposed_actions := proposed_actions g, goal_paths := uniq allowed, goal_protected := uniq prot\<rparr>"
    and d: "is_identifier (run_id g)" "str_strip (goal_objective g) \<noteq> []" "length (str_strip (goal_objective g)) \<le> 8192"
    "is_hex 40 (goal_revision g)" "is_hex 64 (source_sha256 g)"
    and src: "relative_source (source g) = Inr src"
    and plan: "uniq (permitted_workflows g) = agent_actions" "proposed_actions g = agent_actions"
    and allowed: "map_res relative_source (if goal_paths g = [] then [src] else goal_paths g) = Inr allowed"
    and mem: "src \<in> set allowed" and prot: "map_res relative_source (goal_protected g) = Inr prot"
    and rest: "check_goal_budget (goal_budget g) = Inr ()" "acceptance_policy g = ''verification-request-satisfied''"
    "task_type g = ''inspect-and-verify''" "verification_request norm src (goal_mode g) (goal_backend g) None = Inr vr"
  have s: "relative_source src = Inr src" using src by (rule relative_sourceD(1))
  have u: "uniq agent_actions = agent_actions" using uniq_idem[of "permitted_workflows g"] plan(1) by simp
  have ne: "allowed \<noteq> []" using mem by auto
  have "check_plan agent_actions agent_actions = Inr ()" by (simp add: check_plan_iff)
  then show "make_goal norm h = Inr h"
    using mem by (simp add: make_goal_def h Let_def d s plan u ne sources_stable[OF allowed] sources_stable[OF prot] rest)
qed

text \<open>A goal survives being stored: the JSON form of an accepted goal decodes to the same goal, so
  a resumed run works on exactly the goal that was approved.\<close>

theorem goal_roundtrip:
  assumes "make_goal norm g = Inr h"
  shows "goal_of_dict norm (goal_dict h) = Inr h"
proof -
  have keys: "\<forall>kv \<in> set (goal_dict h). fst kv = ''schema'' \<or> fst kv \<in> set goal_keys"
    by (simp add: goal_dict_def goal_keys_def)
  have "goal_of_dict norm (goal_dict h) = make_goal norm h"
    using keys by (simp add: goal_of_dict_def) (cases h, simp add: goal_dict_def argument_def get_default_def)
  then show ?thesis using make_goal_stable[OF assms] by simp
qed

definition sample_goal :: agent_goal where
  "sample_goal = \<lparr>run_id = ''run-1'', goal_objective = ''check'', goal_revision = replicate 40 (CHR ''a''),
     source = ''src/A.java'', source_sha256 = replicate 64 (CHR ''b''), goal_mode = ''esc'', goal_backend = ''prusti'',
     permitted_workflows = agent_actions, proposed_actions = agent_actions, goal_paths = [''src/A.java''],
     goal_protected = [], goal_budget = default_budget, acceptance_policy = ''verification-request-satisfied'',
     task_type = ''inspect-and-verify''\<rparr>"

lemma sample_goal_made:
  "make_goal id (sample_goal\<lparr>goal_objective := '' check '', goal_paths := []\<rparr>) = Inr sample_goal"
  by code_simp

lemma goal_roundtrip_witness: "goal_of_dict id (goal_dict sample_goal) = Inr sample_goal"
  by (rule goal_roundtrip[OF sample_goal_made])

end
