(* ===== verification/Agent_Store.thy ===== *)
theory Agent_Store
  imports Agent_Contracts Event_Log Service_Run
begin

text \<open>
  \<^verbatim>\<open>AgentRunStore\<close> of \<^verbatim>\<open>pipeline/agentic/state_store.py\<close>: one directory
  per run with the hash-chained event log and the review, which is linked into place once.  Every
  operation runs under the store's file lock, so it is one atomic step; a failing one leaves the store
  as it was.  \<open>run_files\<close> is what the store reads of the world: the SHA-256 of a text and of
  bytes, the absolute path of the runs, the working directory, the text of a decoding error and of a value that is not a string,
  and the contents of files outside the store (the text of the exception, or the bytes).
\<close>

record run_dir =
  run_log :: dir
  run_review :: "string option"

type_synonym run_store = "(string \<times> run_dir) list"

record run_files =
  run_hash :: "string \<Rightarrow> string"
  byte_hash :: "string \<Rightarrow> string"
  runs_path :: string
  working_dir :: string
  json_error :: string
  value_text :: "json \<Rightarrow> string"
  outside :: "string \<Rightarrow> string + string"

definition agent_event_schema :: string where
  "agent_event_schema = ''formalspecgen-agent-run-event-v1''"

definition agent_run_schema :: string where
  "agent_run_schema = ''formalspecgen-agent-run-v1''"

type_synonym clock_reading = "nat \<Rightarrow> string"

section \<open>Loading and appending\<close>

definition run_directory :: "run_store \<Rightarrow> string \<Rightarrow> run_dir" where
  "run_directory st rid = (case map_of st rid of None \<Rightarrow> \<lparr>run_log = [], run_review = None\<rparr> | Some d \<Rightarrow> d)"

definition check_run_id :: "string \<Rightarrow> service_error + unit" where
  "check_run_id rid = ensure
     (rid \<noteq> [] \<and> CHR ''/'' \<notin> set rid \<and> set bs \<inter> set rid = {} \<and> rid \<noteq> ''.'' \<and> rid \<noteq> ''..'')
     (run_fail ''INVALID_GOAL'' ''invalid run_id'')"

definition run_not_found :: service_error where
  "run_not_found = run_fail ''RUN_NOT_FOUND'' ''agent run does not exist''"

definition chain_invalid :: service_error where
  "chain_invalid = run_fail ''RUN_EVIDENCE_INVALID'' ''agent event chain is invalid''"

text \<open>An event that is not an object has no suitable \<open>pop\<close>: a list takes one argument only,
  the other values have none.\<close>

fun read_run_events :: "run_files \<Rightarrow> nat \<Rightarrow> json \<Rightarrow> json \<Rightarrow> content list \<Rightarrow> service_error + json" where
  "read_run_events w n previous record [] = Inr record"
| "read_run_events w n previous record (f # fs) = (case f of
     None \<Rightarrow> Inl (run_fail ''RUN_EVIDENCE_INVALID'' (json_error w))
   | Some (JObj value) \<Rightarrow> (let event = pop_field ''sha256'' value in
       and_then (ensure (get_field ''schema'' event = JStr agent_event_schema \<and>
           json_is_int (get_field ''sequence'' event) (int n) \<and>
           get_field ''previous_sha256'' event = previous \<and>
           get_field ''sha256'' value = JStr (digest (run_hash w) (JObj event))) chain_invalid) (\<lambda>_.
       read_run_events w (n + 1) (get_field ''sha256'' value) (get_field ''record'' event) fs))
   | Some (JArr _) \<Rightarrow> Inl PyTypeError
   | Some _ \<Rightarrow> Inl PyAttributeError)"

definition run_schema_ok :: "dict \<Rightarrow> bool" where
  "run_schema_ok r \<longleftrightarrow> get_field ''schema'' r = JStr agent_run_schema"

definition load_log :: "run_files \<Rightarrow> dir \<Rightarrow> service_error + dict" where
  "load_log w d =
     and_then (ensure (events d \<noteq> []) run_not_found) (\<lambda>_.
     and_then (read_run_events w 1 JNull JNull (events d)) (\<lambda>record.
     case record of JObj r \<Rightarrow> if run_schema_ok r then Inr r
         else Inl (run_fail ''RUN_EVIDENCE_INVALID'' ''agent run record is invalid'')
     | _ \<Rightarrow> Inl (run_fail ''RUN_EVIDENCE_INVALID'' ''agent run record is invalid'')))"

definition load_run :: "run_files \<Rightarrow> run_store \<Rightarrow> string \<Rightarrow> service_error + dict" where
  "load_run w st rid = and_then (check_run_id rid) (\<lambda>_. load_log w (run_log (run_directory st rid)))"

definition add_run_event :: "run_files \<Rightarrow> string \<Rightarrow> dict \<Rightarrow> dir \<Rightarrow> service_error + dir" where
  "add_run_event w now r d = append_event (run_hash w) agent_event_schema now r d"

definition run_id_of :: "run_files \<Rightarrow> dict \<Rightarrow> service_error + string" where
  "run_id_of w r = and_then (dict_item ''run_id'' r) (\<lambda>j. Inr (py_str (value_text w) j))"

definition append_run :: "run_files \<Rightarrow> string \<Rightarrow> dict \<Rightarrow> run_store \<Rightarrow> service_error + dict \<times> run_store" where
  "append_run w now r st =
     and_then (run_id_of w r) (\<lambda>rid.
     and_then (check_run_id rid) (\<lambda>_.
     and_then (add_run_event w now r (run_log (run_directory st rid))) (\<lambda>d.
     Inr (r, AList.update rid ((run_directory st rid)\<lparr>run_log := d\<rparr>) st))))"

definition authorize_run :: "dict \<Rightarrow> string \<Rightarrow> service_error + unit" where
  "authorize_run r who = ensure (get_field ''principal_id'' r = JStr who)
     (run_fail ''RUN_ACCESS_DENIED'' ''agent run belongs to another principal'')"

section \<open>Reviews\<close>

text \<open>\<^verbatim>\<open>Path.absolute\<close> as a normal form: paths are equal when these are.\<close>

definition absolute :: "run_files \<Rightarrow> string \<Rightarrow> string" where
  "absolute w p = as_posix (if path_root p = [] then working_dir w @ ''/'' @ p else p)"

definition review_path :: "run_files \<Rightarrow> string \<Rightarrow> string" where
  "review_path w rid = runs_path w @ ''/'' @ rid @ ''/review.json''"

definition read_review :: "run_files \<Rightarrow> run_store \<Rightarrow> string \<Rightarrow> string \<Rightarrow> string + string" where
  "read_review w st rid path =
     (if absolute w path = absolute w (review_path w rid) then
        (case run_review (run_directory st rid) of None \<Rightarrow> Inl ''No such file or directory'' | Some b \<Rightarrow> Inr b)
      else outside w path)"

definition validate_review :: "run_files \<Rightarrow> run_store \<Rightarrow> dict \<Rightarrow> service_error + unit" where
  "validate_review w st r = (let receipt = get_field ''review'' r in
     if receipt = JNull then Inr ()
     else and_then (run_id_of w r) (\<lambda>rid.
       and_then (check_run_id rid) (\<lambda>_.
       and_then (as_dict receipt) (\<lambda>d.
       let path = py_str (value_text w) (get_default ''path'' (JStr []) d) in
       (case read_review w st rid path of
         Inl exc \<Rightarrow> Inl (run_fail ''REVIEW_EVIDENCE_INVALID'' exc)
       | Inr content \<Rightarrow> ensure (absolute w path = absolute w (review_path w rid) \<and>
           get_field ''status'' d = JStr ''COMMITTED'' \<and>
           json_is_int (get_field ''size'' d) (int (length content)) \<and>
           get_field ''sha256'' d = JStr (byte_hash w content))
           (run_fail ''REVIEW_EVIDENCE_INVALID'' ''terminal agent review integrity failed''))))))"

definition review_bytes :: "dict \<Rightarrow> string" where
  "review_bytes review = dumps_indent review"

section \<open>Operations\<close>

definition initial_run :: "run_files \<Rightarrow> clock_reading \<Rightarrow> agent_goal \<Rightarrow> string \<Rightarrow> dict" where
  "initial_run w now goal who =
     [(''schema'', JStr agent_run_schema), (''run_id'', JStr (run_id goal)), (''principal_id'', JStr who),
      (''request_sha256'', JStr (goal_sha256 (run_hash w) goal)), (''goal'', JObj (goal_dict goal)),
      (''state'', JStr ''planned''), (''active_action'', JNull), (''actions'', JArr []),
      (''failure_count'', JInt 0), (''cancel_requested'', JBool False), (''unresolved_findings'', JArr []),
      (''review'', JNull), (''created_at'', JStr (now 0)), (''updated_at'', JStr (now 1))]"

definition has_run_code :: "string \<Rightarrow> service_error \<Rightarrow> bool" where
  "has_run_code code e = (case e of AgentRunError c _ \<Rightarrow> c = code | _ \<Rightarrow> False)"

definition create_run :: "run_files \<Rightarrow> clock_reading \<Rightarrow> agent_goal \<Rightarrow> string \<Rightarrow> run_store
    \<Rightarrow> service_error + (dict \<times> bool) \<times> run_store" where
  "create_run w now goal who st =
     and_then (ensure (str_strip who \<noteq> []) (run_fail ''RUN_ACCESS_DENIED'' ''agent principal is required'')) (\<lambda>_.
     case load_run w st (run_id goal) of
       Inr existing \<Rightarrow>
         and_then (authorize_run existing who) (\<lambda>_.
         and_then (validate_review w st existing) (\<lambda>_.
         and_then (ensure (get_field ''request_sha256'' existing = JStr (goal_sha256 (run_hash w) goal))
           (run_fail ''IDEMPOTENCY_CONFLICT'' ''run_id is already bound to a different goal'')) (\<lambda>_.
         Inr ((existing, False), st))))
     | Inl e \<Rightarrow>
         if \<not> has_run_code ''RUN_NOT_FOUND'' e then Inl e
         else and_then (append_run w (now 2) (initial_run w now goal who) st) (\<lambda>(r, st').
           Inr ((r, True), st')))"

definition get_run :: "run_files \<Rightarrow> run_store \<Rightarrow> string \<Rightarrow> string \<Rightarrow> service_error + dict" where
  "get_run w st rid who =
     and_then (load_run w st rid) (\<lambda>r.
     and_then (authorize_run r who) (\<lambda>_.
     and_then (validate_review w st r) (\<lambda>_. Inr r)))"

definition update_run :: "run_files \<Rightarrow> clock_reading \<Rightarrow> string \<Rightarrow> string \<Rightarrow> (dict \<Rightarrow> service_error + dict)
    \<Rightarrow> run_store \<Rightarrow> service_error + dict \<times> run_store" where
  "update_run w now rid who mutate st =
     and_then (get_run w st rid who) (\<lambda>r.
     and_then (mutate r) (\<lambda>r'.
     append_run w (now 1) (AList.update ''updated_at'' (JStr (now 0)) r') st))"

definition publish_review :: "run_files \<Rightarrow> string \<Rightarrow> string \<Rightarrow> dict \<Rightarrow> run_store
    \<Rightarrow> service_error + dict \<times> run_store" where
  "publish_review w rid who review st =
     and_then (load_run w st rid) (\<lambda>r.
     and_then (authorize_run r who) (\<lambda>_.
     let d = run_directory st rid; encoded = review_bytes review;
         receipt = [(''status'', JStr ''COMMITTED''), (''path'', JStr (review_path w rid)),
           (''size'', JInt (int (length encoded))), (''sha256'', JStr (byte_hash w encoded))]
     in (case run_review d of
          None \<Rightarrow> Inr (receipt, AList.update rid (d\<lparr>run_review := Some encoded\<rparr>) st)
        | Some published \<Rightarrow> if published \<noteq> encoded
            then Inl (run_fail ''REVIEW_ALREADY_PUBLISHED'' ''a different terminal review is already published'')
            else Inr (receipt, st))))"

end
