(* ===== verification/Operator_Paths.thy ===== *)
theory Operator_Paths
  imports Agent_Contracts
begin

unbundle bit_operations_syntax

text \<open>
  Paths that the operator configures through the environment,
  \<^verbatim>\<open>operator_controlled_path\<close> of \<^verbatim>\<open>pipeline/operator_configuration.py\<close>.
  \<open>operator_world\<close> is what the process sees: its environment, the current directory, and the answers
  of \<^verbatim>\<open>pathlib\<close> about paths (expansion and resolution may raise).
\<close>

record operator_world =
  environment :: "string \<Rightarrow> string option"
  current_dir :: string
  expand_user :: "string \<Rightarrow> service_error + string"
  resolved :: "string \<Rightarrow> service_error + string"
  is_link :: "string \<Rightarrow> bool"
  regular :: "string \<Rightarrow> bool"
  directory_at :: "string \<Rightarrow> bool"
  exists_at :: "string \<Rightarrow> bool"
  mode_bits :: "string \<Rightarrow> nat"

definition inside :: "string \<Rightarrow> string \<Rightarrow> bool" where
  "inside path workspace \<longleftrightarrow> path = workspace \<or> workspace \<in> set (path_parents path)"

definition shared_writable :: "operator_world \<Rightarrow> string \<Rightarrow> bool" where
  "shared_writable w path \<longleftrightarrow> mode_bits w path AND 0x12 \<noteq> 0"

definition check_operator_file :: "operator_world \<Rightarrow> string \<Rightarrow> bool \<Rightarrow> string \<Rightarrow> service_error + unit" where
  "check_operator_file w variable require_file path =
     (if require_file then
        and_then (ensure (regular w path) (PyValueError (variable @ '' must identify a regular file''))) (\<lambda>_.
        ensure (\<not> shared_writable w path)
          (PyValueError (variable @ '' must not be group- or world-writable'')))
      else ensure (\<not> (exists_at w path \<and> (\<not> directory_at w path \<or> shared_writable w path)))
        (PyValueError (variable @ '' must be a protected directory when it already exists'')))"

definition operator_controlled_path :: "operator_world \<Rightarrow> string \<Rightarrow> bool \<Rightarrow> service_error + string" where
  "operator_controlled_path w variable require_file =
     (let raw = (case environment w variable of None \<Rightarrow> [] | Some v \<Rightarrow> v) in
      and_then (ensure (raw \<noteq> []) (PyValueError (variable @ '' is not configured''))) (\<lambda>_.
      and_then (expand_user w raw) (\<lambda>supplied.
      and_then (ensure (path_root supplied \<noteq> [])
        (PyValueError (variable @ '' must be an absolute operator-controlled path''))) (\<lambda>_.
      and_then (ensure (\<not> is_link w supplied) (PyValueError (variable @ '' must not be a symlink''))) (\<lambda>_.
      and_then (resolved w supplied) (\<lambda>path.
      and_then (resolved w (current_dir w)) (\<lambda>workspace.
      and_then (ensure (\<not> inside path workspace)
        (PyValueError (variable @ '' must be outside the agent workspace''))) (\<lambda>_.
      and_then (check_operator_file w variable require_file path) (\<lambda>_.
      Inr path)))))))))"

lemma operator_path_parts:
  assumes "operator_controlled_path w variable require_file = Inr path"
  obtains raw supplied workspace where "environment w variable = Some raw" "raw \<noteq> []"
    "expand_user w raw = Inr supplied" "path_root supplied \<noteq> []" "\<not> is_link w supplied"
    "resolved w supplied = Inr path" "resolved w (current_dir w) = Inr workspace" "\<not> inside path workspace"
    "check_operator_file w variable require_file path = Inr ()"
proof -
  obtain supplied workspace where p: "(case environment w variable of None \<Rightarrow> [] | Some v \<Rightarrow> v) \<noteq> []"
    "expand_user w (case environment w variable of None \<Rightarrow> [] | Some v \<Rightarrow> v) = Inr supplied"
    "path_root supplied \<noteq> []" "\<not> is_link w supplied" "resolved w supplied = Inr path"
    "resolved w (current_dir w) = Inr workspace" "\<not> inside path workspace"
    "check_operator_file w variable require_file path = Inr ()"
    using assms unfolding operator_controlled_path_def Let_def by (elim and_then_InrE) auto
  then show thesis using that by (cases "environment w variable") auto
qed

text \<open>A path taken from the environment is controlled by the operator: it was configured, absolute and
  not a symbolic link, it lies outside the workspace of the agent, and a required file, or an existing
  directory, is not writable for group or others.\<close>

theorem operator_path_protected:
  assumes "operator_controlled_path w variable require_file = Inr path"
  shows "\<exists>raw supplied workspace. environment w variable = Some raw \<and> expand_user w raw = Inr supplied \<and>
    path_root supplied \<noteq> [] \<and> \<not> is_link w supplied \<and> resolved w supplied = Inr path \<and>
    resolved w (current_dir w) = Inr workspace \<and> path \<noteq> workspace \<and> workspace \<notin> set (path_parents path) \<and>
    (if require_file then regular w path \<and> mode_bits w path AND 0x12 = 0
     else \<not> exists_at w path \<or> directory_at w path \<and> mode_bits w path AND 0x12 = 0)"
  using assms
proof (rule operator_path_parts)
  fix raw supplied workspace
  assume "environment w variable = Some raw" "raw \<noteq> []" "expand_user w raw = Inr supplied"
    "path_root supplied \<noteq> []" "\<not> is_link w supplied" "resolved w supplied = Inr path"
    "resolved w (current_dir w) = Inr workspace" "\<not> inside path workspace"
    "check_operator_file w variable require_file path = Inr ()"
  moreover from this(9) have "if require_file then regular w path \<and> mode_bits w path AND 0x12 = 0
     else \<not> exists_at w path \<or> directory_at w path \<and> mode_bits w path AND 0x12 = 0"
    by (auto simp: check_operator_file_def shared_writable_def elim!: and_then_InrE split: if_splits)
  ultimately show ?thesis by (auto simp: inside_def)
qed

definition sample_world :: operator_world where
  "sample_world = \<lparr>environment = (\<lambda>v. if v = ''ROOT'' then Some ''/state/agent'' else None), current_dir = ''/work'',
     expand_user = Inr, resolved = Inr, is_link = (\<lambda>_. False), regular = (\<lambda>_. False),
     directory_at = (\<lambda>_. True), exists_at = (\<lambda>_. True), mode_bits = (\<lambda>_. 448)\<rparr>"

lemma operator_path_protected_witness:
  "\<exists>workspace. resolved sample_world (current_dir sample_world) = Inr workspace \<and> ''/state/agent'' \<noteq> workspace"
proof -
  have "operator_controlled_path sample_world ''ROOT'' False = Inr ''/state/agent''" by code_simp
  from operator_path_protected[OF this] show ?thesis by blast
qed

end
