(* ===== verification/Agent_Supervisor.thy ===== *)
theory Agent_Supervisor
  imports Agent_Store Operator_Paths
begin

text \<open>
  The supervised agent workflow over the run store: the planner, the acceptance rules and the review
  (\<^verbatim>\<open>planner.py\<close>, \<^verbatim>\<open>acceptance.py\<close>), the action gateway
  (\<^verbatim>\<open>action_gateway.py\<close>), the supervisor (\<^verbatim>\<open>supervisor.py\<close>) and the reader of
  runs (\<^verbatim>\<open>run_reader.py\<close>), all under \<^verbatim>\<open>pipeline/agentic\<close>.  The workflows
  behind the gateway are arguments that also take and return the run store, since other supervisors
  work on it while an action runs.
\<close>

section \<open>Planning\<close>

record planned_action =
  act_sequence :: int
  act_workflow :: string
  act_reason :: string

definition action_dict :: "planned_action \<Rightarrow> dict" where
  "action_dict a = [(''sequence'', JInt (act_sequence a)), (''workflow'', JStr (act_workflow a)),
     (''reason'', JStr (act_reason a))]"

definition actions_of :: "dict \<Rightarrow> service_error + json list" where
  "actions_of r = as_list (get_default ''actions'' (JArr []) r)"

definition completed_workflows :: "json list \<Rightarrow> service_error + json list" where
  "completed_workflows items = and_then (map_res as_dict items) (\<lambda>ds.
     Inr (map (get_field ''workflow'') (filter (\<lambda>d. get_field ''state'' d = JStr ''completed'') ds)))"

definition next_action :: "agent_goal \<Rightarrow> dict \<Rightarrow> service_error + planned_action option" where
  "next_action g r =
     and_then (actions_of r) (\<lambda>items.
     and_then (completed_workflows items) (\<lambda>completed.
     let proposed = proposed_actions g; n = length completed in
     and_then (ensure (completed = map JStr (take n proposed))
       (run_fail ''RUN_STATE_INVALID'' ''completed action order is invalid'')) (\<lambda>_.
     and_then (ensure (get_field ''active_action'' r = JNull)
       (run_fail ''ACTION_OUTCOME_UNKNOWN''
         ''an action was interrupted; automatic replay is not permitted'')) (\<lambda>_.
     if length proposed \<le> n then Inr None
     else and_then (case map_of (goal_budget g) ''max_actions'' of
         None \<Rightarrow> Inl (PyKeyError ''max_actions'') | Some limit \<Rightarrow> Inr limit) (\<lambda>limit.
       and_then (ensure (\<not> limit \<le> int (length items))
         (run_fail ''ACTION_BUDGET_EXHAUSTED'' ''agent action budget exhausted'')) (\<lambda>_.
       let flow = proposed ! n in
       Inr (Some \<lparr>act_sequence = int n + 1, act_workflow = flow,
         act_reason = (if flow = ''inspect'' then ''establish bounded structural findings''
           else ''evaluate the approved source with the requested formal backend'')\<rparr>)))))))"

section \<open>Acceptance\<close>

definition action_succeeded :: "string \<Rightarrow> dict \<Rightarrow> bool" where
  "action_succeeded flow result =
     (if flow = ''inspect'' then get_field ''status'' result = JStr ''INSPECTED''
      else if flow = ''verify'' then
        get_field ''request_satisfied'' result = JBool True \<and>
        (case get_field ''evidence'' result of
          JObj e \<Rightarrow> get_field ''publication_status'' e = JStr ''COMMITTED'' | _ \<Rightarrow> False)
      else False)"

definition result_of :: "string \<Rightarrow> dict list \<Rightarrow> json" where
  "result_of flow ds = (case filter (\<lambda>d. get_field ''workflow'' d = JStr flow) ds of
     [] \<Rightarrow> JObj [] | d # _ \<Rightarrow> get_default ''result'' (JObj []) d)"

text \<open>The conjunction is evaluated from the left, and the results are read as objects.\<close>

definition goal_satisfied :: "dict list \<Rightarrow> service_error + bool" where
  "goal_satisfied ds =
     (if length ds = 2 \<and> (\<forall>d \<in> set ds. get_field ''state'' d = JStr ''completed'') then
        and_then (as_dict (result_of ''inspect'' ds)) (\<lambda>inspection.
        if \<not> action_succeeded ''inspect'' inspection then Inr False
        else and_then (as_dict (result_of ''verify'' ds)) (\<lambda>verification.
          Inr (action_succeeded ''verify'' verification)))
      else Inr False)"

definition approval_required :: "string list" where
  "approval_required = [''contract changes'', ''source application'', ''promotion'', ''signing'',
     ''trust policy changes'', ''merge'']"

definition build_review :: "run_files \<Rightarrow> agent_goal \<Rightarrow> dict \<Rightarrow> dict \<Rightarrow> service_error + dict" where
  "build_review w g r authority =
     and_then (actions_of r) (\<lambda>items.
     and_then (map_res as_dict items) (\<lambda>ds.
     and_then (goal_satisfied ds) (\<lambda>satisfied.
     and_then (as_dict (result_of ''verify'' ds)) (\<lambda>verification.
     and_then (as_list (get_default ''unresolved_findings'' (JArr []) r)) (\<lambda>findings.
     Inr [(''schema'', JStr ''formalspecgen-agent-review-v1''), (''run_id'', JStr (run_id g)),
       (''goal_sha256'', JStr (goal_sha256 (run_hash w) g)), (''objective'', JStr (goal_objective g)),
       (''task_type'', JStr (task_type g)), (''base_revision'', JStr (goal_revision g)),
       (''source'', JStr (source g)), (''source_sha256'', JStr (source_sha256 g)),
       (''status'', JStr (if satisfied then ''COMPLETED''
          else ascii_upper (py_str (value_text w) (get_default ''state'' (JStr ''FAILED'') r)))),
       (''claim'', get_default ''claim'' (JStr ''NO_PROOF'') verification),
       (''request_satisfied'', JBool satisfied), (''inspection'', result_of ''inspect'' ds),
       (''verification'', JObj verification), (''unresolved_findings'', JArr findings),
       (''actions'', JArr (map (\<lambda>d. JObj (pop_field ''result'' d)) ds)), (''authority'', JObj authority),
       (''agent_policy_version'', JStr ''supervised-agent-v1''),
       (''human_approval'', JObj [(''required_for'', jstrings approval_required), (''granted'', JBool False)])])))))"

section \<open>The action gateway\<close>

text \<open>The source file is digested before and after the action; both readings are arguments.\<close>

record gateway =
  gw_root :: string
  gw_admission :: mcp_admission
  gw_resolve :: "string \<Rightarrow> string"
  gw_is_file :: "string \<Rightarrow> bool"
  gw_before :: "string \<Rightarrow> string"
  gw_after :: "string \<Rightarrow> string"
  gw_inspect :: "string \<Rightarrow> (run_store, json) run"
  gw_verify :: "string \<Rightarrow> string \<Rightarrow> string \<Rightarrow> (run_store, json) run"

definition gateway_require :: "gateway \<Rightarrow> string \<Rightarrow> service_error + unit" where
  "gateway_require gw effect = (case require_mcp_effect (gw_admission gw) effect of
     Inl (MCPPolicyViolation message) \<Rightarrow> Inl (run_fail ''EFFECT_NOT_AUTHORIZED'' message)
   | other \<Rightarrow> other)"

text \<open>\<^verbatim>\<open>json.dumps(retained, default=str)\<close> with ASCII escapes and spaced separators.\<close>

definition esc_ascii :: "char \<Rightarrow> string" where
  "esc_ascii c = (let n = of_char c :: nat in
     if n < 127 then esc c else bs @ ''u00'' @ [hexdig (n div 16), hexdig (n mod 16)])"

definition quote_ascii :: "string \<Rightarrow> string" where
  "quote_ascii s = CHR 0x22 # concat (map esc_ascii s) @ [CHR 0x22]"

fun dumps :: "json \<Rightarrow> string" where
  "dumps (JStr s) = quote_ascii s"
| "dumps (JArr xs) = ''['' @ join '', '' (map dumps xs) @ '']''"
| "dumps (JObj kvs) = ''{'' @ join '', '' (map (\<lambda>(k, v). quote_ascii k @ '': '' @ dumps v) kvs) @ ''}''"
| "dumps j = render j"

definition result_limit :: nat where
  "result_limit = 2 * 1024 * 1024"

definition bounded_result :: "dict \<Rightarrow> service_error + dict" where
  "bounded_result result = (let retained = filter (\<lambda>kv. fst kv \<notin> {''output'', ''execution_stages''}) result in
     and_then (ensure (length (dumps (JObj retained)) \<le> result_limit)
       (run_fail ''ACTION_RESULT_LIMIT_EXCEEDED'' ''workflow result exceeds the run limit'')) (\<lambda>_. Inr retained))"

definition perform :: "gateway \<Rightarrow> agent_goal \<Rightarrow> planned_action \<Rightarrow> (run_store, json) run" where
  "perform gw g a =
     (if act_workflow a = ''inspect'' then gw_inspect gw (source g)
      else if act_workflow a = ''verify'' then
        bind_run (pure_run (gateway_require gw ''external_execution'')) (\<lambda>_.
        bind_run (pure_run (gateway_require gw ''evidence_publication'')) (\<lambda>_.
        gw_verify gw (source g) (goal_mode g) (goal_backend g)))
      else pure_run (Inl (run_fail ''UNKNOWN_ACTION'' ''the plan requested an unknown action'')))"

definition execute :: "gateway \<Rightarrow> agent_goal \<Rightarrow> planned_action \<Rightarrow> (run_store, dict) run" where
  "execute gw g a =
     bind_run (pure_run (ensure (act_workflow a \<in> set (permitted_workflows g))
       (run_fail ''ACTION_NOT_AUTHORIZED'' ''planned workflow is not permitted''))) (\<lambda>_.
     bind_run (pure_run (source_path (gw_resolve gw) g (gw_root gw))) (\<lambda>path.
     bind_run (pure_run (ensure (gw_is_file gw path)
       (run_fail ''SOURCE_UNAVAILABLE'' ''approved source is unavailable''))) (\<lambda>_.
     bind_run (pure_run (gateway_require gw ''workspace_read'')) (\<lambda>_.
     bind_run (pure_run (ensure (gw_before gw path = source_sha256 g)
       (run_fail ''SOURCE_SNAPSHOT_MISMATCH'' ''source bytes changed after the goal was approved''))) (\<lambda>_.
     bind_run (perform gw g a) (\<lambda>j.
     bind_run (pure_run (case j of JObj d \<Rightarrow> Inr d
       | _ \<Rightarrow> Inl (run_fail ''ACTION_RESULT_INVALID'' ''workflow result is not structured''))) (\<lambda>result.
     bind_run (pure_run (ensure (gw_after gw path = source_sha256 g)
       (run_fail ''SOURCE_SNAPSHOT_MISMATCH'' ''source changed while the action was running''))) (\<lambda>_.
     pure_run (bounded_result result)))))))))"

section \<open>The supervisor\<close>

record supervisor =
  sup_files :: run_files
  sup_gateway :: gateway
  sup_admission :: mcp_admission
  sup_clock :: clock_reading
  sup_expand :: "string \<Rightarrow> string"

definition require_effect :: "supervisor \<Rightarrow> string \<Rightarrow> (run_store, unit) run" where
  "require_effect s effect = pure_run (require_mcp_effect (sup_admission s) effect)"

definition is_terminal_run :: "json \<Rightarrow> bool" where
  "is_terminal_run j = (case j of JStr s \<Rightarrow> s \<in> set terminal_run_states | _ \<Rightarrow> False)"

text \<open>The functions that \<open>update\<close> applies to the stored record.\<close>

definition claim_change :: "planned_action \<Rightarrow> dict \<Rightarrow> service_error + dict" where
  "claim_change a r =
     and_then (ensure (get_field ''active_action'' r = JNull)
       (run_fail ''RUN_BUSY'' ''another action is already active'')) (\<lambda>_.
     and_then (ensure (\<not> is_terminal_run (get_field ''state'' r))
       (run_fail ''RUN_TERMINAL'' ''agent run is already terminal'')) (\<lambda>_.
     Inr (update_fields r [(''state'', JStr ''running''), (''active_action'', JObj (action_dict a))])))"

text \<open>\<open>record.get("active_action") or {}\<close>.\<close>

definition active_of :: "dict \<Rightarrow> service_error + dict" where
  "active_of r = (let active = get_field ''active_action'' r in
     if json_true active then as_dict active else Inr [])"

definition append_finding :: "dict \<Rightarrow> dict \<Rightarrow> service_error + dict" where
  "append_finding finding r =
     and_then (as_list (get_default ''unresolved_findings'' (JArr []) r)) (\<lambda>findings.
     Inr (AList.update ''unresolved_findings'' (JArr (findings @ [JObj finding])) r))"

definition observe_change :: "planned_action \<Rightarrow> dict \<Rightarrow> dict \<Rightarrow> service_error + dict" where
  "observe_change a result r =
     and_then (active_of r) (\<lambda>active.
     and_then (ensure (json_is_int (get_field ''sequence'' active) (act_sequence a))
       (run_fail ''RUN_STATE_INVALID'' ''active action identity changed'')) (\<lambda>_.
     let succeeded = action_succeeded (act_workflow a) result in
     and_then (actions_of r) (\<lambda>items.
     let observed = update_fields r
       [(''actions'', JArr (items @ [JObj (action_dict a @ [(''state'', JStr ''completed''),
          (''succeeded'', JBool succeeded), (''result'', JObj result)])])),
        (''active_action'', JNull)]
     in and_then (if succeeded then Inr observed
         else and_then (as_int (get_default ''failure_count'' (JInt 0) observed)) (\<lambda>n.
           append_finding [(''workflow'', JStr (act_workflow a)),
             (''status'', get_default ''status'' (JStr ''UNKNOWN'') result),
             (''code'', get_field ''code'' result), (''message'', get_field ''message'' result)]
             (AList.update ''failure_count'' (JInt (n + 1)) observed))) (\<lambda>noted.
       Inr (AList.update ''state'' (JStr ''planned'') noted)))))"

definition block_change :: "string \<Rightarrow> string \<Rightarrow> dict \<Rightarrow> service_error + dict" where
  "block_change code message r =
     and_then (active_of r) (\<lambda>active.
     and_then (append_finding [(''workflow'', get_field ''workflow'' active), (''status'', JStr ''BLOCKED''),
       (''code'', JStr code), (''message'', JStr message)] r) (\<lambda>r'.
     Inr (AList.update ''active_action'' JNull r')))"

definition final_change :: "string \<Rightarrow> dict \<Rightarrow> dict \<Rightarrow> dict \<Rightarrow> service_error + dict" where
  "final_change state receipt review r =
     (if get_field ''review'' r \<noteq> JNull then Inr r
      else Inr (update_fields r [(''state'', JStr state), (''active_action'', JNull), (''review'', JObj receipt),
        (''request_satisfied'', JBool (json_true (get_field ''request_satisfied'' review))),
        (''claim'', get_field ''claim'' review)]))"

definition cancel_change :: "dict \<Rightarrow> service_error + dict" where
  "cancel_change r =
     (if is_terminal_run (get_field ''state'' r) then Inr r
      else Inr (update_fields r [(''cancel_requested'', JBool True),
        (''state'', JStr (if json_true (get_field ''active_action'' r) then ''cancellation_pending'' else ''cancelled''))]))"

definition update_op :: "supervisor \<Rightarrow> string \<Rightarrow> string \<Rightarrow> (dict \<Rightarrow> service_error + dict) \<Rightarrow> (run_store, dict) run" where
  "update_op s rid who change = store_op (update_run (sup_files s) (sup_clock s) rid who change)"

definition read_op :: "supervisor \<Rightarrow> string \<Rightarrow> string \<Rightarrow> (run_store, dict) run" where
  "read_op s rid who = store_read (\<lambda>st. get_run (sup_files s) st rid who)"

definition goal_of_record :: "supervisor \<Rightarrow> dict \<Rightarrow> service_error + agent_goal" where
  "goal_of_record s r = and_then (as_dict (get_default ''goal'' (JObj []) r))
     (goal_of_dict (sup_expand s))"

definition finalize :: "supervisor \<Rightarrow> agent_goal \<Rightarrow> string \<Rightarrow> string \<Rightarrow> (run_store, dict) run" where
  "finalize s g who state =
     bind_run (require_effect s ''evidence_publication'') (\<lambda>_.
     bind_run (read_op s (run_id g) who) (\<lambda>r.
     if get_field ''review'' r \<noteq> JNull then ret r
     else bind_run (pure_run (build_review (sup_files s) g (AList.update ''state'' (JStr state) r)
           (admission_summary (run_hash (sup_files s)) (sup_admission s)))) (\<lambda>review.
       bind_run (store_op (publish_review (sup_files s) (run_id g) who review)) (\<lambda>receipt.
       update_op s (run_id g) who (final_change state receipt review)))))"

definition block :: "supervisor \<Rightarrow> agent_goal \<Rightarrow> string \<Rightarrow> string \<Rightarrow> string \<Rightarrow> (run_store, dict) run" where
  "block s g who code message =
     bind_run (update_op s (run_id g) who (block_change code message)) (\<lambda>_. finalize s g who ''blocked'')"

definition failure_result :: "string \<Rightarrow> string \<Rightarrow> dict" where
  "failure_result code message = [(''status'', JStr ''FAIL''), (''claim'', JStr ''NO_PROOF''),
     (''request_satisfied'', JBool False), (''code'', JStr code), (''message'', JStr message)]"

definition record_failure :: "supervisor \<Rightarrow> agent_goal \<Rightarrow> string \<Rightarrow> planned_action \<Rightarrow> string \<Rightarrow> string
    \<Rightarrow> (run_store, dict) run" where
  "record_failure s g who a code message =
     bind_run (update_op s (run_id g) who (observe_change a (failure_result code message)))
       (\<lambda>_. finalize s g who ''blocked'')"

text \<open>\<open>_advance\<close> loops until it returns; \<open>None\<close> is a loop cut off after \<open>n\<close> rounds, which the
  supervisor's bound of three never is (theory Agent_Safety).\<close>

definition done_with :: "(run_store, dict) run \<Rightarrow> (run_store, dict option) run" where
  "done_with m = bind_run m (\<lambda>r. ret (Some r))"

fun advance :: "nat \<Rightarrow> supervisor \<Rightarrow> agent_goal \<Rightarrow> string \<Rightarrow> (run_store, dict option) run" where
  "advance 0 s g who = ret None"
| "advance (Suc n) s g who =
     bind_run (read_op s (run_id g) who) (\<lambda>r.
     if is_terminal_run (get_field ''state'' r) then ret (Some r)
     else if json_true (get_field ''cancel_requested'' r) then done_with (finalize s g who ''cancelled'')
     else (case next_action g r of
         Inl (AgentRunError code message) \<Rightarrow> done_with (block s g who code message)
       | Inl e \<Rightarrow> pure_run (Inl e)
       | Inr None \<Rightarrow> done_with (finalize s g who ''completed'')
       | Inr (Some a) \<Rightarrow>
           bind_run (update_op s (run_id g) who (claim_change a)) (\<lambda>_.
           handle_run (execute (sup_gateway s) g a)
             (\<lambda>e. case e of AgentRunError code message \<Rightarrow> done_with (record_failure s g who a code message)
                | _ \<Rightarrow> pure_run (Inl e))
             (\<lambda>result.
               bind_run (update_op s (run_id g) who (observe_change a result)) (\<lambda>r.
               if json_true (get_field ''cancel_requested'' r) then done_with (finalize s g who ''cancelled'')
               else if \<not> action_succeeded (act_workflow a) result then done_with (finalize s g who ''failed'')
               else advance n s g who)))))"

definition rounds :: nat where
  "rounds = 3"

definition advance_run :: "supervisor \<Rightarrow> agent_goal \<Rightarrow> string \<Rightarrow> (run_store, dict option) run" where
  "advance_run s g who = advance rounds s g who"

definition start :: "supervisor \<Rightarrow> agent_goal \<Rightarrow> string \<Rightarrow> (run_store, dict option) run" where
  "start s g who =
     bind_run (require_effect s ''service_state_read'') (\<lambda>_.
     bind_run (require_effect s ''service_state_write'') (\<lambda>_.
     bind_run (store_op (create_run (sup_files s) (sup_clock s) g who)) (\<lambda>(r, _).
     if is_terminal_run (get_field ''state'' r) \<or> get_field ''active_action'' r \<noteq> JNull then ret (Some r)
     else advance_run s g who)))"

definition get_agent_run :: "supervisor \<Rightarrow> string \<Rightarrow> string \<Rightarrow> (run_store, dict) run" where
  "get_agent_run s rid who =
     bind_run (require_effect s ''service_state_read'') (\<lambda>_. read_op s rid who)"

definition resume :: "supervisor \<Rightarrow> string \<Rightarrow> string \<Rightarrow> (run_store, dict option) run" where
  "resume s rid who =
     bind_run (require_effect s ''service_state_read'') (\<lambda>_.
     bind_run (require_effect s ''service_state_write'') (\<lambda>_.
     bind_run (read_op s rid who) (\<lambda>r.
     bind_run (pure_run (goal_of_record s r)) (\<lambda>g.
     if is_terminal_run (get_field ''state'' r) then ret (Some r)
     else if get_field ''active_action'' r \<noteq> JNull then
       done_with (block s g who ''ACTION_OUTCOME_UNKNOWN'' ''an interrupted action requires operator reconciliation'')
     else advance_run s g who))))"

definition cancel_run :: "supervisor \<Rightarrow> string \<Rightarrow> string \<Rightarrow> (run_store, dict) run" where
  "cancel_run s rid who =
     bind_run (require_effect s ''service_state_read'') (\<lambda>_.
     bind_run (require_effect s ''service_state_write'') (\<lambda>_.
     bind_run (update_op s rid who cancel_change) (\<lambda>r.
     if get_field ''state'' r = JStr ''cancelled'' \<and> get_field ''review'' r = JNull then
       bind_run (pure_run (goal_of_record s r)) (\<lambda>g. finalize s g who ''cancelled'')
     else ret r)))"

section \<open>Reading a run\<close>

definition read_request :: "string \<Rightarrow> service_error + string" where
  "read_request rid = and_then (ensure (is_identifier rid) (run_fail ''INVALID_GOAL'' ''invalid run_id'')) (\<lambda>_. Inr rid)"

definition run_response :: "run_files \<Rightarrow> dict \<Rightarrow> dict" where
  "run_response w r =
     [(''status'', JStr (ascii_upper (py_str (value_text w) (get_default ''state'' (JStr ''unknown'') r)))),
      (''claim'', get_default ''claim'' (JStr ''NO_PROOF'') r),
      (''request_satisfied'', JBool (json_true (get_default ''request_satisfied'' (JBool False) r))),
      (''run_id'', get_field ''run_id'' r), (''agent_run'', JObj (pop_field ''principal_id'' r)),
      (''review'', get_field ''review'' r), (''source_changes_applied'', JBool False),
      (''human_approval_granted'', JBool False)]"

text \<open>The principal and the root of the store come from the environment of the process; the store is opened
  without creating it.\<close>

definition open_run_store :: "operator_world \<Rightarrow> string \<Rightarrow> service_error + unit" where
  "open_run_store ow root =
     ensure (directory_at ow (root @ ''/runs'') \<and> exists_at ow (root @ ''/.lock''))
       (run_fail ''RUN_STORE_UNAVAILABLE'' ''agent run store is unavailable'')"

definition read_agent_run :: "run_files \<Rightarrow> operator_world \<Rightarrow> workflow_context \<Rightarrow> string \<Rightarrow> run_store \<Rightarrow> service_error + dict" where
  "read_agent_run w ow context rid st =
     and_then (require context ''service_state_read'') (\<lambda>_.
     let who = (case environment ow ''FORMALSPECGEN_AGENT_PRINCIPAL'' of None \<Rightarrow> [] | Some v \<Rightarrow> str_strip v) in
     and_then (ensure (who \<noteq> []) (PyValueError ''FORMALSPECGEN_AGENT_PRINCIPAL is not configured'')) (\<lambda>_.
     and_then (operator_controlled_path ow ''FORMALSPECGEN_AGENT_STATE_ROOT'' False) (\<lambda>root.
     and_then (open_run_store ow root) (\<lambda>_.
     and_then (get_run w st rid who) (\<lambda>r. Inr (run_response w r))))))"

end
