(* ===== verification/Agent_Lifecycle.thy ===== *)
theory Agent_Lifecycle
  imports Agent_Supervisor
begin

text \<open>
  The life of an agent run.  \<open>run_change\<close> is the relation between the record an operation loads
  and the one it appends, \<open>run_step\<close> lets any supervisor perform any store operation; the store
  refines, run by run, \<open>run_change\<close>, and the invariants of records are proved there.
\<close>

section \<open>The store as an event store\<close>

lemma run_link_ok_iff:
  "link_ok sha agent_event_schema n p (Some (JObj v)) \<longleftrightarrow>
     get_field ''schema'' v = JStr agent_event_schema \<and> json_is_int (get_field ''sequence'' v) (int n) \<and>
     get_field ''previous_sha256'' v = p \<and>
     get_field ''sha256'' v = JStr (digest sha (JObj (pop_field ''sha256'' v)))"
  by (simp add: link_ok_def)

lemma read_run_events_iff:
  "read_run_events w n p r fs = Inr r' \<longleftrightarrow>
     chain_from (run_hash w) agent_event_schema n p fs \<and> r' = (if fs = [] then r else file_record (last fs))"
proof (induction fs arbitrary: n p r)
  case (Cons f fs)
  show ?case
  proof (cases "\<exists>v. f = Some (JObj v)")
    case True
    then obtain v where f: "f = Some (JObj v)" by blast
    show ?thesis
      by (auto simp: f Let_def and_then_Inr_iff Cons.IH run_link_ok_iff file_record_def file_digest_def pop_field_get)
  next
    case False
    then have "read_run_events w n p r (f # fs) \<noteq> Inr r'" by (auto split: option.splits json.splits)
    moreover have "\<not> link_ok (run_hash w) agent_event_schema n p f"
      using False by (auto simp: link_ok_def split: option.splits json.splits)
    ultimately show ?thesis by simp
  qed
qed auto

interpretation runs: event_store "run_hash w" agent_event_schema "load_log w" "add_run_event w" run_schema_ok for w
proof
  show "load_log w d = Inr r \<longleftrightarrow> events d \<noteq> [] \<and> chain (run_hash w) agent_event_schema (events d) \<and>
      file_record (last (events d)) = JObj r \<and> run_schema_ok r" for d r
    by (auto simp: load_log_def and_then_Inr_iff read_run_events_iff chain_def split: json.splits if_splits)
  show "add_run_event w now r d = append_event (run_hash w) agent_event_schema now r d" for now r d
    by (simp add: add_run_event_def)
qed

section \<open>Records\<close>

inductive run_change :: "dict \<Rightarrow> dict \<Rightarrow> bool" where
  claim: "claim_change a r = Inr r' \<Longrightarrow> run_change r (AList.update ''updated_at'' t r')"
| observe: "observe_change a result r = Inr r' \<Longrightarrow> run_change r (AList.update ''updated_at'' t r')"
| block: "block_change code message r = Inr r' \<Longrightarrow> run_change r (AList.update ''updated_at'' t r')"
| cancel: "cancel_change r = Inr r' \<Longrightarrow> run_change r (AList.update ''updated_at'' t r')"
| final: "\<lbrakk>final_change state receipt review r = Inr r'; state \<in> set terminal_run_states\<rbrakk>
    \<Longrightarrow> run_change r (AList.update ''updated_at'' t r')"

definition completed_item :: "json \<Rightarrow> bool" where
  "completed_item j = (case j of JObj d \<Rightarrow> get_field ''state'' d = JStr ''completed'' | _ \<Rightarrow> False)"

definition items_of :: "dict \<Rightarrow> json list" where
  "items_of r = (case get_field ''actions'' r of JArr items \<Rightarrow> items | _ \<Rightarrow> [])"

definition actions_ok :: "dict \<Rightarrow> bool" where
  "actions_ok r = (case get_field ''actions'' r of JArr items \<Rightarrow> list_all completed_item items | _ \<Rightarrow> False)"

definition active_ok :: "json \<Rightarrow> bool" where
  "active_ok j = (case j of JNull \<Rightarrow> True | JObj d \<Rightarrow> d \<noteq> [] | _ \<Rightarrow> False)"

text \<open>Recorded actions are completed; a terminal run has no active action; a reviewed run is
  terminal.\<close>

definition run_ok :: "dict \<Rightarrow> bool" where
  "run_ok r \<longleftrightarrow> run_schema_ok r \<and> actions_ok r \<and> active_ok (get_field ''active_action'' r) \<and>
     (is_terminal_run (get_field ''state'' r) \<longrightarrow> get_field ''active_action'' r = JNull) \<and>
     (get_field ''review'' r \<noteq> JNull \<longrightarrow> is_terminal_run (get_field ''state'' r))"

lemma initial_run_ok: "run_ok (initial_run w now g who)"
  by (simp add: run_ok_def initial_run_def run_schema_ok_def actions_ok_def active_ok_def is_terminal_run_def
      terminal_run_states_def)

lemma append_findingD:
  "append_finding f r = Inr r' \<Longrightarrow> \<exists>fs. r' = AList.update ''unresolved_findings'' (JArr fs) r"
  by (auto simp: append_finding_def and_then_Inr_iff)

lemma active_ofD: "active_of r = Inr d \<Longrightarrow> get_field k d \<noteq> JNull \<Longrightarrow> get_field ''active_action'' r = JObj d"
  unfolding active_of_def by (cases "get_field ''active_action'' r") (auto simp: Let_def split: if_splits)

lemma json_is_int_not_null [simp]: "\<not> json_is_int JNull n"
  by (simp add: json_is_int_def)

lemma claim_changeD:
  assumes "claim_change a r = Inr r'"
  shows "get_field ''active_action'' r = JNull" and "\<not> is_terminal_run (get_field ''state'' r)"
    and "r' = update_fields r [(''state'', JStr ''running''), (''active_action'', JObj (action_dict a))]"
  using assms unfolding claim_change_def by (auto elim!: and_then_InrE simp del: update_fields.simps)

lemma observeD:
  assumes "observe_change a result r = Inr r'"
  obtains active items item where "get_field ''active_action'' r = JObj active"
    "json_is_int (get_field ''sequence'' active) (act_sequence a)"
    "get_default ''actions'' (JArr []) r = JArr items" "completed_item item"
    "get_field ''actions'' r' = JArr (items @ [item])" "get_field ''active_action'' r' = JNull"
    "get_field ''state'' r' = JStr ''planned''"
    "\<And>k. k \<notin> set [''actions'', ''active_action'', ''failure_count'', ''unresolved_findings'', ''state'']
       \<Longrightarrow> get_field k r' = get_field k r"
proof -
  obtain active where a: "active_of r = Inr active" "json_is_int (get_field ''sequence'' active) (act_sequence a)"
    using assms unfolding observe_change_def by (auto elim!: and_then_InrE)
  have act: "get_field ''active_action'' r = JObj active" using active_ofD[OF a(1)] a(2) by force
  obtain items where items: "actions_of r = Inr items"
    using assms unfolding observe_change_def Let_def by (auto elim!: and_then_InrE)
  then have it: "get_default ''actions'' (JArr []) r = JArr items"
    unfolding actions_of_def by (cases "get_default ''actions'' (JArr []) r") auto
  define item where "item = JObj (action_dict a @ [(''state'', JStr ''completed''),
      (''succeeded'', JBool (action_succeeded (act_workflow a) result)), (''result'', JObj result)])"
  define observed where "observed = update_fields r [(''actions'', JArr (items @ [item])), (''active_action'', JNull)]"
  have "completed_item item" by (simp add: completed_item_def item_def action_dict_def)
  have "\<exists>noted. r' = AList.update ''state'' (JStr ''planned'') noted \<and>
    (noted = observed \<or> (\<exists>n fs. noted = AList.update ''unresolved_findings'' (JArr fs)
       (AList.update ''failure_count'' (JInt n) observed)))"
    using assms unfolding observe_change_def Let_def a(1) items and_then_simps
      item_def[symmetric] observed_def[symmetric]
    by (auto elim!: and_then_InrE dest!: append_findingD split: if_splits)
  then obtain noted where r': "r' = AList.update ''state'' (JStr ''planned'') noted"
    and n: "noted = observed \<or> (\<exists>n fs. noted = AList.update ''unresolved_findings'' (JArr fs)
       (AList.update ''failure_count'' (JInt n) observed))" by blast
  have f: "get_field k noted = get_field k observed" if "k \<noteq> ''unresolved_findings''" "k \<noteq> ''failure_count''" for k
    using n that by auto
  show thesis
    by (rule that[OF act a(2) it \<open>completed_item item\<close>]) (simp_all add: r' f observed_def)
qed

lemma blockD:
  assumes "block_change code message r = Inr r'"
  shows "\<exists>fs. r' = AList.update ''active_action'' JNull (AList.update ''unresolved_findings'' (JArr fs) r)"
  using assms unfolding block_change_def by (auto elim!: and_then_InrE dest!: append_findingD)

definition run_identity :: "string list" where
  "run_identity = [''schema'', ''run_id'', ''principal_id'', ''request_sha256'', ''goal'', ''created_at'']"

definition outcome_fields :: "string list" where
  "outcome_fields = [''state'', ''review'', ''claim'', ''request_satisfied'']"

text \<open>What one change does to a record that satisfies the invariant.\<close>

definition run_grows :: "dict \<Rightarrow> dict \<Rightarrow> bool" where
  "run_grows r r' \<longleftrightarrow> run_ok r' \<and> (\<forall>k \<in> set run_identity. get_field k r' = get_field k r) \<and>
     (\<exists>more. items_of r' = items_of r @ more) \<and>
     (is_terminal_run (get_field ''state'' r) \<longrightarrow>
        is_terminal_run (get_field ''state'' r') \<and> items_of r' = items_of r) \<and>
     (get_field ''review'' r \<noteq> JNull \<longrightarrow> (\<forall>k \<in> set outcome_fields. get_field k r' = get_field k r))"

lemma run_ok_cong:
  assumes "get_field ''schema'' r' = get_field ''schema'' r" "get_field ''actions'' r' = get_field ''actions'' r"
    "get_field ''active_action'' r' = get_field ''active_action'' r" "get_field ''state'' r' = get_field ''state'' r"
    "get_field ''review'' r' = get_field ''review'' r"
  shows "run_ok r' = run_ok r" and "items_of r' = items_of r"
  using assms by (simp_all add: run_ok_def run_schema_ok_def actions_ok_def items_of_def)

lemma run_grows_stamp: "run_grows r r' \<Longrightarrow> run_grows r (AList.update ''updated_at'' t r')"
  using run_ok_cong[of "AList.update ''updated_at'' t r'" r']
  by (simp add: run_grows_def run_identity_def outcome_fields_def)

lemma claim_grows:
  assumes "claim_change a r = Inr r'" and "run_ok r"
  shows "run_grows r r'"
proof -
  note c = claim_changeD[OF assms(1)]
  have rev: "get_field ''review'' r = JNull" using assms(2) c(2) by (auto simp: run_ok_def)
  have "run_ok r'" using assms(2) rev
    by (simp add: c(3) run_ok_def run_schema_ok_def actions_ok_def active_ok_def is_terminal_run_def
        terminal_run_states_def action_dict_def)
  moreover have "items_of r' = items_of r" by (simp add: c(3) items_of_def)
  ultimately show ?thesis using c(2) rev by (simp add: run_grows_def c(3) run_identity_def)
qed

lemma observe_grows:
  assumes "observe_change a result r = Inr r'" and "run_ok r"
  shows "run_grows r r'" and "\<exists>item. items_of r' = items_of r @ [item]"
proof -
  obtain active items item where o: "get_field ''active_action'' r = JObj active"
    "get_default ''actions'' (JArr []) r = JArr items" "completed_item item"
    "get_field ''actions'' r' = JArr (items @ [item])" "get_field ''active_action'' r' = JNull"
    "get_field ''state'' r' = JStr ''planned''"
    "\<And>k. k \<notin> set [''actions'', ''active_action'', ''failure_count'', ''unresolved_findings'', ''state'']
       \<Longrightarrow> get_field k r' = get_field k r"
    using assms(1) by (rule observeD) blast
  have acts: "get_field ''actions'' r = JArr items"
    using assms(2) o(2) get_default_present[of "''actions''" r "JArr []"]
    by (auto simp: run_ok_def actions_ok_def split: json.splits)
  then show ext: "\<exists>item. items_of r' = items_of r @ [item]" using o(4) by (simp add: items_of_def)
  have nt: "\<not> is_terminal_run (get_field ''state'' r)" using assms(2) o(1) by (auto simp: run_ok_def)
  then have rev: "get_field ''review'' r = JNull" using assms(2) by (auto simp: run_ok_def)
  have same: "get_field ''schema'' r' = get_field ''schema'' r" "get_field ''review'' r' = get_field ''review'' r"
    by (simp_all add: o(7))
  have "run_ok r'" using assms(2) acts rev same
    by (simp add: run_ok_def run_schema_ok_def actions_ok_def o(3-6) active_ok_def is_terminal_run_def terminal_run_states_def)
  moreover have "\<forall>k \<in> set run_identity. get_field k r' = get_field k r"
    by (simp add: run_identity_def o(7))
  ultimately show "run_grows r r'" using ext nt rev by (auto simp: run_grows_def)
qed

lemma block_grows:
  assumes "block_change code message r = Inr r'" and "run_ok r"
  shows "run_grows r r'"
proof -
  obtain fs where r': "r' = AList.update ''active_action'' JNull (AList.update ''unresolved_findings'' (JArr fs) r)"
    using blockD[OF assms(1)] by blast
  have "run_ok r'" "items_of r' = items_of r"
    using assms(2) by (simp_all add: r' run_ok_def run_schema_ok_def actions_ok_def active_ok_def items_of_def)
  then show ?thesis by (simp add: run_grows_def r' run_identity_def outcome_fields_def)
qed

lemma cancel_grows:
  assumes "cancel_change r = Inr r'" and "run_ok r"
  shows "run_grows r r'"
proof (cases "is_terminal_run (get_field ''state'' r)")
  case True
  with assms show ?thesis by (simp add: cancel_change_def run_grows_def)
next
  case False
  then have rev: "get_field ''review'' r = JNull" using assms(2) by (auto simp: run_ok_def)
  let ?s = "if json_true (get_field ''active_action'' r) then ''cancellation_pending'' else ''cancelled''"
  have r': "r' = update_fields r [(''cancel_requested'', JBool True), (''state'', JStr ?s)]"
    using assms(1) False by (simp add: cancel_change_def)
  have act: "get_field ''active_action'' r = JNull \<or> json_true (get_field ''active_action'' r)"
    using assms(2) by (auto simp: run_ok_def active_ok_def split: json.splits)
  have "run_ok r'" "items_of r' = items_of r"
    using assms(2) rev act by (auto simp: r' run_ok_def run_schema_ok_def actions_ok_def items_of_def
        is_terminal_run_def terminal_run_states_def)
  then show ?thesis using False rev by (simp add: run_grows_def r' run_identity_def)
qed

lemma final_grows:
  assumes "final_change state receipt review r = Inr r'" and "state \<in> set terminal_run_states" and "run_ok r"
  shows "run_grows r r'"
proof (cases "get_field ''review'' r = JNull")
  case False
  with assms show ?thesis by (simp add: final_change_def run_grows_def)
next
  case True
  have r': "r' = update_fields r [(''state'', JStr state), (''active_action'', JNull), (''review'', JObj receipt),
        (''request_satisfied'', JBool (json_true (get_field ''request_satisfied'' review))),
        (''claim'', get_field ''claim'' review)]"
    using assms(1) True by (simp add: final_change_def)
  have "run_ok r'" "items_of r' = items_of r" "is_terminal_run (get_field ''state'' r')"
    using assms(2,3) by (simp_all add: r' run_ok_def run_schema_ok_def actions_ok_def items_of_def active_ok_def
        is_terminal_run_def)
  then show ?thesis using True by (simp add: run_grows_def r' run_identity_def)
qed

lemma run_change_grows: "run_change r r' \<Longrightarrow> run_ok r \<Longrightarrow> run_grows r r'"
  by (induction rule: run_change.induct)
     (blast intro: run_grows_stamp claim_grows observe_grows(1) block_grows cancel_grows final_grows)+

lemma run_grows_refl: "run_ok r \<Longrightarrow> run_grows r r"
  by (simp add: run_grows_def)

lemma run_grows_trans:
  assumes "run_grows a b" and "run_grows b c"
  shows "run_grows a c"
proof -
  have rev: "get_field ''review'' b = get_field ''review'' a" if "get_field ''review'' a \<noteq> JNull"
    using assms(1) that by (simp add: run_grows_def outcome_fields_def)
  from assms show ?thesis unfolding run_grows_def using rev by (auto simp: run_grows_def)
qed

section \<open>Steps of the store\<close>

inductive supervisor_change :: "(dict \<Rightarrow> service_error + dict) \<Rightarrow> bool" where
  "supervisor_change (claim_change a)"
| "supervisor_change (observe_change a result)"
| "supervisor_change (block_change code message)"
| "supervisor_change cancel_change"
| "state \<in> set terminal_run_states \<Longrightarrow> supervisor_change (final_change state receipt review)"

lemma supervisor_change_run:
  "supervisor_change change \<Longrightarrow> change r = Inr r' \<Longrightarrow> run_change r (AList.update ''updated_at'' t r')"
  by (induction rule: supervisor_change.induct) (auto intro: run_change.intros)

definition run_room :: "run_store \<Rightarrow> string \<Rightarrow> bool" where
  "run_room st rid \<longleftrightarrow> length (run_log (run_directory st rid)) < 999999"

inductive agent_step :: "run_files \<Rightarrow> run_store \<Rightarrow> run_store \<Rightarrow> bool" for w where
  create: "\<lbrakk>create_run w now g who st = Inr (x, st'); run_room st (run_id g)\<rbrakk> \<Longrightarrow> agent_step w st st'"
| update: "\<lbrakk>update_run w now rid who change st = Inr (x, st'); supervisor_change change; run_room st rid\<rbrakk>
    \<Longrightarrow> agent_step w st st'"
| publish: "publish_review w rid who review st = Inr (x, st') \<Longrightarrow> agent_step w st st'"

definition run_log_ok :: "run_files \<Rightarrow> string \<Rightarrow> dir \<Rightarrow> bool" where
  "run_log_ok w rid d \<longleftrightarrow> numbered d \<and> length d \<le> 999999 \<and> chain (run_hash w) agent_event_schema (events d) \<and>
     (d \<noteq> [] \<longrightarrow> (case file_record (last (events d)) of
        JObj r \<Rightarrow> get_field ''run_id'' r = JStr rid \<and> run_ok r | _ \<Rightarrow> False))"

definition runs_ok :: "run_files \<Rightarrow> run_store \<Rightarrow> bool" where
  "runs_ok w st \<longleftrightarrow> (\<forall>rid. run_log_ok w rid (run_log (run_directory st rid)))"

lemma runs_ok_Nil: "runs_ok w []"
  by (simp add: runs_ok_def run_directory_def run_log_ok_def events_def)

lemma load_run_iff:
  "load_run w st rid = Inr r \<longleftrightarrow> check_run_id rid = Inr () \<and> load_log w (run_log (run_directory st rid)) = Inr r"
  by (simp add: load_run_def and_then_Inr_iff)

lemma runs_ok_load:
  assumes "runs_ok w st" and "load_run w st rid = Inr r"
  shows "run_ok r" and "get_field ''run_id'' r = JStr rid"
proof -
  let ?d = "run_log (run_directory st rid)"
  have l: "run_log_ok w rid ?d" using assms(1) by (simp add: runs_ok_def)
  have "?d \<noteq> []" "file_record (last (events ?d)) = JObj r"
    using assms(2) by (auto simp: load_run_iff runs.load_iff events_def)
  with l show "run_ok r" "get_field ''run_id'' r = JStr rid" by (simp_all add: run_log_ok_def)
qed

lemma run_directory_update:
  "run_directory (AList.update rid d st) r = (if r = rid then d else run_directory st r)"
  by (simp add: run_directory_def)

definition agent_refines :: "run_files \<Rightarrow> run_store \<Rightarrow> run_store \<Rightarrow> bool" where
  "agent_refines w st st' \<longleftrightarrow> runs_ok w st' \<and>
     (\<forall>rid. \<exists>new. run_log (run_directory st' rid) = run_log (run_directory st rid) @ new) \<and>
     (\<forall>rid r. load_run w st rid = Inr r \<longrightarrow> (\<exists>r'. load_run w st' rid = Inr r' \<and> run_grows r r'))"

lemma agent_refines_refl: "runs_ok w st \<Longrightarrow> agent_refines w st st"
  by (auto simp: agent_refines_def intro: exI[of _ "[]"] run_grows_refl runs_ok_load(1))

lemma agent_refines_trans:
  assumes "agent_refines w a b" and "agent_refines w b c"
  shows "agent_refines w a c"
  unfolding agent_refines_def
proof (intro conjI allI impI)
  show "runs_ok w c" using assms(2) by (simp add: agent_refines_def)
  show "\<exists>new. run_log (run_directory c rid) = run_log (run_directory a rid) @ new" for rid
    using assms by (metis append.assoc agent_refines_def)
  show "\<exists>r'. load_run w c rid = Inr r' \<and> run_grows r r'" if "load_run w a rid = Inr r" for rid r
    using assms that unfolding agent_refines_def by (meson run_grows_trans)
qed

lemma append_run_refines:
  assumes "runs_ok w st" and "append_run w now r st = Inr (u, st')" and "run_room st rid"
    and "get_field ''run_id'' r = JStr rid" and "run_ok r"
    and grows: "\<And>q. load_run w st rid = Inr q \<Longrightarrow> run_grows q r"
  shows "agent_refines w st st'" and "load_run w st' rid = Inr r" and "u = r"
proof -
  let ?d = "run_log (run_directory st rid)"
  have "run_id_of w r = Inr rid"
    using assms(4) by (auto simp: run_id_of_def dict_item_def get_field_def split: option.splits)
  with assms(2) obtain d where c: "check_run_id rid = Inr ()" and d: "add_run_event w now r ?d = Inr d"
    and u: "u = r" and st': "st' = AList.update rid ((run_directory st rid)\<lparr>run_log := d\<rparr>) st"
    by (auto simp: append_run_def elim!: and_then_InrE)
  have l: "run_log_ok w rid ?d" using assms(1) by (simp add: runs_ok_def)
  have s: "run_schema_ok r" using assms(5) by (simp add: run_ok_def)
  have n: "numbered ?d" "length ?d < 999999" "chain (run_hash w) agent_event_schema (events ?d)"
    using l assms(3) by (simp_all add: run_log_ok_def run_room_def)
  note after = runs.load_after_add[OF n d s]
  obtain new where new: "d = ?d @ [new]" using runs.add_preserves[OF d] by blast
  have dir: "run_log (run_directory st' x) = (if x = rid then d else run_log (run_directory st x))" for x
    by (simp add: st' run_directory_update)
  show load: "load_run w st' rid = Inr r" using c after(1) by (simp add: load_run_iff dir)
  show "u = r" by (rule u)
  have "run_log_ok w rid d" using after new n(2) assms(4,5)
    by (simp add: run_log_ok_def runs.load_iff)
  then have ok: "runs_ok w st'" using assms(1) by (simp add: runs_ok_def dir)
  show "agent_refines w st st'"
    unfolding agent_refines_def
  proof (intro conjI allI impI)
    show "\<exists>new. run_log (run_directory st' x) = run_log (run_directory st x) @ new" for x
      using new by (simp add: dir)
    show "\<exists>r'. load_run w st' x = Inr r' \<and> run_grows q r'" if q: "load_run w st x = Inr q" for x q
    proof (cases "x = rid")
      case True
      with q grows load show ?thesis by auto
    next
      case False
      then have "load_run w st' x = Inr q" using q by (simp add: load_run_def dir)
      then show ?thesis using run_grows_refl runs_ok_load(1)[OF assms(1) q] by blast
    qed
  qed (rule ok)
qed

lemma get_runD: "get_run w st rid who = Inr r \<Longrightarrow> load_run w st rid = Inr r \<and> get_field ''principal_id'' r = JStr who"
  by (auto simp: get_run_def authorize_run_def elim!: and_then_InrE)

lemma update_run_refines:
  assumes "runs_ok w st" and "update_run w now rid who change st = Inr (u, st')" and "supervisor_change change"
    and "run_room st rid"
  shows "agent_refines w st st'" and "load_run w st' rid = Inr u"
    and "\<exists>r r'. get_run w st rid who = Inr r \<and> change r = Inr r' \<and> u = AList.update ''updated_at'' (JStr (now 0)) r'"
proof -
  obtain r r' where r: "get_run w st rid who = Inr r" "change r = Inr r'"
    "append_run w (now 1) (AList.update ''updated_at'' (JStr (now 0)) r') st = Inr (u, st')"
    using assms(2) unfolding update_run_def by (elim and_then_InrE) blast
  let ?u = "AList.update ''updated_at'' (JStr (now 0)) r'"
  have l: "load_run w st rid = Inr r" using get_runD[OF r(1)] by simp
  have g: "run_grows r ?u"
    using run_change_grows[OF supervisor_change_run[OF assms(3) r(2)] runs_ok_load(1)[OF assms(1) l]] .
  have u: "run_ok ?u" "get_field ''run_id'' ?u = JStr rid"
  proof -
    show "run_ok ?u" using g by (simp add: run_grows_def)
    have "''run_id'' \<in> set run_identity" by (simp add: run_identity_def)
    then have "get_field ''run_id'' ?u = get_field ''run_id'' r" using g unfolding run_grows_def by blast
    then show "get_field ''run_id'' ?u = JStr rid" using runs_ok_load(2)[OF assms(1) l] by simp
  qed
  note a = append_run_refines[OF assms(1) r(3) assms(4) u(2,1)]
  have "q = r" if "load_run w st rid = Inr q" for q using that l by simp
  with a g show "agent_refines w st st'" "load_run w st' rid = Inr u" by blast+
  show "\<exists>r r'. get_run w st rid who = Inr r \<and> change r = Inr r' \<and> u = AList.update ''updated_at'' (JStr (now 0)) r'"
    using r a g \<open>\<And>q. load_run w st rid = Inr q \<Longrightarrow> q = r\<close> by blast
qed

text \<open>Conversely, a decided change of a run is stored when its log has room.\<close>

lemma append_run_succeeds:
  assumes "runs_ok w st" and "check_run_id rid = Inr ()" and "run_room st rid" and "get_field ''run_id'' r = JStr rid"
  shows "\<exists>d. append_run w now r st = Inr (r, AList.update rid ((run_directory st rid)\<lparr>run_log := d\<rparr>) st) \<and>
    length d = Suc (length (run_log (run_directory st rid)))"
proof -
  have "run_log_ok w rid (run_log (run_directory st rid))" using assms(1) by (simp add: runs_ok_def)
  then obtain d where d: "add_run_event w now r (run_log (run_directory st rid)) = Inr d"
    "length d = Suc (length (run_log (run_directory st rid)))"
    using runs.add_succeeds assms(3) unfolding run_log_ok_def run_room_def by blast
  have "run_id_of w r = Inr rid"
    using assms(4) by (auto simp: run_id_of_def dict_item_def get_field_def split: option.splits)
  with d assms(2) show ?thesis by (auto simp: append_run_def)
qed

lemma update_run_stores:
  assumes "runs_ok w st" and "get_run w st rid who = Inr r" and "change r = Inr r'" and "supervisor_change change"
    and "run_room st rid"
  obtains st' where "update_run w now rid who change st = Inr (AList.update ''updated_at'' (JStr (now 0)) r', st')"
    "agent_step w st st'" "load_run w st' rid = Inr (AList.update ''updated_at'' (JStr (now 0)) r')"
    "\<And>x. length (run_log (run_directory st' x)) =
       (if x = rid then Suc (length (run_log (run_directory st rid))) else length (run_log (run_directory st x)))"
proof -
  let ?u = "AList.update ''updated_at'' (JStr (now 0)) r'"
  have l: "load_run w st rid = Inr r" using get_runD[OF assms(2)] by simp
  have "run_grows r ?u"
    using run_change_grows[OF supervisor_change_run[OF assms(4,3)] runs_ok_load(1)[OF assms(1) l]] .
  then have id: "get_field ''run_id'' ?u = JStr rid"
    using runs_ok_load(2)[OF assms(1) l] unfolding run_grows_def by (simp add: run_identity_def)
  have c: "check_run_id rid = Inr ()" using l by (simp add: load_run_iff)
  from append_run_succeeds[OF assms(1) c assms(5) id, of "now 1"] obtain d where
    d: "append_run w (now 1) ?u st = Inr (?u, AList.update rid ((run_directory st rid)\<lparr>run_log := d\<rparr>) st)"
      "length d = Suc (length (run_log (run_directory st rid)))" by blast
  have up: "update_run w now rid who change st = Inr (?u, AList.update rid ((run_directory st rid)\<lparr>run_log := d\<rparr>) st)"
    using assms(2,3) d(1) by (simp add: update_run_def)
  show thesis
    using that[OF up agent_step.update[OF up assms(4,5)] update_run_refines(2)[OF assms(1) up assms(4,5)]] d(2)
    by (simp add: run_directory_update)
qed

lemma create_run_refines:
  assumes "runs_ok w st" and "create_run w now g who st = Inr (x, st')" and "run_room st (run_id g)"
  shows "agent_refines w st st'"
proof (cases "load_run w st (run_id g)")
  case (Inr r)
  with assms(2) have "st' = st" by (auto simp: create_run_def elim!: and_then_InrE)
  then show ?thesis using agent_refines_refl assms(1) by simp
next
  case (Inl e)
  with assms(2) obtain u where u: "append_run w (now 2) (initial_run w now g who) st = Inr (u, st')"
    by (auto simp: create_run_def elim!: and_then_InrE split: if_splits)
  show ?thesis
    by (rule append_run_refines(1)[OF assms(1) u assms(3) _ initial_run_ok]) (simp_all add: initial_run_def Inl)
qed

lemma publish_same_logs:
  assumes "publish_review w rid who review st = Inr (x, st')"
  shows "run_log (run_directory st' r) = run_log (run_directory st r)"
  using assms unfolding publish_review_def Let_def
  by (auto elim!: and_then_InrE simp: run_directory_update split: option.splits if_splits)

lemma publish_refines:
  assumes "runs_ok w st" and "publish_review w rid who review st = Inr (x, st')"
  shows "agent_refines w st st'"
  using agent_refines_refl[OF assms(1)] publish_same_logs[OF assms(2)]
  by (simp add: agent_refines_def runs_ok_def load_run_def)

lemma agent_step_refines: "agent_step w st st' \<Longrightarrow> runs_ok w st \<Longrightarrow> agent_refines w st st'"
  by (induction rule: agent_step.induct) (blast intro: create_run_refines update_run_refines(1) publish_refines)+

lemma agent_run_refines: "(agent_step w)\<^sup>*\<^sup>* st st' \<Longrightarrow> runs_ok w st \<Longrightarrow> agent_refines w st st'"
proof (induction rule: rtranclp_induct)
  case base
  then show ?case by (rule agent_refines_refl)
next
  case (step st' st'')
  then have r: "agent_refines w st st'" by simp
  then have "runs_ok w st'" by (simp add: agent_refines_def)
  from agent_refines_trans[OF r agent_step_refines[OF step(2) this]] show ?case .
qed

lemma reachable_runs_ok: "(agent_step w)\<^sup>*\<^sup>* [] st \<Longrightarrow> runs_ok w st"
  using agent_run_refines[OF _ runs_ok_Nil] by (simp add: agent_refines_def)

end
