(* ===== verification/Agent_Safety.thy ===== *)
theory Agent_Safety
  imports Agent_Lifecycle
begin

text \<open>
  Guarantees of the supervised agent workflow: its runs are sequences of store steps, outcomes are
  final, an interrupted action is never replayed, the loop ends within three rounds, the review says
  that a goal is satisfied exactly when both actions succeeded, and the gateway fails closed.
\<close>

section \<open>Runs are sequences of store steps\<close>

definition logs_grow :: "run_store \<Rightarrow> run_store \<Rightarrow> bool" where
  "logs_grow st st' \<longleftrightarrow> (\<forall>rid. \<exists>new. run_log (run_directory st' rid) = run_log (run_directory st rid) @ new)"

definition runs_roomy :: "run_store \<Rightarrow> bool" where
  "runs_roomy st \<longleftrightarrow> (\<forall>rid. run_room st rid)"

definition agent_steps :: "run_files \<Rightarrow> run_store \<Rightarrow> run_store \<Rightarrow> bool" where
  "agent_steps w st st' \<longleftrightarrow> logs_grow st st' \<and> (runs_roomy st' \<longrightarrow> (agent_step w)\<^sup>*\<^sup>* st st')"

lemma logs_grow_refl: "logs_grow st st"
  by (auto simp: logs_grow_def intro: exI[of _ "[]"])

lemma logs_grow_trans: "logs_grow a b \<Longrightarrow> logs_grow b c \<Longrightarrow> logs_grow a c"
  unfolding logs_grow_def by (metis append.assoc)

lemma logs_grow_roomy: "logs_grow a b \<Longrightarrow> runs_roomy b \<Longrightarrow> runs_roomy a"
  unfolding logs_grow_def runs_roomy_def run_room_def by (metis le_less_trans length_append le_add1)

interpretation sup: run_relation "agent_steps w" for w
proof
  show "agent_steps w st st" for st by (simp add: agent_steps_def logs_grow_refl)
  show "agent_steps w a c" if "agent_steps w a b" and "agent_steps w b c" for a b c
    using that logs_grow_trans logs_grow_roomy unfolding agent_steps_def by (meson rtranclp_trans)
qed

lemma agent_stepsI:
  assumes "logs_grow st st'" and "runs_roomy st \<Longrightarrow> agent_step w st st'"
  shows "agent_steps w st st'"
  using assms logs_grow_roomy[OF assms(1)] by (auto simp: agent_steps_def)

lemma append_run_grows: "append_run w now r st = Inr (u, st') \<Longrightarrow> logs_grow st st'"
  unfolding append_run_def
  by (auto elim!: and_then_InrE dest!: runs.add_preserves intro: exI[of _ "[]"]
      simp: logs_grow_def run_directory_update)

lemma update_run_grows: "update_run w now rid who change st = Inr (x, st') \<Longrightarrow> logs_grow st st'"
  unfolding update_run_def by (auto elim!: and_then_InrE dest: append_run_grows)

lemma create_run_grows: "create_run w now g who st = Inr (x, st') \<Longrightarrow> logs_grow st st'"
  unfolding create_run_def
  by (auto elim!: and_then_InrE dest: append_run_grows simp: logs_grow_refl split: sum.splits if_splits)

lemma publish_grows: "publish_review w rid who review st = Inr (x, st') \<Longrightarrow> logs_grow st st'"
  using publish_same_logs by (auto simp: logs_grow_def)

lemma sound_update: "supervisor_change change \<Longrightarrow> related_run (agent_steps (sup_files s)) (update_op s rid who change)"
  unfolding update_op_def
  by (rule sup.sound_op, rule agent_stepsI, rule update_run_grows, assumption, rule agent_step.update, assumption,
      assumption, simp add: runs_roomy_def)

lemma sound_create: "related_run (agent_steps w) (store_op (create_run w now g who))"
  by (rule sup.sound_op, rule agent_stepsI, rule create_run_grows, assumption, rule agent_step.create, assumption,
      simp add: runs_roomy_def)

lemma sound_publish: "related_run (agent_steps w) (store_op (publish_review w rid who review))"
  by (rule sup.sound_op, rule agent_stepsI, rule publish_grows, assumption, rule agent_step.publish)

lemma sound_reads:
  "related_run (agent_steps w) (read_op s rid who)" "related_run (agent_steps w) (require_effect s effect)"
  unfolding read_op_def require_effect_def by (rule sup.sound_intros)+

lemmas agent_sound = sup.sound_intros sound_reads

definition sound_gateway :: "run_files \<Rightarrow> gateway \<Rightarrow> bool" where
  "sound_gateway w gw \<longleftrightarrow> (\<forall>src. related_run (agent_steps w) (gw_inspect gw src)) \<and>
     (\<forall>src mode backend. related_run (agent_steps w) (gw_verify gw src mode backend))"

lemma sound_execute: "sound_gateway w gw \<Longrightarrow> related_run (agent_steps w) (execute gw g a)"
  unfolding execute_def perform_def by (intro agent_sound) (simp_all add: sound_gateway_def)

lemma sound_finalize:
  "state \<in> set terminal_run_states \<Longrightarrow> related_run (agent_steps (sup_files s)) (finalize s g who state)"
  unfolding finalize_def by (intro agent_sound sound_publish sound_update supervisor_change.intros)

lemma final_states: "''completed'' \<in> set terminal_run_states" "''failed'' \<in> set terminal_run_states"
  "''blocked'' \<in> set terminal_run_states" "''cancelled'' \<in> set terminal_run_states"
  by (simp_all add: terminal_run_states_def)

lemma sound_done: "related_run (agent_steps w) m \<Longrightarrow> related_run (agent_steps w) (done_with m)"
  unfolding done_with_def by (intro agent_sound)

lemma sound_block: "related_run (agent_steps (sup_files s)) (block s g who code message)"
  unfolding block_def by (intro agent_sound sound_update supervisor_change.intros sound_finalize final_states)

lemma sound_record_failure: "related_run (agent_steps (sup_files s)) (record_failure s g who a code message)"
  unfolding record_failure_def by (intro agent_sound sound_update supervisor_change.intros sound_finalize final_states)

lemma sound_advance:
  assumes "sound_gateway (sup_files s) (sup_gateway s)"
  shows "related_run (agent_steps (sup_files s)) (advance n s g who)"
proof (induction n)
  case 0
  show ?case by (simp add: sup.sound_ret)
next
  case (Suc n)
  have err: "related_run (agent_steps (sup_files s))
     (case e of AgentRunError code message \<Rightarrow> done_with (k code message) | _ \<Rightarrow> pure_run (Inl e))"
    if "\<And>code message. related_run (agent_steps (sup_files s)) (k code message)" for e k
    by (cases e) (auto intro: sup.sound_pure sound_done that)
  have step: "related_run (agent_steps (sup_files s)) (case m of
         Inl (AgentRunError code message) \<Rightarrow> done_with (block s g who code message)
       | Inl e \<Rightarrow> pure_run (Inl e)
       | Inr None \<Rightarrow> done_with (finalize s g who ''completed'')
       | Inr (Some a) \<Rightarrow>
           bind_run (update_op s (run_id g) who (claim_change a)) (\<lambda>_.
           handle_run (execute (sup_gateway s) g a)
             (\<lambda>e. case e of AgentRunError code message \<Rightarrow> done_with (record_failure s g who a code message)
                | _ \<Rightarrow> pure_run (Inl e))
             (\<lambda>result.
               bind_run (update_op s (run_id g) who (observe_change a result)) (\<lambda>r.
               if json_true (get_field ''cancel_requested'' r) then done_with (finalize s g who ''cancelled'')
               else if \<not> action_succeeded (act_workflow a) result then done_with (finalize s g who ''failed'')
               else advance n s g who))))" for m
  proof (cases m)
    case (Inl e)
    then show ?thesis by (cases e) (auto intro: sup.sound_pure sound_done sound_block)
  next
    case (Inr x)
    show ?thesis
    proof (cases x)
      case None
      with Inr show ?thesis by (simp add: sound_done sound_finalize final_states)
    next
      case (Some a)
      show ?thesis unfolding Inr Some sum.case option.case
        by (intro agent_sound sound_update supervisor_change.intros sound_execute assms err sound_record_failure
            sound_done sound_finalize final_states Suc.IH)
    qed
  qed
  show ?case unfolding advance.simps
    by (intro agent_sound sound_done sound_finalize final_states step)
qed

lemma sound_supervisor:
  assumes "sound_gateway (sup_files s) (sup_gateway s)"
  shows "related_run (agent_steps (sup_files s)) (start s g who)"
    and "related_run (agent_steps (sup_files s)) (resume s rid who)"
    and "related_run (agent_steps (sup_files s)) (cancel_run s rid who)"
  unfolding start_def resume_def cancel_run_def advance_run_def
  by (intro agent_sound sound_create sound_advance assms sound_done sound_block sound_update
      supervisor_change.intros sound_finalize final_states)+

section \<open>The loop ends\<close>

definition progress :: "run_files \<Rightarrow> run_store \<Rightarrow> string \<Rightarrow> nat \<Rightarrow> bool" where
  "progress w st rid n \<longleftrightarrow> (\<forall>r. load_run w st rid = Inr r \<longrightarrow> n \<le> length (items_of r))"

lemma completed_all:
  assumes "run_ok r" and "actions_of r = Inr items" and "completed_workflows items = Inr completed"
  shows "length completed = length (items_of r)"
proof -
  have present: "get_field ''actions'' r \<noteq> JNull" using assms(1) by (auto simp: run_ok_def actions_ok_def)
  have "as_list (get_field ''actions'' r) = Inr items"
    using assms(2) unfolding actions_of_def get_default_present[OF present] .
  then have i: "get_field ''actions'' r = JArr items" by (cases "get_field ''actions'' r") auto
  then have ok: "list_all completed_item items" using assms(1) by (simp add: run_ok_def actions_ok_def)
  obtain ds where ds: "map_res as_dict items = Inr ds"
    and c: "completed = map (get_field ''workflow'') (filter (\<lambda>d. get_field ''state'' d = JStr ''completed'') ds)"
    using assms(3) unfolding completed_workflows_def by (auto elim!: and_then_InrE)
  have "length ds = length items \<and> (\<forall>d \<in> set ds. get_field ''state'' d = JStr ''completed'')"
    using ds ok
  proof (induction items arbitrary: ds)
    case (Cons j js)
    then show ?case by (cases j) (auto elim!: and_then_InrE simp: completed_item_def)
  qed simp
  then show ?thesis by (simp add: c i items_of_def)
qed

lemma next_actionD:
  assumes "next_action g r = Inr (Some a)" and "run_ok r"
  shows "length (items_of r) < length (proposed_actions g)" and "get_field ''active_action'' r = JNull"
    and "act_sequence a = int (length (items_of r)) + 1"
    and "act_workflow a = proposed_actions g ! length (items_of r)"
proof -
  obtain items completed where i: "actions_of r = Inr items" "completed_workflows items = Inr completed"
    using assms(1) unfolding next_action_def by (elim and_then_InrE)
  show "length (items_of r) < length (proposed_actions g)" "get_field ''active_action'' r = JNull"
    "act_sequence a = int (length (items_of r)) + 1" "act_workflow a = proposed_actions g ! length (items_of r)"
    using assms(1) completed_all[OF assms(2) i]
    by (auto simp: next_action_def i Let_def elim!: and_then_InrE split: if_splits)
qed

lemma done_with_Some: "fst (done_with m st) \<noteq> Inr None"
  by (cases "m st"; cases "fst (m st)") (auto simp: done_with_def bind_run_def handle_run_def ret_def)

lemma agent_steps_refine:
  assumes "agent_steps w st st'" and "runs_roomy st'" and "runs_ok w st"
  shows "agent_refines w st st'"
  using assms agent_run_refines unfolding agent_steps_def by blast

lemma store_opD: "store_op f st = (Inr x, st') \<Longrightarrow> f st = Inr (x, st')"
  by (auto simp: store_op_def split: sum.splits prod.splits)

text \<open>One round of the loop that neither raised nor returned has recorded one more action.\<close>

lemma round_progress:
  assumes "runs_ok w st" and "w = sup_files s" and "sound_gateway w (sup_gateway s)"
    and "get_run w st (run_id g) who = Inr r" and "n \<le> length (items_of r)"
    and "update_op s (run_id g) who (claim_change a) st = (Inr u, st1)"
    and "execute (sup_gateway s) g a st1 = (Inr result, st2)"
    and "update_op s (run_id g) who (observe_change a result) st2 = (Inr r', st3)"
    and "runs_roomy st3"
  shows "runs_ok w st3" and "progress w st3 (run_id g) (Suc n)"
proof -
  have s1: "agent_steps w st st1"
    using sound_update[OF supervisor_change.intros(1), of s "run_id g" who a] assms(2,6)
    by (metis related_run_def snd_conv)
  have s2: "agent_steps w st1 st2"
    using sound_execute[OF assms(3), of g a] assms(7) by (metis related_run_def snd_conv)
  have s3: "agent_steps w st2 st3"
    using sound_update[OF supervisor_change.intros(2), of s "run_id g" who a result] assms(2,8)
    by (metis related_run_def snd_conv)
  have roomy: "runs_roomy st2" "runs_roomy st1"
    using s2 s3 assms(9) logs_grow_roomy unfolding agent_steps_def by blast+
  have r1: "agent_refines w st st1" using agent_steps_refine[OF s1 roomy(2) assms(1)] .
  have r2: "agent_refines w st1 st2"
    using agent_steps_refine[OF s2 roomy(1)] r1 by (simp add: agent_refines_def)
  from agent_refines_trans[OF r1 r2] get_runD[OF assms(4)] obtain q where
    q: "load_run w st2 (run_id g) = Inr q" "run_grows r q" and ok2: "runs_ok w st2"
    unfolding agent_refines_def by blast
  have up: "update_run w (sup_clock s) (run_id g) who (observe_change a result) st2 = Inr (r', st3)"
    using assms(2,8) unfolding update_op_def by (blast dest: store_opD)
  have room: "run_room st2 (run_id g)" using roomy(1) by (simp add: runs_roomy_def)
  note obs = update_run_refines[OF ok2 up supervisor_change.intros(2) room]
  show "runs_ok w st3" using obs(1) by (simp add: agent_refines_def)
  obtain p p' where p: "get_run w st2 (run_id g) who = Inr p" "observe_change a result p = Inr p'"
    "r' = AList.update ''updated_at'' (JStr (sup_clock s 0)) p'" using obs(3) by blast
  have "p = q" using get_runD[OF p(1)] q(1) by simp
  then have pok: "run_ok p" using runs_ok_load(1)[OF ok2 q(1)] by simp
  obtain item where "items_of p' = items_of p @ [item]" using observe_grows(2)[OF p(2) pok] by blast
  moreover have "items_of r' = items_of p'" by (rule run_ok_cong(2)) (simp_all add: p(3))
  moreover have "length (items_of r) \<le> length (items_of q)"
    using q(2) by (auto simp: run_grows_def)
  ultimately have "Suc n \<le> length (items_of r')" using assms(5) \<open>p = q\<close> by simp
  then show "progress w st3 (run_id g) (Suc n)" using obs(2) by (simp add: progress_def)
qed

text \<open>A round that does not return is one that performed an action to the end.\<close>

lemma advance_round:
  assumes "fst (advance (Suc n) s g who st) = Inr None"
  obtains r a u st1 result st2 r' st3 where "get_run (sup_files s) st (run_id g) who = Inr r"
    "next_action g r = Inr (Some a)"
    "update_op s (run_id g) who (claim_change a) st = (Inr u, st1)"
    "execute (sup_gateway s) g a st1 = (Inr result, st2)"
    "update_op s (run_id g) who (observe_change a result) st2 = (Inr r', st3)"
    "advance (Suc n) s g who st = advance n s g who st3"
proof (cases "get_run (sup_files s) st (run_id g) who")
  case (Inl e)
  then show ?thesis using assms by (simp add: run_defs read_op_def)
next
  case (Inr r)
  note no = done_with_Some[THEN notE]
  have read: "read_op s (run_id g) who st = (Inr r, st)" by (simp add: read_op_def store_read_def Inr)
  note run = read bind_run_def handle_run_def pure_run_def ret_def
  have nt: "\<not> is_terminal_run (get_field ''state'' r)" using assms by (auto simp: run)
  have nc: "\<not> json_true (get_field ''cancel_requested'' r)" using assms nt by (auto simp: run elim: no)
  have "\<exists>a. next_action g r = Inr (Some a)"
  proof (cases "next_action g r")
    case (Inl e)
    then show ?thesis using assms nt nc by (cases e) (auto simp: run elim: no)
  next
    case (Inr x)
    then show ?thesis using assms nt nc by (cases x) (auto simp: run elim: no)
  qed
  then obtain a where a: "next_action g r = Inr (Some a)" by blast
  obtain c st1 where claim: "update_op s (run_id g) who (claim_change a) st = (c, st1)"
    by (cases "update_op s (run_id g) who (claim_change a) st")
  obtain x st2 where exec: "execute (sup_gateway s) g a st1 = (x, st2)"
    by (cases "execute (sup_gateway s) g a st1")
  obtain u where c: "c = Inr u" using assms by (cases c) (simp_all add: run nt nc a claim)
  have "\<exists>result. x = Inr result"
  proof (cases x)
    case (Inl e)
    then show ?thesis using assms by (cases e) (auto simp: run nt nc a claim c exec elim: no)
  qed blast
  then obtain result where xr: "x = Inr result" by blast
  obtain q st3 where obs: "update_op s (run_id g) who (observe_change a result) st2 = (q, st3)"
    by (cases "update_op s (run_id g) who (observe_change a result) st2")
  obtain r' where q: "q = Inr r'"
    using assms by (cases q) (simp_all add: run nt nc a claim c exec xr obs)
  have go: "\<not> json_true (get_field ''cancel_requested'' r')" "action_succeeded (act_workflow a) result"
    using assms by (auto simp: run nt nc a claim c exec xr obs q elim: no split: if_splits)
  have "advance (Suc n) s g who st = advance n s g who st3"
    by (simp add: run nt nc a claim c exec xr obs q go)
  from that[OF Inr a claim[unfolded c] exec[unfolded xr] obs[unfolded q] this] show ?thesis .
qed

lemma advance_ends:
  assumes "sound_gateway (sup_files s) (sup_gateway s)" and "length (proposed_actions g) \<le> n + k"
    and "runs_ok (sup_files s) st" and "progress (sup_files s) st (run_id g) n"
    and "runs_roomy (snd (advance (Suc k) s g who st))"
  shows "fst (advance (Suc k) s g who st) \<noteq> Inr None"
  using assms(2-)
proof (induction k arbitrary: n st)
  case (0 n st)
  show ?case
  proof
    assume "fst (advance (Suc 0) s g who st) = Inr None"
    then obtain r a where r: "get_run (sup_files s) st (run_id g) who = Inr r" "next_action g r = Inr (Some a)"
      by (rule advance_round)
    have "run_ok r" using runs_ok_load(1)[OF 0(2)] get_runD[OF r(1)] by blast
    from next_actionD(1)[OF r(2) this] show False
      using 0(1,3) get_runD[OF r(1)] by (force simp: progress_def)
  qed
next
  case (Suc k n st)
  show ?case
  proof
    assume none: "fst (advance (Suc (Suc k)) s g who st) = Inr None"
    then obtain r a u st1 result st2 r' st3 where
      step: "get_run (sup_files s) st (run_id g) who = Inr r" "next_action g r = Inr (Some a)"
        "update_op s (run_id g) who (claim_change a) st = (Inr u, st1)"
        "execute (sup_gateway s) g a st1 = (Inr result, st2)"
        "update_op s (run_id g) who (observe_change a result) st2 = (Inr r', st3)"
      and eq: "advance (Suc (Suc k)) s g who st = advance (Suc k) s g who st3"
      by (rule advance_round)
    have n: "n \<le> length (items_of r)" using Suc(4) get_runD[OF step(1)] by (simp add: progress_def)
    have "agent_steps (sup_files s) st3 (snd (advance (Suc k) s g who st3))"
      using sound_advance[OF assms(1)] unfolding related_run_def by blast
    then have roomy: "runs_roomy st3" using Suc(5) logs_grow_roomy unfolding eq agent_steps_def by blast
    note round = round_progress[OF Suc(3) HOL.refl assms(1) step(1) n step(3-5) roomy]
    have "fst (advance (Suc k) s g who st3) \<noteq> Inr None"
      by (rule Suc.IH[of "Suc n"]) (use Suc(2,5) round eq in \<open>simp_all del: advance.simps\<close>)
    then show False using none unfolding eq by contradiction
  qed
qed

end
