(* ===== verification/Agent_Guarantees.thy ===== *)
theory Agent_Guarantees
  imports Agent_Safety
begin

text \<open>
  What the supervised agent workflow guarantees: outcomes are final, an interrupted action is never
  replayed, the loop ends, the review says that a goal is satisfied exactly when both actions
  succeeded, and the gateway fails closed.
\<close>

section \<open>Outcomes\<close>

text \<open>C29: the outcome of a run is final: whatever store operations any supervisors perform after a run
  has become terminal, it stays terminal, no action is recorded or claimed any more, its identity
  (principal, goal, request digest, creation time) is unchanged, and once it has been reviewed its state,
  review, claim and satisfaction flag never change.\<close>

theorem run_outcome_final:
  assumes "(agent_step w)\<^sup>*\<^sup>* [] st" and "load_run w st rid = Inr r"
    and "is_terminal_run (get_field ''state'' r)" and "(agent_step w)\<^sup>*\<^sup>* st st'"
  shows "\<exists>r'. load_run w st' rid = Inr r' \<and> is_terminal_run (get_field ''state'' r') \<and>
    get_field ''actions'' r' = get_field ''actions'' r \<and> get_field ''active_action'' r' = JNull \<and>
    map (\<lambda>k. get_field k r') run_identity = map (\<lambda>k. get_field k r) run_identity \<and>
    (get_field ''review'' r = JNull \<or>
      map (\<lambda>k. get_field k r') outcome_fields = map (\<lambda>k. get_field k r) outcome_fields)"
proof -
  have ok: "runs_ok w st" using reachable_runs_ok[OF assms(1)] .
  from agent_run_refines[OF assms(4) ok] assms(2) obtain r' where
    r': "load_run w st' rid = Inr r'" "run_grows r r'" and ok': "runs_ok w st'"
    unfolding agent_refines_def by blast
  have t: "is_terminal_run (get_field ''state'' r')" "items_of r' = items_of r"
    using r'(2) assms(3) by (simp_all add: run_grows_def)
  have k: "run_ok r" "run_ok r'" using runs_ok_load(1) ok ok' assms(2) r'(1) by blast+
  then have "get_field ''actions'' r' = get_field ''actions'' r"
    using t(2) by (auto simp: run_ok_def actions_ok_def items_of_def split: json.splits)
  moreover have "get_field ''active_action'' r' = JNull" using k(2) t(1) by (simp add: run_ok_def)
  ultimately show ?thesis using r' t(1) by (auto simp: run_grows_def)
qed

text \<open>C12: an action whose execution was interrupted is never replayed: when the stored run has an
  active action, starting the goal again and resuming the run do the same whatever the gateway to the
  workflows would do, so no workflow is invoked.\<close>

theorem interrupted_action_never_replayed:
  assumes "get_run (sup_files s) st rid who = Inr r" and "get_field ''active_action'' r \<noteq> JNull"
    and "run_id g = rid"
  shows "resume (s\<lparr>sup_gateway := gw\<rparr>) rid who st = resume s rid who st \<and>
    start (s\<lparr>sup_gateway := gw\<rparr>) g who st = start s g who st"
proof -
  let ?t = "s\<lparr>sup_gateway := gw\<rparr>"
  have same: "require_effect ?t = require_effect s" "read_op ?t = read_op s" "update_op ?t = update_op s"
    "goal_of_record ?t = goal_of_record s" "sup_files ?t = sup_files s" "sup_admission ?t = sup_admission s"
    "sup_clock ?t = sup_clock s"
    by (simp_all add: fun_eq_iff require_effect_def read_op_def update_op_def goal_of_record_def)
  have fin: "block ?t h who = block s h who" for h
    unfolding block_def finalize_def same ..
  have "load_run (sup_files s) st (run_id g) = Inr r"
    using assms(1,3) get_runD by blast
  then have c: "x = r" if "create_run (sup_files s) now g who st = Inr ((x, b), st')" for now x b st'
    using that by (auto simp: create_run_def elim!: and_then_InrE)
  have "store_op (create_run (sup_files s) (sup_clock s) g who) st = (Inr (x, b), st') \<Longrightarrow> x = r" for x b st'
    using c by (auto dest!: store_opD)
  then have "start ?t g who st = start s g who st"
    using assms(2) unfolding start_def same
    by (auto simp: bind_run_def handle_run_def require_effect_def pure_run_def split: sum.splits prod.splits)
  moreover have "read_op s rid who st = (Inr r, st)" using assms(1) by (simp add: read_op_def store_read_def)
  then have "resume ?t rid who st = resume s rid who st"
    using assms(2) unfolding resume_def same fin
    by (auto simp: bind_run_def handle_run_def require_effect_def pure_run_def split: sum.splits)
  ultimately show ?thesis by simp
qed

section \<open>The review\<close>

lemma map_as_dict: "map_res as_dict items = Inr ds \<Longrightarrow> items = map JObj ds"
proof (induction items arbitrary: ds)
  case (Cons j js)
  then show ?case by (cases j) (auto elim!: and_then_InrE)
qed simp

text \<open>C31: acceptance is deterministic and strict: a review says that the request is satisfied exactly
  when the run recorded two actions, both completed, the inspection with status INSPECTED and the
  verification with its request satisfied and its evidence committed; it reports COMPLETED then, it
  repeats the claim of the verification and never grants the human approval.\<close>

theorem review_acceptance:
  assumes "build_review w g r authority = Inr review"
  shows "\<exists>ds verification. actions_of r = Inr (map JObj ds) \<and> result_of ''verify'' ds = JObj verification \<and>
    (get_field ''request_satisfied'' review = JBool True) =
      (length ds = 2 \<and> list_all (\<lambda>d. get_field ''state'' d = JStr ''completed'') ds \<and>
       (\<exists>inspection evidence. result_of ''inspect'' ds = JObj inspection \<and>
          get_field ''status'' inspection = JStr ''INSPECTED'' \<and>
          get_field ''request_satisfied'' verification = JBool True \<and>
          get_field ''evidence'' verification = JObj evidence \<and>
          get_field ''publication_status'' evidence = JStr ''COMMITTED'')) \<and>
    (get_field ''request_satisfied'' review = JBool False \<or> get_field ''status'' review = JStr ''COMPLETED'') \<and>
    get_field ''claim'' review = get_default ''claim'' (JStr ''NO_PROOF'') verification \<and>
    get_field ''human_approval'' review =
      JObj [(''required_for'', jstrings approval_required), (''granted'', JBool False)]"
proof -
  obtain items ds b v fs where i: "actions_of r = Inr items" "map_res as_dict items = Inr ds"
    "goal_satisfied ds = Inr b" "as_dict (result_of ''verify'' ds) = Inr v"
    and rest: "as_list (get_default ''unresolved_findings'' (JArr []) r) = Inr fs"
    using assms unfolding build_review_def by (elim and_then_InrE)
  have v: "result_of ''verify'' ds = JObj v" using i(4) by (cases "result_of ''verify'' ds") auto
  have b: "b = (length ds = 2 \<and> list_all (\<lambda>d. get_field ''state'' d = JStr ''completed'') ds \<and>
       (\<exists>inspection evidence. result_of ''inspect'' ds = JObj inspection \<and>
          get_field ''status'' inspection = JStr ''INSPECTED'' \<and>
          get_field ''request_satisfied'' v = JBool True \<and> get_field ''evidence'' v = JObj evidence \<and>
          get_field ''publication_status'' evidence = JStr ''COMMITTED''))"
    using i(3) v unfolding goal_satisfied_def
    by (cases "result_of ''inspect'' ds"; cases "get_field ''evidence'' v")
       (auto simp: action_succeeded_def list_all_iff split: if_splits)
  have f: "get_field ''request_satisfied'' review = JBool b" "\<not> b \<or> get_field ''status'' review = JStr ''COMPLETED''"
    "get_field ''claim'' review = get_default ''claim'' (JStr ''NO_PROOF'') v"
    "get_field ''human_approval'' review =
      JObj [(''required_for'', jstrings approval_required), (''granted'', JBool False)]"
    using assms unfolding build_review_def i rest and_then_simps by auto
  have "actions_of r = Inr (map JObj ds)" using i(1) map_as_dict[OF i(2)] by simp
  with v b f show ?thesis by (intro exI[of _ ds] exI[of _ v]) (auto)
qed

section \<open>Termination\<close>

lemma made_goal_plan:
  assumes "make_goal norm g = Inr h"
  shows "proposed_actions h = agent_actions"
  using assms unfolding make_goal_def by (auto simp: Let_def check_plan_iff elim!: and_then_InrE)

lemma advance_run_ends:
  assumes "sound_gateway (sup_files s) (sup_gateway s)" and "proposed_actions g = agent_actions"
    and "runs_ok (sup_files s) st" and "runs_roomy (snd (advance_run s g who st))"
  shows "fst (advance_run s g who st) \<noteq> Inr None"
proof -
  have "rounds = Suc 2" by (simp add: rounds_def)
  moreover have "length (proposed_actions g) \<le> 0 + 2" using assms(2) by (simp add: agent_actions_def)
  ultimately show ?thesis
    using advance_ends[OF assms(1), of g 0 2 st who] assms(3,4) unfolding advance_run_def
    by (simp add: progress_def del: advance.simps)
qed

lemma bind_run_None:
  assumes "fst (bind_run m k st) = Inr None"
  obtains x st' where "m st = (Inr x, st')" "bind_run m k st = k x st'" "fst (k x st') = Inr None"
  using assms by (auto simp: bind_run_def handle_run_def split: prod.splits sum.splits)

lemma bind_run_Inr: "m st = (Inr x, st') \<Longrightarrow> bind_run m k st = k x st'"
  by (simp add: bind_run_def handle_run_def)

lemma bind_run_Inl: "m st = (Inl e, st') \<Longrightarrow> bind_run m k st = (Inl e, st')"
  by (simp add: bind_run_def handle_run_def)

lemma ret_not_None: "fst (ret (Some x) st) \<noteq> Inr None"
  by (simp add: ret_def)

lemma if_not_None: "fst ((if b then ret (Some x) else m) st) = Inr None \<Longrightarrow> (if b then ret (Some x) else m) st = m st"
  by (cases b) (simp_all add: ret_def)

lemma if_done_not_None:
  "fst ((if b then ret (Some x) else if c then done_with d else m) st) = Inr None
   \<Longrightarrow> (if b then ret (Some x) else if c then done_with d else m) st = m st"
  using done_with_Some[of d st] by (cases b; cases c) (simp_all add: ret_def)

lemma require_effect_None:
  assumes "fst (bind_run (require_effect s e) k st) = Inr None"
  shows "require_effect s e st = (Inr (), st) \<and> fst (k () st) = Inr None"
  using assms by (elim bind_run_None) (simp add: require_effect_def pure_run_def)

lemma advance_run_roomy:
  assumes "sound_gateway (sup_files s) (sup_gateway s)" and "runs_roomy (snd (advance_run s g who st))"
  shows "runs_roomy st"
proof -
  have "agent_steps (sup_files s) st (snd (advance_run s g who st))"
    using sound_advance[OF assms(1)] unfolding advance_run_def related_run_def by blast
  then show ?thesis using assms(2) logs_grow_roomy unfolding agent_steps_def by blast
qed

lemma start_ends:
  assumes "sound_gateway (sup_files s) (sup_gateway s)" and "proposed_actions g = agent_actions"
    and "runs_ok (sup_files s) st" and "runs_roomy (snd (start s g who st))"
  shows "fst (start s g who st) \<noteq> Inr None"
proof
  assume none: "fst (start s g who st) = Inr None"
  then have u: "require_effect s ''service_state_read'' st = (Inr (), st)"
    and u': "require_effect s ''service_state_write'' st = (Inr (), st)"
    unfolding start_def by (blast dest: require_effect_None)+
  let ?c = "store_op (create_run (sup_files s) (sup_clock s) g who)"
  obtain x st1 where c: "?c st = (x, st1)" by (cases "?c st")
  note start = start_def bind_run_Inr[where m = "require_effect s ''service_state_read''", OF u] bind_run_Inr[where m = "require_effect s ''service_state_write''", OF u']
  obtain r b where x: "x = Inr (r, b)" using none c
    by (cases x) (auto simp: start bind_run_Inl)
  note cr = bind_run_Inr[where m = ?c, OF c[unfolded x]] prod.case
  have run: "start s g who st = advance_run s g who st1"
    unfolding start cr
    by (rule if_not_None, rule none[unfolded start cr])
  then have go: "fst (advance_run s g who st1) = Inr None" using none by simp
  have roomy: "runs_roomy st1" using advance_run_roomy[OF assms(1)] assms(4) unfolding run by blast
  have "agent_steps (sup_files s) st st1" using sound_create c by (metis related_run_def snd_conv)
  then have "runs_ok (sup_files s) st1" using agent_steps_refine[OF _ roomy assms(3)] by (simp add: agent_refines_def)
  then show False using advance_run_ends[OF assms(1,2), of st1 who] assms(4) go unfolding run by blast
qed

lemma resume_ends:
  assumes "sound_gateway (sup_files s) (sup_gateway s)"
    and "runs_ok (sup_files s) st" and "runs_roomy (snd (resume s rid who st))"
  shows "fst (resume s rid who st) \<noteq> Inr None"
proof
  assume none: "fst (resume s rid who st) = Inr None"
  then have u: "require_effect s ''service_state_read'' st = (Inr (), st)"
    and u': "require_effect s ''service_state_write'' st = (Inr (), st)"
    unfolding resume_def by (blast dest: require_effect_None)+
  note resume = resume_def bind_run_Inr[where m = "require_effect s ''service_state_read''", OF u] bind_run_Inr[where m = "require_effect s ''service_state_write''", OF u']
  obtain r where r: "read_op s rid who st = (Inr r, st)"
    using none unfolding resume by (elim bind_run_None) (simp add: read_op_def store_read_def)
  obtain g where g: "goal_of_record s r = Inr g"
    using none unfolding resume bind_run_Inr[where m = "read_op s rid who", OF r] by (elim bind_run_None) (simp add: pure_run_def)
  then have p: "pure_run (goal_of_record s r) st = (Inr g, st)" by (simp add: pure_run_def)
  note rs = bind_run_Inr[where m = "read_op s rid who", OF r] bind_run_Inr[where m = "pure_run (goal_of_record s r)", OF p]
  have eq: "resume s rid who st = advance_run s g who st"
    unfolding resume rs
    by (rule if_done_not_None, rule none[unfolded resume rs])
  have "proposed_actions g = agent_actions"
    using g made_goal_plan unfolding goal_of_record_def goal_of_dict_def
    by (elim and_then_InrE) blast
  from advance_run_ends[OF assms(1) this assms(2)] assms(3) none show False unfolding eq by blast
qed

text \<open>C30: the supervisor terminates: on every store that its operations can build, starting an accepted
  goal and resuming a run return or raise within three rounds of the loop, whatever the workflows behind
  the gateway answer and whatever other supervisors do to the store while an action runs, as long as no
  run exceeds the 999,999 events that the six-digit names can number.\<close>

theorem supervisor_terminates:
  assumes "(agent_step (sup_files s))\<^sup>*\<^sup>* [] st" and "sound_gateway (sup_files s) (sup_gateway s)"
    and "make_goal norm g0 = Inr g" and "runs_roomy (snd (start s g who st))"
    and "runs_roomy (snd (resume s rid who st))"
  shows "fst (start s g who st) \<noteq> Inr None \<and> fst (resume s rid who st) \<noteq> Inr None"
  using start_ends[OF assms(2) made_goal_plan[OF assms(3)] reachable_runs_ok[OF assms(1)] assms(4)]
    resume_ends[OF assms(2) reachable_runs_ok[OF assms(1)] assms(5)] by simp

section \<open>The gateway\<close>

lemma require_errorD: "gateway_require gw e = Inr () \<Longrightarrow> e \<in> set mcp_effects \<and> permits (gw_admission gw) e"
  by (auto simp: gateway_require_def require_mcp_effect_def and_then_def split: sum.splits service_error.splits if_splits)

lemma bind_pureE:
  assumes "bind_run (pure_run m) k st = (Inr x, st')"
  obtains y where "m = Inr y" "k y st = (Inr x, st')"
  using assms by (cases m) (auto simp: bind_run_def handle_run_def pure_run_def)

lemma bind_runE:
  assumes "bind_run m k st = (Inr x, st')"
  obtains y st1 where "m st = (Inr y, st1)" "k y st1 = (Inr x, st')"
  using assms by (auto simp: bind_run_def handle_run_def split: prod.splits sum.splits)

text \<open>C32: the action gateway fails closed: a result comes only from a workflow that the goal permits, on
  the approved source, a file inside the workspace whose bytes had the approved digest before and after
  the action; reading the workspace was permitted by the admission, and a verification moreover ran
  with permission to execute and to publish evidence; the result is bounded and without raw output.\<close>

theorem gateway_fail_closed:
  assumes "execute gw g a st = (Inr result, st')"
  shows "act_workflow a \<in> set (permitted_workflows g) \<inter> {''inspect'', ''verify''} \<and>
    (\<exists>path. path = gw_resolve gw (gw_resolve gw (gw_root gw) @ ''/'' @ source g) \<and>
       (path = gw_resolve gw (gw_root gw) \<or> gw_resolve gw (gw_root gw) \<in> set (path_parents path)) \<and>
       gw_is_file gw path \<and> gw_before gw path = source_sha256 g \<and> gw_after gw path = source_sha256 g) \<and>
    permits (gw_admission gw) ''workspace_read'' \<and>
    (act_workflow a = ''inspect'' \<or>
      permits (gw_admission gw) ''external_execution'' \<and> permits (gw_admission gw) ''evidence_publication'') \<and>
    length (dumps (JObj result)) \<le> result_limit \<and> {''output'', ''execution_stages''} \<inter> fst ` set result = {}"
proof -
  obtain path j result' st1 where e: "act_workflow a \<in> set (permitted_workflows g)"
    "source_path (gw_resolve gw) g (gw_root gw) = Inr path" "gw_is_file gw path"
    "gateway_require gw ''workspace_read'' = Inr ()" "gw_before gw path = source_sha256 g"
    "perform gw g a st = (Inr j, st1)" "gw_after gw path = source_sha256 g" "bounded_result result' = Inr result"
    using assms unfolding execute_def by (elim bind_pureE bind_runE) (auto simp: pure_run_def elim!: bind_pureE)
  have p: "act_workflow a = ''inspect'' \<or> act_workflow a = ''verify'' \<and>
      gateway_require gw ''external_execution'' = Inr () \<and> gateway_require gw ''evidence_publication'' = Inr ()"
    using e(6) unfolding perform_def by (auto simp: pure_run_def elim!: bind_pureE split: if_splits)
  have r: "length (dumps (JObj result)) \<le> result_limit" "{''output'', ''execution_stages''} \<inter> fst ` set result = {}"
    using e(8) unfolding bounded_result_def Let_def by (auto elim!: and_then_InrE)
  have s: "path = gw_resolve gw (gw_resolve gw (gw_root gw) @ ''/'' @ source g)"
    "path = gw_resolve gw (gw_root gw) \<or> gw_resolve gw (gw_root gw) \<in> set (path_parents path)"
    using e(2) unfolding source_path_def Let_def by (auto elim!: and_then_InrE)
  have q: "permits (gw_admission gw) ''workspace_read''" using require_errorD[OF e(4)] by simp
  have v: "act_workflow a = ''inspect'' \<or>
      permits (gw_admission gw) ''external_execution'' \<and> permits (gw_admission gw) ''evidence_publication''"
    using p require_errorD by blast
  have w: "act_workflow a \<in> set (permitted_workflows g) \<inter> {''inspect'', ''verify''}" using e(1) p by blast
  show ?thesis using w s e(3,5,7) q v r by blast
qed

section \<open>Samples\<close>

definition sample_files :: run_files where
  "sample_files = \<lparr>run_hash = take 8, byte_hash = take 8, runs_path = ''/state'', working_dir = ''/work'',
     json_error = ''error'', value_text = (\<lambda>_. ''value''), outside = (\<lambda>_. Inl ''absent'')\<rparr>"

definition sample_admission :: "string list \<Rightarrow> mcp_admission" where
  "sample_admission effects =
     \<lparr>adm_capability = ''run-agent-goal'', admitted = True, adm_mode = ''esc'', adm_language = ''rust'',
       adm_backend = ''prusti'', adm_provider = None, requested_effects = effects,
       adm_profile = Some \<lparr>profile_name = ''agent'', modes = [''esc''], languages = [''rust''],
         backends = [''prusti''], profile_effects = effects, required_effects = [], providers = [],
         output_scope = ''none'', evidence = ''strict''\<rparr>,
       reason = []\<rparr>"

definition sample_gateway :: "(string \<Rightarrow> bool) \<Rightarrow> gateway" where
  "sample_gateway files = \<lparr>gw_root = ''/work'', gw_admission = sample_admission [''workspace_read''],
     gw_resolve = (\<lambda>p. p), gw_is_file = files, gw_before = (\<lambda>_. source_sha256 sample_goal),
     gw_after = (\<lambda>_. source_sha256 sample_goal),
     gw_inspect = (\<lambda>_. ret (JObj [(''status'', JStr ''INSPECTED''), (''output'', JStr ''raw'')])),
     gw_verify = (\<lambda>_ _ _. ret (JObj [(''request_satisfied'', JBool True)]))\<rparr>"

text \<open>A supervisor that may keep runs but may not publish evidence, with no source file.\<close>

definition sample_supervisor :: supervisor where
  "sample_supervisor = \<lparr>sup_files = sample_files, sup_gateway = sample_gateway (\<lambda>_. False),
     sup_admission = sample_admission [''service_state_read'', ''service_state_write''],
     sup_clock = (\<lambda>_. ''t''), sup_expand = (\<lambda>p. p)\<rparr>"

definition sample_run :: dict where
  "sample_run = initial_run sample_files (\<lambda>_. ''t'') sample_goal ''alice''"

definition sample_action :: planned_action where
  "sample_action = \<lparr>act_sequence = 1, act_workflow = ''inspect'', act_reason = ''establish bounded structural findings''\<rparr>"

lemma sample_gateway_sound: "sound_gateway w (sample_gateway files)"
  by (simp add: sound_gateway_def sample_gateway_def sup.sound_ret)

definition sized :: "run_store \<Rightarrow> nat \<Rightarrow> bool" where
  "sized st n \<longleftrightarrow> (\<forall>rid. length (run_log (run_directory st rid)) = (if rid = ''run-1'' then n else 0))"

lemma sample_id_ok: "check_run_id ''run-1'' = Inr ()"
  by code_simp

lemma sample_create:
  obtains st where "create_run sample_files (\<lambda>_. ''t'') sample_goal ''alice'' [] = Inr ((sample_run, True), st)"
    "agent_step sample_files [] st" "runs_ok sample_files st"
    "get_run sample_files st ''run-1'' ''alice'' = Inr sample_run"
    "sized st 1"
proof -
  have rid: "run_id sample_goal = ''run-1''" by (simp add: sample_goal_def)
  note c = sample_id_ok
  have id: "get_field ''run_id'' sample_run = JStr ''run-1''" by (simp add: sample_run_def initial_run_def rid)
  have r0: "run_room [] ''run-1''" by (simp add: run_room_def run_directory_def)
  obtain d where d: "append_run sample_files ''t'' sample_run [] =
      Inr (sample_run, AList.update ''run-1'' ((run_directory [] ''run-1'')\<lparr>run_log := d\<rparr>) [])" "length d = 1"
    using append_run_succeeds[OF runs_ok_Nil c r0 id, of sample_files "''t''"] by (auto simp: run_directory_def)
  define st where "st = AList.update ''run-1'' ((run_directory [] ''run-1'')\<lparr>run_log := d\<rparr>) []"
  have nf: "load_run sample_files [] ''run-1'' = Inl run_not_found"
    by (simp add: load_run_def c load_log_def run_directory_def events_def)
  have w: "str_strip ''alice'' \<noteq> []" by code_simp
  have create: "create_run sample_files (\<lambda>_. ''t'') sample_goal ''alice'' [] = Inr ((sample_run, True), st)"
    using d(1) by (simp add: create_run_def rid nf w has_run_code_def run_not_found_def sample_run_def st_def)
  have ok: "run_ok sample_run" using initial_run_ok by (simp add: sample_run_def)
  have step: "agent_step sample_files [] st" by (rule agent_step.create[OF create]) (simp add: rid r0)
  have load: "load_run sample_files st ''run-1'' = Inr sample_run"
    using append_run_refines(2)[OF runs_ok_Nil d(1)[folded st_def] r0 id ok] by (simp add: nf)
  moreover have "runs_ok sample_files st"
    using agent_step_refines[OF step runs_ok_Nil] by (simp add: agent_refines_def)
  moreover have "get_run sample_files st ''run-1'' ''alice'' = Inr sample_run"
    using load by (simp add: get_run_def authorize_run_def validate_review_def sample_run_def initial_run_def Let_def)
  moreover have "sized st 1"
    using d(2) by (simp add: st_def run_directory_def sized_def)
  ultimately show thesis using that create step by blast
qed

text \<open>The stored effect of one change on a run that has no review.\<close>

lemma sample_update:
  assumes "runs_ok sample_files st" and "get_run sample_files st ''run-1'' ''alice'' = Inr r"
    and "supervisor_change change" and "change r = Inr r'"
    and "sized st n" and "n < 10"
  obtains st' where "update_op sample_supervisor ''run-1'' ''alice'' change st =
      (Inr (AList.update ''updated_at'' (JStr ''t'') r'), st')"
    "agent_step sample_files st st'" "runs_ok sample_files st'"
    "load_run sample_files st' ''run-1'' = Inr (AList.update ''updated_at'' (JStr ''t'') r')"
    "sized st' (Suc n)"
proof -
  have "run_room st ''run-1''" using assms(5,6) by (simp add: run_room_def sized_def)
  then obtain st' where
    st': "update_run sample_files (\<lambda>_. ''t'') ''run-1'' ''alice'' change st =
        Inr (AList.update ''updated_at'' (JStr ''t'') r', st')" "agent_step sample_files st st'"
      "load_run sample_files st' ''run-1'' = Inr (AList.update ''updated_at'' (JStr ''t'') r')"
      "\<And>x. length (run_log (run_directory st' x)) =
         (if x = ''run-1'' then Suc (length (run_log (run_directory st ''run-1''))) else length (run_log (run_directory st x)))"
    by (rule update_run_stores[OF assms(1,2,4,3), where now = "\<lambda>_. ''t''"]) blast
  have "runs_ok sample_files st'" using agent_step_refines[OF st'(2) assms(1)] by (simp add: agent_refines_def)
  moreover have "update_op sample_supervisor ''run-1'' ''alice'' change st =
      (Inr (AList.update ''updated_at'' (JStr ''t'') r'), st')"
    using st'(1) by (simp add: update_op_def store_op_def sample_supervisor_def)
  moreover have "sized st' (Suc n)" using st'(4) assms(5) by (simp add: sized_def)
  ultimately show thesis using that st'(2,3) by blast
qed

lemma sample_claim: "claim_change sample_action sample_run =
    Inr (update_fields sample_run [(''state'', JStr ''running''), (''active_action'', JObj (action_dict sample_action))])"
  by (simp add: claim_change_def sample_run_def initial_run_def is_terminal_run_def terminal_run_states_def)

text \<open>The loop on a run whose source is missing: one action is claimed and recorded as failed.\<close>

lemma sample_next: "next_action sample_goal sample_run = Inr (Some sample_action)"
  by (simp add: next_action_def sample_run_def initial_run_def actions_of_def get_default_def completed_workflows_def
      sample_goal_def agent_actions_def default_budget_def sample_action_def Let_def)

lemma sample_path: "source_path (\<lambda>p. p) sample_goal ''/work'' = Inr ''/work/src/A.java''"
  by code_simp

lemma sample_missing: "execute (sup_gateway sample_supervisor) sample_goal sample_action st =
    (Inl (run_fail ''SOURCE_UNAVAILABLE'' ''approved source is unavailable''), st)"
proof -
  have w: "act_workflow sample_action \<in> set (permitted_workflows sample_goal)"
    by (simp add: sample_action_def sample_goal_def agent_actions_def)
  with sample_path show ?thesis
    by (simp add: execute_def run_defs sample_supervisor_def sample_gateway_def)
qed

lemma open_run: "load_run w st rid = Inr r \<Longrightarrow> get_field ''principal_id'' r = JStr who \<Longrightarrow>
    get_field ''review'' r = JNull \<Longrightarrow> get_run w st rid who = Inr r"
  by (simp add: get_run_def authorize_run_def validate_review_def Let_def)

definition evidence_denied :: service_error where
  "evidence_denied = MCPPolicyViolation ''MCP profile does not authorize evidence_publication: run-agent-goal''"

lemma sample_effects:
  "require_effect sample_supervisor ''service_state_read'' st = (Inr (), st)"
  "require_effect sample_supervisor ''service_state_write'' st = (Inr (), st)"
  "require_effect sample_supervisor ''evidence_publication'' st = (Inl evidence_denied, st)"
proof -
  have "require_mcp_effect (sup_admission sample_supervisor) ''service_state_read'' = Inr ()"
    "require_mcp_effect (sup_admission sample_supervisor) ''service_state_write'' = Inr ()"
    "require_mcp_effect (sup_admission sample_supervisor) ''evidence_publication'' = Inl evidence_denied"
    by code_simp+
  then show "require_effect sample_supervisor ''service_state_read'' st = (Inr (), st)"
    "require_effect sample_supervisor ''service_state_write'' st = (Inr (), st)"
    "require_effect sample_supervisor ''evidence_publication'' st = (Inl evidence_denied, st)"
    by (simp_all add: require_effect_def pure_run_def)
qed

lemma sample_finalize: "finalize sample_supervisor g who state st = (Inl evidence_denied, st)"
  by (simp add: finalize_def run_defs sample_effects)

lemma sample_observe:
  "\<exists>q. observe_change sample_action (failure_result code message) (AList.update ''updated_at'' (JStr ''t'')
     (update_fields sample_run [(''state'', JStr ''running''), (''active_action'', JObj (action_dict sample_action))])) = Inr q"
  by (simp add: observe_change_def active_of_def action_dict_def sample_action_def actions_of_def get_default_def
      sample_run_def initial_run_def json_is_int_def action_succeeded_def failure_result_def append_finding_def Let_def)

lemma run_outcome_final_witness:
  "\<exists>st st' r r'. agent_step sample_files st st' \<and> load_run sample_files st ''run-1'' = Inr r \<and>
     load_run sample_files st' ''run-1'' = Inr r' \<and> get_field ''actions'' r' = get_field ''actions'' r"
proof -
  obtain st where st: "agent_step sample_files [] st" "runs_ok sample_files st"
    "get_run sample_files st ''run-1'' ''alice'' = Inr sample_run"
    "sized st 1"
    by (rule sample_create) blast
  have "\<exists>c. cancel_change sample_run = Inr c \<and> get_field ''state'' c = JStr ''cancelled'' \<and>
      get_field ''principal_id'' c = JStr ''alice'' \<and> get_field ''review'' c = JNull"
    by (simp add: cancel_change_def sample_run_def initial_run_def is_terminal_run_def terminal_run_states_def)
  then obtain c where c: "cancel_change sample_run = Inr c" "get_field ''state'' c = JStr ''cancelled''"
    "get_field ''principal_id'' c = JStr ''alice''" "get_field ''review'' c = JNull" by blast
  let ?c = "AList.update ''updated_at'' (JStr ''t'') c"
  obtain st1 where st1: "agent_step sample_files st st1" "runs_ok sample_files st1"
    "load_run sample_files st1 ''run-1'' = Inr ?c"
    "sized st1 (Suc 1)"
    by (rule sample_update[OF st(2,3) supervisor_change.intros(4) c(1) st(4)]) (simp, blast)
  have final: "is_terminal_run (get_field ''state'' ?c)"
    using c(2) by (simp add: is_terminal_run_def terminal_run_states_def)
  then have again: "cancel_change ?c = Inr ?c" by (simp add: cancel_change_def)
  have "get_run sample_files st1 ''run-1'' ''alice'' = Inr ?c" by (rule open_run[OF st1(3)]) (simp_all add: c)
  from sample_update[OF st1(2) this supervisor_change.intros(4) again st1(4)]
  obtain st2 where st2: "agent_step sample_files st1 st2" by auto
  have run: "(agent_step sample_files)\<^sup>*\<^sup>* [] st1" "(agent_step sample_files)\<^sup>*\<^sup>* st1 st2"
    using st(1) st1(1) st2 by auto
  from run_outcome_final[OF run(1) st1(3) final run(2)] show ?thesis using st2 st1(3) by blast
qed

lemma interrupted_action_never_replayed_witness:
  "\<exists>st r. get_run sample_files st ''run-1'' ''alice'' = Inr r \<and>
     get_field ''active_action'' r = JObj (action_dict sample_action) \<and>
     resume (sample_supervisor\<lparr>sup_gateway := sample_gateway (\<lambda>_. True)\<rparr>) ''run-1'' ''alice'' st =
       resume sample_supervisor ''run-1'' ''alice'' st"
proof -
  obtain st where st: "runs_ok sample_files st"
    "get_run sample_files st ''run-1'' ''alice'' = Inr sample_run"
    "sized st 1"
    by (rule sample_create) blast
  let ?r = "AList.update ''updated_at'' (JStr ''t'') (update_fields sample_run
      [(''state'', JStr ''running''), (''active_action'', JObj (action_dict sample_action))])"
  obtain st1 where st1: "load_run sample_files st1 ''run-1'' = Inr ?r"
    by (rule sample_update[OF st(1,2) supervisor_change.intros(1) sample_claim st(3)]) (simp, blast)
  have r: "get_run sample_files st1 ''run-1'' ''alice'' = Inr ?r"
    by (rule open_run[OF st1]) (simp_all add: sample_run_def initial_run_def)
  have a: "get_field ''active_action'' ?r = JObj (action_dict sample_action)" by simp
  have "run_id sample_goal = ''run-1''" by (simp add: sample_goal_def)
  with interrupted_action_never_replayed[of sample_supervisor st1 "''run-1''" "''alice''" ?r sample_goal
      "sample_gateway (\<lambda>_. True)"] r a
  have "resume (sample_supervisor\<lparr>sup_gateway := sample_gateway (\<lambda>_. True)\<rparr>) ''run-1'' ''alice'' st1 =
      resume sample_supervisor ''run-1'' ''alice'' st1"
    by (simp add: sample_supervisor_def)
  with r a show ?thesis by blast
qed

lemma review_acceptance_witness:
  "\<exists>review. build_review sample_files sample_goal sample_run [] = Inr review \<and>
     get_field ''human_approval'' review =
       JObj [(''required_for'', jstrings approval_required), (''granted'', JBool False)]"
proof -
  have "\<exists>review. build_review sample_files sample_goal sample_run [] = Inr review"
    by (simp add: build_review_def sample_run_def initial_run_def actions_of_def get_default_def goal_satisfied_def
        result_of_def)
  then show ?thesis using review_acceptance by blast
qed

lemma supervisor_terminates_witness:
  "fst (start sample_supervisor sample_goal ''alice'' []) \<noteq> Inr None \<and>
     fst (resume sample_supervisor ''run-1'' ''alice'' []) \<noteq> Inr None"
proof -
  obtain st where st: "create_run sample_files (\<lambda>_. ''t'') sample_goal ''alice'' [] = Inr ((sample_run, True), st)"
    "runs_ok sample_files st" "get_run sample_files st ''run-1'' ''alice'' = Inr sample_run"
    "sized st 1"
    by (rule sample_create) blast
  let ?r = "AList.update ''updated_at'' (JStr ''t'') (update_fields sample_run
      [(''state'', JStr ''running''), (''active_action'', JObj (action_dict sample_action))])"
  obtain st1 where st1: "update_op sample_supervisor ''run-1'' ''alice'' (claim_change sample_action) st = (Inr ?r, st1)"
    "runs_ok sample_files st1" "load_run sample_files st1 ''run-1'' = Inr ?r"
    "sized st1 (Suc 1)"
    by (rule sample_update[OF st(2,3) supervisor_change.intros(1) sample_claim st(4)]) (simp, blast)
  have r1: "get_run sample_files st1 ''run-1'' ''alice'' = Inr ?r"
    by (rule open_run[OF st1(3)]) (simp_all add: sample_run_def initial_run_def)
  let ?f = "failure_result ''SOURCE_UNAVAILABLE'' ''approved source is unavailable''"
  obtain q where q: "observe_change sample_action ?f ?r = Inr q"
    using sample_observe by blast
  obtain st2 where st2: "update_op sample_supervisor ''run-1'' ''alice'' (observe_change sample_action ?f) st1 =
      (Inr (AList.update ''updated_at'' (JStr ''t'') q), st2)"
    "sized st2 (Suc (Suc 1))"
    by (rule sample_update[OF st1(2) r1 supervisor_change.intros(2) q st1(4)]) (simp, blast)
  note ops = sample_effects sample_finalize
  have rid: "run_id sample_goal = ''run-1''" by (simp add: sample_goal_def)
  have f: "sup_files sample_supervisor = sample_files" "sup_clock sample_supervisor = (\<lambda>_. ''t'')"
    by (simp_all add: sample_supervisor_def)
  have fields: "get_field ''state'' sample_run = JStr ''planned''" "get_field ''active_action'' sample_run = JNull"
    "get_field ''cancel_requested'' sample_run = JBool False"
    by (simp_all add: sample_run_def initial_run_def)
  have nt: "\<not> is_terminal_run (JStr ''planned'')" by (simp add: is_terminal_run_def terminal_run_states_def)
  have three: "rounds = Suc 2" by (simp add: rounds_def)
  have "advance (Suc n) sample_supervisor sample_goal ''alice'' st = (Inl evidence_denied, st2)" for n
    by (simp add: run_defs read_op_def f rid st(3) fields nt sample_next st1(1) sample_missing
        record_failure_def done_with_def st2(1) ops)
  then have adv: "advance_run sample_supervisor sample_goal ''alice'' st = (Inl evidence_denied, st2)"
    unfolding advance_run_def three .
  have start: "start sample_supervisor sample_goal ''alice'' [] = (Inl evidence_denied, st2)"
    by (simp add: start_def run_defs ops f st(1) fields nt adv)
  have roomy: "runs_roomy st2" "runs_roomy []"
    using st2(2) by (simp_all add: runs_roomy_def run_room_def run_directory_def sized_def)
  have "load_run sample_files [] ''run-1'' = Inl run_not_found"
    by (simp add: load_run_def load_log_def run_directory_def events_def sample_id_ok)
  then have resume: "resume sample_supervisor ''run-1'' ''alice'' [] = (Inl run_not_found, [])"
    by (simp add: resume_def run_defs ops read_op_def get_run_def f)
  show ?thesis
    by (rule supervisor_terminates[OF _ _ sample_goal_made])
       (simp_all add: f start resume roomy sample_supervisor_def[THEN arg_cong[where f = sup_gateway]] sample_gateway_sound)
qed

lemma gateway_fail_closed_witness:
  "gw_is_file (sample_gateway (\<lambda>_. True)) ''/work/src/A.java'' \<and>
     permits (gw_admission (sample_gateway (\<lambda>_. True))) ''workspace_read''"
proof -
  have p: "source_path (\<lambda>p. p) sample_goal ''/work'' = Inr ''/work/src/A.java''" by (rule sample_path)
  have w: "''inspect'' \<in> set (permitted_workflows sample_goal)" "act_workflow sample_action = ''inspect''"
    by (simp_all add: sample_action_def sample_goal_def agent_actions_def)
  have r: "require_mcp_effect (sample_admission [''workspace_read'']) ''workspace_read'' = Inr ()" by code_simp
  have "length (dumps (JObj [(''status'', JStr ''INSPECTED'')])) \<le> 100" by code_simp
  then have b: "length (dumps (JObj [(''status'', JStr ''INSPECTED'')])) \<le> result_limit"
    by (simp add: result_limit_def del: dumps.simps)
  have "execute (sample_gateway (\<lambda>_. True)) sample_goal sample_action [] = (Inr [(''status'', JStr ''INSPECTED'')], [])"
    using b by (simp add: execute_def run_defs sample_gateway_def p w r perform_def gateway_require_def
        bounded_result_def Let_def del: dumps.simps)
  from gateway_fail_closed[OF this] show ?thesis by (simp add: sample_gateway_def)
qed

end
