(* ===== verification/Bounded_Inputs.thy ===== *)
theory Bounded_Inputs
  imports Workflow_Contracts
begin

text \<open>
  Reading of regular files under an authorized root, \<^verbatim>\<open>pipeline/bounded_inputs.py\<close>.  The
  workspace is a tree of files and directories; opening a component never follows a symbolic link.  Every
  capture is charged to a budget of files and bytes.  Expanding \<^verbatim>\<open>~\<close> is an argument.
\<close>

section \<open>Errors, files, budgets\<close>

text \<open>\<open>BoundedInputError\<close> carries its code; \<open>FileNotFoundError\<close> is kept apart from the other
  errors of the operating system, and \<open>PlainValueError\<close> stands for the \<open>ValueError\<close>s without a code
  (the ones of the JSON decoder among them).  \<open>OtherError\<close> is an exception that no handler of this
  component catches.\<close>

datatype io_error =
    BoundedInputError string string
  | PlainValueError string
  | FileNotFoundError string
  | OSFailure string
  | RuntimeFailure string
  | Refused service_error
  | OtherError string

text \<open>\<open>Special_file\<close> can be opened but is no regular file; \<open>Unreadable\<close> cannot be opened.\<close>

datatype fs_node =
    Regular_file string
  | Directory "(string \<times> fs_node) list"
  | Symbolic_link
  | Special_file
  | Unreadable

record capture_budget =
  remaining_bytes :: int
  remaining_files :: int

definition refused :: "service_error + 'a \<Rightarrow> io_error + 'a" where
  "refused m = (case m of Inl e \<Rightarrow> Inl (Refused e) | Inr x \<Rightarrow> Inr x)"

lemma refused_Inr [simp]: "refused m = Inr x \<longleftrightarrow> m = Inr x"
  by (auto simp: refused_def split: sum.splits)

section \<open>Paths\<close>

definition budget_get :: "string \<Rightarrow> int \<Rightarrow> (string \<times> int) list \<Rightarrow> int" where
  "budget_get k v b = (case map_of b k of None \<Rightarrow> v | Some i \<Rightarrow> i)"

text \<open>The path, and its components below the workspace root.\<close>

definition input_path :: "(string \<Rightarrow> io_error + string) \<Rightarrow> string \<Rightarrow> workflow_context
    \<Rightarrow> io_error + string \<times> string list" where
  "input_path expand value ctx =
     and_then (refused (require ctx ''workspace_read'')) (\<lambda>_.
     and_then (expand value) (\<lambda>supplied.
     let path = (if path_root supplied \<noteq> [] then supplied else workspace_root ctx @ ''/'' @ supplied);
         parts = path_parts path; root = path_parts (workspace_root ctx);
         relative = drop (length root) parts
     in and_then (ensure (take (length root) parts = root)
          (BoundedInputError ''PATH_OUTSIDE_WORKSPACE'' ''input must be inside the authorized root'')) (\<lambda>_.
        and_then (ensure (\<not> (''..'' \<in> set relative \<or> relative = []))
          (BoundedInputError ''PATH_OUTSIDE_WORKSPACE'' ''unsafe input path'')) (\<lambda>_.
        and_then (ensure (\<not> budget_get ''max_path_depth'' 32 (resource_budget ctx) < int (length relative))
          (BoundedInputError ''INPUT_LIMIT_EXCEEDED'' ''input path depth exceeded'')) (\<lambda>_.
        Inr (as_posix path, relative))))))"

section \<open>Directories and captures\<close>

fun input_directory :: "fs_node \<Rightarrow> string list \<Rightarrow> io_error + (string \<times> fs_node) list" where
  "input_directory (Directory entries) [] = Inr entries"
| "input_directory (Directory entries) (c # cs) =
     (if CHR 0x00 \<in> set c then Inl (PlainValueError ''embedded null byte'')
      else case map_of entries c of
        None \<Rightarrow> Inl (FileNotFoundError c)
      | Some inner \<Rightarrow> input_directory inner cs)"
| "input_directory _ cs = Inl (OSFailure ''not a directory'')"

definition open_regular :: "(string \<times> fs_node) list \<Rightarrow> string \<Rightarrow> io_error + string" where
  "open_regular directory name =
     (if CHR 0x00 \<in> set name then Inl (PlainValueError ''embedded null byte'')
      else case map_of directory name of
        None \<Rightarrow> Inl (FileNotFoundError name)
      | Some (Regular_file content) \<Rightarrow> Inr content
      | Some Special_file \<Rightarrow> Inl (BoundedInputError ''INVALID_INPUT'' ''inputs must be regular files'')
      | Some _ \<Rightarrow> Inl (OSFailure name))"

definition capture :: "string \<Rightarrow> (string \<times> fs_node) list \<Rightarrow> workflow_context \<Rightarrow> capture_budget
    \<Rightarrow> io_error + string \<times> capture_budget" where
  "capture name directory ctx budget =
     and_then (refused (require ctx ''workspace_read'')) (\<lambda>_.
     and_then (ensure (\<not> remaining_files budget \<le> 0)
       (BoundedInputError ''INPUT_LIMIT_EXCEEDED'' ''aggregate file allowance exceeded'')) (\<lambda>_.
     and_then (open_regular directory name) (\<lambda>file.
     let content = take (nat (remaining_bytes budget + 1)) file
     in and_then (ensure (\<not> remaining_bytes budget < int (length content))
          (BoundedInputError ''INPUT_LIMIT_EXCEEDED'' ''aggregate byte allowance exceeded'')) (\<lambda>_.
        Inr (content, budget\<lparr>remaining_bytes := remaining_bytes budget - int (length content),
          remaining_files := remaining_files budget - 1\<rparr>)))))"

text \<open>\<open>[capture(name) for name in names]\<close>, with the names.\<close>

fun capture_all :: "string list \<Rightarrow> (string \<times> fs_node) list \<Rightarrow> workflow_context \<Rightarrow> capture_budget
    \<Rightarrow> io_error + (string \<times> string) list \<times> capture_budget" where
  "capture_all [] directory ctx budget = Inr ([], budget)"
| "capture_all (n # ns) directory ctx budget =
     and_then (capture n directory ctx budget) (\<lambda>(content, b).
     and_then (capture_all ns directory ctx b) (\<lambda>(rest, b'). Inr ((n, content) # rest, b')))"

section \<open>What is captured\<close>

text \<open>The file at the end of a path of real directories.\<close>

fun regular_at :: "fs_node \<Rightarrow> string list \<Rightarrow> string \<Rightarrow> bool" where
  "regular_at (Regular_file content) [] c = (c = content)"
| "regular_at (Directory entries) (p # ps) c =
     (case map_of entries p of None \<Rightarrow> False | Some inner \<Rightarrow> regular_at inner ps c)"
| "regular_at _ _ _ = False"

lemma input_directory_regular:
  assumes "input_directory node cs = Inr d" and "open_regular d n = Inr c"
  shows "regular_at node (cs @ [n]) c"
  using assms
  by (induction node cs rule: input_directory.induct)
     (auto simp: open_regular_def split: if_splits option.splits fs_node.splits)

lemma captureD:
  assumes "capture n d ctx b = Inr (c, b')" and "0 \<le> remaining_bytes b"
  shows "open_regular d n = Inr c" and "int (length c) + remaining_bytes b' = remaining_bytes b"
    and "0 \<le> remaining_bytes b'" and "0 < remaining_files b" and "remaining_files b' = remaining_files b - 1"
    and "require ctx ''workspace_read'' = Inr ()"
  using assms by (auto simp: capture_def and_then_Inr_iff Let_def)

lemma capture_allD:
  assumes "capture_all ns d ctx b = Inr (fs, b')" and "0 \<le> remaining_bytes b"
  shows "map fst fs = ns" and "\<forall>(n, c) \<in> set fs. open_regular d n = Inr c"
    and "(\<Sum>f \<leftarrow> fs. int (length (snd f))) + remaining_bytes b' = remaining_bytes b" and "0 \<le> remaining_bytes b'"
    and "remaining_files b' = remaining_files b - int (length ns)"
proof -
  have "map fst fs = ns \<and> (\<forall>(n, c) \<in> set fs. open_regular d n = Inr c) \<and>
    (\<Sum>f \<leftarrow> fs. int (length (snd f))) + remaining_bytes b' = remaining_bytes b \<and> 0 \<le> remaining_bytes b' \<and>
    remaining_files b' = remaining_files b - int (length ns)"
    using assms
  proof (induction ns arbitrary: b fs)
    case (Cons n ns)
    then obtain c b1 rest where
      one: "capture n d ctx b = Inr (c, b1)" and
      more: "capture_all ns d ctx b1 = Inr (rest, b')" and fs: "fs = (n, c) # rest"
      by (auto simp: and_then_Inr_iff)
    note h = captureD[OF one Cons.prems(2)]
    from Cons.IH[OF more h(3)] h fs show ?case by auto
  qed simp
  then show "map fst fs = ns" and "\<forall>(n, c) \<in> set fs. open_regular d n = Inr c"
    and "(\<Sum>f \<leftarrow> fs. int (length (snd f))) + remaining_bytes b' = remaining_bytes b" and "0 \<le> remaining_bytes b'"
    and "remaining_files b' = remaining_files b - int (length ns)" by blast+
qed

lemma input_pathD:
  assumes "input_path expand v ctx = Inr (p, rel)"
  shows "rel \<noteq> []" and "''..'' \<notin> set rel"
    and "int (length rel) \<le> budget_get ''max_path_depth'' 32 (resource_budget ctx)"
    and "require ctx ''workspace_read'' = Inr ()"
    and "\<exists>u. path_parts u = path_parts (workspace_root ctx) @ rel \<and> p = as_posix u"
  using assms
  by (auto simp: input_path_def and_then_Inr_iff Let_def) (metis append_take_drop_id)+

text \<open>A captured input is the whole content of a regular file that lies below the authorized root on a
  path of real directories, without links and parent steps and within the depth limit; reading needs the
  effect \<open>workspace_read\<close>, and what was read has been charged to a budget that never goes below zero.\<close>

theorem capture_confined:
  assumes "input_path expand v ctx = Inr (p, rel)"
    and "input_directory root (butlast rel) = Inr d"
    and "capture (last rel) d ctx budget = Inr (content, budget')" and "0 \<le> remaining_bytes budget"
  shows "regular_at root rel content \<and> ''..'' \<notin> set rel \<and>
    int (length rel) \<le> budget_get ''max_path_depth'' 32 (resource_budget ctx) \<and>
    ''workspace_read'' \<in> set (ctx_effects ctx) \<and> authority_permits (ctx_authority ctx) ''workspace_read'' \<and>
    int (length content) + remaining_bytes budget' = remaining_bytes budget \<and> 0 \<le> remaining_bytes budget' \<and>
    0 \<le> remaining_files budget' \<and> remaining_files budget' + 1 = remaining_files budget"
proof -
  note path = input_pathD[OF assms(1)] and cap = captureD[OF assms(3,4)]
  have "regular_at root rel content"
    using input_directory_regular[OF assms(2) cap(1)] path(1) by simp
  then show ?thesis using path(2-4) cap by (auto simp: require_def and_then_Inr_iff)
qed

definition evidence_context :: workflow_context where
  "evidence_context = \<lparr>ctx_interface = CLI, ctx_authority = FixedEffectAuthority [''workspace_read''],
     workspace_root = ''/w'', ctx_effects = [''workspace_read''], output_root = None, resource_budget = []\<rparr>"

lemma capture_confined_witness:
  "regular_at (Directory [(''e'', Directory [(''m'', Regular_file ''x'')])]) [''e'', ''m''] ''x''"
proof -
  let ?root = "Directory [(''e'', Directory [(''m'', Regular_file ''x'')])]"
  have "input_path Inr ''e/m'' evidence_context = Inr (''/w/e/m'', [''e'', ''m''])" by code_simp
  moreover have "input_directory ?root (butlast [''e'', ''m'']) = Inr [(''m'', Regular_file ''x'')]" by simp
  moreover have "capture (last [''e'', ''m'']) [(''m'', Regular_file ''x'')] evidence_context
      \<lparr>remaining_bytes = 8, remaining_files = 2\<rparr> = Inr (''x'', \<lparr>remaining_bytes = 7, remaining_files = 1\<rparr>)"
    by code_simp
  ultimately show ?thesis by (rule capture_confined[THEN conjunct1]) simp
qed

end
