(* ===== verification/Evidence_Ledger.thy ===== *)
theory Evidence_Ledger
  imports Bounded_Inputs
begin

text \<open>
  The evidence ledger of \<^verbatim>\<open>pipeline/lifecycle.py\<close>: a run publishes write-once JSON
  artifacts, each with the digest of the one before, and a terminal manifest; a committed run is validated
  from the bytes alone.  The directory \<^verbatim>\<open>evidence\<close> is the list of its files with their
  bytes.  SHA-256 and the JSON decoder are arguments (\<open>sha\<close>, \<open>loads\<close>), as are clocks and the
  identifier of the run.
\<close>

section \<open>States and claims\<close>

datatype pipeline_state = REQUIREMENTS | CONTRACT | CANDIDATE | CHEAP_GATES | PROOF | REVIEW_AND_MEASURE

definition state_value :: "pipeline_state \<Rightarrow> string" where
  "state_value s = (case s of REQUIREMENTS \<Rightarrow> ''REQUIREMENTS'' | CONTRACT \<Rightarrow> ''CONTRACT''
     | CANDIDATE \<Rightarrow> ''CANDIDATE'' | CHEAP_GATES \<Rightarrow> ''CHEAP_GATES'' | PROOF \<Rightarrow> ''PROOF''
     | REVIEW_AND_MEASURE \<Rightarrow> ''REVIEW_AND_MEASURE'')"

datatype evidence_claim =
    TRANSFORMATION | STATIC_CHECK | DEDUCTIVE_PROOF | COUNTEREXAMPLE_EVIDENCE | RUNTIME_SAMPLE
  | BOUNDED_ARCHITECTURE_EVIDENCE | BOUNDED_EVIDENCE | BOUNDED_CPP_PROOF | NO_PROOF

definition claim_value :: "evidence_claim \<Rightarrow> string" where
  "claim_value c = (case c of TRANSFORMATION \<Rightarrow> ''TRANSFORMATION'' | STATIC_CHECK \<Rightarrow> ''STATIC_CHECK''
     | DEDUCTIVE_PROOF \<Rightarrow> ''DEDUCTIVE_PROOF'' | COUNTEREXAMPLE_EVIDENCE \<Rightarrow> ''COUNTEREXAMPLE_EVIDENCE''
     | RUNTIME_SAMPLE \<Rightarrow> ''RUNTIME_SAMPLE''
     | BOUNDED_ARCHITECTURE_EVIDENCE \<Rightarrow> ''BOUNDED_ARCHITECTURE_EVIDENCE''
     | BOUNDED_EVIDENCE \<Rightarrow> ''BOUNDED_EVIDENCE'' | BOUNDED_CPP_PROOF \<Rightarrow> ''BOUNDED_CPP_PROOF''
     | NO_PROOF \<Rightarrow> ''NO_PROOF'')"

section \<open>Writing a run\<close>

record transition =
  transition_sequence :: nat
  transition_state :: string
  transition_status :: string
  transition_timestamp :: string
  transition_claim :: string
  transition_path :: string
  transition_details :: dict

record ledger =
  ledger_files :: "(string \<times> string) list"
  ledger_run :: string
  ledger_transitions :: "transition list"
  ledger_artifacts :: "dict list"
  ledger_committed :: bool

type_synonym decoder = "string \<Rightarrow> io_error + json"

text \<open>The staged bytes are decoded once, and linked to a name that must not exist.\<close>

definition publish_json :: "decoder \<Rightarrow> (string \<Rightarrow> string) \<Rightarrow> string \<Rightarrow> dict \<Rightarrow> (string \<times> string) list
    \<Rightarrow> io_error + (string \<times> nat) \<times> (string \<times> string) list" where
  "publish_json loads sha name payload files =
     (let encoded = dumps_indent payload
      in and_then (loads encoded) (\<lambda>_.
         and_then (ensure (map_of files name = None) (OSFailure name)) (\<lambda>_.
         Inr ((sha encoded, length encoded), files @ [(name, encoded)]))))"

definition artifact_entry :: "string \<Rightarrow> string \<times> nat \<Rightarrow> dict" where
  "artifact_entry name identity = [(''path'', JStr name), (''sha256'', JStr (fst identity)),
     (''size'', JInt (int (snd identity)))]"

definition run_payload :: "string \<Rightarrow> string \<Rightarrow> dict" where
  "run_payload run_id now = [(''schema'', JStr ''formalspecgen-run-v1''), (''run_id'', JStr run_id),
     (''created_at'', JStr now), (''publication_guarantee'', JStr ''application-write-once'')]"

definition new_ledger :: "decoder \<Rightarrow> (string \<Rightarrow> string) \<Rightarrow> string \<Rightarrow> string \<Rightarrow> bool \<Rightarrow> io_error + ledger" where
  "new_ledger loads sha run_id now evidence_exists =
     and_then (ensure (\<not> evidence_exists) (OSFailure ''evidence'')) (\<lambda>_.
     and_then (publish_json loads sha ''run.json'' (run_payload run_id now) []) (\<lambda>(identity, files).
     Inr \<lparr>ledger_files = files, ledger_run = run_id, ledger_transitions = [],
       ledger_artifacts = [artifact_entry ''run.json'' identity], ledger_committed = False\<rparr>))"

text \<open>What one call of \<^verbatim>\<open>record\<close> is given; the clock is read twice.\<close>

record step =
  step_state :: pipeline_state
  step_status :: string
  step_claim :: evidence_claim
  step_details :: dict
  step_evidence :: dict
  step_recorded :: string
  step_time :: string

definition pad3 :: "nat \<Rightarrow> string" where
  "pad3 n = (let s = str_of_nat n in replicate (3 - length s) (CHR ''0'') @ s)"

definition artifact_name :: "nat \<Rightarrow> pipeline_state \<Rightarrow> string" where
  "artifact_name sequence state = pad3 sequence @ ''-'' @ str_lower (state_value state) @ ''.json''"

definition record_payload :: "string \<Rightarrow> nat \<Rightarrow> json \<Rightarrow> step \<Rightarrow> dict" where
  "record_payload run_id sequence previous s = [(''sequence'', JInt (int sequence)),
     (''state'', JStr (state_value (step_state s))), (''status'', JStr (step_status s)),
     (''claim'', JStr (claim_value (step_claim s))), (''details'', JObj (step_details s)),
     (''evidence'', JObj (step_evidence s)), (''run_id'', JStr run_id), (''recorded_at'', JStr (step_recorded s)),
     (''previous_artifact_sha256'', previous)]"

definition previous_digest :: "dict list \<Rightarrow> json" where
  "previous_digest artifacts = (if artifacts = [] then JNull else get_field ''sha256'' (last artifacts))"

definition ledger_record :: "decoder \<Rightarrow> (string \<Rightarrow> string) \<Rightarrow> string \<Rightarrow> step \<Rightarrow> ledger \<Rightarrow> io_error + ledger" where
  "ledger_record loads sha directory s L =
     and_then (ensure (\<not> ledger_committed L)
       (RuntimeFailure ''cannot append evidence after terminal manifest publication'')) (\<lambda>_.
     let sequence = length (ledger_transitions L) + 1;
         name = artifact_name sequence (step_state s);
         payload = record_payload (ledger_run L) sequence (previous_digest (ledger_artifacts L)) s
     in and_then (publish_json loads sha name payload (ledger_files L)) (\<lambda>(identity, files).
        Inr (L\<lparr>ledger_files := files, ledger_artifacts := ledger_artifacts L @ [artifact_entry name identity],
          ledger_transitions := ledger_transitions L @ [\<lparr>transition_sequence = sequence,
            transition_state = state_value (step_state s), transition_status = step_status s,
            transition_timestamp = step_time s, transition_claim = claim_value (step_claim s),
            transition_path = directory @ ''/'' @ name, transition_details = step_details s\<rparr>]\<rparr>)))"

section \<open>Validating an inventory\<close>

text \<open>A reader gets the path of an artifact as the inventory has it.\<close>

type_synonym reader = "json \<Rightarrow> io_error + string"

definition path_name :: "string \<Rightarrow> string" where
  "path_name s = (if path_tail s = [] then [] else last (path_tail s))"

fun is_os_error :: "io_error \<Rightarrow> bool" where
  "is_os_error (FileNotFoundError _) = True"
| "is_os_error (OSFailure _) = True"
| "is_os_error _ = False"

fun is_value_error :: "io_error \<Rightarrow> bool" where
  "is_value_error (BoundedInputError _ _) = True"
| "is_value_error (PlainValueError _) = True"
| "is_value_error _ = False"

fun int_value :: "json \<Rightarrow> int option" where
  "int_value (JInt i) = Some i"
| "int_value (JBool b) = Some (if b then 1 else 0)"
| "int_value _ = None"

definition artifact_intact :: "(string \<Rightarrow> string) \<Rightarrow> (json \<Rightarrow> string) \<Rightarrow> dict \<Rightarrow> string \<Rightarrow> bool" where
  "artifact_intact sha repr artifact content \<longleftrightarrow>
     (case int_value (get_field ''size'' artifact) of None \<Rightarrow> False | Some n \<Rightarrow>
        0 \<le> n \<and> is_hex 64 (py_str repr (get_field ''sha256'' artifact)) \<and> int (length content) = n \<and>
        JStr (sha content) = get_field ''sha256'' artifact)"

definition relative_path :: "(json \<Rightarrow> string) \<Rightarrow> dict \<Rightarrow> string" where
  "relative_path repr artifact = py_str repr (get_default ''path'' (JStr '''') artifact)"

fun validate_entries :: "(string \<Rightarrow> string) \<Rightarrow> (json \<Rightarrow> string) \<Rightarrow> (io_error \<Rightarrow> string) \<Rightarrow> reader \<Rightarrow> string list \<Rightarrow> json list
    \<Rightarrow> io_error + string option" where
  "validate_entries sha repr describe read seen [] = Inr None"
| "validate_entries sha repr describe read seen (JObj artifact # rest) =
     (let p = relative_path repr artifact in
      if \<not> {''path'', ''size'', ''sha256''} \<subseteq> set (map fst artifact) then Inr (Some ''malformed evidence artifact record'')
      else if path_root p \<noteq> [] \<or> length (path_parts p) \<noteq> 1 \<or> path_name p \<noteq> as_posix p then
        Inr (Some (''invalid evidence artifact path: '' @ as_posix p))
      else if path_name p \<in> set seen then Inr (Some (''duplicate evidence artifact path: '' @ as_posix p))
      else (case read (get_field ''path'' artifact) of
        Inl e \<Rightarrow> if is_os_error e then Inr (Some (''evidence artifact unavailable: '' @ describe e)) else Inl e
      | Inr content \<Rightarrow>
          if artifact_intact sha repr artifact content
          then validate_entries sha repr describe read (path_name p # seen) rest
          else Inr (Some (''evidence artifact integrity failure: '' @ py_str repr (get_field ''path'' artifact)))))"
| "validate_entries sha repr describe read seen (_ # rest) = Inr (Some ''malformed evidence artifact record'')"

definition validate_artifacts :: "(string \<Rightarrow> string) \<Rightarrow> (json \<Rightarrow> string) \<Rightarrow> (io_error \<Rightarrow> string) \<Rightarrow> reader \<Rightarrow> json
    \<Rightarrow> io_error + string option" where
  "validate_artifacts sha repr describe read artifacts =
     (case artifacts of JArr (a # as) \<Rightarrow> validate_entries sha repr describe read [] (a # as)
      | _ \<Rightarrow> Inr (Some ''evidence manifest has no artifact inventory''))"

text \<open>The bytes of the evidence directory.\<close>

fun read_files :: "(string \<times> string) list \<Rightarrow> reader" where
  "read_files files (JStr name) =
     (if CHR 0x00 \<in> set name then Inl (PlainValueError ''embedded null byte'')
      else case map_of files (as_posix name) of
        None \<Rightarrow> Inl (FileNotFoundError name) | Some content \<Rightarrow> Inr content)"
| "read_files files _ = Inl (OtherError ''TypeError'')"

section \<open>Committing\<close>

definition manifest_payload :: "string \<Rightarrow> string \<Rightarrow> dict list \<Rightarrow> dict \<Rightarrow> dict" where
  "manifest_payload run_id now artifacts terminal =
     [(''schema'', JStr ''formalspecgen-evidence-manifest-v1''), (''run_id'', JStr run_id),
      (''committed_at'', JStr now), (''publication_guarantee'', JStr ''application-write-once''),
      (''artifacts'', JArr (map JObj artifacts)), (''terminal'', JObj terminal)]"

definition commit :: "decoder \<Rightarrow> (string \<Rightarrow> string) \<Rightarrow> (json \<Rightarrow> string) \<Rightarrow> (io_error \<Rightarrow> string) \<Rightarrow> string \<Rightarrow> dict \<Rightarrow> ledger
    \<Rightarrow> io_error + ledger" where
  "commit loads sha repr describe now terminal L =
     and_then (ensure (\<not> ledger_committed L) (RuntimeFailure ''evidence run is already committed'')) (\<lambda>_.
     and_then (validate_artifacts sha repr describe (read_files (ledger_files L))
       (JArr (map JObj (ledger_artifacts L)))) (\<lambda>validation.
     and_then (case validation of None \<Rightarrow> Inr () | Some message \<Rightarrow> Inl (RuntimeFailure message)) (\<lambda>_.
     and_then (publish_json loads sha ''manifest.json''
       (manifest_payload (ledger_run L) now (ledger_artifacts L) terminal) (ledger_files L)) (\<lambda>(_, files).
     Inr (L\<lparr>ledger_files := files, ledger_committed := True\<rparr>)))))"

section \<open>Validating a committed run\<close>

datatype validation =
    Run_incomplete string
  | Run_invalid string
  | Run_valid string dict

fun check_chain :: "decoder \<Rightarrow> (io_error \<Rightarrow> string) \<Rightarrow> reader \<Rightarrow> string \<Rightarrow> bool \<Rightarrow> json \<Rightarrow> dict list
    \<Rightarrow> io_error + string option" where
  "check_chain loads describe read run_id first previous [] = Inr None"
| "check_chain loads describe read run_id first previous (artifact # rest) =
     (case and_then (read (get_field ''path'' artifact)) loads of
        Inl e \<Rightarrow> if is_os_error e \<or> is_value_error e then Inr (Some (describe e)) else Inl e
      | Inr (JObj payload) \<Rightarrow>
          if get_field ''run_id'' payload \<noteq> JStr run_id then Inr (Some ''evidence artifact run identity mismatch'')
          else if first \<and> (get_field ''path'' artifact \<noteq> JStr ''run.json'' \<or>
              get_field ''schema'' payload \<noteq> JStr ''formalspecgen-run-v1'') then
            Inr (Some ''run identity artifact is missing or invalid'')
          else if \<not> first \<and> get_field ''previous_artifact_sha256'' payload \<noteq> previous then
            Inr (Some ''evidence artifact hash chain is invalid'')
          else check_chain loads describe read run_id False (get_field ''sha256'' artifact) rest
      | Inr _ \<Rightarrow> Inr (Some ''evidence artifact payload is not an object''))"

definition invalid_if :: "string option \<Rightarrow> io_error + validation \<Rightarrow> io_error + validation" where
  "invalid_if problem next = (case problem of Some message \<Rightarrow> Inr (Run_invalid message) | None \<Rightarrow> next)"

fun object_of :: "json \<Rightarrow> dict" where
  "object_of (JObj d) = d"
| "object_of _ = []"

fun list_of :: "json \<Rightarrow> json list" where
  "list_of (JArr xs) = xs"
| "list_of _ = []"

definition validate_captured :: "decoder \<Rightarrow> (string \<Rightarrow> string) \<Rightarrow> (json \<Rightarrow> string) \<Rightarrow> (io_error \<Rightarrow> string) \<Rightarrow> json \<Rightarrow> reader
    \<Rightarrow> io_error + validation" where
  "validate_captured loads sha repr describe manifest read =
     (case manifest of JObj m \<Rightarrow>
        (case (get_field ''run_id'' m, get_field ''terminal'' m) of
           (JStr run_id, JObj terminal) \<Rightarrow>
             if get_field ''schema'' m \<noteq> JStr ''formalspecgen-evidence-manifest-v1'' then
               Inr (Run_invalid ''terminal evidence manifest schema is invalid'')
             else
               and_then (validate_artifacts sha repr describe read (get_default ''artifacts'' (JArr []) m)) (\<lambda>problem.
               invalid_if problem (
               and_then (check_chain loads describe read run_id True JNull
                 (map object_of (list_of (get_field ''artifacts'' m)))) (\<lambda>problem.
               invalid_if problem (Inr (Run_valid run_id terminal)))))
         | _ \<Rightarrow> Inr (Run_invalid ''terminal evidence manifest schema is invalid''))
      | _ \<Rightarrow> Inr (Run_invalid ''terminal evidence manifest schema is invalid''))"

definition validate_run :: "decoder \<Rightarrow> (string \<Rightarrow> string) \<Rightarrow> (json \<Rightarrow> string) \<Rightarrow> (io_error \<Rightarrow> string)
    \<Rightarrow> (string \<times> string) list \<Rightarrow> io_error + validation" where
  "validate_run loads sha repr describe files =
     (case map_of files ''manifest.json'' of
        None \<Rightarrow> Inr (Run_incomplete ''terminal evidence manifest is absent'')
      | Some content \<Rightarrow> (case loads content of
          Inl e \<Rightarrow> if is_os_error e \<or> (\<exists>m. e = PlainValueError m) then Inr (Run_invalid (describe e)) else Inl e
        | Inr manifest \<Rightarrow> validate_captured loads sha repr describe manifest (read_files files)))"

section \<open>What a valid run is\<close>

definition flat_path :: "string \<Rightarrow> bool" where
  "flat_path p \<longleftrightarrow> path_root p = [] \<and> length (path_parts p) = 1 \<and> path_name p = as_posix p"

definition artifact_ok :: "(string \<Rightarrow> string) \<Rightarrow> (json \<Rightarrow> string) \<Rightarrow> reader \<Rightarrow> dict \<Rightarrow> bool" where
  "artifact_ok sha repr read d \<longleftrightarrow> {''path'', ''size'', ''sha256''} \<subseteq> set (map fst d) \<and>
     flat_path (relative_path repr d) \<and>
     (\<exists>content. read (get_field ''path'' d) = Inr content \<and> artifact_intact sha repr d content)"

definition artifact_path :: "(json \<Rightarrow> string) \<Rightarrow> dict \<Rightarrow> string" where
  "artifact_path repr d = path_name (relative_path repr d)"

text \<open>One link: the artifact holds an object of this run that names the digest of the artifact before it.\<close>

definition link :: "decoder \<Rightarrow> reader \<Rightarrow> string \<Rightarrow> bool \<Rightarrow> json \<Rightarrow> dict \<Rightarrow> bool" where
  "link loads read run_id first previous d \<longleftrightarrow> (\<exists>content payload.
     read (get_field ''path'' d) = Inr content \<and> loads content = Inr (JObj payload) \<and>
     get_field ''run_id'' payload = JStr run_id \<and>
     (if first then get_field ''path'' d = JStr ''run.json'' \<and>
          get_field ''schema'' payload = JStr ''formalspecgen-run-v1''
      else get_field ''previous_artifact_sha256'' payload = previous))"

fun linked :: "decoder \<Rightarrow> reader \<Rightarrow> string \<Rightarrow> bool \<Rightarrow> json \<Rightarrow> dict list \<Rightarrow> bool" where
  "linked loads read run_id first previous [] = True"
| "linked loads read run_id first previous (d # ds) =
     (link loads read run_id first previous d \<and> linked loads read run_id False (get_field ''sha256'' d) ds)"

lemma objects_Cons:
  "(\<exists>ds. JObj d # rest = map JObj ds \<and> P ds) \<longleftrightarrow> (\<exists>ds. rest = map JObj ds \<and> P (d # ds))"
  by (auto simp: Cons_eq_map_conv)

fun entries_ok :: "(string \<Rightarrow> string) \<Rightarrow> (json \<Rightarrow> string) \<Rightarrow> reader \<Rightarrow> string list \<Rightarrow> dict list \<Rightarrow> bool" where
  "entries_ok sha repr read seen [] = True"
| "entries_ok sha repr read seen (d # ds) = (artifact_ok sha repr read d \<and> artifact_path repr d \<notin> set seen \<and>
     entries_ok sha repr read (artifact_path repr d # seen) ds)"

lemma entries_ok_iff:
  "entries_ok sha repr read seen ds \<longleftrightarrow> (\<forall>d \<in> set ds. artifact_ok sha repr read d) \<and>
     distinct (map (artifact_path repr) ds) \<and> set (map (artifact_path repr) ds) \<inter> set seen = {}"
  by (induction ds arbitrary: seen) auto

lemma validate_entries_ok:
  "validate_entries sha repr describe read seen xs = Inr None \<longleftrightarrow>
     (\<exists>ds. xs = map JObj ds \<and> entries_ok sha repr read seen ds)"
proof (induction sha repr describe read seen xs rule: validate_entries.induct)
  case (2 sha repr describe read seen d rest)
  show ?case
  proof (cases "artifact_ok sha repr read d \<and> artifact_path repr d \<notin> set seen")
    case True
    then obtain content where c: "read (get_field ''path'' d) = Inr content" "artifact_intact sha repr d content"
      "{''path'', ''size'', ''sha256''} \<subseteq> set (map fst d)" "flat_path (relative_path repr d)"
      "path_name (relative_path repr d) \<notin> set seen"
      by (auto simp: artifact_ok_def artifact_path_def)
    then have eq: "validate_entries sha repr describe read seen (JObj d # rest)
        = validate_entries sha repr describe read (path_name (relative_path repr d) # seen) rest"
      by (auto simp: flat_path_def Let_def)
    from 2[OF refl _ _ _ c(1,2)] c(3-5)
    have "validate_entries sha repr describe read (path_name (relative_path repr d) # seen) rest = Inr None \<longleftrightarrow>
      (\<exists>ds. rest = map JObj ds \<and> entries_ok sha repr read (path_name (relative_path repr d) # seen) ds)"
      by (auto simp: flat_path_def)
    with True show ?thesis unfolding eq objects_Cons by (simp add: artifact_path_def)
  next
    case False
    then have "validate_entries sha repr describe read seen (JObj d # rest) \<noteq> Inr None"
      by (auto simp: artifact_ok_def artifact_path_def flat_path_def Let_def split: sum.splits if_splits)
    with False show ?thesis by (auto simp: Cons_eq_map_conv)
  qed
qed (auto simp: Cons_eq_map_conv)

lemma check_chain_linked:
  "check_chain loads describe read run_id first previous ds = Inr None \<longleftrightarrow> linked loads read run_id first previous ds"
proof (induction ds arbitrary: first previous)
  case (Cons d ds)
  show ?case
  proof (cases "and_then (read (get_field ''path'' d)) loads")
    case (Inl e)
    then have "\<not> link loads read run_id first previous d" by (auto simp: link_def)
    with Inl show ?thesis by simp
  next
    case (Inr j)
    then obtain content where c: "read (get_field ''path'' d) = Inr content" "loads content = Inr j"
      by (auto simp: and_then_Inr_iff)
    show ?thesis
    proof (cases j)
      case (JObj payload)
      with c Cons show ?thesis by (auto simp: link_def)
    qed (use c in \<open>auto simp: link_def\<close>)
  qed
qed simp

definition inventory :: "json \<Rightarrow> dict list" where
  "inventory manifest = map object_of (list_of (get_field ''artifacts'' (object_of manifest)))"

lemma map_object_of [simp]: "map object_of (map JObj ds) = ds" "map (object_of \<circ> JObj) ds = ds"
  by (induction ds) auto

lemma invalid_if_valid [simp]: "invalid_if problem next = Inr (Run_valid r t) \<longleftrightarrow> problem = None \<and> next = Inr (Run_valid r t)"
  by (auto simp: invalid_if_def split: option.splits)

lemma validate_artifacts_ok:
  "validate_artifacts sha repr describe read (JArr (map JObj ds)) = Inr None \<longleftrightarrow>
     ds \<noteq> [] \<and> entries_ok sha repr read [] ds"
proof (cases ds)
  case (Cons d es)
  have "map JObj xs = map JObj ys \<longleftrightarrow> xs = ys" for xs ys by (metis map_object_of(1))
  then have "validate_entries sha repr describe read [] (map JObj ds) = Inr None \<longleftrightarrow> entries_ok sha repr read [] ds"
    unfolding validate_entries_ok by simp
  with Cons show ?thesis by (simp add: validate_artifacts_def del: validate_entries.simps entries_ok.simps)
qed (simp add: validate_artifacts_def)

text \<open>A captured run is valid exactly when its manifest names a run, a terminal record and a nonempty
  inventory whose files are intact, have distinct flat names and form one chain.\<close>

lemma validate_captured_valid:
  "validate_captured loads sha repr describe manifest read = Inr (Run_valid r t) \<longleftrightarrow>
     (\<exists>m. manifest = JObj m \<and> get_field ''schema'' m = JStr ''formalspecgen-evidence-manifest-v1'' \<and>
        get_field ''run_id'' m = JStr r \<and> get_field ''terminal'' m = JObj t \<and>
        get_field ''artifacts'' m = JArr (map JObj (inventory manifest)) \<and> inventory manifest \<noteq> [] \<and>
        entries_ok sha repr read [] (inventory manifest) \<and>
        linked loads read r True JNull (inventory manifest))" (is "?l \<longleftrightarrow> ?r")
proof
  assume ?l
  then obtain m where m: "manifest = JObj m" by (cases manifest) (auto simp: validate_captured_def)
  with \<open>?l\<close> have f: "get_field ''run_id'' m = JStr r" "get_field ''terminal'' m = JObj t"
    "get_field ''schema'' m = JStr ''formalspecgen-evidence-manifest-v1''"
    "validate_artifacts sha repr describe read (get_default ''artifacts'' (JArr []) m) = Inr None"
    "linked loads read r True JNull (inventory manifest)"
    by (auto simp: validate_captured_def and_then_Inr_iff check_chain_linked inventory_def split: json.splits if_splits)
  from f(4) obtain a as where a: "get_default ''artifacts'' (JArr []) m = JArr (a # as)"
    "validate_entries sha repr describe read [] (a # as) = Inr None"
    by (auto simp: validate_artifacts_def split: json.splits list.splits)
  then have "get_field ''artifacts'' m = JArr (a # as)"
    by (auto simp: get_default_def get_field_def split: option.splits)
  with a(2) m f show ?r by (auto simp: validate_entries_ok inventory_def)
next
  assume ?r
  then obtain m where m: "manifest = JObj m" "get_field ''schema'' m = JStr ''formalspecgen-evidence-manifest-v1''"
    "get_field ''run_id'' m = JStr r" "get_field ''terminal'' m = JObj t"
    "get_field ''artifacts'' m = JArr (map JObj (inventory manifest))" "inventory manifest \<noteq> []"
    "entries_ok sha repr read [] (inventory manifest)" "linked loads read r True JNull (inventory manifest)" by blast
  then have "get_default ''artifacts'' (JArr []) m = JArr (map JObj (inventory manifest))"
    by (simp add: get_default_present)
  then have "validate_artifacts sha repr describe read (get_default ''artifacts'' (JArr []) m) = Inr None"
    using m(6,7) by (simp add: validate_artifacts_ok)
  moreover have "check_chain loads describe read r True JNull (inventory manifest) = Inr None"
    using m(8) unfolding check_chain_linked .
  ultimately show ?l using m(1-5) by (simp add: validate_captured_def)
qed

lemma intact_content:
  "\<lbrakk>artifact_intact sha repr d c; artifact_intact sha repr e c'; get_field ''sha256'' d = get_field ''sha256'' e\<rbrakk>
    \<Longrightarrow> collision sha \<or> c = c'"
  by (simp add: artifact_intact_def collision_def split: option.splits) (metis json.inject(3))

text \<open>C33: a manifest binds the evidence: when the same manifest validates against two readings of the evidence
  directory, both readings give the same bytes for every artifact, or SHA-256 has a collision.\<close>

theorem manifest_binds_evidence:
  assumes "validate_captured loads sha repr describe manifest read = Inr (Run_valid r t)"
    and "validate_captured loads sha repr describe manifest read' = Inr (Run_valid r' t')"
  shows "collision sha \<or> (inventory manifest \<noteq> [] \<and> (\<forall>d \<in> set (inventory manifest). \<exists>content.
    read (get_field ''path'' d) = Inr content \<and> read' (get_field ''path'' d) = Inr content \<and>
    get_field ''sha256'' d = JStr (sha content)))"
proof -
  have "collision sha \<or> (\<exists>content. read (get_field ''path'' d) = Inr content \<and>
      read' (get_field ''path'' d) = Inr content \<and> get_field ''sha256'' d = JStr (sha content))"
    if "d \<in> set (inventory manifest)" for d
  proof -
    from assms that have "artifact_ok sha repr read d" "artifact_ok sha repr read' d"
      by (auto simp: validate_captured_valid entries_ok_iff)
    then obtain c c' where "read (get_field ''path'' d) = Inr c" "artifact_intact sha repr d c"
      "read' (get_field ''path'' d) = Inr c'" "artifact_intact sha repr d c'" by (auto simp: artifact_ok_def)
    with intact_content[of sha repr d c d c'] show ?thesis
      by (auto simp: artifact_intact_def split: option.splits)
  qed
  with assms(1) show ?thesis by (auto simp: validate_captured_valid)
qed

lemma linked_snoc:
  "linked loads read r first previous (ds @ [d]) \<longleftrightarrow> linked loads read r first previous ds \<and>
     link loads read r (first \<and> ds = []) (if ds = [] then previous else get_field ''sha256'' (last ds)) d"
  by (induction ds arbitrary: first previous) auto

text \<open>C34: the chain of digests binds the history: when the last artifacts of two valid runs have the same
  digest, the artifacts of both runs have the same bytes, one by one from the last backwards as far as both
  reach, or SHA-256 has a collision.\<close>

theorem chain_binds_history:
  assumes "validate_captured loads sha repr describe m read = Inr (Run_valid r t)"
    and "validate_captured loads sha repr describe m' read' = Inr (Run_valid r' t')"
    and "get_field ''sha256'' (last (inventory m)) = get_field ''sha256'' (last (inventory m'))"
  shows "collision sha \<or> (\<forall>j < min (length (inventory m)) (length (inventory m')).
    read (get_field ''path'' (rev (inventory m) ! j)) = read' (get_field ''path'' (rev (inventory m') ! j)))"
proof (cases "collision sha")
  case False
  have chain: "\<forall>j < min (length ds) (length es).
      read (get_field ''path'' (rev ds ! j)) = read' (get_field ''path'' (rev es ! j))"
    if "linked loads read r True JNull ds" "linked loads read' r' True JNull es"
      "\<forall>d \<in> set ds. artifact_ok sha repr read d" "\<forall>e \<in> set es. artifact_ok sha repr read' e"
      "ds \<noteq> [] \<Longrightarrow> es \<noteq> [] \<Longrightarrow> get_field ''sha256'' (last ds) = get_field ''sha256'' (last es)" for ds es
    using that
  proof (induction ds arbitrary: es rule: rev_induct)
    case (snoc d ds)
    show ?case
    proof (cases es rule: rev_cases)
      case (snoc es' e)
      from snoc.prems snoc have last: "get_field ''sha256'' d = get_field ''sha256'' e" by simp
      from snoc.prems snoc obtain c c' where c: "read (get_field ''path'' d) = Inr c" "artifact_intact sha repr d c"
        "read' (get_field ''path'' e) = Inr c'" "artifact_intact sha repr e c'"
        by (auto simp: artifact_ok_def)
      with intact_content[OF c(2,4) last] False have same: "read (get_field ''path'' d) = read' (get_field ''path'' e)"
        by simp
      have "get_field ''sha256'' (last ds) = get_field ''sha256'' (last es')" if "ds \<noteq> []" "es' \<noteq> []"
        using snoc.prems(1,2) snoc that same c by (auto simp: linked_snoc link_def)
      with snoc.IH[of es'] snoc.prems snoc
      have ih: "\<forall>j < min (length ds) (length es').
          read (get_field ''path'' (rev ds ! j)) = read' (get_field ''path'' (rev es' ! j))"
        by (simp add: linked_snoc)
      show ?thesis
      proof (intro allI impI)
        fix j assume "j < min (length (ds @ [d])) (length es)"
        with ih same snoc show "read (get_field ''path'' (rev (ds @ [d]) ! j)) = read' (get_field ''path'' (rev es ! j))"
          by (cases j) auto
      qed
    qed simp
  qed simp
  from assms have "linked loads read r True JNull (inventory m)" "linked loads read' r' True JNull (inventory m')"
    "\<forall>d \<in> set (inventory m). artifact_ok sha repr read d" "\<forall>e \<in> set (inventory m'). artifact_ok sha repr read' e"
    by (auto simp: validate_captured_valid entries_ok_iff)
  from chain[OF this] assms(3) show ?thesis by blast
qed simp

section \<open>A run that is committed is valid\<close>

lemma get_field_sort_keys: "get_field k (object_of (sort_keys (JObj d))) = sort_keys (get_field k d)"
  by (simp add: get_field_def map_of_sort_key map_of_map split: option.splits)

text \<open>Names without separators are their own paths.\<close>

definition flat_name :: "string \<Rightarrow> bool" where
  "flat_name n \<longleftrightarrow> n \<noteq> [] \<and> n \<noteq> ''.'' \<and> CHR ''/'' \<notin> set n \<and> CHR 0x00 \<notin> set n"

lemma flat_name_path:
  assumes "flat_name n"
  shows "path_root n = []" and "path_tail n = [n]" and "path_parts n = [n]" and "as_posix n = n" and "path_name n = n"
proof -
  have "hd n \<noteq> CHR ''/''" using assms by (cases n) (auto simp: flat_name_def)
  then show root: "path_root n = []"
    using assms by (cases n) (auto simp: path_root_def starts_with_def flat_name_def)
  show tail: "path_tail n = [n]" using assms by (simp add: path_tail_def split_slash_single flat_name_def)
  from root tail show "path_parts n = [n]" by (simp add: path_parts_def)
  from root tail assms show "as_posix n = n" by (simp add: as_posix_def flat_name_def)
  from tail show "path_name n = n" by (simp add: path_name_def)
qed

lemma read_flat: "flat_name n \<Longrightarrow> read_files files (JStr n) = (case map_of files n of
    None \<Rightarrow> Inl (FileNotFoundError n) | Some content \<Rightarrow> Inr content)"
  by (simp add: flat_name_path) (simp add: flat_name_def)

definition entry_of :: "(string \<Rightarrow> string) \<Rightarrow> string \<times> string \<Rightarrow> dict" where
  "entry_of sha f = artifact_entry (fst f) (sha (snd f), length (snd f))"

lemma entry_of_fields [simp]:
  "get_field ''path'' (entry_of sha f) = JStr (fst f)"
  "get_field ''sha256'' (entry_of sha f) = JStr (sha (snd f))"
  "get_field ''size'' (entry_of sha f) = JInt (int (length (snd f)))"
  "map fst (entry_of sha f) = [''path'', ''sha256'', ''size'']"
  "get_default ''path'' v (entry_of sha f) = JStr (fst f)"
  by (simp_all add: entry_of_def artifact_entry_def get_default_def)

lemma entry_ok:
  assumes "flat_name n" and "map_of files n = Some content" and "is_hex 64 (sha content)"
  shows "artifact_ok sha repr (read_files files) (entry_of sha (n, content))"
  using assms
  by (simp add: artifact_ok_def relative_path_def flat_path_def flat_name_path artifact_intact_def read_flat del: read_files.simps)

lemma entry_path: "flat_name (fst f) \<Longrightarrow> artifact_path repr (entry_of sha f) = fst f"
  by (simp add: artifact_path_def relative_path_def flat_name_path)

lemma link_mono:
  assumes "link loads (read_files files) r first previous d" and "get_field ''path'' d = JStr n"
    and "flat_name n" and "m \<noteq> n"
  shows "link loads (read_files (files @ [(m, content)])) r first previous d"
proof -
  have "read_files (files @ [(m, content)]) (JStr n) = read_files files (JStr n)"
    using assms(3,4) by (simp add: read_flat map_add_def del: read_files.simps split: option.split)
  with assms(1,2) show ?thesis by (simp add: link_def)
qed

lemma linked_mono:
  assumes "linked loads (read_files files) r first previous (map (entry_of sha) fs)"
    and "\<forall>f \<in> set fs. flat_name (fst f) \<and> fst f \<noteq> m"
  shows "linked loads (read_files (files @ [(m, content)])) r first previous (map (entry_of sha) fs)"
  using assms by (induction fs arbitrary: first previous) (auto intro: link_mono)

text \<open>The names of a run do not repeat.\<close>

lemma nat_of_zeros: "nat_of_digits 0 (replicate n (CHR ''0'') @ s) = nat_of_digits 0 s"
  by (induction n) auto

lemma pad3_value: "nat_of_digits 0 (pad3 n) = n"
  by (simp add: pad3_def Let_def nat_of_zeros nat_of_digits_str)

lemma pad3_digits: "c \<in> set (pad3 n) \<Longrightarrow> is_digit c"
  using str_of_nat_digits by (auto simp: pad3_def Let_def) (simp add: is_digit_def less_eq_char_def)

lemma artifact_name_number: "takeWhile is_digit (artifact_name n st) = pad3 n"
  using pad3_digits[of _ n]
  by (simp add: artifact_name_def takeWhile_append2) (simp add: is_digit_def less_eq_char_def)

lemma artifact_name_inj: "artifact_name m s = artifact_name n t \<Longrightarrow> m = n"
  by (metis artifact_name_number pad3_value)

lemma artifact_name_start: "\<exists>c cs. artifact_name n s = c # cs \<and> is_digit c"
proof -
  have "pad3 n \<noteq> []" by (simp add: pad3_def Let_def)
  then show ?thesis using pad3_digits[of _ n] by (cases "pad3 n") (auto simp: artifact_name_def)
qed

lemma fixed_names:
  "artifact_name n s \<noteq> ''run.json''" "artifact_name n s \<noteq> ''manifest.json''"
  using artifact_name_start[of n s] by (auto simp: is_digit_def less_eq_char_def)

lemma lower_char_low:
  assumes "of_char d < (65 :: nat)"
  shows "lower_char c = d \<longleftrightarrow> c = d"
proof -
  have "of_char (lower_char c) \<ge> (65 :: nat)" if "lower_char c \<noteq> c"
    using that by (auto simp: lower_char_def Let_def split: if_splits)
  with assms show ?thesis by (auto simp: lower_char_def Let_def)
qed

lemma str_lower_low: "of_char d < (65 :: nat) \<Longrightarrow> d \<in> set (str_lower s) \<longleftrightarrow> d \<in> set s"
proof -
  assume low: "of_char d < (65 :: nat)"
  have "d \<in> set (str_lower s) \<longleftrightarrow> (\<exists>c \<in> set s. lower_char c = d)" by (auto simp: str_lower_def)
  then show ?thesis by (simp add: lower_char_low[OF low])
qed

lemma artifact_name_flat: "flat_name (artifact_name n s)"
proof -
  have "\<not> is_digit (CHR ''/'')" "\<not> is_digit (CHR 0x00)" by (simp_all add: is_digit_def less_eq_char_def)
  then have "CHR ''/'' \<notin> set (pad3 n)" "CHR 0x00 \<notin> set (pad3 n)" using pad3_digits by blast+
  moreover have "CHR ''/'' \<notin> set (str_lower (state_value s)) \<and> CHR 0x00 \<notin> set (str_lower (state_value s))"
    by (cases s) (simp_all add: str_lower_low state_value_def)
  ultimately show ?thesis by (simp add: flat_name_def artifact_name_def)
qed

text \<open>What a run publishes: names and payloads, in order.\<close>

fun record_log :: "(string \<Rightarrow> string) \<Rightarrow> string \<Rightarrow> nat \<Rightarrow> json \<Rightarrow> step list \<Rightarrow> (string \<times> dict) list" where
  "record_log sha run_id n previous [] = []"
| "record_log sha run_id n previous (s # ss) =
     (let p = record_payload run_id (n + 1) previous s
      in (artifact_name (n + 1) (step_state s), p) # record_log sha run_id (n + 1) (JStr (sha (dumps_indent p))) ss)"

definition run_log :: "(string \<Rightarrow> string) \<Rightarrow> string \<Rightarrow> string \<Rightarrow> step list \<Rightarrow> (string \<times> dict) list" where
  "run_log sha run_id now ss = (let p = run_payload run_id now
     in (''run.json'', p) # record_log sha run_id 0 (JStr (sha (dumps_indent p))) ss)"

definition published :: "(string \<times> dict) list \<Rightarrow> (string \<times> string) list" where
  "published = map (\<lambda>(n, p). (n, dumps_indent p))"

definition reads_back :: "decoder \<Rightarrow> dict \<Rightarrow> bool" where
  "reads_back loads p \<longleftrightarrow> loads (dumps_indent p) = Inr (sort_keys (JObj p))"

definition ledger_ok :: "decoder \<Rightarrow> (string \<Rightarrow> string) \<Rightarrow> string \<Rightarrow> nat \<Rightarrow> ledger \<Rightarrow> bool" where
  "ledger_ok loads sha r n L \<longleftrightarrow> \<not> ledger_committed L \<and> ledger_run L = r \<and> length (ledger_transitions L) = n \<and>
     ledger_files L \<noteq> [] \<and> distinct (map fst (ledger_files L)) \<and>
     (\<forall>f \<in> set (ledger_files L). flat_name (fst f) \<and>
        (fst f = ''run.json'' \<or> (\<exists>i s. 1 \<le> i \<and> i \<le> n \<and> fst f = artifact_name i s))) \<and>
     ledger_artifacts L = map (entry_of sha) (ledger_files L) \<and>
     linked loads (read_files (ledger_files L)) r True JNull (ledger_artifacts L)"

lemma object_of_sort_keys: "sort_keys (JObj d) = JObj (object_of (sort_keys (JObj d)))"
  by simp

lemma new_ledger_ok:
  assumes "reads_back loads (run_payload r now)"
  shows "\<exists>L. new_ledger loads sha r now False = Inr L \<and> ledger_ok loads sha r 0 L \<and>
    previous_digest (ledger_artifacts L) = JStr (sha (dumps_indent (run_payload r now)))"
proof -
  let ?p = "run_payload r now" and ?b = "dumps_indent (run_payload r now)"
  let ?L = "\<lparr>ledger_files = [(''run.json'', ?b)], ledger_run = r, ledger_transitions = [],
    ledger_artifacts = [entry_of sha (''run.json'', ?b)], ledger_committed = False\<rparr>"
  have flat: "flat_name ''run.json''" by (simp add: flat_name_def)
  have l: "loads ?b = Inr (JObj (object_of (sort_keys (JObj ?p))))"
    using assms unfolding reads_back_def by (subst (asm) object_of_sort_keys)
  have new: "new_ledger loads sha r now False = Inr ?L"
    using assms by (simp add: new_ledger_def publish_json_def reads_back_def Let_def entry_of_def)
  have read: "read_files [(''run.json'', ?b)] (JStr ''run.json'') = Inr ?b"
    unfolding read_flat[OF flat] by simp
  have "get_field ''run_id'' (object_of (sort_keys (JObj ?p))) = JStr r"
    "get_field ''schema'' (object_of (sort_keys (JObj ?p))) = JStr ''formalspecgen-run-v1''"
    unfolding get_field_sort_keys by (simp_all add: run_payload_def)
  then have "link loads (read_files [(''run.json'', ?b)]) r True JNull (entry_of sha (''run.json'', ?b))"
    using l read unfolding link_def by simp
  with flat have "ledger_ok loads sha r 0 ?L" by (simp add: ledger_ok_def)
  with new show ?thesis by (simp add: previous_digest_def)
qed

lemma ledger_record_ok:
  assumes ok: "ledger_ok loads sha r n L"
    and rb: "reads_back loads (record_payload r (n + 1) (previous_digest (ledger_artifacts L)) s)"
  shows "\<exists>L'. ledger_record loads sha directory s L = Inr L' \<and> ledger_ok loads sha r (n + 1) L' \<and>
    previous_digest (ledger_artifacts L')
      = JStr (sha (dumps_indent (record_payload r (n + 1) (previous_digest (ledger_artifacts L)) s)))"
proof -
  let ?p = "record_payload r (n + 1) (previous_digest (ledger_artifacts L)) s"
  let ?b = "dumps_indent ?p" and ?n = "artifact_name (n + 1) (step_state s)"
  have L: "\<not> ledger_committed L" "ledger_run L = r" "length (ledger_transitions L) = n" "ledger_files L \<noteq> []"
    "ledger_artifacts L = map (entry_of sha) (ledger_files L)"
    "linked loads (read_files (ledger_files L)) r True JNull (map (entry_of sha) (ledger_files L))"
    using ok by (auto simp: ledger_ok_def)
  have fresh: "\<forall>f \<in> set (ledger_files L). flat_name (fst f) \<and> fst f \<noteq> ?n"
    using ok fixed_names(1)[of "n + 1"] artifact_name_inj by (fastforce simp: ledger_ok_def)
  then have none: "map_of (ledger_files L) ?n = None" by (force simp: map_of_eq_None_iff)
  have l: "loads ?b = Inr (JObj (object_of (sort_keys (JObj ?p))))"
    using rb unfolding reads_back_def by (subst (asm) object_of_sort_keys)
  have read: "read_files (ledger_files L @ [(?n, ?b)]) (JStr ?n) = Inr ?b"
    unfolding read_flat[OF artifact_name_flat] using none by (simp add: map_add_def)
  have "get_field ''run_id'' (object_of (sort_keys (JObj ?p))) = JStr r"
    "get_field ''previous_artifact_sha256'' (object_of (sort_keys (JObj ?p))) = sort_keys (previous_digest (ledger_artifacts L))"
    unfolding get_field_sort_keys by (simp_all add: record_payload_def)
  moreover have "previous_digest (ledger_artifacts L) = get_field ''sha256'' (last (map (entry_of sha) (ledger_files L)))"
    "\<exists>x. previous_digest (ledger_artifacts L) = JStr x"
    using L(4,5) by (simp_all add: previous_digest_def last_map)
  ultimately have link: "link loads (read_files (ledger_files L @ [(?n, ?b)])) r False
      (get_field ''sha256'' (last (map (entry_of sha) (ledger_files L)))) (entry_of sha (?n, ?b))"
    using l read unfolding link_def by (auto simp del: read_files.simps)
  have "linked loads (read_files (ledger_files L @ [(?n, ?b)])) r True JNull
      (map (entry_of sha) (ledger_files L @ [(?n, ?b)]))"
    using linked_mono[OF L(6), of ?n ?b] fresh link L(4) by (simp add: linked_snoc)
  moreover obtain L' where L': "ledger_record loads sha directory s L = Inr L'" "ledger_committed L' = False"
    "ledger_run L' = r" "length (ledger_transitions L') = n + 1" "ledger_files L' = ledger_files L @ [(?n, ?b)]"
    "ledger_artifacts L' = map (entry_of sha) (ledger_files L @ [(?n, ?b)])"
    using L rb none by (auto simp: ledger_record_def publish_json_def reads_back_def Let_def entry_of_def)
  moreover have "\<forall>f \<in> set (ledger_files L @ [(?n, ?b)]). flat_name (fst f) \<and>
      (fst f = ''run.json'' \<or> (\<exists>i s. 1 \<le> i \<and> i \<le> n + 1 \<and> fst f = artifact_name i s))"
    using ok artifact_name_flat unfolding ledger_ok_def by fastforce
  moreover have "distinct (map fst (ledger_files L @ [(?n, ?b)]))" using ok fresh by (auto simp: ledger_ok_def)
  ultimately have "ledger_ok loads sha r (n + 1) L'" by (simp add: ledger_ok_def)
  with L'(1,6) show ?thesis by (simp add: previous_digest_def)
qed

definition evidence_run :: "decoder \<Rightarrow> (string \<Rightarrow> string) \<Rightarrow> (json \<Rightarrow> string) \<Rightarrow> (io_error \<Rightarrow> string) \<Rightarrow> string \<Rightarrow> string
    \<Rightarrow> string \<Rightarrow> step list \<Rightarrow> string \<Rightarrow> dict \<Rightarrow> io_error + ledger" where
  "evidence_run loads sha repr describe directory run_id now ss committed terminal =
     and_then (new_ledger loads sha run_id now False) (\<lambda>L.
     and_then (fold_res (ledger_record loads sha directory) ss L)
       (commit loads sha repr describe committed terminal))"

lemma records_ok:
  assumes "ledger_ok loads sha r n L"
    and "\<forall>e \<in> set (record_log sha r n (previous_digest (ledger_artifacts L)) ss). reads_back loads (snd e)"
  shows "\<exists>L'. fold_res (ledger_record loads sha directory) ss L = Inr L' \<and> ledger_ok loads sha r (n + length ss) L' \<and>
    ledger_files L' = ledger_files L @ published (record_log sha r n (previous_digest (ledger_artifacts L)) ss)"
  using assms
proof (induction ss arbitrary: n L)
  case (Cons s ss)
  let ?p = "record_payload r (n + 1) (previous_digest (ledger_artifacts L)) s"
  from Cons.prems(2) have "reads_back loads ?p" by (simp add: Let_def)
  from ledger_record_ok[OF Cons.prems(1) this] obtain L1 where L1:
    "ledger_record loads sha directory s L = Inr L1" "ledger_ok loads sha r (n + 1) L1"
    "previous_digest (ledger_artifacts L1) = JStr (sha (dumps_indent ?p))" by blast
  have files: "ledger_files L1 = ledger_files L @ [(artifact_name (n + 1) (step_state s), dumps_indent ?p)]"
    using L1(1) Cons.prems(1)
    by (auto simp: ledger_record_def publish_json_def Let_def ledger_ok_def and_then_Inr_iff)
  from Cons.IH[OF L1(2)] Cons.prems(2) L1(1,3) files show ?case by (auto simp: Let_def published_def)
qed (simp add: published_def)

lemma sort_keys_entries:
  "sort_keys (JArr (map JObj (map (entry_of sha) fs))) = JArr (map JObj (map (entry_of sha) fs))"
proof -
  have "sorted (map fst (entry_of sha f))" for f unfolding entry_of_fields by code_simp
  then have "sort_key fst (entry_of sha f) = entry_of sha f" for f by (rule sort_key_id_if_sorted)
  moreover have "map (\<lambda>(k, v). (k, sort_keys v)) (entry_of sha f) = entry_of sha f" for f
    by (simp add: entry_of_def artifact_entry_def)
  ultimately show ?thesis by simp
qed

lemma manifest_fields:
  assumes "m = manifest_payload r now (map (entry_of sha) fs) terminal"
  shows "get_field ''run_id'' (object_of (sort_keys (JObj m))) = JStr r"
    and "get_field ''terminal'' (object_of (sort_keys (JObj m))) = sort_keys (JObj terminal)"
    and "get_field ''schema'' (object_of (sort_keys (JObj m))) = JStr ''formalspecgen-evidence-manifest-v1''"
    and "get_field ''artifacts'' (object_of (sort_keys (JObj m))) = JArr (map JObj (map (entry_of sha) fs))"
    and "inventory (sort_keys (JObj m)) = map (entry_of sha) fs"
proof -
  have "get_field ''artifacts'' m = JArr (map JObj (map (entry_of sha) fs))"
    by (simp add: manifest_payload_def assms)
  then show artifacts: "get_field ''artifacts'' (object_of (sort_keys (JObj m))) = JArr (map JObj (map (entry_of sha) fs))"
    unfolding get_field_sort_keys by (simp only: sort_keys_entries)
  show "inventory (sort_keys (JObj m)) = map (entry_of sha) fs"
    unfolding inventory_def artifacts by simp
qed (simp_all only: get_field_sort_keys, simp_all add: manifest_payload_def assms)

lemma commit_ok:
  assumes ok: "ledger_ok loads sha r n L" and hex: "\<And>x. is_hex 64 (sha x)"
    and rb: "reads_back loads (manifest_payload r now (ledger_artifacts L) terminal)"
  shows "\<exists>L'. commit loads sha repr describe now terminal L = Inr L' \<and>
    ledger_files L' = ledger_files L @ [(''manifest.json'', dumps_indent (manifest_payload r now (ledger_artifacts L) terminal))] \<and>
    validate_run loads sha repr describe (ledger_files L') = Inr (Run_valid r (object_of (sort_keys (JObj terminal))))"
proof -
  let ?fs = "ledger_files L" and ?m = "manifest_payload r now (ledger_artifacts L) terminal"
  let ?fs' = "?fs @ [(''manifest.json'', dumps_indent ?m)]"
  have L: "\<not> ledger_committed L" "ledger_run L = r" "?fs \<noteq> []" "distinct (map fst ?fs)"
    "ledger_artifacts L = map (entry_of sha) ?fs" "linked loads (read_files ?fs) r True JNull (map (entry_of sha) ?fs)"
    using ok by (auto simp: ledger_ok_def)
  have flat: "\<forall>f \<in> set ?fs. flat_name (fst f) \<and> fst f \<noteq> ''manifest.json''"
    using ok fixed_names(2) by (fastforce simp: ledger_ok_def)
  then have none: "map_of ?fs ''manifest.json'' = None" by (force simp: map_of_eq_None_iff)
  have entries: "entries_ok sha repr (read_files gs) [] (map (entry_of sha) ?fs)"
    if "\<And>n c. (n, c) \<in> set ?fs \<Longrightarrow> map_of gs n = Some c" for gs
  proof -
    have "map (\<lambda>f. artifact_path repr (entry_of sha f)) ?fs = map fst ?fs"
      by (rule map_cong) (use flat entry_path in auto)
    then have "map (artifact_path repr) (map (entry_of sha) ?fs) = map fst ?fs" by (simp add: comp_def)
    moreover have "\<forall>f \<in> set ?fs. artifact_ok sha repr (read_files gs) (entry_of sha f)"
    proof
      fix f assume f: "f \<in> set ?fs"
      with that[of "fst f" "snd f"] flat show "artifact_ok sha repr (read_files gs) (entry_of sha f)"
        using entry_ok[of "fst f" gs "snd f" sha repr] hex[of "snd f"] by simp
    qed
    ultimately show ?thesis using L(4) by (simp add: entries_ok_iff del: map_map)
  qed
  have valid: "validate_artifacts sha repr describe (read_files gs) (JArr (map JObj (map (entry_of sha) ?fs))) = Inr None"
    if "\<And>n c. (n, c) \<in> set ?fs \<Longrightarrow> map_of gs n = Some c" for gs
    unfolding validate_artifacts_ok using entries[OF that] L(3) by simp
  have first: "map_of ?fs n = Some c" if "(n, c) \<in> set ?fs" for n c using L(4) that by simp
  then have second: "map_of ?fs' n = Some c" if "(n, c) \<in> set ?fs" for n c using that by (simp add: map_add_def)
  let ?L' = "L\<lparr>ledger_files := ?fs', ledger_committed := True\<rparr>"
  have "commit loads sha repr describe now terminal L = Inr ?L'"
    using L rb none valid[OF first] by (simp add: commit_def publish_json_def reads_back_def Let_def)
  moreover have "validate_run loads sha repr describe ?fs' = Inr (Run_valid r (object_of (sort_keys (JObj terminal))))"
  proof -
    have read: "map_of ?fs' ''manifest.json'' = Some (dumps_indent ?m)" using none by (simp add: map_add_def)
    obtain d where d: "sort_keys (JObj ?m) = JObj d" by simp
    have l: "loads (dumps_indent ?m) = Inr (JObj d)" using rb d by (simp only: reads_back_def)
    have "?m = manifest_payload r now (map (entry_of sha) ?fs) terminal" by (simp add: L(5))
    note fields = manifest_fields[OF this, unfolded d object_of.simps]
    have "linked loads (read_files ?fs') r True JNull (map (entry_of sha) ?fs)"
      using linked_mono[OF L(6)] flat by simp
    then have "validate_captured loads sha repr describe (JObj d) (read_files ?fs')
        = Inr (Run_valid r (object_of (sort_keys (JObj terminal))))"
      unfolding validate_captured_valid fields(5) using fields entries[OF second] L(3) by simp
    with read l show ?thesis by (simp add: validate_run_def)
  qed
  ultimately show ?thesis by auto
qed

lemma recorded_run:
  assumes "\<forall>e \<in> set (run_log sha run_id now ss). reads_back loads (snd e)"
  shows "\<exists>L0 L. new_ledger loads sha run_id now False = Inr L0 \<and>
    fold_res (ledger_record loads sha directory) ss L0 = Inr L \<and> ledger_ok loads sha run_id (length ss) L \<and>
    ledger_files L = published (run_log sha run_id now ss)"
proof -
  let ?p = "run_payload run_id now"
  have "reads_back loads ?p" using assms by (simp add: run_log_def Let_def)
  from new_ledger_ok[OF this, of sha] obtain L0 where L0: "new_ledger loads sha run_id now False = Inr L0"
    "ledger_ok loads sha run_id 0 L0" "previous_digest (ledger_artifacts L0) = JStr (sha (dumps_indent ?p))" by blast
  have f0: "ledger_files L0 = [(''run.json'', dumps_indent ?p)]"
    using L0(1) by (auto simp: new_ledger_def publish_json_def Let_def and_then_Inr_iff)
  have "\<forall>e \<in> set (record_log sha run_id 0 (previous_digest (ledger_artifacts L0)) ss). reads_back loads (snd e)"
    using assms L0(3) by (simp add: run_log_def Let_def)
  from records_ok[OF L0(2) this, of directory] obtain L where
    L: "fold_res (ledger_record loads sha directory) ss L0 = Inr L" "ledger_ok loads sha run_id (length ss) L"
    "ledger_files L = ledger_files L0 @ published (record_log sha run_id 0 (previous_digest (ledger_artifacts L0)) ss)"
    by auto
  moreover have "ledger_files L = published (run_log sha run_id now ss)"
    using L(3) f0 L0(3) by (simp add: run_log_def published_def Let_def)
  ultimately show ?thesis using L0(1) by blast
qed

text \<open>A run recorded through the ledger succeeds and is valid: when decoding gives back what was
  published, starting a run in a fresh directory, recording any steps and committing never fail, the files of the
  directory are exactly the artifacts of the steps in order and the manifest over them, and validation of the
  directory accepts the run with its identity and its terminal record (up to the order of object keys).\<close>

lemma committed_run:
  assumes "\<And>x. is_hex 64 (sha x)"
    and "\<forall>e \<in> set (run_log sha run_id now ss). reads_back loads (snd e)"
    and "m = manifest_payload run_id committed (map (entry_of sha) (published (run_log sha run_id now ss))) terminal"
    and "reads_back loads m"
  shows "\<exists>L. evidence_run loads sha repr describe directory run_id now ss committed terminal = Inr L \<and>
    ledger_files L = published (run_log sha run_id now ss) @ [(''manifest.json'', dumps_indent m)] \<and>
    validate_run loads sha repr describe (ledger_files L)
      = Inr (Run_valid run_id (object_of (sort_keys (JObj terminal))))"
proof -
  from recorded_run[OF assms(2), of directory] obtain L0 L where
    L: "new_ledger loads sha run_id now False = Inr L0" "fold_res (ledger_record loads sha directory) ss L0 = Inr L"
    "ledger_ok loads sha run_id (length ss) L" "ledger_files L = published (run_log sha run_id now ss)" by blast
  then have m: "m = manifest_payload run_id committed (ledger_artifacts L) terminal"
    using assms(3) by (simp add: ledger_ok_def)
  from commit_ok[OF L(3) assms(1) assms(4)[unfolded m], of repr describe] obtain L' where
    "commit loads sha repr describe committed terminal L = Inr L'"
    "ledger_files L' = ledger_files L @ [(''manifest.json'', dumps_indent m)]"
    "validate_run loads sha repr describe (ledger_files L')
      = Inr (Run_valid run_id (object_of (sort_keys (JObj terminal))))" unfolding m by blast
  with L(1,2,4) show ?thesis by (simp add: evidence_run_def)
qed

text \<open>Two published payloads with the same bytes are equal up to the order of keys, so a decoder that gives
  back a list of payloads exists: it looks the bytes up.\<close>

fun decode_from :: "dict list \<Rightarrow> decoder" where
  "decode_from [] b = Inl (PlainValueError ''Expecting value'')"
| "decode_from (p # ps) b = (if b = dumps_indent p then Inr (sort_keys (JObj p)) else decode_from ps b)"

lemma decode_from_reads_back: "p \<in> set ps \<Longrightarrow> reads_back (decode_from ps) p"
  unfolding reads_back_def
  by (induction ps) (auto dest: dumps_indent_inj simp del: sort_keys.simps)

definition zero_sha :: "string \<Rightarrow> string" where
  "zero_sha b = replicate 64 (CHR ''0'')"

definition proof_step :: step where
  "proof_step = \<lparr>step_state = PROOF, step_status = ''VERIFIED'', step_claim = DEDUCTIVE_PROOF,
     step_details = [], step_evidence = [], step_recorded = ''t1'', step_time = ''t2''\<rparr>"

definition sample_log :: "(string \<times> dict) list" where
  "sample_log = run_log zero_sha ''r'' ''t0'' [proof_step]"

definition sample_manifest :: dict where
  "sample_manifest = manifest_payload ''r'' ''t3'' (map (entry_of zero_sha) (published sample_log)) []"

lemma zero_sha_hex: "is_hex 64 (zero_sha x)"
  by (simp add: zero_sha_def is_hex_def) (simp add: is_digit_def less_eq_char_def)

definition sample_decoder :: decoder where
  "sample_decoder = decode_from (sample_manifest # map snd sample_log)"

lemma sample_reads_back:
  "\<forall>e \<in> set (run_log zero_sha ''r'' ''t0'' [proof_step]). reads_back sample_decoder (snd e)"
  "reads_back sample_decoder sample_manifest"
  using decode_from_reads_back[of _ "sample_manifest # map snd sample_log"]
  by (simp_all add: sample_log_def sample_decoder_def)

lemma sample_manifest_run:
  "sample_manifest = manifest_payload ''r'' ''t3''
     (map (entry_of zero_sha) (published (run_log zero_sha ''r'' ''t0'' [proof_step]))) []"
  by (simp add: sample_manifest_def sample_log_def)

definition sample_reader :: reader where
  "sample_reader = read_files (published sample_log @ [(''manifest.json'', dumps_indent sample_manifest)])"

lemma sample_captured:
  "validate_captured sample_decoder zero_sha (\<lambda>_. []) (\<lambda>_. []) (sort_keys (JObj sample_manifest)) sample_reader
     = Inr (Run_valid ''r'' [])"
proof -
  let ?fs = "published sample_log @ [(''manifest.json'', dumps_indent sample_manifest)]"
  have valid: "validate_run sample_decoder zero_sha (\<lambda>_. []) (\<lambda>_. []) ?fs = Inr (Run_valid ''r'' [])"
    using committed_run[OF zero_sha_hex sample_reads_back(1) sample_manifest_run sample_reads_back(2),
        of "\<lambda>_. []" "\<lambda>_. []" "''e''"]
    by (auto simp: sample_log_def)
  have "map fst (published sample_log) = [''run.json'', artifact_name 1 PROOF]"
    by (simp add: published_def sample_log_def run_log_def proof_step_def Let_def)
  then have "fst ` set (published sample_log) = {''run.json'', artifact_name 1 PROOF}" by (simp flip: set_map)
  then have "''manifest.json'' \<notin> fst ` set (published sample_log)" using fixed_names(2)[of 1 PROOF, symmetric] by simp
  then have "map_of ?fs ''manifest.json'' = Some (dumps_indent sample_manifest)"
    by (simp add: map_add_def map_of_eq_None_iff[THEN iffD2])
  with valid sample_reads_back(2) show ?thesis by (simp add: validate_run_def reads_back_def sample_reader_def)
qed

lemma manifest_binds_evidence_witness:
  "collision zero_sha \<or> (inventory (sort_keys (JObj sample_manifest)) \<noteq> [] \<and>
    list_all (\<lambda>d. \<exists>content. sample_reader (get_field ''path'' d) = Inr content \<and>
      get_field ''sha256'' d = JStr (zero_sha content)) (inventory (sort_keys (JObj sample_manifest))))"
  using manifest_binds_evidence[OF sample_captured sample_captured] by (auto simp: list_all_iff)

lemma chain_binds_history_witness:
  "collision zero_sha \<or> list_all (\<lambda>j. sample_reader (get_field ''path'' (rev (inventory (sort_keys (JObj sample_manifest))) ! j))
      = sample_reader (get_field ''path'' (rev (inventory (sort_keys (JObj sample_manifest))) ! j)))
    [0..<length (inventory (sort_keys (JObj sample_manifest)))]"
  using chain_binds_history[OF sample_captured sample_captured] by (simp add: list_all_iff)

end
