(* ===== verification/Evidence_Consumer.thy ===== *)
theory Evidence_Consumer
  imports Evidence_Ledger Service_Run
begin

text \<open>
  The bounded, read-only inspection of recorded evidence, \<^verbatim>\<open>pipeline/evidence_consumer.py\<close>:
  a manifest and its artifacts are captured below the workspace root, validated by the rules of the ledger and
  explained, compared with another run, or compared with the current source.  The JSON library is the argument
  \<open>lib\<close>: \<open>lib hook\<close> is \<^verbatim>\<open>json.loads\<close> with \<^verbatim>\<open>object_pairs_hook=hook\<close>.
  The result is the dictionary the code builds; what was written before an exception stays in it.
\<close>

section \<open>Requests\<close>

record evidence_request =
  ev_manifest :: string
  ev_operation :: string
  ev_expected :: "string option"
  ev_comparison :: "string option"
  ev_comparison_expected :: "string option"
  ev_source :: "string option"

definition make_evidence_request :: "evidence_request \<Rightarrow> io_error + evidence_request" where
  "make_evidence_request q =
     and_then (ensure (ev_operation q \<in> {''validate'', ''explain'', ''diff''})
       (PlainValueError ''evidence operation must be validate, explain or diff'')) (\<lambda>_.
     and_then (ensure (ev_manifest q \<noteq> []) (PlainValueError ''manifest path is required'')) (\<lambda>_.
     and_then (for_each (\<lambda>(name, value). case value of None \<Rightarrow> Inr () | Some v \<Rightarrow>
         ensure (is_hex 64 v) (PlainValueError (name @ '' must be a full lowercase SHA-256 digest'')))
       [(''expected_sha256'', ev_expected q), (''comparison_expected_sha256'', ev_comparison_expected q)]) (\<lambda>_.
     and_then (if ev_operation q = ''diff''
       then ensure (ev_comparison q \<noteq> None \<and> ev_comparison q \<noteq> Some []) (PlainValueError ''diff requires comparison_manifest'')
       else ensure (ev_comparison q = None \<and> ev_comparison_expected q = None)
         (PlainValueError ''comparison inputs are only supported by diff'')) (\<lambda>_.
     and_then (ensure (ev_source q \<noteq> Some []) (PlainValueError ''source must be a nonempty path'')) (\<lambda>_.
     and_then (ensure (\<not> (ev_source q \<noteq> None \<and> ev_operation q = ''diff''))
       (PlainValueError ''source checking is supported only by validate and explain'')) (\<lambda>_.
     Inr q))))))"

definition optional_json :: "string option \<Rightarrow> json" where
  "optional_json v = (case v of None \<Rightarrow> JNull | Some s \<Rightarrow> JStr s)"

definition request_fields :: "evidence_request \<Rightarrow> dict" where
  "request_fields q = [(''schema'', JStr ''formalspecgen-evidence-request-v1''), (''manifest'', JStr (ev_manifest q)),
     (''operation'', JStr (ev_operation q)), (''expected_sha256'', optional_json (ev_expected q)),
     (''comparison_manifest'', optional_json (ev_comparison q)),
     (''comparison_expected_sha256'', optional_json (ev_comparison_expected q)),
     (''source'', optional_json (ev_source q))]"

section \<open>Decoding\<close>

type_synonym json_library = "(dict \<Rightarrow> io_error + json) \<Rightarrow> decoder"

definition plain_object :: "dict \<Rightarrow> io_error + json" where
  "plain_object items = Inr (JObj (update_fields [] items))"

definition unique_fields :: "dict \<Rightarrow> io_error + json" where
  "unique_fields items = (if distinct (map fst items) then Inr (JObj items)
     else Inl (BoundedInputError ''AMBIGUOUS_EVIDENCE_JSON'' ''duplicate JSON field in evidence''))"

definition decode_evidence :: "json_library \<Rightarrow> decoder" where
  "decode_evidence lib = lib unique_fields"

definition inventory_name :: "json \<Rightarrow> io_error + string" where
  "inventory_name value = (case value of
     JStr s \<Rightarrow> if s \<in> {'''', ''.'', ''..'', ''manifest.json''} \<or> path_name s \<noteq> s \<or> CHR ''/'' \<in> set s \<or> CHR 0x5C \<in> set s
       then Inl (BoundedInputError ''INVALID_INVENTORY'' ''artifact names must be distinct flat filenames'')
       else Inr s
   | _ \<Rightarrow> Inl (BoundedInputError ''INVALID_INVENTORY'' ''artifact names must be distinct flat filenames''))"

text \<open>\<^verbatim>\<open>_json_identity\<close> is only ever compared; the canonical bytes separate the same values.\<close>

definition json_identity :: "json \<Rightarrow> string" where
  "json_identity value = canonical_bytes value"

definition decode_record :: "json_library \<Rightarrow> string \<Rightarrow> io_error + dict" where
  "decode_record lib content = and_then (decode_evidence lib content)
     (\<lambda>j. case j of JObj d \<Rightarrow> Inr d | _ \<Rightarrow> Inl (OtherError ''AttributeError''))"

section \<open>Recorded stages\<close>

definition is_object :: "json \<Rightarrow> bool" where
  "is_object j = (case j of JObj _ \<Rightarrow> True | _ \<Rightarrow> False)"

definition is_string :: "json \<Rightarrow> bool" where
  "is_string j = (case j of JStr _ \<Rightarrow> True | _ \<Rightarrow> False)"

definition has_field :: "string \<Rightarrow> dict \<Rightarrow> bool" where
  "has_field k d \<longleftrightarrow> map_of d k \<noteq> None"

definition proof_record_matches :: "dict \<Rightarrow> bool \<Rightarrow> dict \<Rightarrow> bool" where
  "proof_record_matches terminal multistage record \<longleftrightarrow>
     (let details = get_field ''details'' record; d = object_of details in
      get_field ''state'' record = JStr ''PROOF'' \<and> is_object details \<and> has_field ''workflow_request'' d \<and>
      json_identity (get_field ''workflow_request'' d) = json_identity (get_field ''workflow_request'' terminal) \<and>
      (multistage \<longrightarrow> get_field ''schema'' d = JStr ''formalspecgen-multistage-evidence-v1'' \<and>
         is_string (get_field ''workflow'' terminal) \<and> get_field ''workflow'' d = get_field ''workflow'' terminal))"

fun matching_records :: "json_library \<Rightarrow> dict \<Rightarrow> bool \<Rightarrow> (string \<times> string) list \<Rightarrow> io_error + (string \<times> dict) list" where
  "matching_records lib terminal multistage [] = Inr []"
| "matching_records lib terminal multistage ((name, content) # rest) =
     (if name = ''run.json'' then matching_records lib terminal multistage rest
      else and_then (decode_record lib content) (\<lambda>record.
        and_then (matching_records lib terminal multistage rest) (\<lambda>found.
        Inr (if proof_record_matches terminal multistage record then (name, record) # found else found))))"

definition recorded_stage_consistency :: "json_library \<Rightarrow> (string \<Rightarrow> string) \<Rightarrow> dict \<Rightarrow> (string \<times> string) list \<Rightarrow> bool
    \<Rightarrow> io_error + dict" where
  "recorded_stage_consistency lib sha terminal captured multistage =
     (let result = [(''status'', JStr ''NOT_ESTABLISHED''), (''scope'', JStr ''request-bound-execution-stage-data-only''),
            (''terminal_pointer'', JStr ''/execution_stages'')] in
      if \<not> is_object (get_field ''workflow_request'' terminal) then
        Inr (result @ [(''reason'', JStr ''MISSING_WORKFLOW_REQUEST'')])
      else and_then (matching_records lib terminal multistage captured) (\<lambda>matching.
        case matching of
          [(name, record)] \<Rightarrow>
            let stage_field = (if multistage then ''stages'' else ''execution_stages'');
                bound = result @ [(''proof_artifact'', JStr name),
                  (''proof_artifact_sha256'', JStr (sha (the (map_of captured name)))),
                  (''proof_pointer'', JStr (''/evidence/'' @ stage_field))];
                evidence = get_field ''evidence'' record
            in if \<not> is_object evidence \<or> \<not> has_field stage_field (object_of evidence) then
                 Inr (bound @ [(''reason'', JStr ''PROOF_STAGES_NOT_RECORDED'')])
               else Inr (AList.update ''status'' (JStr (if json_identity (get_field stage_field (object_of evidence))
                   = json_identity (get_field ''execution_stages'' terminal) then ''CONSISTENT'' else ''INCONSISTENT'')) bound)
        | _ \<Rightarrow> Inr (result @ [(''reason'', JStr (if matching = [] then ''PROOF_RECORD_NOT_FOUND'' else ''AMBIGUOUS_PROOF_RECORD''))])))"

text \<open>The records of a list with their pointers, and the issues found on the way.\<close>

definition issue :: "string \<Rightarrow> string \<Rightarrow> json" where
  "issue pointer code = JObj [(''pointer'', JStr pointer), (''code'', JStr code)]"

fun indexed_records :: "string \<Rightarrow> nat \<Rightarrow> json list \<Rightarrow> (string \<times> dict) list \<times> json list" where
  "indexed_records pointer i [] = ([], [])"
| "indexed_records pointer i (x # xs) =
     (let location = pointer @ ''/'' @ str_of_nat i; (found, issues) = indexed_records pointer (i + 1) xs in
      case x of JObj d \<Rightarrow> ((location, d) # found, issues)
        | _ \<Rightarrow> (found, issue location ''EXPECTED_OBJECT'' # issues))"

definition records :: "json \<Rightarrow> string \<Rightarrow> (string \<times> dict) list \<times> json list" where
  "records value pointer = (case value of JArr xs \<Rightarrow> indexed_records pointer 0 xs
     | _ \<Rightarrow> ([], [issue pointer ''EXPECTED_LIST'']))"

definition selected :: "string list \<Rightarrow> dict \<Rightarrow> dict" where
  "selected keys d = map (\<lambda>k. (k, get_field k d)) (filter (\<lambda>k. has_field k d) keys)"

definition stage_observation :: "string \<times> dict \<Rightarrow> json" where
  "stage_observation pr = JObj [(''pointer'', JStr (fst pr)), (''recorded'', JObj (selected [''status'', ''tool'', ''exit_code'',
     ''policy_compliance'', ''timed_out'', ''output_truncated'', ''snapshot_manifest_sha256''] (snd pr)))]"

definition stage_summary :: "bool \<Rightarrow> string \<times> dict \<Rightarrow> json \<times> json list" where
  "stage_summary multistage pr = (case pr of (pointer, stage) \<Rightarrow>
     if \<not> multistage then (stage_observation (pointer, stage), [])
     else let (inner, issues) = (if has_field ''execution_stages'' stage
              then records (get_field ''execution_stages'' stage) (pointer @ ''/execution_stages'')
              else ([], [issue (pointer @ ''/execution_stages'') ''NOT_RECORDED'']))
          in (JObj [(''pointer'', JStr pointer), (''recorded'', JObj (selected [''stage'', ''language'', ''status'', ''claim'',
                ''request_satisfied''] stage)), (''observations'', JArr (map stage_observation inner))], issues))"

definition interpretation_note :: string where
  "interpretation_note = ''Recorded assertions only. Consistency compares request-bound stage data, '' @
     ''not authenticity, stage validity, isolation enforcement, or proof success.''"

definition explanation_fields :: "string \<Rightarrow> json list \<Rightarrow> json list \<Rightarrow> dict \<Rightarrow> dict" where
  "explanation_fields status stages issues consistency =
     [(''status'', JStr status), (''source'', JStr ''recorded_terminal''), (''stages'', JArr stages), (''issues'', JArr issues),
      (''consistency'', JObj consistency), (''interpretation'', JStr interpretation_note)]"

definition execution_explanation :: "json_library \<Rightarrow> (string \<Rightarrow> string) \<Rightarrow> dict \<Rightarrow> (string \<times> string) list
    \<Rightarrow> io_error + dict" where
  "execution_explanation lib sha terminal captured =
     (let nothing = [(''status'', JStr ''NOT_ASSESSED'')];
          multistage = (get_field ''schema'' terminal = JStr ''formalspecgen-multistage-evidence-v1'') in
      if \<not> has_field ''execution_stages'' terminal then Inr (explanation_fields ''NOT_RECORDED'' [] [] nothing)
      else if \<not> multistage \<and> get_field ''claim_policy_version'' terminal \<noteq> JStr ''verification-policy-v1'' then
        Inr (explanation_fields ''UNSUPPORTED_LAYOUT'' [] [] nothing)
      else and_then (recorded_stage_consistency lib sha terminal captured multistage) (\<lambda>consistency.
        let (found, issues) = records (get_field ''execution_stages'' terminal) ''/execution_stages'';
            summaries = map (stage_summary multistage) found;
            all_issues = issues @ concat (map snd summaries)
        in Inr (explanation_fields (if all_issues = [] then ''RECORDED'' else ''PARTIAL'') (map fst summaries) all_issues consistency @
             [(''layout'', JStr (if multistage then ''multistage'' else ''verification''))])))"

section \<open>The binding of the source\<close>

text \<open>The snapshot records of the primary source, in order; the first malformed stage or record ends the search.\<close>

fun source_records :: "string \<Rightarrow> json list \<Rightarrow> io_error + dict list" where
  "source_records name [] = Inr []"
| "source_records name (JObj r # rest) =
     and_then (ensure (is_string (get_field ''path'' r))
       (BoundedInputError ''INCONSISTENT_SOURCE_BINDING'' ''malformed source snapshot record'')) (\<lambda>_.
     and_then (source_records name rest) (\<lambda>found.
     Inr (if get_field ''path'' r \<in> {JStr name, JStr (''reviewed/'' @ name)} then r # found else found)))"
| "source_records name (_ # rest) =
     Inl (BoundedInputError ''INCONSISTENT_SOURCE_BINDING'' ''malformed source snapshot record'')"

definition stage_records :: "string \<Rightarrow> json \<Rightarrow> io_error + dict list" where
  "stage_records name stage = (case get_field ''snapshot_files'' (object_of stage) of
     JArr files \<Rightarrow> source_records name files
   | _ \<Rightarrow> Inl (BoundedInputError ''UNSUPPORTED_SOURCE_BINDING'' ''source snapshot observations are absent''))"

definition supported_binding :: "dict \<Rightarrow> dict \<Rightarrow> bool" where
  "supported_binding terminal request \<longleftrightarrow>
     get_field ''claim_policy_version'' terminal = JStr ''verification-policy-v1'' \<and>
     is_object (get_field ''workflow_request'' terminal) \<and>
     get_field ''schema'' request = JStr ''formalspecgen-workflow-contract-v1'' \<and>
     get_field ''workflow'' request = JStr ''verify'' \<and>
     (case get_field ''source'' request of JStr s \<Rightarrow> s \<noteq> [] | _ \<Rightarrow> False) \<and>
     (case get_field ''source_sha256'' terminal of JStr d \<Rightarrow> is_hex 64 d | _ \<Rightarrow> False)"

definition is_int :: "json \<Rightarrow> bool" where
  "is_int j = (case j of JInt _ \<Rightarrow> True | _ \<Rightarrow> False)"

fun str_value :: "json \<Rightarrow> string" where
  "str_value (JStr s) = s"
| "str_value _ = []"

fun int_of :: "json \<Rightarrow> int" where
  "int_of (JInt i) = i"
| "int_of _ = 0"

definition same_identity :: "json \<Rightarrow> json \<Rightarrow> dict \<Rightarrow> bool" where
  "same_identity sha256 bytes r \<longleftrightarrow>
     get_field ''sha256'' r = sha256 \<and> is_int (get_field ''size'' r) \<and> get_field ''size'' r = bytes"

record source_binding =
  bound_path :: string
  bound_sha256 :: string
  bound_size :: int

definition recorded_source_binding :: "json_library \<Rightarrow> dict \<Rightarrow> (string \<times> string) list \<Rightarrow> io_error + source_binding" where
  "recorded_source_binding lib terminal captured =
     (let request = object_of (get_field ''workflow_request'' terminal);
          recorded = get_field ''source_sha256'' terminal; source = get_field ''source'' request;
          unsupported = BoundedInputError ''UNSUPPORTED_SOURCE_BINDING'';
          inconsistent = BoundedInputError ''INCONSISTENT_SOURCE_BINDING'' in
      and_then (ensure (supported_binding terminal request)
        (unsupported ''receipt has no supported primary-source binding'')) (\<lambda>_.
      and_then (map_res (\<lambda>(_, content). decode_record lib content)
        (filter (\<lambda>(n, _). n \<noteq> ''run.json'') captured)) (\<lambda>proofs.
      let matching = filter (\<lambda>r. get_field ''state'' r = JStr ''PROOF'' \<and> is_object (get_field ''details'' r) \<and>
            json_identity (get_field ''workflow_request'' (object_of (get_field ''details'' r)))
              = json_identity (JObj request)) proofs;
          evidence = object_of (get_field ''evidence'' (hd matching)) in
      and_then (ensure (length matching = 1 \<and> is_object (get_field ''evidence'' (hd matching)))
        (inconsistent ''receipt must bind one verification proof record'')) (\<lambda>_.
      let stages = list_of (get_field ''execution_stages'' terminal); name = path_name (str_value source) in
      and_then (ensure (get_field ''source_sha256'' evidence = recorded \<and> get_field ''source_path'' evidence = source \<and>
          stages \<noteq> [] \<and> json_identity (get_field ''execution_stages'' evidence) = json_identity (JArr stages))
        (inconsistent ''terminal and proof-stage source bindings disagree'')) (\<lambda>_.
      and_then (ensure (\<not> (name \<in> {[], ''.'', ''..''} \<or> CHR 0x00 \<in> set (str_value source)))
        (unsupported ''recorded primary source path is malformed'')) (\<lambda>_.
      and_then (map_res (stage_records name) stages) (\<lambda>found.
      let records = concat found; bytes = get_field ''size'' (hd records) in
      and_then (ensure (records \<noteq> []) (unsupported ''primary source snapshot is absent'')) (\<lambda>_.
      and_then (ensure (is_int bytes \<and> 0 \<le> int_of bytes \<and> list_all (same_identity recorded bytes) records)
        (inconsistent ''primary source snapshot identities disagree'')) (\<lambda>_.
      Inr \<lparr>bound_path = str_value source, bound_sha256 = str_value recorded, bound_size = int_of bytes\<rparr>)))))))))"

section \<open>Inspecting one run\<close>

type_synonym 'a inspection = "(io_error, dict \<times> capture_budget, 'a) erun"

definition put :: "string \<Rightarrow> json \<Rightarrow> unit inspection" where
  "put k v st = (Inr (), (AList.update k v (fst st), snd st))"

text \<open>A capture that fails ends the inspection, so what it took from the budget does not matter.\<close>

definition budgeted :: "(capture_budget \<Rightarrow> io_error + 'a \<times> capture_budget) \<Rightarrow> 'a inspection" where
  "budgeted f st = (case f (snd st) of Inl e \<Rightarrow> (Inl e, st) | Inr (x, b) \<Rightarrow> (Inr x, (fst st, b)))"

definition status_object :: "string \<Rightarrow> json" where
  "status_object s = JObj [(''status'', JStr s)]"

definition inspection_limitations :: "string list" where
  "inspection_limitations =
     [''Integrity means internal consistency, not trusted authorship or verification success.'',
      ''The expected digest is supplied by the caller, not authenticated by this service.'',
      ''Current source, dependencies, toolchain and policy applicability are not checked.'',
      ''Signatures, external artifact references and assurance requirements are not checked.'']"

definition initial_result :: "evidence_request \<Rightarrow> dict" where
  "initial_result q = [(''schema'', JStr ''formalspecgen-evidence-inspection-v1''), (''claim'', JStr ''NO_PROOF''),
     (''request'', JObj (request_fields q)), (''request_satisfied'', JBool False),
     (''integrity'', status_object ''NOT_CHECKED''), (''manifest_binding'', status_object ''NOT_REQUESTED''),
     (''authenticity'', status_object ''NOT_ASSESSED''), (''applicability'', status_object ''NOT_ASSESSED''),
     (''assurance'', status_object ''NOT_ASSESSED''), (''limitations'', jstrings inspection_limitations)]"

definition under_root :: "workflow_context \<Rightarrow> string \<Rightarrow> string" where
  "under_root ctx p = as_posix (if path_root p \<noteq> [] then p else workspace_root ctx @ ''/'' @ p)"

definition check_expected :: "(string \<Rightarrow> string) \<Rightarrow> evidence_request \<Rightarrow> string \<Rightarrow> unit inspection" where
  "check_expected sha q content = (case ev_expected q of None \<Rightarrow> ret ()
     | Some expected \<Rightarrow> let matches = (sha content = expected) in
         bind_run (put ''manifest_binding'' (status_object (if matches then ''MATCH'' else ''MISMATCH''))) (\<lambda>_.
         pure_run (ensure matches (BoundedInputError ''MANIFEST_DIGEST_MISMATCH''
           ''manifest differs from the caller's expected digest''))))"

definition capture_manifest :: "json_library \<Rightarrow> (string \<Rightarrow> string) \<Rightarrow> (string \<Rightarrow> io_error + string) \<Rightarrow> fs_node
    \<Rightarrow> evidence_request \<Rightarrow> workflow_context \<Rightarrow> (string \<times> (string \<times> fs_node) list \<times> json) inspection" where
  "capture_manifest lib sha expand root q ctx =
     bind_run (pure_run (input_path expand (ev_manifest q) ctx)) (\<lambda>(path, relative).
     let fields = AList.update ''manifest'' (JStr path) (request_fields q) in
     bind_run (put ''request'' (JObj fields)) (\<lambda>_.
     bind_run (case ev_source q of None \<Rightarrow> ret () | Some source \<Rightarrow>
         bind_run (pure_run (expand source)) (\<lambda>supplied.
         put ''request'' (JObj (AList.update ''source'' (JStr (under_root ctx supplied)) fields)))) (\<lambda>_.
     bind_run (pure_run (input_directory root (butlast relative))) (\<lambda>directory.
     bind_run (budgeted (capture (last relative) directory ctx)) (\<lambda>content.
     bind_run (put ''manifest_sha256'' (JStr (sha content))) (\<lambda>_.
     bind_run (check_expected sha q content) (\<lambda>_.
     bind_run (pure_run (decode_evidence lib content)) (\<lambda>manifest.
     ret (last relative, directory, manifest)))))))))"

fun inventory_names :: "string \<Rightarrow> string list \<Rightarrow> json list \<Rightarrow> io_error + string list" where
  "inventory_names manifest seen [] = Inr []"
| "inventory_names manifest seen (JObj item # rest) =
     and_then (inventory_name (get_field ''path'' item)) (\<lambda>name.
     and_then (ensure (\<not> (name = manifest \<or> name \<in> set seen))
       (BoundedInputError ''INVALID_INVENTORY'' ''duplicate or self-referencing artifact'')) (\<lambda>_.
     and_then (inventory_names manifest (name # seen) rest) (\<lambda>names. Inr (name # names))))"
| "inventory_names manifest seen (_ # rest) = Inl (BoundedInputError ''INVALID_INVENTORY'' ''malformed artifact record'')"

fun captured_reader :: "(string \<times> string) list \<Rightarrow> reader" where
  "captured_reader captured (JStr name) =
     (case map_of captured name of None \<Rightarrow> Inl (OtherError ''KeyError'') | Some content \<Rightarrow> Inr content)"
| "captured_reader captured _ = Inl (OtherError ''KeyError'')"

definition is_valid :: "validation \<Rightarrow> bool" where
  "is_valid v = (case v of Run_valid _ _ \<Rightarrow> True | _ \<Rightarrow> False)"

definition integrity_of :: "validation \<Rightarrow> json" where
  "integrity_of v = JObj (case v of
     Run_valid run_id _ \<Rightarrow> [(''status'', JStr ''VALID''), (''valid'', JBool True), (''run_id'', JStr run_id)]
   | Run_invalid m \<Rightarrow> [(''status'', JStr ''INVALID''), (''valid'', JBool False), (''message'', JStr m)]
   | Run_incomplete m \<Rightarrow> [(''status'', JStr ''INCOMPLETE''), (''valid'', JBool False), (''message'', JStr m)])"

definition captured_input :: "(string \<Rightarrow> string) \<Rightarrow> string \<times> string \<Rightarrow> json" where
  "captured_input sha f = JObj [(''path'', JStr (fst f)), (''sha256'', JStr (sha (snd f))),
     (''size'', JInt (int (length (snd f))))]"

definition inspect_artifacts :: "json_library \<Rightarrow> (string \<Rightarrow> string) \<Rightarrow> (json \<Rightarrow> string) \<Rightarrow> (io_error \<Rightarrow> string)
    \<Rightarrow> workflow_context \<Rightarrow> string \<Rightarrow> (string \<times> fs_node) list \<Rightarrow> json
    \<Rightarrow> ((string \<times> string) list \<times> validation) inspection" where
  "inspect_artifacts lib sha repr describe ctx name directory manifest =
     (let inventory = list_of (get_field ''artifacts'' (object_of manifest)) in
      bind_run (pure_run (ensure (is_object manifest \<and>
          get_field ''schema'' (object_of manifest) = JStr ''formalspecgen-evidence-manifest-v1'')
        (BoundedInputError ''UNSUPPORTED_MANIFEST'' ''expected a RunLedger v1 manifest''))) (\<lambda>_.
      bind_run (pure_run (ensure (inventory \<noteq> [])
        (BoundedInputError ''INVALID_INVENTORY'' ''artifact inventory is absent or malformed''))) (\<lambda>_.
      bind_run (budgeted (\<lambda>b. and_then (ensure (\<not> remaining_files b < int (length inventory))
        (BoundedInputError ''INPUT_LIMIT_EXCEEDED'' ''aggregate file allowance exceeded'')) (\<lambda>_. Inr ((), b)))) (\<lambda>_.
      bind_run (pure_run (inventory_names name [] inventory)) (\<lambda>names.
      bind_run (budgeted (capture_all names directory ctx)) (\<lambda>captured.
      bind_run (pure_run (validate_captured (lib plain_object) sha repr describe manifest (captured_reader captured))) (\<lambda>checked.
      bind_run (pure_run (if is_valid checked
        then for_each (\<lambda>(_, content). and_then (decode_evidence lib content) (\<lambda>_. Inr ())) captured else Inr ())) (\<lambda>_.
      bind_run (put ''integrity'' (integrity_of checked)) (\<lambda>_.
      bind_run (put ''captured_inputs'' (JArr (map (captured_input sha) captured))) (\<lambda>_.
      bind_run (put ''status'' (JStr (if is_valid checked then ''EVIDENCE_VALID'' else ''EVIDENCE_INVALID''))) (\<lambda>_.
      bind_run (put ''request_satisfied'' (JBool (is_valid checked))) (\<lambda>_.
      ret (captured, checked)))))))))))))"

definition recorded_explanation :: "json_library \<Rightarrow> (string \<Rightarrow> string) \<Rightarrow> string \<Rightarrow> dict \<Rightarrow> (string \<times> string) list
    \<Rightarrow> io_error + dict" where
  "recorded_explanation lib sha run_id terminal captured =
     and_then (execution_explanation lib sha terminal captured) (\<lambda>execution.
     Inr [(''run_id'', JStr run_id), (''artifact_count'', JInt (int (length captured))),
       (''recorded_status'', get_default ''final_status'' (JStr ''UNKNOWN'') terminal),
       (''recorded_claim'', get_default ''claim'' (JStr ''NO_PROOF'') terminal),
       (''recorded_claim_limits'', get_default ''claim_limits'' (JObj []) terminal),
       (''recorded_execution'', JObj execution),
       (''interpretation'', JStr ''These are recorded assertions, not independently established proof claims.'')])"

definition binding_fields :: "source_binding \<Rightarrow> json" where
  "binding_fields b = JObj [(''recorded_path'', JStr (bound_path b)), (''sha256'', JStr (bound_sha256 b)),
     (''size'', JInt (bound_size b))]"

definition applicability_of :: "bool \<Rightarrow> json" where
  "applicability_of matches = JObj [(''status'', JStr (if matches then ''SOURCE_MATCH_ONLY'' else ''SOURCE_CHANGED'')),
     (''scope'', JStr ''primary-source-bytes-only''), (''full_applicability_established'', JBool False),
     (''unchecked'', jstrings [''dependencies'', ''toolchain'', ''assumptions'', ''admission-policy'', ''source-context''])]"

definition source_limitations :: "string list" where
  "source_limitations = inspection_limitations[2 := ''Only primary-source bytes were compared; dependencies, '' @
     ''toolchain, assumptions and full applicability are not checked.'']"

text \<open>Integrity stays in the result even if the source check that was also asked for fails.\<close>

definition check_source :: "json_library \<Rightarrow> (string \<Rightarrow> string) \<Rightarrow> (string \<Rightarrow> io_error + string) \<Rightarrow> fs_node \<Rightarrow> workflow_context
    \<Rightarrow> string \<Rightarrow> dict \<Rightarrow> (string \<times> string) list \<Rightarrow> unit inspection" where
  "check_source lib sha expand root ctx source terminal captured =
     bind_run (put ''request_satisfied'' (JBool False)) (\<lambda>_.
     bind_run (put ''applicability'' (JObj [(''status'', JStr ''NOT_ESTABLISHED''),
       (''scope'', JStr ''primary-source-bytes-only'')])) (\<lambda>_.
     bind_run (pure_run (recorded_source_binding lib terminal captured)) (\<lambda>binding.
     bind_run (pure_run (input_path expand source ctx)) (\<lambda>(path, relative).
     bind_run (pure_run (input_directory root (butlast relative))) (\<lambda>directory.
     bind_run (budgeted (capture (last relative) directory ctx)) (\<lambda>content.
     let matches = (sha content = bound_sha256 binding \<and> int (length content) = bound_size binding) in
     bind_run (put ''source_binding'' (JObj [(''status'', JStr (if matches then ''MATCH'' else ''MISMATCH'')),
       (''recorded'', binding_fields binding), (''captured'', captured_input sha (path, content))])) (\<lambda>_.
     bind_run (put ''applicability'' (applicability_of matches)) (\<lambda>_.
     bind_run (put ''limitations'' (jstrings source_limitations)) (\<lambda>_.
     bind_run (put ''status'' (JStr (if matches then ''EVIDENCE_SOURCE_MATCH'' else ''EVIDENCE_SOURCE_CHANGED''))) (\<lambda>_.
     put ''request_satisfied'' (JBool matches)))))))))))"

text \<open>The terminal record of a valid run is shown, explained, and compared with the current source.\<close>

definition inspect_terminal :: "json_library \<Rightarrow> (string \<Rightarrow> string) \<Rightarrow> (string \<Rightarrow> io_error + string) \<Rightarrow> fs_node
    \<Rightarrow> evidence_request \<Rightarrow> workflow_context \<Rightarrow> (string \<times> string) list \<Rightarrow> validation \<Rightarrow> unit inspection" where
  "inspect_terminal lib sha expand root q ctx captured checked = (case checked of
     Run_valid run_id terminal \<Rightarrow>
       bind_run (put ''recorded_terminal'' (JObj terminal)) (\<lambda>_.
       bind_run (if ev_operation q = ''explain''
         then bind_run (pure_run (recorded_explanation lib sha run_id terminal captured)) (\<lambda>e. put ''explanation'' (JObj e))
         else ret ()) (\<lambda>_.
       case ev_source q of None \<Rightarrow> ret ()
       | Some source \<Rightarrow> check_source lib sha expand root ctx source terminal captured))
   | _ \<Rightarrow> ret ())"

definition inspect_body :: "json_library \<Rightarrow> (string \<Rightarrow> string) \<Rightarrow> (json \<Rightarrow> string) \<Rightarrow> (io_error \<Rightarrow> string)
    \<Rightarrow> (string \<Rightarrow> io_error + string) \<Rightarrow> fs_node \<Rightarrow> evidence_request \<Rightarrow> workflow_context \<Rightarrow> unit inspection" where
  "inspect_body lib sha repr describe expand root q ctx =
     bind_run (capture_manifest lib sha expand root q ctx) (\<lambda>(name, directory, manifest).
     bind_run (inspect_artifacts lib sha repr describe ctx name directory manifest) (\<lambda>(captured, checked).
     inspect_terminal lib sha expand root q ctx captured checked))"

text \<open>The handler of \<^verbatim>\<open>except (OSError, ValueError, RuntimeError, MCPPolicyViolation)\<close>.\<close>

fun caught :: "io_error \<Rightarrow> bool" where
  "caught (OtherError _) = False"
| "caught _ = True"

fun inspection_code :: "io_error \<Rightarrow> string" where
  "inspection_code (BoundedInputError code _) = code"
| "inspection_code _ = ''INVALID_INPUT''"

definition integrity_valid :: "dict \<Rightarrow> bool" where
  "integrity_valid d \<longleftrightarrow> get_field ''valid'' (object_of (get_field ''integrity'' d)) = JBool True"

definition rejection_status :: "evidence_request \<Rightarrow> dict \<Rightarrow> io_error \<Rightarrow> string" where
  "rejection_status q d e = (if ev_source q \<noteq> None \<and> integrity_valid d then ''EVIDENCE_SOURCE_CHECK_REJECTED''
     else case e of FileNotFoundError _ \<Rightarrow> ''EVIDENCE_INCOMPLETE'' | _ \<Rightarrow> ''EVIDENCE_INVALID'')"

definition rejected :: "(io_error \<Rightarrow> string) \<Rightarrow> evidence_request \<Rightarrow> io_error \<Rightarrow> dict \<Rightarrow> dict" where
  "rejected describe q e d =
     (let d' = AList.update ''message'' (JStr (describe e)) (AList.update ''code'' (JStr (inspection_code e))
            (AList.update ''status'' (JStr (rejection_status q d e)) (AList.update ''request_satisfied'' (JBool False) d)))
      in if get_field ''status'' (object_of (get_field ''integrity'' d)) = JStr ''NOT_CHECKED''
         then AList.update ''integrity'' (JObj (AList.update ''reason''
             (JStr ''Input rejected before integrity validation completed.'') (object_of (get_field ''integrity'' d)))) d'
         else d')"

definition inspect_one :: "json_library \<Rightarrow> (string \<Rightarrow> string) \<Rightarrow> (json \<Rightarrow> string) \<Rightarrow> (io_error \<Rightarrow> string)
    \<Rightarrow> (string \<Rightarrow> io_error + string) \<Rightarrow> fs_node \<Rightarrow> evidence_request \<Rightarrow> workflow_context \<Rightarrow> capture_budget
    \<Rightarrow> io_error + dict \<times> capture_budget" where
  "inspect_one lib sha repr describe expand root q ctx budget =
     (case inspect_body lib sha repr describe expand root q ctx (initial_result q, budget) of
        (Inr _, st) \<Rightarrow> Inr st
      | (Inl e, (d, b)) \<Rightarrow> if caught e then Inr (rejected describe q e d, b) else Inl e)"

section \<open>Comparing two runs\<close>

definition terminal_change :: "dict \<Rightarrow> dict \<Rightarrow> string \<Rightarrow> json" where
  "terminal_change before after key = JObj [(''field'', JStr key), (''baseline_present'', JBool (has_field key before)),
     (''comparison_present'', JBool (has_field key after)), (''baseline'', get_field key before),
     (''comparison'', get_field key after)]"

text \<open>Two values are compared by their JSON text, \<^verbatim>\<open>json.dumps(_, sort_keys=True)\<close>.\<close>

definition terminal_changes :: "dict \<Rightarrow> dict \<Rightarrow> json list" where
  "terminal_changes before after = map (terminal_change before after)
     (filter (\<lambda>k. \<not> (has_field k before \<and> has_field k after \<and>
         json_identity (get_field k before) = json_identity (get_field k after)))
       (sorted_set (map fst before @ map fst after)))"

definition inputs_by_path :: "dict \<Rightarrow> (string \<times> json) list" where
  "inputs_by_path result = map (\<lambda>item. (str_value (get_field ''path'' (object_of item)), item))
     (list_of (get_field ''captured_inputs'' result))"

definition differences :: "dict \<Rightarrow> dict \<Rightarrow> dict" where
  "differences baseline comparison =
     (let left = inputs_by_path baseline; right = inputs_by_path comparison;
          common = sorted_set (filter (\<lambda>n. n \<in> set (map fst right)) (map fst left));
          only = (\<lambda>xs ys. sorted_set (filter (\<lambda>n. n \<notin> set (map fst ys)) (map fst xs)));
          item = (\<lambda>xs n. get_field n xs);
          equal_inputs = (\<lambda>n. item left n = item right n) in
      [(''manifest_bytes_equal'', JBool (get_field ''manifest_sha256'' baseline = get_field ''manifest_sha256'' comparison)),
       (''artifacts_added'', JArr (map (item right) (only right left))),
       (''artifacts_removed'', JArr (map (item left) (only left right))),
       (''artifacts_modified'', JArr (map (\<lambda>n. JObj [(''path'', JStr n), (''baseline'', item left n), (''comparison'', item right n)])
         (filter (\<lambda>n. \<not> equal_inputs n) common))),
       (''artifacts_unchanged'', jstrings (filter equal_inputs common)),
       (''recorded_terminal_changes'', JArr (terminal_changes (object_of (get_field ''recorded_terminal'' baseline))
         (object_of (get_field ''recorded_terminal'' comparison))))])"

definition evidence_budget :: "workflow_context \<Rightarrow> capture_budget" where
  "evidence_budget ctx = \<lparr>remaining_bytes = budget_get ''max_input_bytes'' 8388608 (resource_budget ctx),
     remaining_files = budget_get ''max_input_files'' 256 (resource_budget ctx)\<rparr>"

text \<open>The two runs of a comparison are inspected by plain validation requests.\<close>

definition validation_request :: "string \<Rightarrow> string option \<Rightarrow> evidence_request" where
  "validation_request manifest expected = \<lparr>ev_manifest = manifest, ev_operation = ''validate'',
     ev_expected = expected, ev_comparison = None, ev_comparison_expected = None, ev_source = None\<rparr>"

definition satisfied :: "dict \<Rightarrow> bool" where
  "satisfied d \<longleftrightarrow> get_field ''request_satisfied'' d = JBool True"

definition manifest_reference :: "dict \<Rightarrow> json" where
  "manifest_reference d = get_field ''manifest'' (object_of (get_field ''request'' d))"

definition comparison_result :: "evidence_request \<Rightarrow> workflow_context \<Rightarrow> string \<Rightarrow> dict \<Rightarrow> dict" where
  "comparison_result q ctx reference baseline =
     [(''schema'', JStr ''formalspecgen-evidence-inspection-v1''), (''claim'', JStr ''NO_PROOF''),
      (''request'', JObj (AList.update ''comparison_manifest'' (JStr (under_root ctx reference))
         (AList.update ''manifest'' (manifest_reference baseline) (request_fields q)))),
      (''status'', JStr ''EVIDENCE_COMPARISON_REJECTED''), (''request_satisfied'', JBool False),
      (''integrity'', JObj [(''status'', JStr ''NOT_ESTABLISHED''), (''valid'', JBool False)]),
      (''authenticity'', status_object ''NOT_ASSESSED''), (''applicability'', status_object ''NOT_ASSESSED''),
      (''assurance'', status_object ''NOT_ASSESSED''), (''baseline'', JObj baseline),
      (''comparison'', JObj [(''status'', JStr ''NOT_CHECKED''), (''request_satisfied'', JBool False)]),
      (''limitations'', JArr (list_of (get_field ''limitations'' baseline) @ map JStr
        [''Comparison is of recorded data and artifact bytes, not semantic or behavioral equivalence.'',
         ''Both ledgers share one aggregate capture budget; inputs are not reopened for comparison.'']))]"

definition compared :: "dict \<Rightarrow> dict \<Rightarrow> dict \<Rightarrow> dict" where
  "compared baseline comparison d = AList.update ''differences'' (JObj (differences baseline comparison))
     (AList.update ''integrity'' (JObj [(''status'', JStr ''VALID''), (''valid'', JBool True)])
     (AList.update ''request_satisfied'' (JBool True) (AList.update ''status'' (JStr ''EVIDENCE_COMPARED'') d)))"

definition with_comparison :: "dict \<Rightarrow> dict \<Rightarrow> dict" where
  "with_comparison comparison d = (let d' = AList.update ''comparison'' (JObj comparison) d in
     AList.update ''request'' (JObj (AList.update ''comparison_manifest'' (manifest_reference comparison)
       (object_of (get_field ''request'' d')))) d')"

definition inspect_evidence :: "json_library \<Rightarrow> (string \<Rightarrow> string) \<Rightarrow> (json \<Rightarrow> string) \<Rightarrow> (io_error \<Rightarrow> string)
    \<Rightarrow> (string \<Rightarrow> io_error + string) \<Rightarrow> fs_node \<Rightarrow> evidence_request \<Rightarrow> workflow_context \<Rightarrow> io_error + dict" where
  "inspect_evidence lib sha repr describe expand root q ctx =
     (let inspect = (\<lambda>request budget. inspect_one lib sha repr describe expand root request ctx budget);
          reference = (case ev_comparison q of None \<Rightarrow> [] | Some s \<Rightarrow> s) in
      if ev_operation q \<noteq> ''diff'' then and_then (inspect q (evidence_budget ctx)) (\<lambda>(d, _). Inr d)
      else and_then (inspect (validation_request (ev_manifest q) (ev_expected q)) (evidence_budget ctx)) (\<lambda>(baseline, budget).
        let d = comparison_result q ctx reference baseline in
        if \<not> satisfied baseline then Inr (AList.update ''code'' (JStr ''BASELINE_EVIDENCE_REJECTED'') d)
        else and_then (inspect (validation_request reference (ev_comparison_expected q)) budget) (\<lambda>(comparison, _).
          let d' = with_comparison comparison d in
          if \<not> satisfied comparison then Inr (AList.update ''code'' (JStr ''COMPARISON_EVIDENCE_REJECTED'') d')
          else Inr (compared baseline comparison d'))))"

section \<open>Nothing is upgraded\<close>

definition unassessed :: "dict \<Rightarrow> bool" where
  "unassessed d \<longleftrightarrow> get_field ''claim'' d = JStr ''NO_PROOF'' \<and>
     get_field ''authenticity'' d = status_object ''NOT_ASSESSED'' \<and>
     get_field ''assurance'' d = status_object ''NOT_ASSESSED'' \<and>
     get_field ''full_applicability_established'' (object_of (get_field ''applicability'' d)) \<noteq> JBool True"

definition keeps_unassessed :: "dict \<times> capture_budget \<Rightarrow> dict \<times> capture_budget \<Rightarrow> bool" where
  "keeps_unassessed st st' \<longleftrightarrow> (unassessed (fst st) \<longrightarrow> unassessed (fst st'))"

interpretation inspected: run_relation keeps_unassessed
  by unfold_locales (auto simp: keeps_unassessed_def)

lemma put_keeps: "k \<notin> {''claim'', ''authenticity'', ''assurance'', ''applicability''} \<Longrightarrow>
    related_run keeps_unassessed (put k v)"
  by (auto simp: related_run_def keeps_unassessed_def put_def unassessed_def)

lemma put_applicability_keeps: "get_field ''full_applicability_established'' (object_of v) \<noteq> JBool True \<Longrightarrow>
    related_run keeps_unassessed (put ''applicability'' v)"
  by (simp add: related_run_def keeps_unassessed_def put_def unassessed_def)

lemma budgeted_keeps: "related_run keeps_unassessed (budgeted f)"
  by (auto simp: related_run_def keeps_unassessed_def budgeted_def split: sum.splits)

lemmas keeps_intros = put_applicability_keeps put_keeps budgeted_keeps inspected.sound_intros sound_option

lemma inspect_body_keeps: "related_run keeps_unassessed (inspect_body lib sha repr describe expand root q ctx)"
proof -
  have "related_run keeps_unassessed (capture_manifest lib sha expand root q ctx)"
    unfolding capture_manifest_def check_expected_def Let_def by (intro keeps_intros) simp_all
  moreover have "related_run keeps_unassessed (inspect_artifacts lib sha repr describe ctx name directory manifest)"
    for name directory manifest
    unfolding inspect_artifacts_def Let_def by (intro keeps_intros) simp_all
  moreover have "related_run keeps_unassessed (check_source lib sha expand root ctx source terminal captured)"
    for source terminal captured
    unfolding check_source_def Let_def
    by (intro keeps_intros) (simp_all add: applicability_of_def get_field_def)
  ultimately show ?thesis
    unfolding inspect_body_def inspect_terminal_def
    by (auto intro!: keeps_intros split: validation.splits)
qed

lemma rejected_keeps: "unassessed d \<Longrightarrow> unassessed (rejected describe q e d)"
  by (simp add: rejected_def unassessed_def Let_def)

lemma inspect_one_unassessed:
  shows "inspect_one lib sha repr describe expand root q ctx budget = Inl e \<Longrightarrow> \<not> caught e"
    and "inspect_one lib sha repr describe expand root q ctx budget = Inr (d, b) \<Longrightarrow> unassessed d"
proof -
  let ?st = "(initial_result q, budget)"
  have "unassessed (initial_result q)"
    by (simp add: unassessed_def initial_result_def get_field_def status_object_def)
  with inspect_body_keeps[of lib sha repr describe expand root q ctx]
  have "unassessed (fst (snd (inspect_body lib sha repr describe expand root q ctx ?st)))"
    unfolding related_run_def keeps_unassessed_def by (metis fst_conv)
  then show "inspect_one lib sha repr describe expand root q ctx budget = Inr (d, b) \<Longrightarrow> unassessed d"
    by (auto simp: inspect_one_def rejected_keeps split: sum.splits prod.splits if_splits)
qed (auto simp: inspect_one_def split: sum.splits prod.splits if_splits)

lemma comparison_unassessed:
  "unassessed (comparison_result q ctx reference baseline)"
  "unassessed d \<Longrightarrow> unassessed (with_comparison comparison d)"
  "unassessed d \<Longrightarrow> unassessed (compared baseline comparison d)"
  "unassessed d \<Longrightarrow> unassessed (AList.update ''code'' v d)"
  by (simp_all add: comparison_result_def with_comparison_def compared_def unassessed_def Let_def)
     (simp add: get_field_def status_object_def)

text \<open>C35: an inspection never upgrades recorded claims: whatever is inspected, the result either is an
  exception that no handler names, or claims \<open>NO_PROOF\<close>, leaves authenticity and assurance unassessed and
  never says that full applicability is established.\<close>

theorem inspection_never_upgrades:
  "case inspect_evidence lib sha repr describe expand root q ctx of
     Inl e \<Rightarrow> \<not> caught e
   | Inr d \<Rightarrow> get_field ''claim'' d = JStr ''NO_PROOF'' \<and>
       get_field ''authenticity'' d = status_object ''NOT_ASSESSED'' \<and>
       get_field ''assurance'' d = status_object ''NOT_ASSESSED'' \<and>
       get_field ''full_applicability_established'' (object_of (get_field ''applicability'' d)) \<noteq> JBool True"
proof -
  have "case inspect_evidence lib sha repr describe expand root q ctx of Inl e \<Rightarrow> \<not> caught e | Inr d \<Rightarrow> unassessed d"
    by (auto simp: inspect_evidence_def and_then_def Let_def comparison_unassessed
        dest: inspect_one_unassessed split: sum.splits)
  then show ?thesis unfolding unassessed_def .
qed

section \<open>What an accepted inspection rests on\<close>

lemma put_Inr: "put k v st = (Inr x, st') \<longleftrightarrow> st' = (AList.update k v (fst st), snd st)"
  by (auto simp: put_def)

lemma budgeted_Inr: "budgeted f st = (Inr x, st') \<longleftrightarrow> (\<exists>b. f (snd st) = Inr (x, b) \<and> st' = (fst st, b))"
  by (auto simp: budgeted_def split: sum.splits)

lemmas inspection_Inr = run_Inr put_Inr budgeted_Inr

lemma capture_manifestD:
  assumes "capture_manifest lib sha expand root q ctx st = (Inr (name, directory, manifest), st')"
    and "0 \<le> remaining_bytes (snd st)"
  shows "\<exists>path rel content. input_path expand (ev_manifest q) ctx = Inr (path, rel) \<and> name = last rel \<and>
    input_directory root (butlast rel) = Inr directory \<and> open_regular directory name = Inr content \<and>
    get_field ''manifest_sha256'' (fst st') = JStr (sha content) \<and> (\<forall>e. ev_expected q = Some e \<longrightarrow> sha content = e) \<and>
    decode_evidence lib content = Inr manifest \<and>
    int (length content) + remaining_bytes (snd st') = remaining_bytes (snd st) \<and> 0 \<le> remaining_bytes (snd st') \<and>
    0 \<le> remaining_files (snd st') \<and> remaining_files (snd st') + 1 = remaining_files (snd st)"
proof -
  from assms(1) obtain path rel content b st1 where
    p: "input_path expand (ev_manifest q) ctx = Inr (path, rel)" "name = last rel"
      "input_directory root (butlast rel) = Inr directory" and
    s: "snd st1 = snd st" "capture name directory ctx (snd st1) = Inr (content, b)" and
    e: "check_expected sha q content (AList.update ''manifest_sha256'' (JStr (sha content)) (fst st1), b) = (Inr (), st')"
      "decode_evidence lib content = Inr manifest"
    by (force simp: capture_manifest_def Let_def inspection_Inr split: option.splits prod.splits)
  note c = captureD[OF s(2)[unfolded s(1)] assms(2)]
  from e(1) have "snd st' = b" "get_field ''manifest_sha256'' (fst st') = JStr (sha content)"
    "\<forall>e. ev_expected q = Some e \<longrightarrow> sha content = e"
    by (auto simp: check_expected_def Let_def inspection_Inr split: option.splits)
  with p c e(2) show ?thesis by auto
qed

lemma inventory_namesD:
  assumes "inventory_names manifest seen xs = Inr names"
  shows "manifest \<notin> set names \<and> distinct names \<and> set names \<inter> set seen = {} \<and> length names = length xs"
  using assms
  by (induction manifest seen xs arbitrary: names rule: inventory_names.induct) (fastforce simp: and_then_Inr_iff)+

definition captured_size :: "(string \<times> string) list \<Rightarrow> int" where
  "captured_size captured = (\<Sum>f \<leftarrow> captured. int (length (snd f)))"

lemma inspect_artifactsD:
  assumes "inspect_artifacts lib sha repr describe ctx name directory manifest st = (Inr (captured, checked), st')"
    and "0 \<le> remaining_bytes (snd st)"
  shows "\<forall>(n, c) \<in> set captured. open_regular directory n = Inr c" and "name \<notin> set (map fst captured)"
    and "validate_captured (lib plain_object) sha repr describe manifest (captured_reader captured) = Inr checked"
    and "is_valid checked \<Longrightarrow> \<forall>(n, c) \<in> set captured. \<exists>j. decode_evidence lib c = Inr j"
    and "get_field ''request_satisfied'' (fst st') = JBool (is_valid checked)"
    and "get_field ''manifest_sha256'' (fst st') = get_field ''manifest_sha256'' (fst st)"
    and "captured_size captured + remaining_bytes (snd st') = remaining_bytes (snd st)"
    and "0 \<le> remaining_bytes (snd st')" and "0 \<le> remaining_files (snd st')"
    and "remaining_files (snd st') + int (length captured) = remaining_files (snd st)"
    and "distinct (map fst captured)"
proof -
  let ?inv = "list_of (get_field ''artifacts'' (object_of manifest))"
  from assms(1) obtain names b where
    n: "inventory_names name [] ?inv = Inr names" "\<not> remaining_files (snd st) < int (length ?inv)" and
    c: "capture_all names directory ctx (snd st) = Inr (captured, b)" "snd st' = b" and
    v: "validate_captured (lib plain_object) sha repr describe manifest (captured_reader captured) = Inr checked"
      "(if is_valid checked then for_each (\<lambda>(_, content). and_then (decode_evidence lib content) (\<lambda>_. Inr ())) captured
        else Inr ()) = Inr ()" and
    f: "get_field ''request_satisfied'' (fst st') = JBool (is_valid checked)"
      "get_field ''manifest_sha256'' (fst st') = get_field ''manifest_sha256'' (fst st)"
    by (auto simp: inspect_artifacts_def Let_def inspection_Inr and_then_Inr_iff simp del: for_each_Inr_iff)
  note a = capture_allD[OF c(1) assms(2)] and m = inventory_namesD[OF n(1)]
  show "\<forall>(n, c) \<in> set captured. open_regular directory n = Inr c" "name \<notin> set (map fst captured)"
    "validate_captured (lib plain_object) sha repr describe manifest (captured_reader captured) = Inr checked"
    "get_field ''request_satisfied'' (fst st') = JBool (is_valid checked)"
    "get_field ''manifest_sha256'' (fst st') = get_field ''manifest_sha256'' (fst st)"
    "captured_size captured + remaining_bytes (snd st') = remaining_bytes (snd st)"
    "0 \<le> remaining_bytes (snd st')" "remaining_files (snd st') + int (length captured) = remaining_files (snd st)"
    "distinct (map fst captured)" "0 \<le> remaining_files (snd st')"
    using a m v f c(2) n(2) by (auto simp: captured_size_def)
  show "is_valid checked \<Longrightarrow> \<forall>(n, c) \<in> set captured. \<exists>j. decode_evidence lib c = Inr j"
    using v(2) by (fastforce simp: and_then_Inr_iff)
qed

definition source_matches :: "json_library \<Rightarrow> (string \<Rightarrow> string) \<Rightarrow> (string \<Rightarrow> io_error + string) \<Rightarrow> fs_node
    \<Rightarrow> workflow_context \<Rightarrow> string \<Rightarrow> dict \<Rightarrow> (string \<times> string) list \<Rightarrow> bool" where
  "source_matches lib sha expand root ctx source terminal captured \<longleftrightarrow> (\<exists>binding path rel content.
     recorded_source_binding lib terminal captured = Inr binding \<and> input_path expand source ctx = Inr (path, rel) \<and>
     regular_at root rel content \<and> sha content = bound_sha256 binding \<and> int (length content) = bound_size binding)"

lemma captured_regular:
  assumes "input_path expand v ctx = Inr (path, rel)" and "input_directory root (butlast rel) = Inr d"
    and "open_regular d (last rel) = Inr content"
  shows "regular_at root rel content"
  using input_directory_regular[OF assms(2,3)] input_pathD(1)[OF assms(1)] by simp

lemma check_sourceD:
  assumes "check_source lib sha expand root ctx source terminal captured st = (Inr (), st')"
    and "0 \<le> remaining_bytes (snd st)"
  shows "satisfied (fst st') \<Longrightarrow> source_matches lib sha expand root ctx source terminal captured"
    and "remaining_bytes (snd st') \<le> remaining_bytes (snd st)" and "0 \<le> remaining_bytes (snd st')"
    and "remaining_files (snd st') \<le> remaining_files (snd st)" and "0 \<le> remaining_files (snd st')"
    and "get_field ''manifest_sha256'' (fst st') = get_field ''manifest_sha256'' (fst st)"
    and "get_field ''recorded_terminal'' (fst st') = get_field ''recorded_terminal'' (fst st)"
proof -
  from assms(1) obtain binding path rel directory content b where
    s: "recorded_source_binding lib terminal captured = Inr binding" "input_path expand source ctx = Inr (path, rel)"
      "input_directory root (butlast rel) = Inr directory" and
    c: "capture (last rel) directory ctx (snd st) = Inr (content, b)" "snd st' = b" and
    f: "get_field ''request_satisfied'' (fst st')
          = JBool (sha content = bound_sha256 binding \<and> int (length content) = bound_size binding)"
      "get_field ''manifest_sha256'' (fst st') = get_field ''manifest_sha256'' (fst st)"
      "get_field ''recorded_terminal'' (fst st') = get_field ''recorded_terminal'' (fst st)"
    by (auto simp: check_source_def Let_def inspection_Inr split: prod.splits)
  note h = captureD[OF c(1) assms(2)]
  show "satisfied (fst st') \<Longrightarrow> source_matches lib sha expand root ctx source terminal captured"
    unfolding source_matches_def satisfied_def f(1) using s captured_regular[OF s(2,3) h(1)] by auto
  show "remaining_bytes (snd st') \<le> remaining_bytes (snd st)" "0 \<le> remaining_bytes (snd st')"
    "remaining_files (snd st') \<le> remaining_files (snd st)" "0 \<le> remaining_files (snd st')"
    "get_field ''manifest_sha256'' (fst st') = get_field ''manifest_sha256'' (fst st)"
    "get_field ''recorded_terminal'' (fst st') = get_field ''recorded_terminal'' (fst st)"
    using h c f by auto
qed

text \<open>What the accepted result \<open>d\<close> rests on, and what it took from the budget.\<close>

definition grounded :: "json_library \<Rightarrow> (string \<Rightarrow> string) \<Rightarrow> (json \<Rightarrow> string) \<Rightarrow> (io_error \<Rightarrow> string)
    \<Rightarrow> (string \<Rightarrow> io_error + string) \<Rightarrow> fs_node \<Rightarrow> evidence_request \<Rightarrow> workflow_context
    \<Rightarrow> capture_budget \<Rightarrow> capture_budget \<Rightarrow> dict \<Rightarrow> bool" where
  "grounded lib sha repr describe expand root q ctx before after d \<longleftrightarrow>
     (\<exists>path rel content manifest captured run_id terminal.
       input_path expand (ev_manifest q) ctx = Inr (path, rel) \<and> regular_at root rel content \<and>
       get_field ''manifest_sha256'' d = JStr (sha content) \<and> (\<forall>e. ev_expected q = Some e \<longrightarrow> sha content = e) \<and>
       decode_evidence lib content = Inr manifest \<and> distinct (last rel # map fst captured) \<and>
       (\<forall>(n, c) \<in> set captured. regular_at root (butlast rel @ [n]) c \<and> (\<exists>j. decode_evidence lib c = Inr j)) \<and>
       validate_captured (lib plain_object) sha repr describe manifest (captured_reader captured)
         = Inr (Run_valid run_id terminal) \<and>
       get_field ''recorded_terminal'' d = JObj terminal \<and>
       (\<forall>s. ev_source q = Some s \<longrightarrow> source_matches lib sha expand root ctx s terminal captured) \<and>
       int (length content) + captured_size captured + remaining_bytes after \<le> remaining_bytes before \<and>
       0 \<le> remaining_bytes after \<and> 0 \<le> remaining_files after \<and>
       1 + int (length captured) + remaining_files after \<le> remaining_files before)"

lemma inspect_one_grounded:
  assumes "inspect_one lib sha repr describe expand root q ctx budget = Inr (d, budget')" and "satisfied d"
    and "0 \<le> remaining_bytes budget"
  shows "grounded lib sha repr describe expand root q ctx budget budget' d"
proof -
  have "inspect_body lib sha repr describe expand root q ctx (initial_result q, budget) = (Inr (), (d, budget'))"
    using assms(1,2) by (auto simp: inspect_one_def rejected_def Let_def satisfied_def split: sum.splits prod.splits if_splits)
  then obtain name directory manifest st1 captured checked st2 where
    m: "capture_manifest lib sha expand root q ctx (initial_result q, budget) = (Inr (name, directory, manifest), st1)" and
    a: "inspect_artifacts lib sha repr describe ctx name directory manifest st1 = (Inr (captured, checked), st2)" and
    rest: "inspect_terminal lib sha expand root q ctx captured checked st2 = (Inr (), (d, budget'))"
    by (auto simp: inspect_body_def bind_run_iff)
  from capture_manifestD[OF m] assms(3) obtain path rel content where
    p: "input_path expand (ev_manifest q) ctx = Inr (path, rel)" "name = last rel"
      "input_directory root (butlast rel) = Inr directory" "open_regular directory name = Inr content"
      "get_field ''manifest_sha256'' (fst st1) = JStr (sha content)" "\<forall>e. ev_expected q = Some e \<longrightarrow> sha content = e"
      "decode_evidence lib content = Inr manifest"
      "int (length content) + remaining_bytes (snd st1) = remaining_bytes budget" "0 \<le> remaining_bytes (snd st1)"
      "0 \<le> remaining_files (snd st1)" "remaining_files (snd st1) + 1 = remaining_files budget" by auto
  note art = inspect_artifactsD[OF a p(9)]
  have "is_valid checked"
    using rest assms(2) art(5) by (auto simp: satisfied_def is_valid_def inspect_terminal_def ret_Inr split: validation.splits)
  then obtain run_id terminal where v: "checked = Run_valid run_id terminal"
    by (auto simp: is_valid_def split: validation.splits)
  let ?st3 = "(AList.update ''recorded_terminal'' (JObj terminal) (fst st2), snd st2)"
  from rest obtain st4 where
    st4: "(case ev_source q of None \<Rightarrow> ret () | Some source \<Rightarrow> check_source lib sha expand root ctx source terminal captured) st4
        = (Inr (), (d, budget'))" "snd st4 = snd st2"
      "get_field ''manifest_sha256'' (fst st4) = get_field ''manifest_sha256'' (fst st2)"
      "get_field ''recorded_terminal'' (fst st4) = JObj terminal"
    unfolding v by (auto simp: inspect_terminal_def inspection_Inr split: if_splits)
  have final: "(\<forall>s. ev_source q = Some s \<longrightarrow> source_matches lib sha expand root ctx s terminal captured) \<and>
    remaining_bytes budget' \<le> remaining_bytes (snd st2) \<and> 0 \<le> remaining_bytes budget' \<and>
    remaining_files budget' \<le> remaining_files (snd st2) \<and> 0 \<le> remaining_files budget' \<and>
    get_field ''manifest_sha256'' d = get_field ''manifest_sha256'' (fst st2) \<and>
    get_field ''recorded_terminal'' d = JObj terminal"
  proof (cases "ev_source q")
    case None
    with st4 art(8,9) show ?thesis by (auto simp: ret_Inr)
  next
    case (Some s)
    with check_sourceD[of lib sha expand root ctx s terminal captured st4 "(d, budget')"] st4 art(8) assms(2)
    show ?thesis by simp
  qed
  have regular: "regular_at root (butlast rel @ [n]) c" if "open_regular directory n = Inr c" for n c
    using input_directory_regular[OF p(3) that] .
  have "regular_at root rel content" using captured_regular[OF p(1,3)] p(2,4) by simp
  moreover have "\<forall>(n, c) \<in> set captured. regular_at root (butlast rel @ [n]) c \<and> (\<exists>j. decode_evidence lib c = Inr j)"
    using art(1) art(4)[OF \<open>is_valid checked\<close>] regular by fastforce
  ultimately show ?thesis
    unfolding grounded_def using p art final v
    by (intro exI[of _ path] exI[of _ rel] exI[of _ content] exI[of _ manifest] exI[of _ captured]
        exI[of _ run_id] exI[of _ terminal]) auto
qed

end
