(* ===== verification/Evidence_Acceptance.thy ===== *)
theory Evidence_Acceptance
  imports Evidence_Consumer
begin

text \<open>
  What the inspection of evidence guarantees: a satisfied request rests on regular files below the workspace root,
  read once and charged to one budget; and a run that the ledger has published is accepted.
\<close>

section \<open>Satisfied requests\<close>

lemma comparison_fields:
  "get_field ''differences'' (compared baseline comparison d) = JObj (differences baseline comparison)"
  "get_field ''baseline'' (compared baseline comparison (with_comparison comparison (comparison_result q ctx reference baseline)))
     = JObj baseline"
  "get_field ''comparison'' (compared baseline comparison (with_comparison comparison d)) = JObj comparison"
  by (simp_all add: compared_def with_comparison_def comparison_result_def Let_def)

lemma unsatisfied:
  "\<not> satisfied (AList.update ''code'' v (comparison_result q ctx reference baseline))"
  "\<not> satisfied (AList.update ''code'' v (with_comparison comparison (comparison_result q ctx reference baseline)))"
  by (simp_all add: satisfied_def comparison_result_def with_comparison_def Let_def)

text \<open>C13: a satisfied request rests on the files it names: the manifest and every artifact are whole regular files
  below the workspace root, reached without links and read under \<open>workspace_read\<close>, the manifest has the digest the
  caller expected, the ledger's rules accept the captured bytes, a requested source has the recorded bytes, and
  everything read fits the budget.  A comparison rests on two such runs that share one budget.\<close>

theorem satisfied_request_is_grounded:
  assumes "inspect_evidence lib sha repr describe expand root q ctx = Inr d" and "satisfied d"
    and "0 \<le> budget_get ''max_input_bytes'' 8388608 (resource_budget ctx)"
  shows "if ev_operation q = ''diff''
    then \<exists>first second shared after.
      grounded lib sha repr describe expand root (validation_request (ev_manifest q) (ev_expected q)) ctx
        (evidence_budget ctx) shared first \<and>
      grounded lib sha repr describe expand root
        (validation_request (case ev_comparison q of None \<Rightarrow> [] | Some s \<Rightarrow> s) (ev_comparison_expected q)) ctx
        shared after second \<and>
      get_field ''baseline'' d = JObj first \<and> get_field ''comparison'' d = JObj second \<and>
      get_field ''differences'' d = JObj (differences first second)
    else \<exists>after. grounded lib sha repr describe expand root q ctx (evidence_budget ctx) after d"
proof (cases "ev_operation q = ''diff''")
  case False
  with assms(1) obtain b where "inspect_one lib sha repr describe expand root q ctx (evidence_budget ctx) = Inr (d, b)"
    by (auto simp: inspect_evidence_def Let_def and_then_Inr_iff)
  from inspect_one_grounded[OF this assms(2)] False assms(3) show ?thesis by (auto simp: evidence_budget_def)
next
  case True
  let ?r = "case ev_comparison q of None \<Rightarrow> [] | Some s \<Rightarrow> s"
  from True assms(1,2) obtain first shared second after where
    one: "inspect_one lib sha repr describe expand root (validation_request (ev_manifest q) (ev_expected q)) ctx
        (evidence_budget ctx) = Inr (first, shared)" "satisfied first" and
    two: "inspect_one lib sha repr describe expand root (validation_request ?r (ev_comparison_expected q)) ctx shared
        = Inr (second, after)" "satisfied second" and
    d: "d = compared first second (with_comparison second (comparison_result q ctx ?r first))"
    by (auto simp: inspect_evidence_def Let_def and_then_Inr_iff unsatisfied split: if_splits)
  have g: "grounded lib sha repr describe expand root (validation_request (ev_manifest q) (ev_expected q)) ctx
      (evidence_budget ctx) shared first"
    using inspect_one_grounded[OF one] assms(3) by (simp add: evidence_budget_def)
  then have "0 \<le> remaining_bytes shared" by (auto simp: grounded_def)
  from g inspect_one_grounded[OF two this] True show ?thesis by (auto simp: d comparison_fields)
qed

section \<open>A published run is accepted\<close>

definition good_name :: "string \<Rightarrow> bool" where
  "good_name n \<longleftrightarrow> flat_name n \<and> n \<noteq> ''..'' \<and> n \<noteq> ''manifest.json'' \<and> CHR 0x5C \<notin> set n"

lemma good_artifact_name: "good_name (artifact_name n s)"
proof -
  obtain c cs where c: "artifact_name n s = c # cs" "is_digit c" using artifact_name_start by blast
  have "CHR 0x5C \<notin> set (pad3 n)" using pad3_digits[of "CHR 0x5C" n] by (auto simp: is_digit_def less_eq_char_def)
  moreover have "CHR 0x5C \<notin> set (str_lower (state_value s))" by (cases s; hypsubst; code_simp)
  moreover have "artifact_name n s \<noteq> ''..''" using c by (auto simp: is_digit_def less_eq_char_def)
  ultimately show ?thesis
    by (simp add: good_name_def artifact_name_flat fixed_names) (simp add: artifact_name_def)
qed

lemma good_log_names: "e \<in> set (run_log sha r now ss) \<Longrightarrow> good_name (fst e)"
proof -
  have "e \<in> set (record_log sha r n previous ss) \<Longrightarrow> good_name (fst e)" for n previous
    by (induction ss arbitrary: n previous) (auto simp: Let_def good_artifact_name)
  then show "e \<in> set (run_log sha r now ss) \<Longrightarrow> good_name (fst e)"
    by (auto simp: run_log_def Let_def good_name_def flat_name_def)
qed

lemma inventory_name_good: "good_name n \<Longrightarrow> inventory_name (JStr n) = Inr n"
  by (auto simp: inventory_name_def good_name_def flat_name_path) (simp_all add: flat_name_def)

lemma inventory_names_good:
  assumes "\<forall>f \<in> set fs. good_name (fst f)" and "distinct (map fst fs)" and "set (map fst fs) \<inter> set seen = {}"
  shows "inventory_names ''manifest.json'' seen (map JObj (map (entry_of sha) fs)) = Inr (map fst fs)"
  using assms
proof (induction fs arbitrary: seen)
  case (Cons f fs)
  then have "inventory_names ''manifest.json'' (fst f # seen) (map JObj (map (entry_of sha) fs)) = Inr (map fst fs)"
    by (intro Cons.IH) auto
  with Cons.prems show ?case by (auto simp: inventory_name_good) (simp_all add: good_name_def)
qed simp

lemma capture_whole:
  assumes "require ctx ''workspace_read'' = Inr ()" and "0 < remaining_files b" and "open_regular d n = Inr c"
    and "int (length c) \<le> remaining_bytes b"
  shows "capture n d ctx b = Inr (c, b\<lparr>remaining_bytes := remaining_bytes b - int (length c),
    remaining_files := remaining_files b - 1\<rparr>)"
  using assms by (simp add: capture_def refused_def Let_def)

lemma capture_all_whole:
  assumes "require ctx ''workspace_read'' = Inr ()" and "\<forall>(n, c) \<in> set fs. open_regular d n = Inr c"
    and "captured_size fs \<le> remaining_bytes b" and "int (length fs) \<le> remaining_files b"
  shows "\<exists>b'. capture_all (map fst fs) d ctx b = Inr (fs, b')"
  using assms(2-)
proof (induction fs arbitrary: b)
  case (Cons f fs)
  have "0 \<le> captured_size fs" by (induction fs) (simp_all add: captured_size_def)
  with Cons.prems capture_whole[OF assms(1), of b d "fst f" "snd f"]
  have one: "capture (fst f) d ctx b = Inr (snd f, b\<lparr>remaining_bytes := remaining_bytes b - int (length (snd f)),
      remaining_files := remaining_files b - 1\<rparr>)" by (auto simp: captured_size_def)
  with Cons.IH[of "b\<lparr>remaining_bytes := remaining_bytes b - int (length (snd f)),
      remaining_files := remaining_files b - 1\<rparr>"] Cons.prems
  show ?case by (auto simp: captured_size_def)
qed simp

lemma linked_cong:
  assumes "\<And>d. d \<in> set ds \<Longrightarrow> read' (get_field ''path'' d) = read (get_field ''path'' d)"
    and "linked loads read r first previous ds"
  shows "linked loads read' r first previous ds"
  using assms by (induction ds arbitrary: first previous) (auto simp: link_def)

lemma validate_captured_cong:
  assumes "validate_captured loads sha repr describe manifest read = Inr (Run_valid r t)"
    and "\<And>d. d \<in> set (inventory manifest) \<Longrightarrow> read' (get_field ''path'' d) = read (get_field ''path'' d)"
  shows "validate_captured loads sha repr describe manifest read' = Inr (Run_valid r t)"
proof -
  have "entries_ok sha repr read [] (inventory manifest) \<Longrightarrow> entries_ok sha repr read' [] (inventory manifest)"
    using assms(2) by (auto simp: entries_ok_iff artifact_ok_def)
  with assms linked_cong[of "inventory manifest" read' read] show ?thesis unfolding validate_captured_valid by blast
qed
text \<open>The bytes of a run that the ledger has published are accepted when they were captured.\<close>

lemma ledger_captured:
  assumes "ledger_ok loads sha r n L" and "\<And>x. is_hex 64 (sha x)"
    and "m = manifest_payload r now (ledger_artifacts L) terminal" and "reads_back loads m"
  shows "validate_captured loads sha repr describe (sort_keys (JObj m)) (captured_reader (ledger_files L))
    = Inr (Run_valid r (object_of (sort_keys (JObj terminal))))"
proof -
  let ?fs = "ledger_files L @ [(''manifest.json'', dumps_indent m)]"
  have L: "ledger_artifacts L = map (entry_of sha) (ledger_files L)" "distinct (map fst (ledger_files L))"
    "\<forall>f \<in> set (ledger_files L). flat_name (fst f)" using assms(1) by (auto simp: ledger_ok_def)
  have none: "map_of (ledger_files L) ''manifest.json'' = None"
    using assms(1) fixed_names(2) by (fastforce simp: ledger_ok_def map_of_eq_None_iff)
  from commit_ok[OF assms(1,2) assms(4)[unfolded assms(3)], of repr describe] have
    "validate_run loads sha repr describe ?fs = Inr (Run_valid r (object_of (sort_keys (JObj terminal))))"
    by (auto simp: assms(3) simp del: sort_keys.simps)
  then have "validate_captured loads sha repr describe (sort_keys (JObj m)) (read_files ?fs)
      = Inr (Run_valid r (object_of (sort_keys (JObj terminal))))"
    using none assms(4) by (simp add: validate_run_def reads_back_def map_add_def del: sort_keys.simps)
  then show ?thesis
  proof (rule validate_captured_cong)
    fix d assume "d \<in> set (inventory (sort_keys (JObj m)))"
    then obtain f where f: "f \<in> set (ledger_files L)" "d = entry_of sha f"
      using manifest_fields(5)[OF assms(3)[unfolded L(1)]] by auto
    with L(2,3) have "map_of (ledger_files L) (fst f) = Some (snd f)" "flat_name (fst f)" by auto
    moreover from this none have "fst f \<noteq> ''manifest.json''" by auto
    ultimately show "captured_reader (ledger_files L) (get_field ''path'' d) = read_files ?fs (get_field ''path'' d)"
      by (simp add: f(2) read_flat map_add_def del: read_files.simps)
  qed
qed

text \<open>Steps of an inspection that succeed.\<close>

lemmas inspection_steps = bind_run_def handle_run_def pure_run_def ret_def put_def budgeted_def

lemma capture_manifest_whole:
  assumes "input_path expand (ev_manifest q) ctx = Inr (path, rel)" and "input_directory root (butlast rel) = Inr directory"
    and "capture (last rel) directory ctx (snd st) = Inr (content, b)" and "ev_source q = None"
    and "ev_expected q \<in> {None, Some (sha content)}" and "decode_evidence lib content = Inr manifest"
  shows "\<exists>d. capture_manifest lib sha expand root q ctx st = (Inr (last rel, directory, manifest), (d, b))"
  using assms by (auto simp: capture_manifest_def check_expected_def Let_def inspection_steps)

lemma inspect_artifacts_whole:
  assumes "is_object manifest" and "get_field ''schema'' (object_of manifest) = JStr ''formalspecgen-evidence-manifest-v1''"
    and "list_of (get_field ''artifacts'' (object_of manifest)) = items" and "items \<noteq> []"
    and "int (length items) \<le> remaining_files (snd st)" and "inventory_names name [] items = Inr names"
    and "capture_all names directory ctx (snd st) = Inr (captured, b)"
    and "validate_captured (lib plain_object) sha repr describe manifest (captured_reader captured) = Inr (Run_valid r t)"
    and "\<forall>f \<in> set captured. \<exists>j. decode_evidence lib (snd f) = Inr j"
  shows "\<exists>d. inspect_artifacts lib sha repr describe ctx name directory manifest st = (Inr (captured, Run_valid r t), (d, b)) \<and>
    get_field ''request_satisfied'' d = JBool True \<and> get_field ''status'' d = JStr ''EVIDENCE_VALID''"
proof -
  have "for_each (\<lambda>(_, content). and_then (decode_evidence lib content) (\<lambda>_. Inr ())) captured = Inr ()"
    using assms(9) by fastforce
  with assms(1-8) show ?thesis
    by (simp add: inspect_artifacts_def Let_def inspection_steps is_valid_def del: for_each_Inr_iff)
qed

lemma inspect_ledger:
  assumes "ledger_ok (lib plain_object) sha r n L" and "\<And>x. is_hex 64 (sha x)"
    and "m = manifest_payload r now (ledger_artifacts L) terminal" and "reads_back (lib plain_object) m"
    and "reads_back (decode_evidence lib) m"
    and "\<forall>f \<in> set (ledger_files L). good_name (fst f) \<and> (\<exists>j. decode_evidence lib (snd f) = Inr j)"
    and "input_path expand (ev_manifest q) ctx = Inr (path, rel)" and "last rel = ''manifest.json''"
    and "input_directory root (butlast rel) = Inr directory"
    and "directory = map (\<lambda>(n, c). (n, Regular_file c)) (ledger_files L @ [(''manifest.json'', dumps_indent m)])"
    and "ev_operation q = ''validate''" and "ev_source q = None" and "ev_expected q \<in> {None, Some (sha (dumps_indent m))}"
    and "captured_size (ledger_files L) + int (length (dumps_indent m)) \<le> remaining_bytes budget"
    and "int (length (ledger_files L)) + 1 \<le> remaining_files budget"
  shows "\<exists>d b. inspect_one lib sha repr describe expand root q ctx budget = Inr (d, b) \<and> satisfied d \<and>
    get_field ''status'' d = JStr ''EVIDENCE_VALID'' \<and> get_field ''recorded_terminal'' d = sort_keys (JObj terminal)"
proof -
  let ?fs = "ledger_files L" and ?t = "object_of (sort_keys (JObj terminal))" and ?M = "sort_keys (JObj m)"
  have L: "ledger_artifacts L = map (entry_of sha) ?fs" "distinct (map fst ?fs)" "?fs \<noteq> []"
    using assms(1) by (auto simp: ledger_ok_def)
  have req: "require ctx ''workspace_read'' = Inr ()" using input_pathD(4)[OF assms(7)] .
  have regular: "open_regular directory n = Inr c" if "map_of (?fs @ [(''manifest.json'', dumps_indent m)]) n = Some c"
    and "CHR 0x00 \<notin> set n" for n c
  proof -
    have "map_of directory n = map_option Regular_file (map_of (?fs @ [(''manifest.json'', dumps_indent m)]) n)"
      unfolding assms(10) map_of_map comp_def ..
    with that show ?thesis by (simp add: open_regular_def)
  qed
  have none: "map_of ?fs ''manifest.json'' = None"
    using assms(6) by (force simp: good_name_def map_of_eq_None_iff)
  have sizes: "0 \<le> captured_size ?fs" by (auto simp: captured_size_def intro!: sum_list_nonneg)
  have one: "capture (last rel) directory ctx budget = Inr (dumps_indent m, budget\<lparr>remaining_bytes :=
      remaining_bytes budget - int (length (dumps_indent m)), remaining_files := remaining_files budget - 1\<rparr>)"
    (is "_ = Inr (_, ?b1)")
    using none assms(8,14,15) sizes by (intro capture_whole[OF req] regular) (auto simp: map_add_def)
  have "\<forall>(n, c) \<in> set ?fs. open_regular directory n = Inr c"
  proof clarify
    fix n c assume "(n, c) \<in> set ?fs"
    with L(2) assms(6) none show "open_regular directory n = Inr c"
      by (intro regular) (auto simp: map_add_def good_name_def flat_name_def)
  qed
  from capture_all_whole[OF req this, of ?b1] obtain b2 where
    more: "capture_all (map fst ?fs) directory ctx ?b1 = Inr (?fs, b2)" using assms(14,15) by auto
  from capture_manifest_whole[OF assms(7,9), of "(initial_result q, budget)" "dumps_indent m" ?b1 sha lib ?M] one assms(5,12,13)
  obtain d1 where m1: "capture_manifest lib sha expand root q ctx (initial_result q, budget)
      = (Inr (''manifest.json'', directory, ?M), (d1, ?b1))"
    by (auto simp: reads_back_def assms(8) simp del: sort_keys.simps)
  note fields = manifest_fields[OF assms(3)[unfolded L(1)]]
  from inspect_artifacts_whole[of ?M "map JObj (map (entry_of sha) ?fs)" "(d1, ?b1)" "''manifest.json''" "map fst ?fs"
      directory ctx ?fs b2 lib sha repr describe r ?t]
  obtain d2 where m2: "inspect_artifacts lib sha repr describe ctx ''manifest.json'' directory ?M (d1, ?b1)
      = (Inr (?fs, Run_valid r ?t), (d2, b2))" "get_field ''request_satisfied'' d2 = JBool True"
      "get_field ''status'' d2 = JStr ''EVIDENCE_VALID''"
    using fields L assms(6,15) more inventory_names_good[of ?fs "[]" sha] ledger_captured[OF assms(1-4), of repr describe]
    by (auto simp: is_object_def simp del: map_map)
  let ?d = "AList.update ''recorded_terminal'' (JObj ?t) d2"
  have "inspect_body lib sha repr describe expand root q ctx (initial_result q, budget) = (Inr (), (?d, b2))"
    unfolding inspect_body_def inspect_terminal_def using m1 m2(1) assms(11,12) by (simp add: inspection_steps)
  then have "inspect_one lib sha repr describe expand root q ctx budget = Inr (?d, b2)" by (simp add: inspect_one_def)
  moreover have "JObj ?t = sort_keys (JObj terminal)" by simp
  ultimately show ?thesis using m2 by (simp add: satisfied_def del: sort_keys.simps)
qed

lemma published_run:
  assumes "\<And>x. is_hex 64 (sha x)"
    and "\<forall>p \<in> set (m # map snd (run_log sha run_id now ss)). reads_back (lib plain_object) p \<and> reads_back (decode_evidence lib) p"
    and "m = manifest_payload run_id committed (map (entry_of sha) (published (run_log sha run_id now ss))) terminal"
    and "files = published (run_log sha run_id now ss) @ [(''manifest.json'', dumps_indent m)]"
    and "input_path expand (ev_manifest q) ctx = Inr (path, rel)" and "last rel = ''manifest.json''"
    and "input_directory root (butlast rel) = Inr (map (\<lambda>(n, c). (n, Regular_file c)) files)"
    and "ev_operation q = ''validate''" and "ev_source q = None" and "ev_expected q \<in> {None, Some (sha (dumps_indent m))}"
    and "captured_size files \<le> remaining_bytes (evidence_budget ctx)"
    and "int (length files) \<le> remaining_files (evidence_budget ctx)"
  shows "\<exists>L d. evidence_run (lib plain_object) sha repr describe directory run_id now ss committed terminal = Inr L \<and>
    ledger_files L = files \<and> inspect_evidence lib sha repr describe expand root q ctx = Inr d \<and>
    satisfied d \<and> get_field ''status'' d = JStr ''EVIDENCE_VALID'' \<and>
    get_field ''recorded_terminal'' d = sort_keys (JObj terminal)"
proof -
  let ?log = "run_log sha run_id now ss"
  have rb: "\<forall>e \<in> set ?log. reads_back (lib plain_object) (snd e)" "reads_back (lib plain_object) m"
    "reads_back (decode_evidence lib) m" using assms(2) by auto
  from committed_run[OF assms(1) rb(1) assms(3) rb(2), of repr describe directory] obtain L' where L':
    "evidence_run (lib plain_object) sha repr describe directory run_id now ss committed terminal = Inr L'"
    "ledger_files L' = files" by (auto simp: assms(4))
  from recorded_run[OF rb(1), of directory] obtain L where
    L: "ledger_ok (lib plain_object) sha run_id (length ss) L" "ledger_files L = published ?log" by blast
  have m: "m = manifest_payload run_id committed (ledger_artifacts L) terminal"
    using L assms(3) by (simp add: ledger_ok_def)
  have good: "\<forall>f \<in> set (ledger_files L). good_name (fst f) \<and> (\<exists>j. decode_evidence lib (snd f) = Inr j)"
    using assms(2) good_log_names[of _ sha run_id now ss] by (fastforce simp: L(2) published_def reads_back_def)
  have sizes: "captured_size (ledger_files L) + int (length (dumps_indent m)) \<le> remaining_bytes (evidence_budget ctx)"
    "int (length (ledger_files L)) + 1 \<le> remaining_files (evidence_budget ctx)"
    using assms(11,12) by (auto simp: assms(4) L(2) captured_size_def)
  from inspect_ledger[OF L(1) assms(1) m rb(2,3) good assms(5-7) _ assms(8-10) sizes] obtain d b where
    "inspect_one lib sha repr describe expand root q ctx (evidence_budget ctx) = Inr (d, b)" "satisfied d"
    "get_field ''status'' d = JStr ''EVIDENCE_VALID''" "get_field ''recorded_terminal'' d = sort_keys (JObj terminal)"
    unfolding assms(4) L(2) by blast
  with L' assms(8) show ?thesis by (simp add: inspect_evidence_def Let_def)
qed

text \<open>C36: publication and inspection agree: when a workspace directory holds exactly what a run published through
  the ledger, decoding gives back what was published, and the budget covers the files, then validating the manifest
  (with its digest or without) succeeds, and shows the terminal record that was committed.\<close>

theorem published_run_is_accepted:
  assumes "\<And>x. is_hex 64 (sha x)"
    and "\<forall>p \<in> set (m # map snd (run_log sha run_id now ss)). reads_back (lib plain_object) p \<and> reads_back (decode_evidence lib) p"
    and "m = manifest_payload run_id committed (map (entry_of sha) (published (run_log sha run_id now ss))) terminal"
    and "files = published (run_log sha run_id now ss) @ [(''manifest.json'', dumps_indent m)]"
    and "input_path expand (ev_manifest q) ctx = Inr (path, rel)" and "last rel = ''manifest.json''"
    and "input_directory root (butlast rel) = Inr (map (\<lambda>(n, c). (n, Regular_file c)) files)"
    and "ev_operation q = ''validate''" and "ev_source q = None" and "ev_expected q \<in> {None, Some (sha (dumps_indent m))}"
    and "captured_size files \<le> remaining_bytes (evidence_budget ctx)"
    and "int (length files) \<le> remaining_files (evidence_budget ctx)"
  shows "\<exists>L d. evidence_run (lib plain_object) sha repr describe directory run_id now ss committed terminal = Inr L \<and>
    ledger_files L = files \<and> inspect_evidence lib sha repr describe expand root q ctx = Inr d \<and>
    satisfied d \<and> get_field ''status'' d = JStr ''EVIDENCE_VALID'' \<and>
    get_field ''recorded_terminal'' d = sort_keys (JObj terminal)"
  using assms by (rule published_run)

text \<open>A library that decodes the sample run and hands its objects to the hook.\<close>

definition sample_library :: json_library where
  "sample_library hook b = and_then (sample_decoder b) (\<lambda>j. hook (object_of j))"

lemma update_fields_distinct:
  "distinct (map fst d @ map fst e) \<Longrightarrow> update_fields d e = d @ e"
proof (induction d e rule: update_fields.induct)
  case (2 d k v kvs)
  have "AList.update k v xs = xs @ [(k, v)]" if "k \<notin> fst ` set xs" for xs using that by (induction xs) auto
  with 2(2) have "AList.update k v d = d @ [(k, v)]" by auto
  with 2 show ?case by simp
qed simp

definition sample_files :: "(string \<times> string) list" where
  "sample_files = published sample_log @ [(''manifest.json'', dumps_indent sample_manifest)]"

definition sample_root :: fs_node where
  "sample_root = Directory [(''e'', Directory (map (\<lambda>(n, c). (n, Regular_file c)) sample_files))]"

definition sample_context :: workflow_context where
  "sample_context = evidence_context\<lparr>resource_budget := [(''max_input_bytes'', captured_size sample_files)]\<rparr>"

lemma distinct_sort_keys: "distinct (map fst p) \<Longrightarrow> distinct (map fst (object_of (sort_keys (JObj p))))"
proof -
  have "map fst (map (\<lambda>(k, v). (k, sort_keys v)) p) = map fst p" by auto
  moreover have "distinct (map fst (sort_key fst xs)) = distinct (map fst xs)" for xs :: dict
    using card_distinct distinct_card by (metis length_map length_sort set_map set_sort)
  ultimately show "distinct (map fst p) \<Longrightarrow> ?thesis" by (simp del: map_map)
qed

lemma sample_library_reads_back:
  assumes "p \<in> set (sample_manifest # map snd sample_log)"
  shows "reads_back (sample_library plain_object) p \<and> reads_back (decode_evidence sample_library) p"
proof -
  have "distinct (map fst p)"
    using assms by (auto simp: sample_log_def run_log_def run_payload_def record_payload_def Let_def
        sample_manifest_def manifest_payload_def)
  then have d: "distinct (map fst (object_of (sort_keys (JObj p))))" by (rule distinct_sort_keys)
  have "sample_decoder (dumps_indent p) = Inr (sort_keys (JObj p))"
    using decode_from_reads_back[OF assms] by (simp add: reads_back_def sample_decoder_def)
  with d update_fields_distinct[of "[]" "object_of (sort_keys (JObj p))"] show ?thesis
    by (simp add: reads_back_def sample_library_def decode_evidence_def plain_object_def unique_fields_def)
qed
lemma sample_input_path:
  "input_path Inr (ev_manifest (validation_request ''e/manifest.json'' None)) sample_context
     = Inr (''/w/e/manifest.json'', [''e'', ''manifest.json''])"
proof -
  have "input_path Inr ''e/manifest.json'' (evidence_context\<lparr>resource_budget := [(''max_input_bytes'', n)]\<rparr>)
      = Inr (''/w/e/manifest.json'', [''e'', ''manifest.json''])" for n by code_simp
  then show ?thesis by (simp add: validation_request_def sample_context_def)
qed

lemma sample_workspace:
  "\<forall>p \<in> set (sample_manifest # map snd (run_log zero_sha ''r'' ''t0'' [proof_step])).
     reads_back (sample_library plain_object) p \<and> reads_back (decode_evidence sample_library) p"
  "sample_files = published (run_log zero_sha ''r'' ''t0'' [proof_step]) @ [(''manifest.json'', dumps_indent sample_manifest)]"
  "last [''e'', ''manifest.json''] = ''manifest.json''"
  "input_directory sample_root (butlast [''e'', ''manifest.json'']) = Inr (map (\<lambda>(n, c). (n, Regular_file c)) sample_files)"
  "ev_operation (validation_request ''e/manifest.json'' None) = ''validate''"
  "ev_source (validation_request ''e/manifest.json'' None) = None"
  "ev_expected (validation_request ''e/manifest.json'' None) \<in> {None, Some (zero_sha (dumps_indent sample_manifest))}"
  "captured_size sample_files \<le> remaining_bytes (evidence_budget sample_context)"
  "int (length sample_files) \<le> remaining_files (evidence_budget sample_context)"
  using sample_library_reads_back
  by (auto simp: sample_log_def sample_files_def sample_root_def validation_request_def evidence_budget_def
      sample_context_def budget_get_def published_def run_log_def Let_def)

lemma published_run_is_accepted_witness:
  "\<exists>L d. evidence_run (sample_library plain_object) zero_sha (\<lambda>_. []) (\<lambda>_. []) ''e'' ''r'' ''t0'' [proof_step] ''t3'' [] = Inr L \<and>
    ledger_files L = sample_files \<and>
    inspect_evidence sample_library zero_sha (\<lambda>_. []) (\<lambda>_. []) Inr sample_root (validation_request ''e/manifest.json'' None)
      sample_context = Inr d \<and> satisfied d"
  using published_run_is_accepted[OF zero_sha_hex sample_workspace(1) sample_manifest_run sample_workspace(2) sample_input_path
      sample_workspace(3-9), of "\<lambda>_. []" "\<lambda>_. []" "''e''"]
  by blast

lemma satisfied_request_is_grounded_witness:
  "\<exists>d after. inspect_evidence sample_library zero_sha (\<lambda>_. []) (\<lambda>_. []) Inr sample_root
      (validation_request ''e/manifest.json'' None) sample_context = Inr d \<and>
    grounded sample_library zero_sha (\<lambda>_. []) (\<lambda>_. []) Inr sample_root
      (validation_request ''e/manifest.json'' None) sample_context (evidence_budget sample_context) after d"
proof -
  obtain d where d: "inspect_evidence sample_library zero_sha (\<lambda>_. []) (\<lambda>_. []) Inr sample_root
      (validation_request ''e/manifest.json'' None) sample_context = Inr d" "satisfied d"
    using published_run[OF zero_sha_hex sample_workspace(1) sample_manifest_run sample_workspace(2) sample_input_path
        sample_workspace(3-9), of "\<lambda>_. []" "\<lambda>_. []" "''e''"] by blast
  have "0 \<le> captured_size sample_files" by (auto simp: captured_size_def intro!: sum_list_nonneg)
  then have "0 \<le> budget_get ''max_input_bytes'' 8388608 (resource_budget sample_context)"
    by (simp add: sample_context_def budget_get_def)
  from satisfied_request_is_grounded[OF d this] d(1) show ?thesis by (auto simp: sample_workspace(5))
qed

end
