(* ===== verification/Verification_Policy.thy ===== *)
theory Verification_Policy
  imports Json Py_String
begin

text \<open>
  The decision from observations of a verifier to a claim, \<^verbatim>\<open>pipeline/verification_policy.py\<close>
  (with \<^verbatim>\<open>classify\<close> and \<^verbatim>\<open>has_dropped_vc\<close> of
  \<^verbatim>\<open>pipeline/verify.py\<close>).  A result is the dictionary of a backend; the decision overwrites
  its fields in it.
\<close>

section \<open>Reading a result\<close>

definition contains :: "string \<Rightarrow> string \<Rightarrow> bool" where
  "contains p s \<longleftrightarrow> list_ex (starts_with p) (map (\<lambda>i. drop i s) [0..<length s + 1])"

definition digit_value :: "char \<Rightarrow> nat" where
  "digit_value c = of_char c - 48"

text \<open>\<open>int(s)\<close>: blanks around, a sign, digits with single underscores between them.\<close>

fun more_digits :: "nat \<Rightarrow> string \<Rightarrow> nat option" where
  "more_digits n [] = Some n"
| "more_digits n [c] = (if is_digit c then Some (10 * n + digit_value c) else None)"
| "more_digits n (c # d # ds) =
     (if is_digit c then more_digits (10 * n + digit_value c) (d # ds)
      else if c = CHR ''_'' \<and> is_digit d then more_digits (10 * n + digit_value d) ds
      else None)"

definition unsigned :: "string \<Rightarrow> nat option" where
  "unsigned s = (case s of [] \<Rightarrow> None | c # cs \<Rightarrow> if is_digit c then more_digits 0 s else None)"

definition int_of_string :: "string \<Rightarrow> int option" where
  "int_of_string s = (let t = str_strip s in
     if starts_with ''-'' t then map_option (\<lambda>n. - int n) (unsigned (tl t))
     else if starts_with ''+'' t then map_option int (unsigned (tl t))
     else map_option int (unsigned t))"

fun py_int :: "json \<Rightarrow> service_error + int" where
  "py_int (JInt i) = Inr i"
| "py_int (JBool b) = Inr (if b then 1 else 0)"
| "py_int (JStr s) = (case int_of_string s of None \<Rightarrow> Inl (PyValueError s) | Some i \<Rightarrow> Inr i)"
| "py_int _ = Inl PyTypeError"

text \<open>Equality of values: \<open>True == 1\<close>, and the order of keys does not matter.\<close>

fun plain_numbers :: "json \<Rightarrow> json" where
  "plain_numbers (JBool b) = JInt (if b then 1 else 0)"
| "plain_numbers (JArr xs) = JArr (map plain_numbers xs)"
| "plain_numbers (JObj d) = JObj (map (\<lambda>(k, v). (k, plain_numbers v)) d)"
| "plain_numbers j = j"

definition json_eq :: "json \<Rightarrow> json \<Rightarrow> bool" where
  "json_eq a b \<longleftrightarrow> sort_keys (plain_numbers a) = sort_keys (plain_numbers b)"

section \<open>Observations and decisions\<close>

definition classify :: "int \<Rightarrow> string" where
  "classify code = (if code = 0 then ''VERIFIED'' else if code = 6 then ''VERIFY_FAILED''
     else if code = 1 then ''COMPILE_FAILED'' else if code = 124 then ''TIMEOUT''
     else if code = 125 then ''TOOL_ERROR'' else if code = 127 then ''TOOL_MISSING''
     else ''UNKNOWN_EXIT_'' @ str_of_int code)"

definition has_dropped_vc :: "string \<Rightarrow> bool" where
  "has_dropped_vc s \<longleftrightarrow> list_ex (\<lambda>marker. contains marker s)
     [''Not yet supported feature'', ''Not implemented for static checking'']"

definition proof_claim :: "(string \<times> string) list" where
  "proof_claim = [(''openjml'', ''DEDUCTIVE_PROOF''), (''frama-c'', ''DEDUCTIVE_PROOF''), (''prusti'', ''DEDUCTIVE_PROOF''),
     (''kani'', ''BOUNDED_EVIDENCE''), (''esbmc'', ''BOUNDED_CPP_PROOF'')]"

definition non_proof_success :: "string \<Rightarrow> string list" where
  "non_proof_success mode =
     (if mode = ''parse'' then [''VERIFIED'', ''PARSED'']
      else if mode = ''check'' then [''VERIFIED'', ''STATIC_CHECKED'', ''RUST_CHECKED'', ''C_CHECKED'']
      else if mode = ''compile'' then [''COMPILED'', ''STATIC_CHECKED'', ''RUST_CHECKED'', ''C_CHECKED'']
      else [])"

record observations =
  obs_tool :: string
  obs_mode :: string
  obs_exit_code :: int
  obs_output :: string
  obs_status :: "string option"
  obs_claim :: "string option"
  obs_proved :: "int option"
  obs_total :: "int option"
  obs_dropped :: "bool option"
  obs_complete :: "bool option"
  obs_satisfied :: "bool option"
  obs_tool_completed :: "bool option"
  obs_consistent :: "bool option"

record decision =
  dec_tool :: string
  dec_mode :: string
  dec_exit_code :: int
  dec_tool_completed :: bool
  dec_verification :: string
  dec_claim :: string
  dec_satisfied :: bool
  dec_dropped :: bool
  dec_complete :: "bool option"
  dec_consistent :: bool
  dec_contradictions :: "string list"

definition optional_bool :: "bool option \<Rightarrow> json" where
  "optional_bool b = (case b of None \<Rightarrow> JNull | Some b \<Rightarrow> JBool b)"

definition decision_dict :: "decision \<Rightarrow> dict" where
  "decision_dict d = [(''tool'', JStr (dec_tool d)), (''mode'', JStr (dec_mode d)), (''tool_exit_code'', JInt (dec_exit_code d)),
     (''tool_completed'', JBool (dec_tool_completed d)), (''verification'', JStr (dec_verification d)),
     (''status'', JStr (dec_verification d)), (''claim'', JStr (dec_claim d)), (''request_satisfied'', JBool (dec_satisfied d)),
     (''dropped_obligations'', JBool (dec_dropped d)), (''obligations_complete'', optional_bool (dec_complete d)),
     (''evidence_consistent'', JBool (dec_consistent d)), (''contradictions'', jstrings (dec_contradictions d))]"

section \<open>The decision\<close>

text \<open>The counts decide completeness when at least one of them is given.\<close>

definition counted_complete :: "observations \<Rightarrow> bool option" where
  "counted_complete obs = (case (obs_proved obs, obs_total obs) of
     (None, None) \<Rightarrow> None
   | (Some p, Some t) \<Rightarrow> Some (0 < t \<and> p = t)
   | _ \<Rightarrow> Some False)"

definition decided_complete :: "observations \<Rightarrow> bool option" where
  "decided_complete obs = (if obs_complete obs = Some False then Some False
     else case counted_complete obs of Some b \<Rightarrow> Some b | None \<Rightarrow> obs_complete obs)"

definition marker_dropped :: "observations \<Rightarrow> bool" where
  "marker_dropped obs \<longleftrightarrow> obs_tool obs = ''openjml'' \<and> has_dropped_vc (obs_output obs)"

definition contradictions :: "observations \<Rightarrow> string list" where
  "contradictions obs =
     (if obs_tool_completed obs = Some True \<and> obs_exit_code obs \<noteq> 0
        then [''tool_completed conflicts with tool_exit_code''] else []) @
     (if obs_complete obs = Some True \<and> counted_complete obs = Some False
        then [''obligations_complete conflicts with obligation counts''] else []) @
     (if marker_dropped obs \<and> obs_dropped obs = Some False
        then [''dropped_obligations conflicts with verifier output''] else []) @
     (if obs_consistent obs = Some False then [''prior normalization marked evidence inconsistent''] else [])"

definition tool_completed :: "observations \<Rightarrow> bool" where
  "tool_completed obs \<longleftrightarrow> obs_exit_code obs = 0 \<and> obs_tool_completed obs \<noteq> Some False"

definition dropped :: "observations \<Rightarrow> bool" where
  "dropped obs \<longleftrightarrow> marker_dropped obs \<or> obs_dropped obs = Some True"

definition reported_status :: "observations \<Rightarrow> string" where
  "reported_status obs = (case obs_status obs of None \<Rightarrow> classify (obs_exit_code obs)
     | Some s \<Rightarrow> if s = [] then classify (obs_exit_code obs) else s)"

definition semantic_status :: "observations \<Rightarrow> string" where
  "semantic_status obs = (if obs_mode obs = ''esc'' \<and> dropped obs \<and> reported_status obs = ''VERIFIED''
     then ''VACUOUS_VERIFIED'' else reported_status obs)"

definition decided :: "observations \<Rightarrow> bool" where
  "decided obs \<longleftrightarrow> tool_completed obs \<and> contradictions obs = [] \<and> obs_satisfied obs \<noteq> Some False \<and>
     (if obs_mode obs = ''esc''
      then semantic_status obs = ''VERIFIED'' \<and> decided_complete obs \<noteq> Some False \<and> \<not> dropped obs \<and>
        map_of proof_claim (obs_tool obs) \<noteq> None
      else semantic_status obs \<in> set (non_proof_success (obs_mode obs)))"

definition decided_claim :: "observations \<Rightarrow> string" where
  "decided_claim obs = (if \<not> decided obs then ''NO_PROOF''
     else if obs_mode obs = ''esc'' then the (map_of proof_claim (obs_tool obs))
     else if obs_mode obs \<in> {''check'', ''compile''} then ''STATIC_CHECK'' else ''NO_PROOF'')"

text \<open>A backend may disclaim a proof.  The observations are given with tool and mode stripped and in lower case.\<close>

definition disclaimed :: "observations \<Rightarrow> bool" where
  "disclaimed obs \<longleftrightarrow> decided obs \<and> obs_claim obs = Some ''NO_PROOF'' \<and> obs_mode obs = ''esc''"

definition decide_verification :: "observations \<Rightarrow> decision" where
  "decide_verification obs =
     \<lparr>dec_tool = obs_tool obs, dec_mode = obs_mode obs, dec_exit_code = obs_exit_code obs,
      dec_tool_completed = tool_completed obs, dec_verification = semantic_status obs,
      dec_claim = (if disclaimed obs then ''NO_PROOF'' else decided_claim obs),
      dec_satisfied = (decided obs \<and> \<not> disclaimed obs), dec_dropped = dropped obs, dec_complete = decided_complete obs,
      dec_consistent = (contradictions obs = []), dec_contradictions = contradictions obs\<rparr>"

section \<open>Normalising a result\<close>

definition bool_field :: "dict \<Rightarrow> string \<Rightarrow> bool option" where
  "bool_field r k = (case get_field k r of JBool b \<Rightarrow> Some b | _ \<Rightarrow> None)"

definition optional_int :: "json \<Rightarrow> service_error + int option" where
  "optional_int j = (if j = JNull then Inr None else and_then (py_int j) (\<lambda>i. Inr (Some i)))"

definition optional_str :: "(json \<Rightarrow> string) \<Rightarrow> json \<Rightarrow> string option" where
  "optional_str repr j = (if j = JNull then None else Some (py_str repr j))"

definition conflicting_fields :: "dict \<Rightarrow> string \<Rightarrow> string \<Rightarrow> bool" where
  "conflicting_fields r left right \<longleftrightarrow> map_of r left \<noteq> None \<and> map_of r right \<noteq> None \<and>
     \<not> json_eq (get_field left r) (get_field right r)"

definition first_true :: "json list \<Rightarrow> json" where
  "first_true js = (case filter json_true js of [] \<Rightarrow> last js | j # _ \<Rightarrow> j)"

definition read_observations :: "(json \<Rightarrow> string) \<Rightarrow> string \<Rightarrow> string \<Rightarrow> dict \<Rightarrow> service_error + observations" where
  "read_observations repr tool mode r =
     and_then (py_int (get_default ''tool_exit_code'' (get_default ''exit_code'' (JInt 1) r) r)) (\<lambda>code.
     and_then (optional_int (get_field ''proved_goals'' r)) (\<lambda>proved.
     and_then (optional_int (get_field ''total_goals'' r)) (\<lambda>total.
     Inr \<lparr>obs_tool = str_lower (str_strip tool), obs_mode = str_lower (str_strip mode), obs_exit_code = code,
       obs_output = py_str repr (first_true [get_field ''output'' r, get_field ''message'' r, JStr []]),
       obs_status = optional_str repr (get_default ''verification'' (get_field ''status'' r) r),
       obs_claim = optional_str repr (get_field ''claim'' r), obs_proved = proved, obs_total = total,
       obs_dropped = bool_field r ''dropped_obligations'', obs_complete = bool_field r ''obligations_complete'',
       obs_satisfied = bool_field r ''request_satisfied'', obs_tool_completed = bool_field r ''tool_completed'',
       obs_consistent = (if conflicting_fields r ''status'' ''verification'' \<or> conflicting_fields r ''exit_code'' ''tool_exit_code''
         then Some False else bool_field r ''evidence_consistent'')\<rparr>)))"

definition decide_result :: "(json \<Rightarrow> string) \<Rightarrow> string \<Rightarrow> string \<Rightarrow> dict \<Rightarrow> service_error + dict" where
  "decide_result repr tool mode r =
     and_then (read_observations repr tool mode r) (\<lambda>obs. Inr (update_fields r (decision_dict (decide_verification obs))))"

section \<open>Claims are justified, and never strengthened\<close>

lemma contradictions_Nil: "contradictions obs = [] \<longleftrightarrow>
    \<not> (obs_tool_completed obs = Some True \<and> obs_exit_code obs \<noteq> 0) \<and>
    \<not> (obs_complete obs = Some True \<and> counted_complete obs = Some False) \<and>
    \<not> (marker_dropped obs \<and> obs_dropped obs = Some False) \<and> obs_consistent obs \<noteq> Some False"
  by (simp add: contradictions_def)

lemma map_of_decided:
  "map_of (update_fields r (decision_dict d)) k = (case map_of (decision_dict d) k of None \<Rightarrow> map_of r k | Some v \<Rightarrow> Some v)"
proof -
  have "distinct (map fst (decision_dict d))" "distinct (map fst (rev (decision_dict d)))" by (simp_all add: decision_dict_def)
  then have "map_of (rev (decision_dict d)) k = Some v \<longleftrightarrow> map_of (decision_dict d) k = Some v" for v
    by (simp only: map_of_eq_Some_iff set_rev)
  then have "map_of (rev (decision_dict d)) k = map_of (decision_dict d) k" by (metis option.exhaust)
  then show ?thesis by (simp add: map_of_update_fields map_add_def)
qed

lemma decided_lookup:
  "get_field k (update_fields r (decision_dict d)) = (case map_of (decision_dict d) k of None \<Rightarrow> get_field k r | Some v \<Rightarrow> v)"
  "get_default k w (update_fields r (decision_dict d)) = (case map_of (decision_dict d) k of None \<Rightarrow> get_default k w r | Some v \<Rightarrow> v)"
  by (simp_all add: get_field_def get_default_def map_of_decided split: option.splits)

definition claim_of :: "dict \<Rightarrow> json" where "claim_of d = get_field ''claim'' d"

definition is_satisfied :: "dict \<Rightarrow> bool" where "is_satisfied d \<longleftrightarrow> get_field ''request_satisfied'' d = JBool True"

lemma decision_fields [simp]:
  "claim_of (update_fields r (decision_dict d)) = JStr (dec_claim d)"
  "is_satisfied (update_fields r (decision_dict d)) = dec_satisfied d"
  by (simp_all add: claim_of_def is_satisfied_def decided_lookup) (simp_all add: decision_dict_def)

text \<open>C14: a claim is justified by every observation: a result that claims more than \<open>NO_PROOF\<close> is satisfied, its
  tool exited with 0 and nothing in the result contradicts it or was negative before; a proof claim is the one of
  the tool, for a verified status with no dropped condition and, if counts are known, all conditions proved; every
  other claim is \<open>STATIC_CHECK\<close> for a check or a compilation with a status of success.\<close>

theorem claims_are_justified:
  assumes "decide_result repr tool mode r = Inr d" and "claim_of d \<noteq> JStr ''NO_PROOF''"
  shows "\<exists>obs. read_observations repr tool mode r = Inr obs \<and> is_satisfied d \<and> obs_exit_code obs = 0 \<and>
    Some False \<notin> {obs_tool_completed obs, obs_satisfied obs, obs_consistent obs} \<and>
    (if obs_mode obs = ''esc''
     then \<exists>c. claim_of d = JStr c \<and> map_of proof_claim (obs_tool obs) = Some c \<and> obs_status obs \<in> {None, Some [], Some ''VERIFIED''} \<and>
       \<not> (obs_tool obs = ''openjml'' \<and> has_dropped_vc (obs_output obs)) \<and> obs_dropped obs \<noteq> Some True \<and>
       obs_complete obs \<noteq> Some False \<and> 
       (obs_proved obs = None \<and> obs_total obs = None \<or> (\<exists>n > 0. obs_proved obs = Some n \<and> obs_total obs = Some n))
     else claim_of d = JStr ''STATIC_CHECK'' \<and> obs_mode obs \<in> {''check'', ''compile''} \<and>
       (case obs_status obs of Some s \<Rightarrow> s = [] \<or> s \<in> set (non_proof_success (obs_mode obs)) | None \<Rightarrow> True))"
proof -
  obtain obs where obs: "read_observations repr tool mode r = Inr obs" "d = update_fields r (decision_dict (decide_verification obs))"
    using assms(1) by (auto simp: decide_result_def and_then_Inr_iff)
  with assms(2) have "\<not> disclaimed obs" "decided_claim obs \<noteq> ''NO_PROOF''"
    by (auto simp: decide_verification_def split: if_splits)
  then have d: "decided obs" "claim_of d = JStr (decided_claim obs)" "is_satisfied d"
    by (auto simp: obs(2) decide_verification_def decided_claim_def split: if_splits)
  then have common: "obs_exit_code obs = 0 \<and> Some False \<notin> {obs_tool_completed obs, obs_satisfied obs, obs_consistent obs}"
    by (auto simp: decided_def tool_completed_def contradictions_Nil)
  show ?thesis
  proof (cases "obs_mode obs = ''esc''")
    case True
    with d have p: "semantic_status obs = ''VERIFIED''" "decided_complete obs \<noteq> Some False" "\<not> dropped obs"
      "map_of proof_claim (obs_tool obs) = Some (decided_claim obs)"
      by (auto simp: decided_def decided_claim_def)
    then have "obs_complete obs \<noteq> Some False" "counted_complete obs \<noteq> Some False"
      by (auto simp: decided_complete_def split: if_splits option.splits)
    then have "obs_proved obs = None \<and> obs_total obs = None \<or> (\<exists>n > 0. obs_proved obs = Some n \<and> obs_total obs = Some n)"
      by (auto simp: counted_complete_def split: option.splits)
    moreover have "obs_status obs \<in> {None, Some [], Some ''VERIFIED''}"
      using p(1,3) by (auto simp: semantic_status_def reported_status_def split: option.splits if_splits)
    moreover have "\<not> (obs_tool obs = ''openjml'' \<and> has_dropped_vc (obs_output obs))" "obs_dropped obs \<noteq> Some True"
      using p(3) by (simp_all add: dropped_def marker_dropped_def)
    ultimately show ?thesis
      using True obs(1) d(2,3) common p(4) \<open>obs_complete obs \<noteq> Some False\<close> by (intro exI[of _ obs]) simp
  next
    case False
    with d \<open>decided_claim obs \<noteq> ''NO_PROOF''\<close>
    have "decided_claim obs = ''STATIC_CHECK''" "obs_mode obs \<in> {''check'', ''compile''}"
      "reported_status obs \<in> set (non_proof_success (obs_mode obs))"
      by (auto simp: decided_claim_def decided_def semantic_status_def split: if_splits)
    with False obs(1) d(2,3) common show ?thesis by (auto simp: reported_status_def split: option.splits if_splits)
  qed
qed

lemma json_eq_refl [simp]: "json_eq j j"
  by (simp add: json_eq_def)

definition exit_conflict :: "dict \<Rightarrow> int \<Rightarrow> bool" where
  "exit_conflict r code \<longleftrightarrow> map_of r ''exit_code'' \<noteq> None \<and> \<not> json_eq (get_field ''exit_code'' r) (JInt code)"

lemma read_again:
  assumes "read_observations repr tool mode r = Inr obs" and "dec = decide_verification obs"
  shows "read_observations repr tool' mode' (update_fields r (decision_dict dec)) = Inr (obs\<lparr>
    obs_tool := str_lower (str_strip tool'), obs_mode := str_lower (str_strip mode'),
    obs_status := Some (dec_verification dec), obs_claim := Some (dec_claim dec), obs_dropped := Some (dec_dropped dec),
    obs_complete := dec_complete dec, obs_satisfied := Some (dec_satisfied dec),
    obs_tool_completed := Some (dec_tool_completed dec),
    obs_consistent := (if exit_conflict r (dec_exit_code dec) then Some False else Some (dec_consistent dec))\<rparr>)"
proof -
  let ?d = "update_fields r (decision_dict dec)"
  have code: "dec_exit_code dec = obs_exit_code obs" by (simp add: assms(2) decide_verification_def)
  have same: "get_field ''output'' ?d = get_field ''output'' r" "get_field ''message'' ?d = get_field ''message'' r"
    "get_field ''exit_code'' ?d = get_field ''exit_code'' r" "get_field ''proved_goals'' ?d = get_field ''proved_goals'' r"
    "get_field ''total_goals'' ?d = get_field ''total_goals'' r"
    by (simp_all add: decided_lookup decision_dict_def)
  have set: "get_field ''status'' ?d = JStr (dec_verification dec)" "get_field ''verification'' ?d = JStr (dec_verification dec)"
    "get_field ''claim'' ?d = JStr (dec_claim dec)" "get_field ''tool_exit_code'' ?d = JInt (dec_exit_code dec)"
    "bool_field ?d ''dropped_obligations'' = Some (dec_dropped dec)" "bool_field ?d ''obligations_complete'' = dec_complete dec"
    "bool_field ?d ''request_satisfied'' = Some (dec_satisfied dec)" "bool_field ?d ''tool_completed'' = Some (dec_tool_completed dec)"
    "bool_field ?d ''evidence_consistent'' = Some (dec_consistent dec)"
    by (simp_all add: decided_lookup decision_dict_def bool_field_def optional_bool_def split: option.split)
  have default: "get_default ''tool_exit_code'' v ?d = JInt (dec_exit_code dec)"
    "get_default ''verification'' v ?d = JStr (dec_verification dec)" for v
    by (simp_all add: decided_lookup decision_dict_def)
  have "map_of ?d ''exit_code'' = map_of r ''exit_code''" "map_of ?d ''tool_exit_code'' \<noteq> None"
    by (simp_all add: map_of_decided decision_dict_def)
  then have conflict: "conflicting_fields ?d ''exit_code'' ''tool_exit_code'' = exit_conflict r (dec_exit_code dec)"
    "\<not> conflicting_fields ?d ''status'' ''verification''"
    by (simp_all add: conflicting_fields_def exit_conflict_def set same)
  from assms(1) code show ?thesis
    by (auto simp: read_observations_def and_then_Inr_iff set same default conflict optional_str_def)
qed

text \<open>What a decision says about assurance.\<close>

definition assurance :: "dict \<Rightarrow> json list" where
  "assurance d = map (\<lambda>k. get_field k d) [''tool_completed'', ''verification'', ''claim'', ''request_satisfied'',
     ''dropped_obligations'', ''obligations_complete'', ''evidence_consistent'']"

lemma assurance_decided: "assurance (update_fields r (decision_dict d)) = [JBool (dec_tool_completed d),
    JStr (dec_verification d), JStr (dec_claim d), JBool (dec_satisfied d), JBool (dec_dropped d),
    optional_bool (dec_complete d), JBool (dec_consistent d)]"
  by (simp add: assurance_def decided_lookup) (simp add: decision_dict_def)

text \<open>Deciding again, on the same tool and mode, from what the first decision has written.\<close>

lemma proof_claim_proper: "map_of proof_claim t = Some c \<Longrightarrow> c \<noteq> ''NO_PROOF''"
  by (auto simp: proof_claim_def split: if_splits)

lemma status_nonempty: "reported_status obs \<noteq> []" "semantic_status obs \<noteq> []"
  by (auto simp: reported_status_def semantic_status_def classify_def split: option.splits if_splits)

lemma decide_again:
  assumes "dec = decide_verification obs"
    and "obs' = obs\<lparr>obs_status := Some (dec_verification dec), obs_claim := Some (dec_claim dec),
      obs_dropped := Some (dec_dropped dec), obs_complete := dec_complete dec, obs_satisfied := Some (dec_satisfied dec),
      obs_tool_completed := Some (dec_tool_completed dec), obs_consistent := Some (dec_consistent dec)\<rparr>"
  shows "decide_verification obs' = dec\<lparr>dec_contradictions := contradictions obs'\<rparr>"
proof -
  have f: "obs_tool obs' = obs_tool obs" "obs_mode obs' = obs_mode obs" "obs_exit_code obs' = obs_exit_code obs"
    "obs_output obs' = obs_output obs" "obs_proved obs' = obs_proved obs" "obs_total obs' = obs_total obs"
    "obs_status obs' = Some (semantic_status obs)" "obs_dropped obs' = Some (dropped obs)"
    "obs_claim obs' = Some (if disclaimed obs then ''NO_PROOF'' else decided_claim obs)"
    "obs_complete obs' = decided_complete obs" "obs_satisfied obs' = Some (decided obs \<and> \<not> disclaimed obs)"
    "obs_tool_completed obs' = Some (tool_completed obs)" "obs_consistent obs' = Some (contradictions obs = [])"
    by (simp_all add: assms decide_verification_def)
  have tc: "tool_completed obs' = tool_completed obs" by (auto simp: tool_completed_def f)
  have m: "marker_dropped obs' = marker_dropped obs" by (simp add: marker_dropped_def f)
  have dr: "dropped obs' = dropped obs" using m by (auto simp: dropped_def f)
  have n: "counted_complete obs' = counted_complete obs" by (simp add: counted_complete_def f)
  have cc: "decided_complete obs' = decided_complete obs"
    by (auto simp: decided_complete_def n f split: option.splits)
  have cons: "contradictions obs' = [] \<longleftrightarrow> contradictions obs = []"
    unfolding contradictions_Nil[of obs'] f n m
    by (auto simp: tool_completed_def decided_complete_def dropped_def split: option.splits if_splits)
  have rs: "reported_status obs' = semantic_status obs" by (simp add: reported_status_def[of obs'] f status_nonempty)
  have ss: "semantic_status obs' = semantic_status obs"
    unfolding semantic_status_def[of obs'] rs f dr by (auto simp: semantic_status_def)
  have dec: "decided obs' \<longleftrightarrow> decided obs \<and> \<not> disclaimed obs"
    unfolding decided_def[of obs'] tc cons ss f cc dr by (auto simp: decided_def)
  have claim: "decided_claim obs' = (if disclaimed obs then ''NO_PROOF'' else decided_claim obs)"
    by (simp add: decided_claim_def dec f)
  have "\<not> disclaimed obs'"
    unfolding disclaimed_def[of obs'] dec f using proof_claim_proper
    by (auto simp: decided_claim_def decided_def)
  with tc dr cc cons ss dec claim f show ?thesis
    by (simp add: assms(1) decide_verification_def)
qed

lemma exit_conflict_inconsistent:
  assumes "read_observations repr tool mode r = Inr obs" and "exit_conflict r (obs_exit_code obs)"
    and "\<forall>s. get_field ''exit_code'' r \<noteq> JStr s"
  shows "contradictions obs \<noteq> []"
proof -
  let ?e = "get_field ''exit_code'' r" and ?t = "get_field ''tool_exit_code'' r"
  from assms(1) have code: "py_int (get_default ''tool_exit_code'' (get_default ''exit_code'' (JInt 1) r) r) = Inr (obs_exit_code obs)"
    and obs: "conflicting_fields r ''exit_code'' ''tool_exit_code'' \<Longrightarrow> obs_consistent obs = Some False"
    by (auto simp: read_observations_def and_then_Inr_iff)
  from assms(2) have e: "map_of r ''exit_code'' = Some ?e" "\<not> json_eq ?e (JInt (obs_exit_code obs))"
    by (auto simp: exit_conflict_def get_field_def)
  have numeral: "py_int j = Inr n \<Longrightarrow> \<forall>s. j \<noteq> JStr s \<Longrightarrow> json_eq j (JInt n)" for j n
    by (cases j) (auto simp: json_eq_def)
  have "map_of r ''tool_exit_code'' \<noteq> None"
    using code e numeral[of ?e "obs_exit_code obs"] assms(3) by (auto simp: get_default_def split: option.splits)
  then have t: "map_of r ''tool_exit_code'' = Some ?t" "py_int ?t = Inr (obs_exit_code obs)"
    using code by (auto simp: get_default_def get_field_def)
  have "\<not> json_eq ?e ?t"
  proof
    assume eq: "json_eq ?e ?t"
    show False
    proof (cases "\<exists>s. ?t = JStr s")
      case True
      with eq assms(3) show False by (cases ?e) (auto simp: json_eq_def)
    next
      case False
      with numeral[OF t(2)] eq e(2) show False by (auto simp: json_eq_def)
    qed
  qed
  with e(1) t(1) have "obs_consistent obs = Some False" by (intro obs) (simp add: conflicting_fields_def)
  then show ?thesis by (simp add: contradictions_Nil)
qed

text \<open>Negative evidence of a result stays when it is read again, with whatever tool and mode.\<close>

definition negatives :: "dict \<Rightarrow> bool list" where
  "negatives d = [\<not> is_satisfied d, bool_field d ''tool_completed'' = Some False, bool_field d ''dropped_obligations'' = Some True,
     bool_field d ''obligations_complete'' = Some False, bool_field d ''evidence_consistent'' = Some False]"

lemma negatives_decided: "negatives (update_fields r (decision_dict d)) = [\<not> dec_satisfied d, \<not> dec_tool_completed d, dec_dropped d,
    dec_complete d = Some False, \<not> dec_consistent d]"
  by (simp add: negatives_def bool_field_def decided_lookup)
     (simp add: decision_dict_def optional_bool_def split: option.split)

lemma inconsistent_again:
  "obs_consistent obs = Some False \<Longrightarrow> dec_claim (decide_verification obs) = ''NO_PROOF''"
  by (simp add: decide_verification_def decided_claim_def decided_def contradictions_Nil)

text \<open>C37: normalising a normalised result never strengthens it.  With whatever tool and mode it is repeated, it
  succeeds, a result that is unsatisfied, not completed, dropped, incomplete or inconsistent stays so, and an unsatisfied
  one is given no claim.  On the same tool and mode the claim is repeated or withdrawn, and everything that is said about
  assurance is repeated unless the exit code was reported as a string.  (A satisfied result that is read again for another
  mode may be given the claim of that mode: \<open>other_mode_other_claim\<close>.)\<close>

theorem normalising_never_strengthens:
  assumes "decide_result repr tool mode r = Inr d"
  shows "(\<exists>e. decide_result repr tool' mode' d = Inr e \<and> list_all2 (\<longrightarrow>) (negatives d) (negatives e) \<and>
      (\<not> is_satisfied d \<longrightarrow> claim_of e = JStr ''NO_PROOF'')) \<and>
    (\<exists>e. decide_result repr tool mode d = Inr e \<and> claim_of e \<in> {claim_of d, JStr ''NO_PROOF''} \<and>
      ((\<forall>s. get_field ''exit_code'' r \<noteq> JStr s) \<longrightarrow> assurance e = assurance d))"
proof -
  obtain obs where obs: "read_observations repr tool mode r = Inr obs" "d = update_fields r (decision_dict (decide_verification obs))"
    using assms by (auto simp: decide_result_def and_then_Inr_iff)
  note again = read_again[OF obs(1) refl, of _ _, folded obs(2)]
  have "\<exists>e. decide_result repr tool' mode' d = Inr e \<and> list_all2 (\<longrightarrow>) (negatives d) (negatives e) \<and>
      (\<not> is_satisfied d \<longrightarrow> claim_of e = JStr ''NO_PROOF'')"
    unfolding decide_result_def again[of tool' mode']
    by (auto simp: obs(2) negatives_decided)
       (auto simp: decide_verification_def decided_def decided_claim_def tool_completed_def dropped_def
          decided_complete_def contradictions_Nil)
  moreover have "\<exists>e. decide_result repr tool mode d = Inr e \<and> claim_of e \<in> {claim_of d, JStr ''NO_PROOF''} \<and>
      ((\<forall>s. get_field ''exit_code'' r \<noteq> JStr s) \<longrightarrow> assurance e = assurance d)"
  proof -
    let ?dec = "decide_verification obs"
    let ?conflict = "exit_conflict r (dec_exit_code ?dec)"
    let ?obs' = "obs\<lparr>obs_status := Some (dec_verification ?dec),
        obs_claim := Some (dec_claim ?dec), obs_dropped := Some (dec_dropped ?dec), obs_complete := dec_complete ?dec,
        obs_satisfied := Some (dec_satisfied ?dec), obs_tool_completed := Some (dec_tool_completed ?dec),
        obs_consistent := (if ?conflict then Some False else Some (dec_consistent ?dec))\<rparr>"
    have tool: "obs_tool obs = str_lower (str_strip tool)" "obs_mode obs = str_lower (str_strip mode)"
      using obs(1) by (auto simp: read_observations_def and_then_Inr_iff)
    have reread: "read_observations repr tool mode d = Inr ?obs'" using again[of tool mode] by (simp flip: tool)
    show ?thesis
    proof (cases "?conflict \<and> dec_consistent ?dec")
      case True
      then have "dec_claim (decide_verification ?obs') = ''NO_PROOF''" by (intro inconsistent_again) simp
      moreover have "\<exists>s. get_field ''exit_code'' r = JStr s"
        using exit_conflict_inconsistent[OF obs(1)] True by (auto simp: decide_verification_def)
      ultimately show ?thesis using reread unfolding decide_result_def by auto
    next
      case False
      then have same: "(if ?conflict then Some False else Some (dec_consistent ?dec)) = Some (dec_consistent ?dec)" by auto
      from reread decide_again[OF refl refl, of obs] show ?thesis
        unfolding same by (auto simp: decide_result_def obs(2) assurance_decided)
    qed
  qed
  ultimately show ?thesis by blast
qed

definition verified_result :: dict where
  "verified_result = [(''exit_code'', JInt 0), (''status'', JStr ''VERIFIED''), (''proved_goals'', JInt 3), (''total_goals'', JInt 3)]"

lemma verified_result_decided:
  "\<exists>d. decide_result (\<lambda>_. []) ''frama-c'' ''esc'' verified_result = Inr d \<and> claim_of d = JStr ''DEDUCTIVE_PROOF''"
proof -
  have "(case decide_result (\<lambda>_. []) ''frama-c'' ''esc'' verified_result of
      Inr d \<Rightarrow> claim_of d = JStr ''DEDUCTIVE_PROOF'' | Inl _ \<Rightarrow> False)" by code_simp
  then show ?thesis by (auto split: sum.splits)
qed

lemma claims_are_justified_witness:
  "\<exists>d. decide_result (\<lambda>_. []) ''frama-c'' ''esc'' verified_result = Inr d \<and> is_satisfied d"
  using claims_are_justified[of "\<lambda>_. []" "''frama-c''" "''esc''" verified_result] verified_result_decided by fastforce

lemma normalising_never_strengthens_witness:
  "\<exists>d e. decide_result (\<lambda>_. []) ''frama-c'' ''esc'' verified_result = Inr d \<and>
    decide_result (\<lambda>_. []) ''frama-c'' ''esc'' d = Inr e \<and> assurance e = assurance d"
  using normalising_never_strengthens[of "\<lambda>_. []" "''frama-c''" "''esc''" verified_result] verified_result_decided
  by (fastforce simp: verified_result_def)

text \<open>What the mode of the second reading decides: a parsed file is not proved by it, but is called checked, and a
  checked one is called proved.\<close>

lemma other_mode_other_claim:
  "case decide_result (\<lambda>_. []) ''frama-c'' ''parse'' [(''exit_code'', JInt 0), (''status'', JStr ''VERIFIED'')] of
     Inl _ \<Rightarrow> False
   | Inr d \<Rightarrow> is_satisfied d \<and> claim_of d = JStr ''NO_PROOF'' \<and>
       (case decide_result (\<lambda>_. []) ''frama-c'' ''check'' d of
          Inl _ \<Rightarrow> False
        | Inr e \<Rightarrow> claim_of e = JStr ''STATIC_CHECK'' \<and> (case decide_result (\<lambda>_. []) ''frama-c'' ''esc'' e of
            Inl _ \<Rightarrow> False | Inr f \<Rightarrow> claim_of f = JStr ''DEDUCTIVE_PROOF''))"
  by code_simp

text \<open>An exit code reported as a string is read, but does not equal the number written beside it: repeated
  normalisation marks such a result inconsistent.\<close>

lemma string_exit_code_weakens:
  "case decide_result (\<lambda>_. []) ''frama-c'' ''esc'' [(''exit_code'', JStr ''0''), (''status'', JStr ''VERIFIED'')] of
     Inl _ \<Rightarrow> False
   | Inr d \<Rightarrow> is_satisfied d \<and> (case decide_result (\<lambda>_. []) ''frama-c'' ''esc'' d of
       Inl _ \<Rightarrow> False | Inr e \<Rightarrow> \<not> is_satisfied e)"
  by code_simp

end
