(* ===== verification/Approval_Service.thy ===== *)
theory Approval_Service
  imports Evidence_Ledger Verification_Policy Service_Run
begin

text \<open>
  Human approval of a protected action, \<^verbatim>\<open>pipeline/approval_service.py\<close>: a request binds an
  artifact and its evidence, a reviewer outside decides and signs the decision, and the service, under a lock,
  authenticates the decision, has the protected signer sign the artifact and writes a receipt once.  The files are
  a list of paths with what is there.  Processes (GnuPG, the signer) are the argument \<open>run_process\<close>, which may
  change any file; digests, the JSON decoder, path resolution, the reading and writing of times, the texts of other
  values and identifiers are arguments as well.
\<close>

section \<open>Files and processes\<close>

datatype entry = Plain string | Link string | Broken_link | Folder | Folder_link

type_synonym files = "(string \<times> entry) list"

datatype approval_error = ApprovalError string string | Uncaught string

type_synonym 'a approval_run = "(approval_error, files, 'a) erun"

record approval_env =
  run_process :: "string list \<Rightarrow> files \<Rightarrow> (int \<times> string) \<times> files"
  sha256 :: "string \<Rightarrow> string"
  decode :: decoder
  text_of_value :: "json \<Rightarrow> string"
  resolve_path :: "string \<Rightarrow> string"
  read_time :: "string \<Rightarrow> (bool \<times> int) option"
  write_time :: "int \<Rightarrow> string"
  executable :: "string \<Rightarrow> bool"

definition entry_at :: "files \<Rightarrow> string \<Rightarrow> entry option" where
  "entry_at fs p = map_of fs (as_posix p)"

definition content_at :: "files \<Rightarrow> string \<Rightarrow> string option" where
  "content_at fs p = (case entry_at fs p of Some (Plain b) \<Rightarrow> Some b | Some (Link b) \<Rightarrow> Some b | _ \<Rightarrow> None)"

definition is_file :: "files \<Rightarrow> string \<Rightarrow> bool" where
  "is_file fs p \<longleftrightarrow> content_at fs p \<noteq> None"

definition is_symlink :: "files \<Rightarrow> string \<Rightarrow> bool" where
  "is_symlink fs p \<longleftrightarrow> (case entry_at fs p of Some (Link _) \<Rightarrow> True | Some Broken_link \<Rightarrow> True | Some Folder_link \<Rightarrow> True | _ \<Rightarrow> False)"

definition check :: "bool \<Rightarrow> string \<Rightarrow> string \<Rightarrow> unit approval_run" where
  "check b code message = pure_run (ensure b (ApprovalError code message))"

definition query :: "(files \<Rightarrow> 'a) \<Rightarrow> 'a approval_run" where
  "query f = store_read (\<lambda>fs. Inr (f fs))"

definition process :: "approval_env \<Rightarrow> string list \<Rightarrow> (int \<times> string) approval_run" where
  "process env command fs = (case run_process env command fs of (result, fs') \<Rightarrow> (Inr result, fs'))"

definition sha256_file :: "approval_env \<Rightarrow> string \<Rightarrow> (string \<times> nat) approval_run" where
  "sha256_file env p = store_read (\<lambda>fs. case entry_at fs p of
     Some (Plain b) \<Rightarrow> Inr (sha256 env b, length b)
   | _ \<Rightarrow> Inl (ApprovalError ''ARTIFACT_UNAVAILABLE'' (''unsafe artifact: '' @ p)))"

definition approval_bytes :: "dict \<Rightarrow> string" where
  "approval_bytes value = dumps_indent value @ nl"

definition write_once :: "string \<Rightarrow> string \<Rightarrow> unit approval_run" where
  "write_once p content = store_op (\<lambda>fs. if entry_at fs p = None then Inr ((), fs @ [(as_posix p, Plain content)])
     else Inl (ApprovalError ''APPROVAL_REPLAY'' (''approval state already exists: '' @ path_name p)))"

definition load_json :: "approval_env \<Rightarrow> string \<Rightarrow> string \<Rightarrow> dict approval_run" where
  "load_json env p schema = store_read (\<lambda>fs. case content_at fs p of
     None \<Rightarrow> Inl (ApprovalError ''APPROVAL_STATE_INVALID'' (''cannot read '' @ path_name p))
   | Some b \<Rightarrow> (case decode env b of
       Inl (PlainValueError _) \<Rightarrow> Inl (ApprovalError ''APPROVAL_STATE_INVALID'' (''cannot read '' @ path_name p))
     | Inl _ \<Rightarrow> Inl (Uncaught ''decoding'')
     | Inr value \<Rightarrow> if value = JObj (object_of value) \<and> get_field ''schema'' (object_of value) = JStr schema then Inr (object_of value)
         else Inl (ApprovalError ''APPROVAL_STATE_INVALID'' (''invalid '' @ path_name p @ '' schema''))))"

section \<open>Identities\<close>

definition fingerprint :: "string \<Rightarrow> bool" where
  "fingerprint s \<longleftrightarrow> length s \<in> {40, 64} \<and> list_all (\<lambda>c. is_digit c \<or> CHR ''A'' \<le> c \<and> c \<le> CHR ''F'') s"

definition normal_identity :: "string \<Rightarrow> string" where
  "normal_identity s = ascii_upper (str_strip s)"

definition matches_identity :: "string \<Rightarrow> string \<Rightarrow> bool" where
  "matches_identity observed expected \<longleftrightarrow> fingerprint (normal_identity observed) \<and>
     fingerprint (normal_identity expected) \<and> normal_identity observed = normal_identity expected"

record signer_identity =
  signing_fingerprint :: string
  primary_fingerprint :: string

fun split_on :: "(char \<Rightarrow> bool) \<Rightarrow> string \<Rightarrow> string list" where
  "split_on P [] = [[]]"
| "split_on P (c # cs) = (if P c then [] # split_on P cs
     else (case split_on P cs of [] \<Rightarrow> [[c]] | w # ws \<Rightarrow> (c # w) # ws))"

definition words :: "string \<Rightarrow> string list" where
  "words s = filter (\<lambda>w. w \<noteq> []) (split_on is_space s)"

definition line_break :: "char \<Rightarrow> bool" where
  "line_break c \<longleftrightarrow> (of_char c :: nat) \<in> {10, 11, 12, 13, 28, 29, 30, 133}"

text \<open>The first status line of a valid signature decides; with twelve fields the last one is the primary key.\<close>

fun validsig_identity :: "string list \<Rightarrow> signer_identity option" where
  "validsig_identity [] = None"
| "validsig_identity (line # lines) =
     (if \<not> starts_with ''[GNUPG:] VALIDSIG '' line then validsig_identity lines
      else let fields = words line; signing = normal_identity (fields ! 2); last_field = normal_identity (last fields) in
        if length fields < 3 \<or> \<not> fingerprint signing then None
        else Some \<lparr>signing_fingerprint = signing,
          primary_fingerprint = (if 12 \<le> length fields \<and> fingerprint last_field then last_field else signing)\<rparr>)"

definition gpg_verify :: "string \<Rightarrow> string \<Rightarrow> string \<Rightarrow> string list" where
  "gpg_verify home signature artifact =
     [''gpg'', ''--homedir'', home, ''--batch'', ''--status-fd'', ''1'', ''--verify'', signature, artifact]"

text \<open>The keys and the expected identity come from a request; they are looked at after GnuPG has answered, and an
  identity that is no text fails only then.\<close>

definition verify_detached_signature :: "approval_env \<Rightarrow> string \<Rightarrow> approval_error + string list \<Rightarrow> approval_error + string
    \<Rightarrow> string \<Rightarrow> string \<Rightarrow> signer_identity approval_run" where
  "verify_detached_signature env home trusted wanted artifact signature =
     bind_run (process env (gpg_verify home signature artifact)) (\<lambda>(code, output).
     bind_run (check (code = 0) ''APPROVAL_SIGNATURE_INVALID''
       (''detached signature verification failed for '' @ path_name artifact)) (\<lambda>_.
     bind_run (pure_run (case validsig_identity (split_on line_break output) of
         None \<Rightarrow> Inl (ApprovalError ''APPROVAL_SIGNATURE_INVALID'' ''GPG did not report a valid signer'')
       | Some i \<Rightarrow> Inr i)) (\<lambda>identity.
     bind_run (pure_run trusted) (\<lambda>keys.
     bind_run (check (list_ex (matches_identity (primary_fingerprint identity)) keys)
       ''APPROVAL_REVIEWER_UNAUTHORIZED'' ''decision signer is not trusted'') (\<lambda>_.
     bind_run (pure_run wanted) (\<lambda>expected.
     bind_run (check (expected = [] \<or> matches_identity (primary_fingerprint identity) expected)
       ''APPROVAL_REVIEWER_MISMATCH'' ''decision signer does not match the request-bound reviewer'') (\<lambda>_.
     ret identity)))))))"

section \<open>The service\<close>

record approval_service =
  app_root :: string
  verifier_home :: string
  authorized_reviewers :: "string list"
  app_signer :: "string option"
  signing_identity :: string
  reviewer_identity :: string
  app_action :: string

definition make_folder :: "bool \<Rightarrow> string \<Rightarrow> unit approval_run" where
  "make_folder exist_ok p = store_op (\<lambda>fs. case entry_at fs p of
     None \<Rightarrow> Inr ((), fs @ [(as_posix p, Folder)])
   | Some e \<Rightarrow> if exist_ok \<and> e \<in> {Folder, Folder_link} then Inr ((), fs) else Inl (Uncaught ''FileExistsError''))"

definition make_approval_service :: "approval_env \<Rightarrow> string \<Rightarrow> string \<Rightarrow> string list \<Rightarrow> string option \<Rightarrow> string \<Rightarrow> string
    \<Rightarrow> string \<Rightarrow> approval_service approval_run" where
  "make_approval_service env root home reviewers signer signing reviewer action =
     (let authorized = filter (\<lambda>k. k \<noteq> []) (map normal_identity reviewers);
          s = \<lparr>app_root = resolve_path env root, verifier_home = resolve_path env home, authorized_reviewers = authorized,
            app_signer = map_option (resolve_path env) signer, signing_identity = str_strip signing,
            reviewer_identity = str_strip reviewer, app_action = action\<rparr>;
          unavailable = ''APPROVAL_POLICY_UNAVAILABLE'' in
      bind_run (check (authorized \<noteq> []) unavailable ''no authorized reviewers configured'') (\<lambda>_.
      bind_run (check (signing_identity s \<noteq> [] \<and> reviewer_identity s \<noteq> []) unavailable
        ''signing and reviewer identities must be configured'') (\<lambda>_.
      bind_run (check (list_all fingerprint (authorized @ [ascii_upper (signing_identity s), ascii_upper (reviewer_identity s)]))
        unavailable ''approval identities must be complete OpenPGP fingerprints'') (\<lambda>_.
      bind_run (check (list_ex (matches_identity (reviewer_identity s)) authorized) unavailable
        ''configured reviewer identity is not in the trusted registry'') (\<lambda>_.
      bind_run (make_folder True (app_root s)) (\<lambda>_.
      bind_run (query (\<lambda>fs. entry_at fs (app_root s) = Some Folder)) (\<lambda>safe.
      bind_run (check safe unavailable ''unsafe approval root'') (\<lambda>_. ret s))))))))"

section \<open>Creating a request\<close>

definition request_id_ok :: "string \<Rightarrow> bool" where
  "request_id_ok i \<longleftrightarrow> is_hex 32 i"

definition request_folder :: "approval_service \<Rightarrow> string \<Rightarrow> string" where
  "request_folder s i = app_root s @ ''/'' @ i"

definition bound_file :: "string \<Rightarrow> string \<times> nat \<Rightarrow> json" where
  "bound_file p identity = JObj [(''path'', JStr p), (''sha256'', JStr (fst identity)), (''size'', JInt (int (snd identity)))]"

record request_parameters =
  par_artifact :: string
  par_evidence :: string
  par_profile :: string
  par_claim :: string
  par_status :: string
  par_ttl :: int
  par_destination :: "string option"
  par_operation :: "dict option"
  par_request_id :: "string option"

definition approval_request_dict :: "approval_env \<Rightarrow> approval_service \<Rightarrow> request_parameters \<Rightarrow> int \<Rightarrow> string \<Rightarrow> string \<Rightarrow> string \<times> nat
    \<Rightarrow> string \<times> nat \<Rightarrow> dict" where
  "approval_request_dict env s q now nonce i artifact manifest =
     [(''schema'', JStr ''formalspecgen-approval-request-v1''), (''policy_version'', JStr ''formalspecgen-approval-policy-v2''),
      (''request_id'', JStr i), (''operation_id'', JStr i), (''nonce'', JStr nonce), (''action'', JStr (app_action s)),
      (''artifact'', bound_file (resolve_path env (par_artifact q)) artifact),
      (''evidence_manifest'', bound_file (resolve_path env (par_evidence q)) manifest),
      (''destination'', JStr (case par_destination q of Some d \<Rightarrow> if d \<noteq> [] then d else request_folder s i @ ''/artifact.sig''
         | None \<Rightarrow> request_folder s i @ ''/artifact.sig'')),
      (''signing_identity'', JStr (signing_identity s)), (''reviewer_identity'', JStr (reviewer_identity s)),
      (''admission_profile_sha256'', JStr (par_profile q)),
      (''verification'', JObj [(''status'', JStr (par_status q)), (''claim'', JStr (par_claim q)),
         (''claim_upgraded_by_signing'', JBool False)]),
      (''created_at'', JStr (write_time env now)), (''expires_at'', JStr (write_time env (now + par_ttl q)))] @
     (case par_operation q of None \<Rightarrow> [] | Some op \<Rightarrow> [(''operation'', JObj op)])"

text \<open>\<open>d[k]\<close> and \<open>dict(d[k])\<close> on a request or receipt; a list of pairs in the place of an object, which
  \<open>dict\<close> would accept as well, is an error of the model.\<close>

definition item :: "string \<Rightarrow> dict \<Rightarrow> approval_error + json" where
  "item k d = (case map_of d k of None \<Rightarrow> Inl (Uncaught ''KeyError'') | Some v \<Rightarrow> Inr v)"

definition dict_at :: "string \<Rightarrow> dict \<Rightarrow> approval_error + dict" where
  "dict_at k d = and_then (item k d) (\<lambda>j. case j of JObj e \<Rightarrow> Inr e | JArr [] \<Rightarrow> Inr [] | JStr [] \<Rightarrow> Inr [] | _ \<Rightarrow> Inl (Uncaught ''TypeError''))"

definition public_request :: "dict \<Rightarrow> string \<Rightarrow> string \<Rightarrow> approval_error + dict" where
  "public_request r request_sha status =
     and_then (dict_at ''verification'' r) (\<lambda>verification.
     and_then (item ''claim'' verification) (\<lambda>claim.
     and_then (dict_at ''artifact'' r) (\<lambda>artifact.
     and_then (dict_at ''evidence_manifest'' r) (\<lambda>manifest.
     and_then (map_res (\<lambda>k. item k r) [''request_id'', ''operation_id'', ''action'', ''destination'', ''signing_identity'',
       ''reviewer_identity'', ''policy_version'', ''expires_at'']) (\<lambda>fields.
     Inr [(''status'', JStr status), (''claim'', claim), (''request_satisfied'', JBool False),
       (''approval'', JObj [(''status'', JStr status), (''request_id'', fields ! 0), (''operation_id'', fields ! 1),
          (''action'', fields ! 2), (''request_sha256'', JStr request_sha), (''artifact'', JObj artifact),
          (''evidence_manifest'', JObj manifest), (''destination'', fields ! 3), (''signing_identity'', fields ! 4),
          (''reviewer_identity'', fields ! 5), (''policy_version'', fields ! 6), (''expires_at'', fields ! 7),
          (''private_key_exposed'', JBool False)]),
       (''verification'', JObj verification)])))))"

definition create_bound_request :: "approval_env \<Rightarrow> approval_service \<Rightarrow> request_parameters \<Rightarrow> int \<Rightarrow> string \<Rightarrow> string
    \<Rightarrow> dict approval_run" where
  "create_bound_request env s q now fresh_id nonce =
     (let i = (case par_request_id q of Some i \<Rightarrow> if i \<noteq> [] then i else fresh_id | None \<Rightarrow> fresh_id) in
      bind_run (check (1 \<le> par_ttl q \<and> par_ttl q \<le> 86400) ''APPROVAL_POLICY_INVALID'' ''approval expiry must be 1..86400 seconds'') (\<lambda>_.
      bind_run (sha256_file env (resolve_path env (par_artifact q))) (\<lambda>artifact.
      bind_run (sha256_file env (resolve_path env (par_evidence q))) (\<lambda>manifest.
      bind_run (check (is_hex 64 (par_profile q)) ''APPROVAL_POLICY_INVALID'' ''admission profile digest is invalid'') (\<lambda>_.
      bind_run (check (request_id_ok i) ''APPROVAL_POLICY_INVALID'' ''invalid request identity'') (\<lambda>_.
      bind_run (make_folder False (request_folder s i)) (\<lambda>_.
      let r = approval_request_dict env s q now nonce i artifact manifest; encoded = approval_bytes r in
      bind_run (write_once (request_folder s i @ ''/request.json'') encoded) (\<lambda>_.
      pure_run (public_request r (sha256 env encoded) ''PENDING'')))))))))"

section \<open>Validating requests, files and decisions\<close>

definition binding_ok :: "approval_env \<Rightarrow> json \<Rightarrow> bool" where
  "binding_ok env b = (case b of JObj d \<Rightarrow>
      (case (get_field ''path'' d, int_value (get_field ''size'' d)) of
         (JStr _, Some n) \<Rightarrow> 0 \<le> n \<and> is_hex 64 (py_str (text_of_value env) (get_default ''sha256'' (JStr []) d))
       | _ \<Rightarrow> False)
    | _ \<Rightarrow> False)"

definition request_ok :: "approval_env \<Rightarrow> approval_service \<Rightarrow> dict \<Rightarrow> string \<Rightarrow> bool" where
  "request_ok env s r i \<longleftrightarrow> get_field ''request_id'' r = JStr i \<and> get_field ''operation_id'' r = JStr i \<and> request_id_ok i \<and>
     get_field ''policy_version'' r = JStr ''formalspecgen-approval-policy-v2'' \<and> get_field ''action'' r = JStr (app_action s) \<and>
     binding_ok env (get_field ''artifact'' r) \<and> binding_ok env (get_field ''evidence_manifest'' r) \<and>
     (case get_field ''destination'' r of JStr _ \<Rightarrow> True | _ \<Rightarrow> False) \<and>
     json_true (get_field ''signing_identity'' r) \<and> json_true (get_field ''reviewer_identity'' r) \<and>
     is_hex 64 (py_str (text_of_value env) (get_default ''admission_profile_sha256'' (JStr []) r))"

text \<open>With \<open>Some now\<close> the expiry is checked as well.\<close>

definition validate_request :: "approval_env \<Rightarrow> approval_service \<Rightarrow> dict \<Rightarrow> string \<Rightarrow> int option \<Rightarrow> approval_error + unit" where
  "validate_request env s r i now =
     (let invalid = ApprovalError ''APPROVAL_STATE_INVALID'' in
      and_then (ensure (request_ok env s r i) (invalid ''approval request binding changed'')) (\<lambda>_.
      case map_of r ''expires_at'' of None \<Rightarrow> Inl (invalid ''approval expiry is invalid'')
      | Some e \<Rightarrow> (case read_time env (py_str (text_of_value env) e) of
          None \<Rightarrow> Inl (invalid ''approval expiry is invalid'')
        | Some (zoned, expires) \<Rightarrow>
            and_then (ensure zoned (invalid ''approval expiry lacks timezone'')) (\<lambda>_.
            ensure (case now of None \<Rightarrow> True | Some t \<Rightarrow> t < expires)
              (ApprovalError ''APPROVAL_EXPIRED'' ''approval request has expired'')))))"

definition validate_bound_file :: "approval_env \<Rightarrow> string \<Rightarrow> dict \<Rightarrow> string \<Rightarrow> unit approval_run" where
  "validate_bound_file env p b label =
     bind_run (sha256_file env p) (\<lambda>(sha, size).
     check (json_eq (JStr sha) (get_field ''sha256'' b) \<and> json_eq (JInt (int size)) (get_field ''size'' b))
       ''APPROVED_ARTIFACT_CHANGED'' (label @ '' changed after approval request''))"

definition request_root :: "approval_service \<Rightarrow> string \<Rightarrow> string approval_run" where
  "request_root s i =
     bind_run (check (request_id_ok i) ''APPROVAL_NOT_FOUND'' ''invalid approval request id'') (\<lambda>_.
     bind_run (query (\<lambda>fs. entry_at fs (request_folder s i) = Some Folder)) (\<lambda>present.
     bind_run (check present ''APPROVAL_NOT_FOUND'' ''approval request does not exist'') (\<lambda>_.
     ret (request_folder s i))))"

definition digest_of :: "string \<Rightarrow> dict \<Rightarrow> json" where
  "digest_of k r = get_field ''sha256'' (object_of (get_field k r))"

text \<open>What a decision has to repeat from its request.\<close>

definition decision_bindings :: "dict \<Rightarrow> string \<Rightarrow> dict" where
  "decision_bindings r request_sha = [(''request_id'', get_field ''request_id'' r), (''operation_id'', get_field ''operation_id'' r),
     (''request_sha256'', JStr request_sha), (''action'', get_field ''action'' r),
     (''artifact_sha256'', digest_of ''artifact'' r), (''evidence_manifest_sha256'', digest_of ''evidence_manifest'' r),
     (''destination'', get_field ''destination'' r), (''signing_identity'', get_field ''signing_identity'' r),
     (''policy_version'', get_field ''policy_version'' r)]"

definition validate_decision :: "dict \<Rightarrow> dict \<Rightarrow> string \<Rightarrow> approval_error + unit" where
  "validate_decision decision r request_sha =
     (let verdict = get_field ''decision'' decision in
      if (case verdict of JArr _ \<Rightarrow> True | JObj _ \<Rightarrow> True | _ \<Rightarrow> False) then Inl (Uncaught ''TypeError'')
      else ensure (verdict \<in> {JStr ''approve'', JStr ''deny''} \<and>
          list_all (\<lambda>(k, v). json_eq (get_field k decision) v) (decision_bindings r request_sha))
        (ApprovalError ''APPROVAL_BINDING_MISMATCH'' ''human decision does not bind this action''))"

definition text_at :: "string \<Rightarrow> dict \<Rightarrow> approval_error + string" where
  "text_at k d = (case get_field k d of JStr t \<Rightarrow> Inr t | _ \<Rightarrow> Inl (Uncaught ''AttributeError''))"

definition path_of :: "string \<Rightarrow> dict \<Rightarrow> string" where
  "path_of k r = (case get_field ''path'' (object_of (get_field k r)) of JStr p \<Rightarrow> as_posix p | _ \<Rightarrow> [])"

text \<open>The set of one key: a list or an object cannot be its element; another value that is no text is, and fails
  when it is compared.\<close>

definition one_key :: "string \<Rightarrow> dict \<Rightarrow> approval_error + (approval_error + string list)" where
  "one_key k d = (case get_field k d of JArr _ \<Rightarrow> Inl (Uncaught ''TypeError'') | JObj _ \<Rightarrow> Inl (Uncaught ''TypeError'')
     | _ \<Rightarrow> Inr (and_then (text_at k d) (\<lambda>key. Inr [key])))"

definition authenticate_decision :: "approval_env \<Rightarrow> approval_service \<Rightarrow> string \<Rightarrow> dict
    \<Rightarrow> (dict \<times> signer_identity \<times> string) approval_run" where
  "authenticate_decision env s root r =
     (let decision_path = root @ ''/decision.json''; signature = root @ ''/decision.json.sig'' in
      bind_run (query (\<lambda>fs. is_file fs decision_path \<and> is_file fs signature)) (\<lambda>present.
      bind_run (check present ''APPROVAL_REQUIRED'' ''an authenticated human decision is absent'') (\<lambda>_.
      bind_run (load_json env decision_path ''formalspecgen-approval-decision-v1'') (\<lambda>decision.
      bind_run (sha256_file env (root @ ''/request.json'')) (\<lambda>(request_sha, _).
      bind_run (pure_run (validate_decision decision r request_sha)) (\<lambda>_.
      bind_run (verify_detached_signature env (verifier_home s) (Inr (authorized_reviewers s)) (text_at ''reviewer_identity'' r)
        decision_path signature) (\<lambda>reviewer.
      ret (decision, reviewer, request_sha))))))))"

section \<open>Signing and receipts\<close>

definition signer_command :: "string \<Rightarrow> string \<Rightarrow> string \<Rightarrow> string \<Rightarrow> string list" where
  "signer_command program root artifact out = [program, ''--request'', root @ ''/request.json'', ''--decision'',
     root @ ''/decision.json'', ''--approval-signature'', root @ ''/decision.json.sig'', ''--artifact'', artifact, ''--output'', out]"

definition invoke_signer :: "approval_env \<Rightarrow> approval_service \<Rightarrow> string \<Rightarrow> string \<Rightarrow> string \<Rightarrow> unit approval_run" where
  "invoke_signer env s root artifact out =
     bind_run (query (\<lambda>fs. case app_signer s of None \<Rightarrow> None
       | Some p \<Rightarrow> if is_symlink fs p \<or> \<not> is_file fs p \<or> \<not> executable env p then None else Some p)) (\<lambda>signer.
     case signer of
       None \<Rightarrow> pure_run (Inl (ApprovalError ''PROTECTED_SIGNER_UNAVAILABLE'' ''protected signer is unavailable''))
     | Some program \<Rightarrow>
         bind_run (process env (signer_command program root artifact out)) (\<lambda>(code, _).
         bind_run (check (code = 0) ''PROTECTED_SIGNING_FAILED'' ''protected signer rejected or failed the approved action'') (\<lambda>_.
         bind_run (query (\<lambda>fs. is_file fs out)) (\<lambda>written.
         check written ''PROTECTED_SIGNING_FAILED'' ''protected signer emitted no signature''))))"

definition receipt_dict :: "approval_env \<Rightarrow> dict \<Rightarrow> string \<Rightarrow> dict \<Rightarrow> signer_identity \<Rightarrow> string \<Rightarrow> json \<Rightarrow> int
    \<Rightarrow> approval_error + dict" where
  "receipt_dict env r request_sha decision reviewer status signature completed =
     and_then (dict_at ''verification'' r) (\<lambda>verification.
     Inr [(''schema'', JStr ''formalspecgen-approval-receipt-v1''), (''policy_version'', JStr ''formalspecgen-approval-policy-v2''),
       (''request_id'', get_field ''request_id'' r), (''operation_id'', get_field ''operation_id'' r),
       (''request_sha256'', JStr request_sha), (''action'', get_field ''action'' r), (''status'', JStr status),
       (''decision'', get_field ''decision'' decision), (''reviewer_identity'', JStr (primary_fingerprint reviewer)),
       (''reviewer_signing_fingerprint'', JStr (signing_fingerprint reviewer)), (''artifact'', get_field ''artifact'' r),
       (''evidence_manifest'', get_field ''evidence_manifest'' r),
       (''admission_profile_sha256'', get_field ''admission_profile_sha256'' r), (''signature'', signature),
       (''verification'', JObj verification), (''completed_at'', JStr (write_time env completed)),
       (''claim_upgraded_by_signing'', JBool False)])"

definition receipt_response :: "approval_env \<Rightarrow> dict \<Rightarrow> string \<Rightarrow> dict approval_run" where
  "receipt_response env receipt p =
     bind_run (sha256_file env p) (\<lambda>(sha, size).
     pure_run (and_then (dict_at ''verification'' receipt) (\<lambda>verification.
       and_then (item ''claim'' verification) (\<lambda>claim.
       and_then (map_res (\<lambda>k. item k receipt) [''status'', ''request_id'', ''operation_id'', ''action'', ''reviewer_identity''])
         (\<lambda>fields.
       Inr [(''status'', fields ! 0), (''claim'', claim), (''request_satisfied'', JBool (fields ! 0 = JStr ''SIGNED'')),
         (''approval'', JObj [(''status'', fields ! 0), (''request_id'', fields ! 1), (''operation_id'', fields ! 2),
            (''action'', fields ! 3), (''reviewer_identity'', fields ! 4), (''private_key_exposed'', JBool False)]),
         (''verification'', JObj verification), (''signature'', get_field ''signature'' receipt),
         (''approval_receipt'', JObj [(''path'', JStr p), (''sha256'', JStr sha), (''size'', JInt (int size)),
            (''schema'', JStr ''formalspecgen-approval-receipt-v1'')])])))))"

definition receipt_binds :: "approval_env \<Rightarrow> dict \<Rightarrow> dict \<Rightarrow> string \<Rightarrow> bool" where
  "receipt_binds env receipt r request_sha \<longleftrightarrow>
     list_all (\<lambda>k. json_eq (get_field k receipt) (get_field k r)) [''request_id'', ''operation_id'', ''action'', ''artifact'',
       ''evidence_manifest'', ''admission_profile_sha256'', ''verification''] \<and>
     get_field ''request_sha256'' receipt = JStr request_sha \<and>
     get_field ''policy_version'' receipt = JStr ''formalspecgen-approval-policy-v2'' \<and>
     get_field ''claim_upgraded_by_signing'' receipt = JBool False \<and>
     matches_identity (py_str (text_of_value env) (get_default ''reviewer_identity'' (JStr []) receipt))
       (py_str (text_of_value env) (get_default ''reviewer_identity'' (JStr []) r)) \<and>
     fingerprint (py_str (text_of_value env) (get_default ''reviewer_signing_fingerprint'' (JStr []) receipt))"

definition validated_receipt_response :: "approval_env \<Rightarrow> approval_service \<Rightarrow> string \<Rightarrow> string \<Rightarrow> dict approval_run" where
  "validated_receipt_response env s i root =
     (let receipt_path = root @ ''/receipt.json''; request_path = root @ ''/request.json'';
          invalid = ''APPROVAL_STATE_INVALID'' in
      bind_run (load_json env receipt_path ''formalspecgen-approval-receipt-v1'') (\<lambda>receipt.
      bind_run (load_json env request_path ''formalspecgen-approval-request-v1'') (\<lambda>r.
      bind_run (pure_run (validate_request env s r i None)) (\<lambda>_.
      bind_run (sha256_file env request_path) (\<lambda>(request_sha, _).
      bind_run (check (receipt_binds env receipt r request_sha) invalid ''approval receipt binding changed'') (\<lambda>_.
      bind_run (validate_bound_file env (path_of ''artifact'' r) (object_of (get_field ''artifact'' r)) ''artifact'') (\<lambda>_.
      bind_run (validate_bound_file env (path_of ''evidence_manifest'' r) (object_of (get_field ''evidence_manifest'' r))
        ''evidence manifest'') (\<lambda>_.
      bind_run (if get_field ''status'' receipt = JStr ''SIGNED'' then
          (case get_field ''signature'' receipt of JObj signature \<Rightarrow>
             let p = as_posix (py_str (text_of_value env) (get_default ''path'' (JStr []) signature)) in
             bind_run (validate_bound_file env p signature ''signature'') (\<lambda>_.
             bind_run (pure_run (one_key ''signing_identity'' r)) (\<lambda>keys.
             bind_run (verify_detached_signature env (verifier_home s) keys (text_at ''signing_identity'' r)
               (path_of ''artifact'' r) p) (\<lambda>signer.
             check (get_field ''signer_identity'' signature = JStr (primary_fingerprint signer) \<and>
                 get_field ''signing_fingerprint'' signature = JStr (signing_fingerprint signer))
               invalid ''signature identity binding changed'')))
           | _ \<Rightarrow> pure_run (Inl (ApprovalError invalid ''signed receipt lacks signature binding'')))
        else check (get_field ''status'' receipt = JStr ''DENIED'') invalid ''unknown approval receipt outcome'') (\<lambda>_.
      receipt_response env receipt receipt_path)))))))))"

section \<open>Status and execution\<close>

definition status :: "approval_env \<Rightarrow> approval_service \<Rightarrow> int \<Rightarrow> string \<Rightarrow> dict approval_run" where
  "status env s now i =
     bind_run (request_root s i) (\<lambda>root.
     bind_run (load_json env (root @ ''/request.json'') ''formalspecgen-approval-request-v1'') (\<lambda>r.
     bind_run (sha256_file env (root @ ''/request.json'')) (\<lambda>(request_sha, _).
     bind_run (query (\<lambda>fs. is_file fs (root @ ''/receipt.json''))) (\<lambda>finished.
     if finished then validated_receipt_response env s i root
     else bind_run (pure_run (validate_request env s r i (Some now))) (\<lambda>_.
       bind_run (query (\<lambda>fs. is_file fs (root @ ''/decision.json''))) (\<lambda>decided.
       pure_run (public_request r request_sha (if decided then ''DECISION_RECORDED'' else ''PENDING''))))))))"

text \<open>Opening the lock creates its file.\<close>

definition open_lock :: "string \<Rightarrow> unit approval_run" where
  "open_lock p = store_op (\<lambda>fs. case entry_at fs p of
     None \<Rightarrow> Inr ((), fs @ [(as_posix p, Plain [])])
   | Some (Plain _) \<Rightarrow> Inr ((), fs) | Some (Link _) \<Rightarrow> Inr ((), fs) | Some _ \<Rightarrow> Inl (Uncaught ''OSError''))"

definition signature_record :: "string \<Rightarrow> string \<times> nat \<Rightarrow> signer_identity \<Rightarrow> json" where
  "signature_record p identity signer = JObj [(''path'', JStr p), (''sha256'', JStr (fst identity)),
     (''size'', JInt (int (snd identity))), (''signer_identity'', JStr (primary_fingerprint signer)),
     (''signing_fingerprint'', JStr (signing_fingerprint signer))]"

text \<open>The receipt of an approved action: bound files, the signature, and the receipt.\<close>

definition sign_approved :: "approval_env \<Rightarrow> approval_service \<Rightarrow> int \<Rightarrow> unit approval_run \<Rightarrow> string \<Rightarrow> dict \<Rightarrow> dict
    \<Rightarrow> signer_identity \<Rightarrow> string \<Rightarrow> dict approval_run" where
  "sign_approved env s completed before_receipt root r decision reviewer request_sha =
     (let artifact = path_of ''artifact'' r in
      bind_run (validate_bound_file env artifact (object_of (get_field ''artifact'' r)) ''artifact'') (\<lambda>_.
      bind_run (validate_bound_file env (path_of ''evidence_manifest'' r) (object_of (get_field ''evidence_manifest'' r))
        ''evidence manifest'') (\<lambda>_.
      bind_run (pure_run (and_then (text_at ''destination'' r) (\<lambda>p. Inr (as_posix p)))) (\<lambda>destination.
      bind_run (query (\<lambda>fs. is_file fs destination)) (\<lambda>signed.
      bind_run (if signed then ret () else invoke_signer env s root artifact destination) (\<lambda>_.
      bind_run (pure_run (one_key ''signing_identity'' r)) (\<lambda>keys.
      bind_run (verify_detached_signature env (verifier_home s) keys (text_at ''signing_identity'' r) artifact destination)
        (\<lambda>signer.
      bind_run (sha256_file env destination) (\<lambda>identity.
      bind_run (pure_run (receipt_dict env r request_sha decision reviewer ''SIGNED''
        (signature_record destination identity signer) completed)) (\<lambda>receipt.
      bind_run before_receipt (\<lambda>_.
      bind_run (write_once (root @ ''/receipt.json'') (approval_bytes receipt)) (\<lambda>_.
      receipt_response env receipt (root @ ''/receipt.json'')))))))))))))"

definition execute_request :: "approval_env \<Rightarrow> approval_service \<Rightarrow> int \<Rightarrow> int \<Rightarrow> unit approval_run \<Rightarrow> string
    \<Rightarrow> dict approval_run" where
  "execute_request env s now completed before_receipt i =
     bind_run (request_root s i) (\<lambda>root.
     bind_run (open_lock (root @ ''/execution.lock'')) (\<lambda>_.
     bind_run (query (\<lambda>fs. is_file fs (root @ ''/receipt.json''))) (\<lambda>finished.
     if finished then validated_receipt_response env s i root
     else bind_run (load_json env (root @ ''/request.json'') ''formalspecgen-approval-request-v1'') (\<lambda>r.
       bind_run (pure_run (validate_request env s r i (Some now))) (\<lambda>_.
       bind_run (authenticate_decision env s root r) (\<lambda>(decision, reviewer, request_sha).
       if get_field ''decision'' decision = JStr ''deny'' then
         bind_run (pure_run (receipt_dict env r request_sha decision reviewer ''DENIED'' JNull completed)) (\<lambda>receipt.
         bind_run (write_once (root @ ''/receipt.json'') (approval_bytes receipt)) (\<lambda>_.
         receipt_response env receipt (root @ ''/receipt.json'')))
       else sign_approved env s completed before_receipt root r decision reviewer request_sha))))))"

section \<open>The human decision\<close>

definition unlink :: "string \<Rightarrow> unit approval_run" where
  "unlink p = store_op (\<lambda>fs. Inr ((), filter (\<lambda>(q, _). q \<noteq> as_posix p) fs))"

definition decision_dict_of :: "approval_env \<Rightarrow> dict \<Rightarrow> string \<Rightarrow> string \<Rightarrow> int \<Rightarrow> approval_error + dict" where
  "decision_dict_of env r request_sha verdict now =
     and_then (map_res (\<lambda>k. item k r) [''policy_version'', ''request_id'', ''operation_id'', ''action'', ''destination'',
       ''signing_identity'']) (\<lambda>fields.
     and_then (and_then (dict_at ''artifact'' r) (item ''sha256'')) (\<lambda>artifact.
     and_then (and_then (dict_at ''evidence_manifest'' r) (item ''sha256'')) (\<lambda>manifest.
     Inr [(''schema'', JStr ''formalspecgen-approval-decision-v1''), (''policy_version'', fields ! 0), (''request_id'', fields ! 1),
       (''operation_id'', fields ! 2), (''request_sha256'', JStr request_sha), (''action'', fields ! 3),
       (''artifact_sha256'', artifact), (''evidence_manifest_sha256'', manifest), (''destination'', fields ! 4),
       (''signing_identity'', fields ! 5), (''decision'', JStr verdict), (''decided_at'', JStr (write_time env now))])))"

text \<open>A signature that fails takes the decision back.\<close>

definition record_human_decision :: "approval_env \<Rightarrow> string \<Rightarrow> string \<Rightarrow> string \<Rightarrow> string \<Rightarrow> string option \<Rightarrow> int
    \<Rightarrow> dict approval_run" where
  "record_human_decision env approval_root i verdict key home now =
     (let root = resolve_path env approval_root @ ''/'' @ i; decision_path = root @ ''/decision.json'';
          signature_path = root @ ''/decision.json.sig'';
          command = [''gpg''] @ (case home of None \<Rightarrow> [] | Some h \<Rightarrow> [''--homedir'', resolve_path env h]) @
            [''--batch'', ''--yes'', ''--local-user'', key, ''--detach-sign'', ''--output'', signature_path, decision_path] in
      bind_run (check (verdict \<in> {''approve'', ''deny''}) ''APPROVAL_DECISION_INVALID'' ''decision must be approve or deny'') (\<lambda>_.
      bind_run (check (request_id_ok i) ''APPROVAL_NOT_FOUND'' ''invalid approval request id'') (\<lambda>_.
      bind_run (load_json env (root @ ''/request.json'') ''formalspecgen-approval-request-v1'') (\<lambda>r.
      bind_run (sha256_file env (root @ ''/request.json'')) (\<lambda>(request_sha, _).
      bind_run (pure_run (decision_dict_of env r request_sha verdict now)) (\<lambda>value.
      bind_run (write_once decision_path (approval_bytes value)) (\<lambda>_.
      bind_run (process env command) (\<lambda>(code, _).
      bind_run (query (\<lambda>fs. is_file fs signature_path)) (\<lambda>written.
      if code \<noteq> 0 \<or> \<not> written then
        bind_run (unlink signature_path) (\<lambda>_. bind_run (unlink decision_path) (\<lambda>_.
        pure_run (Inl (ApprovalError ''APPROVAL_SIGNATURE_FAILED'' ''human decision signature failed''))))
      else bind_run (sha256_file env decision_path) (\<lambda>(decision_sha, _).
        bind_run (sha256_file env signature_path) (\<lambda>(signature_sha, _).
        ret [(''status'', JStr ''DECISION_RECORDED''), (''request_id'', JStr i), (''decision'', JStr verdict),
          (''request_sha256'', JStr request_sha), (''decision_sha256'', JStr decision_sha),
          (''signature_sha256'', JStr signature_sha)]))))))))))) "

section \<open>Successful steps\<close>

lemma check_Inr: "check b code m fs = (Inr u, fs') \<longleftrightarrow> b \<and> fs' = fs"
  by (auto simp: check_def pure_run_def)

lemma query_Inr: "query f fs = (Inr x, fs') \<longleftrightarrow> x = f fs \<and> fs' = fs"
  by (auto simp: query_def store_read_def)

lemma process_Inr: "process env command fs = (Inr x, fs') \<longleftrightarrow> run_process env command fs = (x, fs')"
  by (auto simp: process_def split: prod.splits)

lemma sha256_file_Inr: "sha256_file env p fs = (Inr x, fs') \<longleftrightarrow>
    (\<exists>b. entry_at fs p = Some (Plain b) \<and> x = (sha256 env b, length b) \<and> fs' = fs)"
  by (auto simp: sha256_file_def store_read_def split: option.splits entry.splits)

lemma load_json_Inr: "load_json env p schema fs = (Inr d, fs') \<longleftrightarrow>
    (\<exists>b. content_at fs p = Some b \<and> decode env b = Inr (JObj d) \<and> get_field ''schema'' d = JStr schema \<and> fs' = fs)"
  by (auto simp: load_json_def store_read_def split: option.splits sum.splits io_error.splits if_splits)

lemma write_once_Inr: "write_once p content fs = (Inr u, fs') \<longleftrightarrow>
    entry_at fs p = None \<and> fs' = fs @ [(as_posix p, Plain content)]"
  by (auto simp: write_once_def store_op_def)

lemmas approval_Inr = run_Inr check_Inr query_Inr process_Inr sha256_file_Inr load_json_Inr write_once_Inr

text \<open>What a verified signature means.\<close>

definition verified_by :: "approval_env \<Rightarrow> string \<Rightarrow> string list \<Rightarrow> string \<Rightarrow> string \<Rightarrow> string \<Rightarrow> files \<Rightarrow> signer_identity \<Rightarrow> files \<Rightarrow> bool" where
  "verified_by env home keys expected artifact signature fs identity fs' \<longleftrightarrow> (\<exists>output.
     run_process env (gpg_verify home signature artifact) fs = ((0, output), fs') \<and>
     validsig_identity (split_on line_break output) = Some identity \<and>
     (\<exists>key \<in> set keys. matches_identity (primary_fingerprint identity) key) \<and>
     (expected = [] \<or> matches_identity (primary_fingerprint identity) expected))"

lemma verify_detached_Inr: "verify_detached_signature env home trusted wanted artifact signature fs = (Inr identity, fs') \<longleftrightarrow>
    (\<exists>keys expected. trusted = Inr keys \<and> wanted = Inr expected \<and>
       verified_by env home keys expected artifact signature fs identity fs')"
  by (cases trusted; cases wanted)
    (auto simp: verify_detached_signature_def verified_by_def approval_Inr list_ex_iff split: option.splits)

lemma validate_bound_Inr: "validate_bound_file env p b label fs = (Inr u, fs') \<longleftrightarrow> fs' = fs \<and>
    (\<exists>content. entry_at fs p = Some (Plain content) \<and> json_eq (JStr (sha256 env content)) (get_field ''sha256'' b) \<and>
       json_eq (JInt (int (length content))) (get_field ''size'' b))"
  by (auto simp: validate_bound_file_def approval_Inr)

lemma validate_request_Inr: "validate_request env s r i (Some now) = Inr u \<longleftrightarrow> request_ok env s r i \<and>
    (\<exists>e t. map_of r ''expires_at'' = Some e \<and> read_time env (py_str (text_of_value env) e) = Some (True, t) \<and> now < t)"
  by (auto simp: validate_request_def Let_def and_then_Inr_iff split: option.splits)

text \<open>An authenticated decision: its bytes, the request it repeats, and who signed it.\<close>

definition authenticated :: "approval_env \<Rightarrow> approval_service \<Rightarrow> string \<Rightarrow> dict \<Rightarrow> files \<Rightarrow> dict \<Rightarrow> signer_identity \<Rightarrow> string
    \<Rightarrow> files \<Rightarrow> bool" where
  "authenticated env s root r fs decision reviewer request_sha fs' \<longleftrightarrow> (\<exists>b request expected.
     content_at fs (root @ ''/decision.json'') = Some b \<and> decode env b = Inr (JObj decision) \<and>
     entry_at fs (root @ ''/request.json'') = Some (Plain request) \<and> request_sha = sha256 env request \<and>
     get_field ''decision'' decision \<in> {JStr ''approve'', JStr ''deny''} \<and>
     list_all (\<lambda>(k, v). json_eq (get_field k decision) v) (decision_bindings r request_sha) \<and>
     get_field ''reviewer_identity'' r = JStr expected \<and>
     verified_by env (verifier_home s) (authorized_reviewers s) expected (root @ ''/decision.json'')
       (root @ ''/decision.json.sig'') fs reviewer fs')"

lemma validate_decision_Inr: "validate_decision decision r sha = Inr u \<longleftrightarrow>
    get_field ''decision'' decision \<in> {JStr ''approve'', JStr ''deny''} \<and>
    list_all (\<lambda>(k, v). json_eq (get_field k decision) v) (decision_bindings r sha)"
  by (auto simp: validate_decision_def Let_def split: json.splits)

lemma one_keyD: "one_key k d = Inr (Inr keys) \<Longrightarrow> \<exists>key. text_at k d = Inr key \<and> keys = [key]"
  by (auto simp: one_key_def text_at_def and_then_Inr_iff split: json.splits)

lemma text_at_Inr: "text_at k d = Inr t \<longleftrightarrow> get_field k d = JStr t"
  by (auto simp: text_at_def split: json.splits)

lemma authenticateD:
  assumes "authenticate_decision env s root r fs = (Inr (decision, reviewer, request_sha), fs')"
  shows "authenticated env s root r fs decision reviewer request_sha fs'"
proof -
  from assms obtain b request expected where
    "content_at fs (root @ ''/decision.json'') = Some b" "decode env b = Inr (JObj decision)"
    "entry_at fs (root @ ''/request.json'') = Some (Plain request)" "request_sha = sha256 env request"
    "validate_decision decision r request_sha = Inr ()" "get_field ''reviewer_identity'' r = JStr expected"
    "verified_by env (verifier_home s) (authorized_reviewers s) expected (root @ ''/decision.json'')
       (root @ ''/decision.json.sig'') fs reviewer fs'"
    by (auto simp: authenticate_decision_def Let_def approval_Inr verify_detached_Inr text_at_Inr
        split: prod.splits)
  then show ?thesis unfolding authenticated_def validate_decision_Inr by blast
qed

text \<open>Files of different names are different files.\<close>

lemma path_tail_as_posix: "path_tail (as_posix s) = path_tail s"
proof -
  let ?t = "path_tail s"
  have slash: "path_tail (CHR ''/'' # x) = path_tail x" for x by (simp add: path_tail_def)
  have root: "path_tail (path_root s @ x) = path_tail x" for x by (auto simp: path_root_def slash)
  have parts: "\<forall>p \<in> set ?t. p \<noteq> [] \<and> p \<noteq> ''.'' \<and> CHR ''/'' \<notin> set p"
    using split_slash_no_slash[of _ s] by (auto simp: path_tail_def)
  have "path_tail (join ''/'' ?t) = ?t"
  proof (cases "?t = []")
    case False
    with parts have "split_slash (join ''/'' ?t) = ?t" by (intro split_slash_join) auto
    then show ?thesis using parts unfolding path_tail_def[of "join ''/'' ?t"] by (auto intro: filter_True)
  qed (simp add: path_tail_def)
  with root have "path_tail (path_root s @ join ''/'' ?t) = ?t" by simp
  then show ?thesis by (auto simp: as_posix_def Let_def) (simp add: path_tail_def)
qed

lemma path_name_child: "flat_name n \<Longrightarrow> path_name (x @ ''/'' @ n) = n"
  using flat_name_path(2)[of n] by (simp add: path_name_def path_tail_def split_slash_append)

lemma child_paths: "\<lbrakk>flat_name m; flat_name n; m \<noteq> n\<rbrakk> \<Longrightarrow> as_posix (x @ ''/'' @ m) \<noteq> as_posix (y @ ''/'' @ n)"
  using path_name_child[of m x] path_name_child[of n y] path_tail_as_posix unfolding path_name_def by metis

lemma approval_names [simp]: "flat_name ''request.json''" "flat_name ''receipt.json''" "flat_name ''decision.json''"
  "flat_name ''decision.json.sig''" "flat_name ''execution.lock''"
  by (simp_all add: flat_name_def)

section \<open>Nothing is signed without an approval\<close>

definition bound_content :: "approval_env \<Rightarrow> files \<Rightarrow> dict \<Rightarrow> string \<Rightarrow> bool" where
  "bound_content env fs r k \<longleftrightarrow> (\<exists>content. entry_at fs (path_of k r) = Some (Plain content) \<and>
     json_eq (JStr (sha256 env content)) (digest_of k r) \<and>
     json_eq (JInt (int (length content))) (get_field ''size'' (object_of (get_field k r))))"

lemma item_get: "item k d = Inr v \<Longrightarrow> get_field k d = v"
  by (auto simp: item_def get_field_def split: option.splits)

lemma receipt_response_Inr:
  assumes "receipt_response env receipt p fs = (Inr resp, fs')"
  shows "fs' = fs" and "get_field ''status'' resp = get_field ''status'' receipt"
    and "get_field ''request_satisfied'' resp = JBool (get_field ''status'' receipt = JStr ''SIGNED'')"
proof -
  let ?keys = "[''status'', ''request_id'', ''operation_id'', ''action'', ''reviewer_identity'']"
  from assms obtain fields where f: "map_res (\<lambda>k. item k receipt) ?keys = Inr fields" and
    "fs' = fs" and r: "get_field ''status'' resp = fields ! 0"
      "get_field ''request_satisfied'' resp = JBool (fields ! 0 = JStr ''SIGNED'')"
    unfolding receipt_response_def bind_run_iff pure_run_Inr sha256_file_Inr and_then_Inr_iff
    by (fastforce simp: approval_Inr and_then_Inr_iff)
  from f have "item ''status'' receipt = Inr (fields ! 0)"
    unfolding map_res_Inr_iff by (cases fields) simp_all
  then have "get_field ''status'' receipt = fields ! 0" by (simp add: item_get)
  with r \<open>fs' = fs\<close> show "fs' = fs" "get_field ''status'' resp = get_field ''status'' receipt"
    "get_field ''request_satisfied'' resp = JBool (get_field ''status'' receipt = JStr ''SIGNED'')" by simp_all
qed

lemma sign_approvedD:
  assumes "sign_approved env s completed before_receipt root r decision reviewer request_sha fs = (Inr resp, fs')"
  shows "\<exists>key path destination fs1 fs2 signer b receipt. bound_content env fs r ''artifact'' \<and> bound_content env fs r ''evidence_manifest'' \<and>
    get_field ''signing_identity'' r = JStr key \<and> get_field ''destination'' r = JStr path \<and> destination = as_posix path \<and>
    verified_by env (verifier_home s) [key] key (path_of ''artifact'' r) destination fs1 signer fs2 \<and>
    entry_at fs2 destination = Some (Plain b) \<and>
    receipt_dict env r request_sha decision reviewer ''SIGNED'' (signature_record destination (sha256 env b, length b) signer)
      completed = Inr receipt \<and>
    entry_at fs' (root @ ''/receipt.json'') = Some (Plain (approval_bytes receipt))"
proof -
  from assms obtain path destination key fs1 fs2 signer b receipt fs3 where
    bound: "validate_bound_file env (path_of ''artifact'' r) (object_of (get_field ''artifact'' r)) ''artifact'' fs = (Inr (), fs)"
      "validate_bound_file env (path_of ''evidence_manifest'' r) (object_of (get_field ''evidence_manifest'' r))
        ''evidence manifest'' fs = (Inr (), fs)" and
    texts: "text_at ''destination'' r = Inr path" "text_at ''signing_identity'' r = Inr key" "destination = as_posix path" and
    sig: "verified_by env (verifier_home s) [key] key (path_of ''artifact'' r) destination fs1 signer fs2"
      "entry_at fs2 destination = Some (Plain b)" and
    rec: "receipt_dict env r request_sha decision reviewer ''SIGNED'' (signature_record destination (sha256 env b, length b) signer)
        completed = Inr receipt" and
    out: "entry_at fs3 (root @ ''/receipt.json'') = None"
      "receipt_response env receipt (root @ ''/receipt.json'')
        (fs3 @ [(as_posix (root @ ''/receipt.json''), Plain (approval_bytes receipt))]) = (Inr resp, fs')"
    unfolding sign_approved_def Let_def bind_run_iff
    by (auto simp: validate_bound_Inr query_Inr pure_run_Inr sha256_file_Inr write_once_Inr verify_detached_Inr
        and_then_Inr_iff dest!: one_keyD)
  have "entry_at fs' (root @ ''/receipt.json'') = Some (Plain (approval_bytes receipt))"
    using receipt_response_Inr(1)[OF out(2)] out(1) by (simp add: entry_at_def map_add_def)
  with bound texts sig rec show ?thesis
    unfolding bound_content_def digest_of_def text_at_Inr validate_bound_Inr by blast
qed

lemma lock_keeps: "open_lock p fs = (Inr u, fs') \<Longrightarrow> entry_at fs q = Some e \<Longrightarrow> entry_at fs' q = Some e"
  by (auto simp: open_lock_def store_op_def entry_at_def map_add_def split: option.splits entry.splits sum.splits)

lemma lock_other: "open_lock (x @ ''/execution.lock'') fs = (Inr u, fs') \<Longrightarrow> flat_name n \<Longrightarrow> n \<noteq> ''execution.lock'' \<Longrightarrow>
    entry_at fs' (y @ ''/'' @ n) = entry_at fs (y @ ''/'' @ n)"
  using child_paths[of n "''execution.lock''" y x]
  by (auto simp: open_lock_def store_op_def entry_at_def map_add_def split: option.splits entry.splits sum.splits if_splits)

lemma receipt_dict_status: "receipt_dict env r sha decision reviewer st signature completed = Inr receipt \<Longrightarrow>
    get_field ''status'' receipt = JStr st"
  by (auto simp: receipt_dict_def and_then_Inr_iff)

text \<open>C10: nothing is signed without an approval: when executing a request without a receipt reports success, then the
  request is unexpired and unaltered, a decision in its folder repeats every binding of the request and approves it,
  GnuPG attributed that decision to an authorised reviewer who is the one the request names, artifact and evidence
  have the bytes the request bound, the signature over the artifact is by the bound signing identity, and the
  receipt that records all this has been written.\<close>

theorem signed_only_after_approval:
  assumes "execute_request env s now completed before_receipt i fs = (Inr resp, fs')"
    and "get_field ''request_satisfied'' resp = JBool True"
    and "\<not> is_file fs (request_folder s i @ ''/receipt.json'')"
  shows "\<exists>r b e expires decision reviewer request_sha fs0 fs1 fs2 fs3 key path destination signer signature receipt.
    content_at fs (request_folder s i @ ''/request.json'') = Some b \<and> decode env b = Inr (JObj r) \<and> request_ok env s r i \<and>
    map_of r ''expires_at'' = Some e \<and> read_time env (py_str (text_of_value env) e) = Some (True, expires) \<and> now < expires \<and>
    authenticated env s (request_folder s i) r fs0 decision reviewer request_sha fs1 \<and>
    get_field ''decision'' decision = JStr ''approve'' \<and>
    bound_content env fs1 r ''artifact'' \<and> bound_content env fs1 r ''evidence_manifest'' \<and>
    get_field ''signing_identity'' r = JStr key \<and> get_field ''destination'' r = JStr path \<and> destination = as_posix path \<and>
    verified_by env (verifier_home s) [key] key (path_of ''artifact'' r) destination fs2 signer fs3 \<and>
    entry_at fs3 destination = Some (Plain signature) \<and>
    receipt_dict env r request_sha decision reviewer ''SIGNED''
      (signature_record destination (sha256 env signature, length signature) signer) completed = Inr receipt \<and>
    entry_at fs' (request_folder s i @ ''/receipt.json'') = Some (Plain (approval_bytes receipt))"
proof -
  let ?root = "request_folder s i"
  from assms(1) obtain fs0 where lock: "open_lock (?root @ ''/execution.lock'') fs = (Inr (), fs0)" and
    rest: "(if is_file fs0 (?root @ ''/receipt.json'') then validated_receipt_response env s i ?root
      else bind_run (load_json env (?root @ ''/request.json'') ''formalspecgen-approval-request-v1'') (\<lambda>r.
        bind_run (pure_run (validate_request env s r i (Some now))) (\<lambda>_.
        bind_run (authenticate_decision env s ?root r) (\<lambda>(decision, reviewer, request_sha).
        if get_field ''decision'' decision = JStr ''deny'' then
          bind_run (pure_run (receipt_dict env r request_sha decision reviewer ''DENIED'' JNull completed)) (\<lambda>receipt.
          bind_run (write_once (?root @ ''/receipt.json'') (approval_bytes receipt)) (\<lambda>_.
          receipt_response env receipt (?root @ ''/receipt.json'')))
        else sign_approved env s completed before_receipt ?root r decision reviewer request_sha)))) fs0 = (Inr resp, fs')"
    by (auto simp: execute_request_def request_root_def approval_Inr)
  have same: "entry_at fs0 (?root @ ''/request.json'') = entry_at fs (?root @ ''/request.json'')"
    "entry_at fs0 (?root @ ''/receipt.json'') = entry_at fs (?root @ ''/receipt.json'')"
    using lock_other[OF lock, of "''request.json''" ?root] lock_other[OF lock, of "''receipt.json''" ?root] by simp_all
  then have "\<not> is_file fs0 (?root @ ''/receipt.json'')" using assms(3) by (simp add: is_file_def content_at_def)
  with rest obtain b r decision reviewer request_sha fs1 where
    load: "content_at fs0 (?root @ ''/request.json'') = Some b" "decode env b = Inr (JObj r)" and
    valid: "validate_request env s r i (Some now) = Inr ()" and
    auth: "authenticate_decision env s ?root r fs0 = (Inr (decision, reviewer, request_sha), fs1)" and
    final: "(if get_field ''decision'' decision = JStr ''deny'' then
        bind_run (pure_run (receipt_dict env r request_sha decision reviewer ''DENIED'' JNull completed)) (\<lambda>receipt.
        bind_run (write_once (?root @ ''/receipt.json'') (approval_bytes receipt)) (\<lambda>_.
        receipt_response env receipt (?root @ ''/receipt.json'')))
      else sign_approved env s completed before_receipt ?root r decision reviewer request_sha) fs1 = (Inr resp, fs')"
    by (auto simp: bind_run_iff pure_run_Inr load_json_Inr split: prod.splits)
  note a = authenticateD[OF auth]
  have approve: "get_field ''decision'' decision = JStr ''approve''"
  proof (rule ccontr)
    assume "get_field ''decision'' decision \<noteq> JStr ''approve''"
    with a have "get_field ''decision'' decision = JStr ''deny''" by (auto simp: authenticated_def)
    with final obtain receipt fs2 where
      "receipt_dict env r request_sha decision reviewer ''DENIED'' JNull completed = Inr receipt"
      "receipt_response env receipt (?root @ ''/receipt.json'') fs2 = (Inr resp, fs')"
      by (auto simp: bind_run_iff pure_run_Inr)
    with assms(2) receipt_response_Inr(3) receipt_dict_status show False by fastforce
  qed
  with final have "sign_approved env s completed before_receipt ?root r decision reviewer request_sha fs1 = (Inr resp, fs')"
    by simp
  from sign_approvedD[OF this] show ?thesis
    using load valid a approve same(1) unfolding validate_request_Inr content_at_def by metis
qed
text \<open>A small setting: one request, approved and signed, with a GnuPG that vouches for one key.\<close>

definition demo_key :: string where "demo_key = replicate 40 (CHR ''A'')"

definition demo_id :: string where "demo_id = replicate 32 (CHR ''0'')"

definition demo_digest :: string where "demo_digest = replicate 64 (CHR ''a'')"

definition demo_request :: dict where
  "demo_request = [(''schema'', JStr ''formalspecgen-approval-request-v1''), (''policy_version'', JStr ''formalspecgen-approval-policy-v2''),
     (''request_id'', JStr demo_id), (''operation_id'', JStr demo_id), (''action'', JStr ''sign-refactor-evidence''),
     (''artifact'', bound_file ''/a'' (demo_digest, 1)), (''evidence_manifest'', bound_file ''/m'' (demo_digest, 1)),
     (''destination'', JStr ''/out''), (''signing_identity'', JStr demo_key), (''reviewer_identity'', JStr demo_key),
     (''admission_profile_sha256'', JStr demo_digest), (''verification'', JObj [(''claim'', JStr ''PROVED'')]),
     (''expires_at'', JStr ''later'')]"

definition demo_approval_env :: approval_env where
  "demo_approval_env = \<lparr>run_process = (\<lambda>command fs. ((0, ''[GNUPG:] VALIDSIG '' @ demo_key), fs)), sha256 = (\<lambda>_. demo_digest),
     decode = (\<lambda>b. Inr (JObj (if b = ''REQ'' then demo_request
       else (''schema'', JStr ''formalspecgen-approval-decision-v1'') # (''decision'', JStr ''approve'') #
         decision_bindings demo_request demo_digest))),
     text_of_value = (\<lambda>_. []), resolve_path = (\<lambda>p. p), read_time = (\<lambda>_. Some (True, 10)), write_time = (\<lambda>_. ''t''),
     executable = (\<lambda>_. True)\<rparr>"

definition demo_approval_service :: approval_service where
  "demo_approval_service = \<lparr>app_root = ''/r'', verifier_home = ''/home'', authorized_reviewers = [demo_key], app_signer = None,
     signing_identity = demo_key, reviewer_identity = demo_key, app_action = ''sign-refactor-evidence''\<rparr>"

definition demo_files :: files where
  "demo_files = (let root = ''/r/'' @ demo_id in
     [(root, Folder), (root @ ''/request.json'', Plain ''REQ''), (root @ ''/decision.json'', Plain ''DEC''),
      (root @ ''/decision.json.sig'', Plain ''SIG''), (''/a'', Plain ''x''), (''/m'', Plain ''y''), (''/out'', Plain ''z'')])"

definition demo_run :: "(approval_error + dict) \<times> files" where
  "demo_run = execute_request demo_approval_env demo_approval_service 0 0 (ret ()) demo_id demo_files"

text \<open>What each step of the execution gives there.\<close>

definition demo_root :: string where
  "demo_root = ''/r/'' @ demo_id"

definition demo_fs0 :: files where
  "demo_fs0 = demo_files @ [(demo_root @ ''/execution.lock'', Plain [])]"

definition demo_decision :: dict where
  "demo_decision = (''schema'', JStr ''formalspecgen-approval-decision-v1'') # (''decision'', JStr ''approve'') #
     decision_bindings demo_request demo_digest"

definition demo_signer :: signer_identity where
  "demo_signer = \<lparr>signing_fingerprint = demo_key, primary_fingerprint = demo_key\<rparr>"

lemma demo_before:
  "request_root demo_approval_service demo_id demo_files = (Inr demo_root, demo_files)"
  "open_lock (demo_root @ ''/execution.lock'') demo_files = (Inr (), demo_fs0)"
  "is_file demo_fs0 (demo_root @ ''/receipt.json'') = False"
  "load_json demo_approval_env (demo_root @ ''/request.json'') ''formalspecgen-approval-request-v1'' demo_fs0 =
     (Inr demo_request, demo_fs0)"
  "validate_request demo_approval_env demo_approval_service demo_request demo_id (Some 0) = Inr ()"
  "authenticate_decision demo_approval_env demo_approval_service demo_root demo_request demo_fs0 =
    (Inr (demo_decision, demo_signer, demo_digest), demo_fs0)"
  "(get_field ''decision'' demo_decision = JStr ''deny'') = False"
  by code_simp+

definition demo_receipt :: dict where
  "demo_receipt = (case receipt_dict demo_approval_env demo_request demo_digest demo_decision demo_signer ''SIGNED''
     (signature_record ''/out'' (demo_digest, Suc 0) demo_signer) 0 of Inr receipt \<Rightarrow> receipt | Inl _ \<Rightarrow> [])"

lemma demo_signing:
  "validate_bound_file demo_approval_env (path_of ''artifact'' demo_request) 
    (object_of (get_field ''artifact'' demo_request)) ''artifact'' demo_fs0 = (Inr (), demo_fs0)"
  "validate_bound_file demo_approval_env (path_of ''evidence_manifest'' demo_request) 
    (object_of (get_field ''evidence_manifest'' demo_request)) ''evidence manifest'' demo_fs0 = (Inr (), demo_fs0)"
  "text_at ''destination'' demo_request = Inr ''/out''" "as_posix ''/out'' = ''/out''" "is_file demo_fs0 ''/out'' = True"
  "one_key ''signing_identity'' demo_request = Inr (Inr [demo_key])" "text_at ''signing_identity'' demo_request = Inr demo_key"
  "verify_detached_signature demo_approval_env (verifier_home demo_approval_service) (Inr [demo_key]) (Inr demo_key)
    (path_of ''artifact'' demo_request) ''/out'' demo_fs0
   = (Inr demo_signer, demo_fs0)"
  "sha256_file demo_approval_env ''/out'' demo_fs0 = (Inr (demo_digest, Suc 0), demo_fs0)"
  "receipt_dict demo_approval_env demo_request demo_digest demo_decision demo_signer ''SIGNED''
     (signature_record ''/out'' (demo_digest, Suc 0) demo_signer) 0 = Inr demo_receipt"
  "entry_at demo_fs0 (demo_root @ ''/receipt.json'') = None"
  by code_simp+

lemma demo_receipt_fields:
  "dict_at ''verification'' demo_receipt = Inr [(''claim'', JStr ''PROVED'')]"
  "item ''claim'' [(''claim'', JStr ''PROVED'')] = Inr (JStr ''PROVED'')"
  "item ''status'' demo_receipt = Inr (JStr ''SIGNED'')" "item ''request_id'' demo_receipt = Inr (JStr demo_id)"
  "item ''operation_id'' demo_receipt = Inr (JStr demo_id)" "item ''action'' demo_receipt = Inr (JStr ''sign-refactor-evidence'')"
  "item ''reviewer_identity'' demo_receipt = Inr (JStr demo_key)"
  by code_simp+

lemma demo_answer:
  "\<exists>resp. receipt_response demo_approval_env demo_receipt p (demo_fs0 @ [(as_posix p, Plain b)]) =
     (Inr resp, demo_fs0 @ [(as_posix p, Plain b)]) \<and> get_field ''request_satisfied'' resp = JBool True"
  if "entry_at demo_fs0 p = None"
proof -
  from that have "entry_at (demo_fs0 @ [(as_posix p, Plain b)]) p = Some (Plain b)" by (simp add: entry_at_def map_add_def)
  then show ?thesis
    by (simp add: receipt_response_def bind_run_def handle_run_def sha256_file_def store_read_def pure_run_def and_then_def
        demo_receipt_fields)
qed

lemma demo_run_signed: "\<exists>resp. demo_run = (Inr resp, demo_fs0 @
    [(as_posix (demo_root @ ''/receipt.json''), Plain (approval_bytes demo_receipt))]) \<and>
    get_field ''request_satisfied'' resp = JBool True"
  using demo_answer[OF demo_signing(11), of "approval_bytes demo_receipt"]
  by (simp add: demo_run_def execute_request_def sign_approved_def Let_def bind_run_def handle_run_def query_def store_read_def
      pure_run_def ret_def demo_before demo_signing write_once_def store_op_def and_then_def)
lemma demo_run_fresh: "\<not> is_file demo_files (request_folder demo_approval_service demo_id @ ''/receipt.json'')"
  by code_simp

theorem signed_only_after_approval_witness:
  "\<exists>r decision reviewer request_sha fs0 fs1. get_field ''decision'' decision = JStr ''approve'' \<and>
     authenticated demo_approval_env demo_approval_service (request_folder demo_approval_service demo_id) r fs0 decision
       reviewer request_sha fs1"
proof -
  obtain resp fs' where "demo_run = (Inr resp, fs')" and "get_field ''request_satisfied'' resp = JBool True"
    using demo_run_signed by blast
  from signed_only_after_approval[OF this(1)[unfolded demo_run_def] this(2) demo_run_fresh] show ?thesis by blast
qed

end
