(* ===== verification/Protected_Signer.thy ===== *)
theory Protected_Signer
  imports Approval_Service
begin

text \<open>
  The operator's signer, \<^verbatim>\<open>pipeline/protected_signer.py\<close>: it captures request, decision, artifact and
  evidence once into a private directory, checks every binding again on what it captured, lets GnuPG sign the
  captured artifact and links the signature to a name that must not exist.  Other processes may act before every
  read of a path that is not its own: \<open>others\<close> is what they do.
\<close>

section \<open>The signer's surroundings\<close>

record signer_env =
  base :: approval_env
  variable_of :: "string \<Rightarrow> string option"
  user_path :: "string \<Rightarrow> string"
  scratch :: string
  temporary_path :: string
  others :: "string \<Rightarrow> files \<Rightarrow> files"

definition meanwhile :: "signer_env \<Rightarrow> string \<Rightarrow> unit approval_run" where
  "meanwhile env label fs = (Inr (), others env label fs)"

definition snapshot :: "signer_env \<Rightarrow> string \<Rightarrow> string" where
  "snapshot env n = scratch env @ ''/'' @ n"

definition finally_run :: "'a approval_run \<Rightarrow> unit approval_run \<Rightarrow> 'a approval_run" where
  "finally_run m c = handle_run m (\<lambda>e. bind_run c (\<lambda>_. pure_run (Inl e))) (\<lambda>x. bind_run c (\<lambda>_. ret x))"

definition remove_tree :: "string \<Rightarrow> unit approval_run" where
  "remove_tree p = store_op (\<lambda>fs. Inr ((), filter (\<lambda>(q, _). q \<noteq> as_posix p \<and> \<not> starts_with (as_posix p @ ''/'') q) fs))"

definition with_folder :: "string \<Rightarrow> 'a approval_run \<Rightarrow> 'a approval_run" where
  "with_folder p m = bind_run (make_folder False p) (\<lambda>_. finally_run m (remove_tree p))"

definition create_file :: "string \<Rightarrow> string \<Rightarrow> unit approval_run" where
  "create_file p content = store_op (\<lambda>fs. if entry_at fs p = None then Inr ((), fs @ [(as_posix p, Plain content)])
     else Inl (Uncaught ''FileExistsError''))"

definition link_file :: "string \<Rightarrow> string \<Rightarrow> unit approval_run" where
  "link_file p q = store_op (\<lambda>fs. case entry_at fs p of None \<Rightarrow> Inl (Uncaught ''FileNotFoundError'')
     | Some e \<Rightarrow> if entry_at fs q \<noteq> None then Inl (ApprovalError ''APPROVAL_REPLAY'' ''signature already exists'')
         else Inr ((), fs @ [(as_posix q, e)]))"

section \<open>Capturing\<close>

definition capture_input :: "signer_env \<Rightarrow> string \<Rightarrow> string \<Rightarrow> int \<Rightarrow> string \<Rightarrow> (string \<times> nat) approval_run" where
  "capture_input env source target limit label =
     bind_run (meanwhile env label) (\<lambda>_.
     bind_run (store_read (\<lambda>fs. case entry_at fs source of
         Some (Plain b) \<Rightarrow> if limit < int (length b)
           then Inl (ApprovalError ''SIGNER_INPUT_LIMIT_EXCEEDED'' (label @ '' exceeds signer limit'')) else Inr b
       | Some Folder \<Rightarrow> Inl (ApprovalError ''ARTIFACT_UNAVAILABLE'' (''unsafe '' @ label))
       | _ \<Rightarrow> Inl (ApprovalError ''ARTIFACT_UNAVAILABLE'' (''cannot capture '' @ label)))) (\<lambda>content.
     bind_run (create_file target content) (\<lambda>_. sha256_file (base env) target)))"

definition control_limit :: int where "control_limit = 1048576"

definition signed_limit :: int where "signed_limit = 8388608"

definition binding_limit :: "json \<Rightarrow> string \<Rightarrow> approval_error + int" where
  "binding_limit b label = (case int_value (get_field ''size'' (object_of b)) of
     None \<Rightarrow> Inl (ApprovalError ''APPROVAL_BINDING_MISMATCH'' (''invalid '' @ label @ '' binding''))
   | Some n \<Rightarrow> and_then (ensure (0 \<le> n \<and> n \<le> signed_limit)
       (ApprovalError ''SIGNER_INPUT_LIMIT_EXCEEDED'' (label @ '' exceeds signer limit''))) (\<lambda>_. Inr n))"

section \<open>The operator's policy\<close>

definition required_path :: "signer_env \<Rightarrow> string \<Rightarrow> bool \<Rightarrow> string approval_run" where
  "required_path env variable directory = store_read (\<lambda>fs.
     case variable_of env variable of None \<Rightarrow> Inl (ApprovalError ''SIGNER_POLICY_UNAVAILABLE'' (variable @ '' is not configured''))
     | Some raw \<Rightarrow> let p = user_path env raw in
         if raw = [] then Inl (ApprovalError ''SIGNER_POLICY_UNAVAILABLE'' (variable @ '' is not configured''))
         else if \<not> is_symlink fs p \<and> (if directory then entry_at fs p = Some Folder else is_file fs p) then Inr p
         else Inl (ApprovalError ''SIGNER_POLICY_UNAVAILABLE'' (''unsafe '' @ variable)))"

text \<open>What iterating over the value of \<open>keys\<close> gives.\<close>

definition registry_items :: "json \<Rightarrow> approval_error + json list" where
  "registry_items value = (case value of
     JObj d \<Rightarrow> (case get_default ''keys'' (JArr []) d of JArr js \<Rightarrow> Inr js | JObj e \<Rightarrow> Inr (map (\<lambda>(k, _). JStr k) e)
       | JStr t \<Rightarrow> Inr (map (\<lambda>c. JStr [c]) t)
       | _ \<Rightarrow> Inl (ApprovalError ''SIGNER_POLICY_UNAVAILABLE'' ''invalid reviewer trust registry''))
   | _ \<Rightarrow> Inl (Uncaught ''AttributeError''))"

definition registry_keys :: "approval_env \<Rightarrow> json \<Rightarrow> approval_error + string list" where
  "registry_keys env value =
     and_then (registry_items value) (\<lambda>items.
     and_then (ensure (list_all (\<lambda>j. j = JObj (object_of j)) items) (Uncaught ''AttributeError'')) (\<lambda>_.
     let keys = map (\<lambda>v. normal_identity (py_str (text_of_value env) v))
           (filter json_true (map (\<lambda>j. get_field ''key_id'' (object_of j)) items)) in
     and_then (ensure (keys \<noteq> []) (ApprovalError ''SIGNER_POLICY_UNAVAILABLE'' ''no trusted reviewers configured'')) (\<lambda>_.
     and_then (ensure (list_all fingerprint keys) (ApprovalError ''SIGNER_POLICY_UNAVAILABLE''
       ''reviewer identities must be complete OpenPGP fingerprints'')) (\<lambda>_.
     Inr keys))))"

definition trusted_reviewers :: "signer_env \<Rightarrow> string list approval_run" where
  "trusted_reviewers env =
     bind_run (required_path env ''FORMALSPECGEN_APPROVAL_TRUST_REGISTRY'' False) (\<lambda>p.
     store_read (\<lambda>fs. case content_at fs p of
         None \<Rightarrow> Inl (ApprovalError ''SIGNER_POLICY_UNAVAILABLE'' ''invalid reviewer trust registry'')
       | Some b \<Rightarrow> (case decode (base env) b of
           Inl (RuntimeFailure _) \<Rightarrow> Inl (Uncaught ''RecursionError'')
         | Inl _ \<Rightarrow> Inl (ApprovalError ''SIGNER_POLICY_UNAVAILABLE'' ''invalid reviewer trust registry'')
         | Inr value \<Rightarrow> registry_keys (base env) value)))"

section \<open>What is signed\<close>

definition mismatch :: "string \<Rightarrow> approval_error" where
  "mismatch message = ApprovalError ''APPROVAL_BINDING_MISMATCH'' message"

definition unexpired :: "approval_env \<Rightarrow> int \<Rightarrow> dict \<Rightarrow> approval_error + unit" where
  "unexpired env now r = (case map_of r ''expires_at'' of None \<Rightarrow> Inl (mismatch ''approval expiry is invalid'')
   | Some e \<Rightarrow> (case read_time env (py_str (text_of_value env) e) of None \<Rightarrow> Inl (mismatch ''approval expiry is invalid'')
     | Some (zoned, expires) \<Rightarrow>
         ensure (zoned \<and> now < expires) (ApprovalError ''APPROVAL_EXPIRED'' ''approval request has expired'')))"

definition signed_binding_ok :: "approval_env \<Rightarrow> json \<Rightarrow> bool" where
  "signed_binding_ok env b = (case b of JObj d \<Rightarrow>
      (case (get_field ''path'' d, int_value (get_field ''size'' d)) of
         (JStr _, Some _) \<Rightarrow> is_hex 64 (py_str (text_of_value env) (get_default ''sha256'' (JStr []) d))
       | _ \<Rightarrow> False)
    | _ \<Rightarrow> False)"

definition signer_actions :: "string list" where
  "signer_actions = [''sign-refactor-evidence'', ''promote-domain-v2'']"

definition supported_request :: "approval_env \<Rightarrow> dict \<Rightarrow> approval_error + unit" where
  "supported_request env r =
     (let version = (get_field ''policy_version'' r = JStr ''formalspecgen-approval-policy-v2''); action = get_field ''action'' r in
      if version \<and> (case action of JArr _ \<Rightarrow> True | JObj _ \<Rightarrow> True | _ \<Rightarrow> False) then Inl (Uncaught ''TypeError'')
      else ensure (version \<and> action \<in> set (map JStr signer_actions) \<and>
          json_eq (get_field ''request_id'' r) (get_field ''operation_id'' r) \<and>
          json_true (get_field ''reviewer_identity'' r) \<and> json_true (get_field ''signing_identity'' r) \<and>
          is_hex 64 (py_str (text_of_value env) (get_default ''admission_profile_sha256'' (JStr []) r)) \<and>
          signed_binding_ok env (get_field ''artifact'' r) \<and> signed_binding_ok env (get_field ''evidence_manifest'' r))
        (mismatch ''unsupported approval action''))"

definition signature_destination :: "dict \<Rightarrow> approval_error + json" where
  "signature_destination r =
     (if get_field ''action'' r \<noteq> JStr ''promote-domain-v2'' then Inr (get_field ''destination'' r)
      else (case get_default ''operation'' (JObj []) r of
          JObj op \<Rightarrow> and_then (ensure (get_field ''schema'' op = JStr ''formalspecgen-domain-promotion-operation-v1'' \<and>
              get_field ''sign'' op = JBool True) (mismatch ''promotion signing was not requested'')) (\<lambda>_.
            Inr (get_field ''signature_destination'' op))
        | _ \<Rightarrow> Inl (Uncaught ''AttributeError'')))"

text \<open>The checks of a request; the result is the path of the evidence.\<close>

definition signing_request :: "approval_env \<Rightarrow> int \<Rightarrow> dict \<Rightarrow> string \<Rightarrow> string \<Rightarrow> approval_error + string" where
  "signing_request env now r artifact out =
     and_then (unexpired env now r) (\<lambda>_.
     and_then (supported_request env r) (\<lambda>_.
     and_then (signature_destination r) (\<lambda>destination.
     let bound_path = (\<lambda>k. get_field ''path'' (object_of (get_field k r)));
         evidence = resolve_path env (py_str (text_of_value env) (bound_path ''evidence_manifest'')) in
     and_then (ensure (bound_path ''artifact'' = JStr artifact \<and> destination = JStr out)
       (mismatch ''artifact or destination changed'')) (\<lambda>_.
     and_then (ensure (bound_path ''evidence_manifest'' = JStr evidence) (mismatch ''evidence manifest path changed'')) (\<lambda>_.
     Inr evidence)))))"

text \<open>What the signer requires of a decision.\<close>

definition signer_bindings :: "dict \<Rightarrow> string \<Rightarrow> dict" where
  "signer_bindings r request_sha = (let artifact = object_of (get_field ''artifact'' r); evidence = object_of (get_field ''evidence_manifest'' r) in
     [(''request_id'', get_field ''request_id'' r), (''operation_id'', get_field ''operation_id'' r),
      (''request_sha256'', JStr request_sha), (''action'', get_field ''action'' r),
      (''artifact_sha256'', get_field ''sha256'' artifact), (''evidence_manifest_sha256'', get_field ''sha256'' evidence),
      (''destination'', get_field ''destination'' r), (''signing_identity'', get_field ''signing_identity'' r),
      (''policy_version'', get_field ''policy_version'' r)])"

definition approves :: "dict \<Rightarrow> dict \<Rightarrow> string \<Rightarrow> bool" where
  "approves decision r request_sha \<longleftrightarrow> get_field ''decision'' decision = JStr ''approve'' \<and>
     list_all (\<lambda>(k, v). json_eq (get_field k decision) v) (signer_bindings r request_sha)"
section \<open>Signing\<close>

definition sign_command :: "string \<Rightarrow> string \<Rightarrow> string \<Rightarrow> string \<Rightarrow> string list" where
  "sign_command home key out artifact = [''gpg'', ''--homedir'', home, ''--batch'', ''--yes'', ''--local-user'', key,
     ''--detach-sign'', ''--output'', out, artifact]"

definition capture_bound :: "signer_env \<Rightarrow> string \<Rightarrow> json \<Rightarrow> string \<Rightarrow> string \<Rightarrow> string \<Rightarrow> string approval_run" where
  "capture_bound env source b target label changed =
     bind_run (pure_run (binding_limit b label)) (\<lambda>limit.
     bind_run (capture_input env source target limit label) (\<lambda>(sha, size).
     bind_run (check (json_eq (JStr sha) (get_field ''sha256'' (object_of b)) \<and>
         json_eq (JInt (int size)) (get_field ''size'' (object_of b)))
       ''APPROVED_ARTIFACT_CHANGED'' changed) (\<lambda>_. ret sha)))"

definition signing_key :: "signer_env \<Rightarrow> dict \<Rightarrow> approval_error + string" where
  "signing_key env r =
     (let key = normal_identity (case variable_of env ''FORMALSPECGEN_SIGNING_KEY'' of None \<Rightarrow> [] | Some t \<Rightarrow> t) in
      and_then (ensure (fingerprint key \<and>
          key = ascii_upper (py_str (text_of_value (base env)) (get_field ''signing_identity'' r)))
        (ApprovalError ''SIGNER_POLICY_UNAVAILABLE'' ''signing identity is unavailable'')) (\<lambda>_. Inr key))"

text \<open>The signature is made under a temporary name and linked when it has been verified.\<close>

definition make_signature :: "signer_env \<Rightarrow> string \<Rightarrow> string \<Rightarrow> string \<Rightarrow> signer_identity approval_run" where
  "make_signature env home key out =
     bind_run (meanwhile env ''signing'') (\<lambda>_.
     bind_run (query (\<lambda>fs. entry_at fs out = None)) (\<lambda>free.
     bind_run (check free ''APPROVAL_REPLAY'' ''signature destination already exists'') (\<lambda>_.
     bind_run (unlink (temporary_path env)) (\<lambda>_.
     finally_run
       (bind_run (process (base env) (sign_command home key (temporary_path env) (snapshot env ''artifact.bin''))) (\<lambda>(code, _).
        bind_run (query (\<lambda>fs. is_file fs (temporary_path env))) (\<lambda>written.
        bind_run (check (code = 0 \<and> written) ''PROTECTED_SIGNING_FAILED'' ''GPG signing failed'') (\<lambda>_.
        bind_run (verify_detached_signature (base env) home (Inr [key]) (Inr key) (snapshot env ''artifact.bin'')
          (temporary_path env)) (\<lambda>signer.
        bind_run (link_file (temporary_path env) out) (\<lambda>_. ret signer))))))
       (unlink (temporary_path env))))))"

definition authorise_signing :: "signer_env \<Rightarrow> int \<Rightarrow> string \<Rightarrow> string \<Rightarrow> string \<Rightarrow> string \<Rightarrow> string
    \<Rightarrow> (dict \<times> string) approval_run" where
  "authorise_signing env now request_path decision_path approval_signature artifact out =
     bind_run (capture_input env request_path (snapshot env ''request.json'') control_limit ''approval request'') (\<lambda>_.
     bind_run (load_json (base env) (snapshot env ''request.json'') ''formalspecgen-approval-request-v1'') (\<lambda>r.
     bind_run (sha256_file (base env) (snapshot env ''request.json'')) (\<lambda>(request_sha, _).
     bind_run (pure_run (signing_request (base env) now r artifact out)) (\<lambda>evidence.
     bind_run (capture_input env decision_path (snapshot env ''decision.json'') control_limit ''approval decision'') (\<lambda>_.
     bind_run (capture_input env approval_signature (snapshot env ''decision.json.sig'') control_limit ''approval signature'') (\<lambda>_.
     bind_run (load_json (base env) (snapshot env ''decision.json'') ''formalspecgen-approval-decision-v1'') (\<lambda>decision.
     bind_run (check (approves decision r request_sha) ''APPROVAL_BINDING_MISMATCH''
       ''decision does not approve this exact action'') (\<lambda>_.
     bind_run (required_path env ''FORMALSPECGEN_APPROVAL_GNUPGHOME'' True) (\<lambda>home.
     bind_run (trusted_reviewers env) (\<lambda>keys.
     bind_run (verify_detached_signature (base env) home (Inr keys)
       (Inr (py_str (text_of_value (base env)) (get_default ''reviewer_identity'' (JStr []) r)))
       (snapshot env ''decision.json'') (snapshot env ''decision.json.sig'')) (\<lambda>_.
     ret (r, evidence))))))))))))"

definition signed_in_private :: "signer_env \<Rightarrow> int \<Rightarrow> string \<Rightarrow> string \<Rightarrow> string \<Rightarrow> string \<Rightarrow> string
    \<Rightarrow> (dict \<times> string \<times> signer_identity) approval_run" where
  "signed_in_private env now request_path decision_path approval_signature artifact out =
     bind_run (authorise_signing env now request_path decision_path approval_signature artifact out) (\<lambda>(r, evidence).
     bind_run (capture_bound env artifact (get_field ''artifact'' r) (snapshot env ''artifact.bin'') ''artifact''
       ''artifact changed after approval'') (\<lambda>sha.
     bind_run (capture_bound env evidence (get_field ''evidence_manifest'' r) (snapshot env ''evidence-manifest.bin'')
       ''evidence manifest'' ''evidence manifest changed'') (\<lambda>_.
     bind_run (required_path env ''FORMALSPECGEN_SIGNER_GNUPGHOME'' True) (\<lambda>home.
     bind_run (pure_run (signing_key env r)) (\<lambda>key.
     bind_run (make_signature env home key out) (\<lambda>signer.
     ret (r, sha, signer)))))))"

definition sign_approved_artifact :: "signer_env \<Rightarrow> int \<Rightarrow> string \<Rightarrow> string \<Rightarrow> string \<Rightarrow> string \<Rightarrow> string
    \<Rightarrow> dict approval_run" where
  "sign_approved_artifact env now request_path decision_path approval_signature artifact out =
     (let target = resolve_path (base env) out in
      bind_run (with_folder (scratch env) (signed_in_private env now request_path decision_path approval_signature
        (resolve_path (base env) artifact) target)) (\<lambda>(r, artifact_sha, signer).
      bind_run (sha256_file (base env) target) (\<lambda>(sha, size).
      bind_run (pure_run (item ''request_id'' r)) (\<lambda>i.
      ret [(''status'', JStr ''SIGNED''), (''request_id'', i), (''signature_sha256'', JStr sha),
        (''signature_size'', JInt (int size)), (''signing_identity'', JStr (primary_fingerprint signer)),
        (''signing_fingerprint'', JStr (signing_fingerprint signer)), (''signed_artifact_sha256'', JStr artifact_sha),
        (''private_key_exposed'', JBool False)]))))"
section \<open>Successful steps of the signer\<close>

lemma entry_at_append: "entry_at (fs @ [(as_posix p, e)]) q = (case entry_at fs q of Some x \<Rightarrow> Some x
    | None \<Rightarrow> if as_posix q = as_posix p then Some e else None)"
  by (auto simp: entry_at_def map_add_def split: option.splits)

lemma meanwhile_Inr: "meanwhile env label fs = (Inr u, fs') \<longleftrightarrow> fs' = others env label fs"
  by (auto simp: meanwhile_def)

lemma unlink_Inr: "unlink p fs = (Inr u, fs') \<longleftrightarrow> fs' = filter (\<lambda>(q, _). q \<noteq> as_posix p) fs"
  by (auto simp: unlink_def store_op_def)

lemma remove_tree_Inr: "remove_tree p fs = (Inr u, fs') \<longleftrightarrow>
    fs' = filter (\<lambda>(q, _). q \<noteq> as_posix p \<and> \<not> starts_with (as_posix p @ ''/'') q) fs"
  by (auto simp: remove_tree_def store_op_def)

lemma finally_Inr: "finally_run m c fs = (Inr x, fs') \<longleftrightarrow> (\<exists>fs1. m fs = (Inr x, fs1) \<and> c fs1 = (Inr (), fs'))"
  by (auto simp: finally_run_def handle_run_def run_Inr split: prod.splits sum.splits)

lemma capture_input_Inr: "capture_input env source target limit label fs = (Inr x, fs') \<longleftrightarrow>
    (\<exists>b. entry_at (others env label fs) source = Some (Plain b) \<and> int (length b) \<le> limit \<and>
       entry_at (others env label fs) target = None \<and> x = (sha256 (base env) b, length b) \<and>
       fs' = others env label fs @ [(as_posix target, Plain b)])"
  by (auto simp: capture_input_def run_Inr meanwhile_Inr store_read_def create_file_def store_op_def sha256_file_Inr
      entry_at_append split: option.splits entry.splits if_splits)

lemma capture_bound_Inr: "capture_bound env source b target label changed fs = (Inr x, fs') \<longleftrightarrow>
    (\<exists>limit content. binding_limit b label = Inr limit \<and> entry_at (others env label fs) source = Some (Plain content) \<and>
       int (length content) \<le> limit \<and> entry_at (others env label fs) target = None \<and> x = sha256 (base env) content \<and>
       json_eq (JStr x) (get_field ''sha256'' (object_of b)) \<and>
       json_eq (JInt (int (length content))) (get_field ''size'' (object_of b)) \<and>
       fs' = others env label fs @ [(as_posix target, Plain content)])"
  by (auto simp: capture_bound_def run_Inr capture_input_Inr check_Inr)

lemma link_file_Inr: "link_file p q fs = (Inr u, fs') \<longleftrightarrow>
    (\<exists>e. entry_at fs p = Some e \<and> entry_at fs q = None \<and> fs' = fs @ [(as_posix q, e)])"
  by (auto simp: link_file_def store_op_def split: option.splits if_splits)

text \<open>What the operator has configured: a path that a variable names, and the reviewers that the registry trusts.\<close>

definition configured :: "signer_env \<Rightarrow> string \<Rightarrow> string \<Rightarrow> bool" where
  "configured env variable p \<longleftrightarrow> (\<exists>raw. variable_of env variable = Some raw \<and> raw \<noteq> [] \<and> p = user_path env raw)"

definition trusted_key :: "signer_env \<Rightarrow> files \<Rightarrow> string \<Rightarrow> bool" where
  "trusted_key env fs key \<longleftrightarrow> (\<exists>p b d items reviewer.
     configured env ''FORMALSPECGEN_APPROVAL_TRUST_REGISTRY'' p \<and> \<not> is_symlink fs p \<and> content_at fs p = Some b \<and>
     decode (base env) b = Inr (JObj d) \<and> map_of d ''keys'' = Some (JArr items) \<and> JObj reviewer \<in> set items \<and>
     json_true (get_field ''key_id'' reviewer) \<and>
     key = normal_identity (py_str (text_of_value (base env)) (get_field ''key_id'' reviewer)) \<and> fingerprint key)"

lemma required_path_Inr: "required_path env variable directory fs = (Inr p, fs') \<Longrightarrow>
    fs' = fs \<and> configured env variable p \<and> \<not> is_symlink fs p \<and> (if directory then entry_at fs p = Some Folder else is_file fs p)"
  by (auto simp: required_path_def store_read_def configured_def Let_def split: option.splits if_splits)

lemma registry_keys_Inr:
  assumes "registry_keys env j = Inr keys"
  shows "\<exists>d items. j = JObj d \<and> map_of d ''keys'' = Some (JArr items) \<and> (\<forall>key \<in> set keys. fingerprint key \<and>
    (\<exists>reviewer. JObj reviewer \<in> set items \<and> json_true (get_field ''key_id'' reviewer) \<and>
       key = normal_identity (py_str (text_of_value env) (get_field ''key_id'' reviewer))))"
proof -
  from assms obtain items where items: "registry_items j = Inr items" and objects: "list_all (\<lambda>j. j = JObj (object_of j)) items"
    and keys: "keys = map (\<lambda>v. normal_identity (py_str (text_of_value env) v))
      (filter json_true (map (\<lambda>j. get_field ''key_id'' (object_of j)) items))" "keys \<noteq> []" "list_all fingerprint keys"
    unfolding registry_keys_def Let_def and_then_Inr_iff by auto
  from keys(1,2) have "items \<noteq> []" by auto
  then obtain d where "j = JObj d" "map_of d ''keys'' = Some (JArr items)"
    using items objects
    by (cases j; cases items) (auto simp: registry_items_def get_default_def split: json.splits option.splits prod.splits)
  moreover have "\<exists>reviewer. JObj reviewer \<in> set items \<and> json_true (get_field ''key_id'' reviewer) \<and>
       key = normal_identity (py_str (text_of_value env) (get_field ''key_id'' reviewer))" if "key \<in> set keys" for key
    using that objects unfolding keys(1) list_all_iff by auto metis
  ultimately show ?thesis using keys(3) by (auto simp: list_all_iff)
qed

lemma trusted_reviewers_Inr:
  assumes "trusted_reviewers env fs = (Inr keys, fs')"
  shows "fs' = fs \<and> (\<forall>key \<in> set keys. trusted_key env fs key)"
proof -
  from assms obtain p b where p: "fs' = fs" "configured env ''FORMALSPECGEN_APPROVAL_TRUST_REGISTRY'' p" "\<not> is_symlink fs p"
      "content_at fs p = Some b" and
    keys: "(case decode (base env) b of Inl (RuntimeFailure _) \<Rightarrow> Inl (Uncaught ''RecursionError'')
      | Inl _ \<Rightarrow> Inl (ApprovalError ''SIGNER_POLICY_UNAVAILABLE'' ''invalid reviewer trust registry'')
      | Inr value \<Rightarrow> registry_keys (base env) value) = Inr keys"
    unfolding trusted_reviewers_def run_Inr store_read_def by (force dest!: required_path_Inr split: option.splits)
  from keys obtain v where "decode (base env) b = Inr v" "registry_keys (base env) v = Inr keys"
    by (auto split: sum.splits io_error.splits)
  with p registry_keys_Inr[OF this(2)] show ?thesis unfolding trusted_key_def by blast
qed

lemma filtered_entry: "entry_at (filter (\<lambda>(q, _). P q) fs) p = (if P (as_posix p) then entry_at fs p else None)"
  unfolding entry_at_def by (induction fs) auto

lemma signing_key_Inr: "signing_key env r = Inr key \<longleftrightarrow> fingerprint key \<and>
    key = normal_identity (case variable_of env ''FORMALSPECGEN_SIGNING_KEY'' of None \<Rightarrow> [] | Some t \<Rightarrow> t) \<and>
    key = ascii_upper (py_str (text_of_value (base env)) (get_field ''signing_identity'' r))"
  by (auto simp: signing_key_def Let_def and_then_Inr_iff)

lemma signing_request_Inr:
  assumes "signing_request env now r artifact out = Inr ev"
  shows "\<exists>e expires. map_of r ''expires_at'' = Some e \<and>
    read_time env (py_str (text_of_value env) e) = Some (True, expires) \<and> now < expires \<and> supported_request env r = Inr () \<and>
    get_field ''path'' (object_of (get_field ''artifact'' r)) = JStr artifact \<and> signature_destination r = Inr (JStr out) \<and>
    get_field ''path'' (object_of (get_field ''evidence_manifest'' r)) = JStr ev"
  using assms
  by (auto simp: signing_request_def unexpired_def and_then_Inr_iff Let_def split: option.splits)
text \<open>The files after others have acted and a file of theirs has been captured.\<close>

definition captured :: "signer_env \<Rightarrow> string \<Rightarrow> string \<Rightarrow> string \<Rightarrow> files \<Rightarrow> files" where
  "captured env label source n fs = (let seen = others env label fs in
     case entry_at seen source of Some (Plain b) \<Rightarrow> seen @ [(as_posix (snapshot env n), Plain b)] | _ \<Rightarrow> seen)"

definition controls_captured :: "signer_env \<Rightarrow> string \<Rightarrow> string \<Rightarrow> string \<Rightarrow> files \<Rightarrow> files" where
  "controls_captured env request_path decision_path approval_signature fs =
     captured env ''approval signature'' approval_signature ''decision.json.sig''
      (captured env ''approval decision'' decision_path ''decision.json''
       (captured env ''approval request'' request_path ''request.json'' fs))"

lemma capture_input_captured: "capture_input env source (snapshot env n) limit label fs = (Inr x, fs') \<Longrightarrow>
    fs' = captured env label source n fs"
  by (auto simp: capture_input_Inr captured_def)

text \<open>The reviewer whose signature on the captured decision GnuPG vouches for, in the keyring of the operator.\<close>

definition reviewed_by :: "signer_env \<Rightarrow> dict \<Rightarrow> files \<Rightarrow> signer_identity \<Rightarrow> files \<Rightarrow> bool" where
  "reviewed_by env r fs reviewer fs' \<longleftrightarrow> (\<exists>home key.
     configured env ''FORMALSPECGEN_APPROVAL_GNUPGHOME'' home \<and> trusted_key env fs key \<and>
     verified_by (base env) home [key] (py_str (text_of_value (base env)) (get_default ''reviewer_identity'' (JStr []) r))
       (snapshot env ''decision.json'') (snapshot env ''decision.json.sig'') fs reviewer fs')"

lemma verified_one: "verified_by env home keys expected artifact signature fs identity fs' \<Longrightarrow>
    \<exists>key \<in> set keys. verified_by env home [key] expected artifact signature fs identity fs'"
  by (auto simp: verified_by_def)

lemma authorise_signingD:
  assumes "authorise_signing env now request_path decision_path approval_signature artifact out fs = (Inr (r, ev), fs')"
  shows "\<exists>b d decision reviewer.
    entry_at (others env ''approval request'' fs) request_path = Some (Plain b) \<and> decode (base env) b = Inr (JObj r) \<and>
    signing_request (base env) now r artifact out = Inr ev \<and>
    content_at (controls_captured env request_path decision_path approval_signature fs) (snapshot env ''decision.json'') = Some d \<and>
    decode (base env) d = Inr (JObj decision) \<and> approves decision r (sha256 (base env) b) \<and>
    reviewed_by env r (controls_captured env request_path decision_path approval_signature fs) reviewer fs'"
proof -
  let ?a = "snapshot env ''request.json''" and ?d = "snapshot env ''decision.json''" and ?s = "snapshot env ''decision.json.sig''"
  let ?f = "controls_captured env request_path decision_path approval_signature fs"
  from assms obtain x f1 f2 request_sha n f3 f4 f5 y f6 z f7 decision f8 f9 home f10 keys f11 reviewer and u :: unit where
    capture: "capture_input env request_path ?a control_limit ''approval request'' fs = (Inr x, f1)" and
    load: "load_json (base env) ?a ''formalspecgen-approval-request-v1'' f1 = (Inr r, f2)" and
    sha: "sha256_file (base env) ?a f2 = (Inr (request_sha, n), f3)" and
    sound: "signing_request (base env) now r artifact out = Inr ev" "f4 = f3" and
    capture2: "capture_input env decision_path ?d control_limit ''approval decision'' f4 = (Inr y, f6)" and
    capture3: "capture_input env approval_signature ?s control_limit ''approval signature'' f6 = (Inr z, f7)" and
    decision: "load_json (base env) ?d ''formalspecgen-approval-decision-v1'' f7 = (Inr decision, f8)" and
    approve: "check (approves decision r request_sha) ''APPROVAL_BINDING_MISMATCH''
      ''decision does not approve this exact action'' f8 = (Inr u, f9)" and
    home: "required_path env ''FORMALSPECGEN_APPROVAL_GNUPGHOME'' True f9 = (Inr home, f10)" and
    keys: "trusted_reviewers env f10 = (Inr keys, f11)" and
    verify: "verify_detached_signature (base env) home (Inr keys)
      (Inr (py_str (text_of_value (base env)) (get_default ''reviewer_identity'' (JStr []) r))) ?d ?s f11 = (Inr reviewer, fs')"
    unfolding authorise_signing_def run_Inr split_paired_Ex prod.case prod.inject by blast
  from capture obtain b where b: "entry_at (others env ''approval request'' fs) request_path = Some (Plain b)"
    "entry_at f1 ?a = Some (Plain b)"
    by (auto simp: capture_input_Inr entry_at_append)
  have request: "decode (base env) b = Inr (JObj r)" "request_sha = sha256 (base env) b" "f3 = f1"
    using load sha b(2) by (auto simp: load_json_Inr sha256_file_Inr content_at_def)
  have "f7 = ?f"
    using capture_input_captured[OF capture] capture_input_captured[OF capture2] capture_input_captured[OF capture3] request(3) sound(2)
    by (simp add: controls_captured_def)
  then have same: "f7 = ?f" "f9 = ?f" "f10 = ?f" "f11 = ?f"
    using decision approve required_path_Inr[OF home] trusted_reviewers_Inr[OF keys] by (auto simp: load_json_Inr check_Inr)
  from verify obtain key where "key \<in> set keys"
    "verified_by (base env) home [key] (py_str (text_of_value (base env)) (get_default ''reviewer_identity'' (JStr []) r)) ?d ?s ?f reviewer fs'"
    unfolding verify_detached_Inr same using verified_one by blast
  then have "reviewed_by env r ?f reviewer fs'"
    using required_path_Inr[OF home] trusted_reviewers_Inr[OF keys] unfolding same reviewed_by_def by blast
  then show ?thesis
    using b(1) request(1,2) sound(1) decision approve unfolding load_json_Inr check_Inr same by blast
qed

lemma with_folderD: "with_folder p m fs = (Inr x, fs') \<Longrightarrow> entry_at fs p = None \<and> (\<exists>fs1. m (fs @ [(as_posix p, Folder)]) = (Inr x, fs1) \<and>
    (\<forall>q. entry_at fs' q = entry_at fs1 q \<or> entry_at fs' q = None))"
proof -
  assume "with_folder p m fs = (Inr x, fs')"
  then obtain fs0 fs1 and u v :: unit where made: "make_folder False p fs = (Inr v, fs0)" and
    m: "m fs0 = (Inr x, fs1)" and "remove_tree p fs1 = (Inr u, fs')"
    unfolding with_folder_def run_Inr finally_Inr by blast
  then have "\<forall>q. entry_at fs' q = entry_at fs1 q \<or> entry_at fs' q = None" by (simp add: remove_tree_Inr filtered_entry)
  moreover have "entry_at fs p = None \<and> fs0 = fs @ [(as_posix p, Folder)]"
    using made by (auto simp: make_folder_def store_op_def split: option.splits)
  ultimately show ?thesis using m by blast
qed

lemma make_signatureD:
  assumes "make_signature env home key out fs = (Inr signer, fs')"
  shows "\<exists>f0 printed f1 f2 e. f0 = filter (\<lambda>(q, _). q \<noteq> as_posix (temporary_path env)) (others env ''signing'' fs) \<and>
    entry_at (others env ''signing'' fs) out = None \<and>
    run_process (base env) (sign_command home key (temporary_path env) (snapshot env ''artifact.bin'')) f0 = ((0, printed), f1) \<and>
    verified_by (base env) home [key] key (snapshot env ''artifact.bin'') (temporary_path env) f1 signer f2 \<and>
    entry_at f2 (temporary_path env) = Some e \<and> entry_at f2 out = None \<and>
    (entry_at fs' out = Some e \<or> entry_at fs' out = None)"
proof -
  let ?t = "temporary_path env"
  from assms obtain f0 f1 f2 f3 code printed and u :: unit where
    free: "entry_at (others env ''signing'' fs) out = None" and
    f0: "f0 = filter (\<lambda>(q, _). q \<noteq> as_posix ?t) (others env ''signing'' fs)" and
    run: "run_process (base env) (sign_command home key ?t (snapshot env ''artifact.bin'')) f0 = ((code, printed), f1)" "code = 0" and
    verify: "verify_detached_signature (base env) home (Inr [key]) (Inr key) (snapshot env ''artifact.bin'') ?t f1 = (Inr signer, f2)" and
    link: "link_file ?t out f2 = (Inr u, f3)" and
    gone: "unlink ?t f3 = (Inr (), fs')"
    unfolding make_signature_def finally_Inr run_Inr split_paired_Ex prod.case prod.inject query_Inr check_Inr meanwhile_Inr unlink_Inr
      process_Inr by blast
  from link obtain e where e: "entry_at f2 ?t = Some e" "entry_at f2 out = None" "f3 = f2 @ [(as_posix out, e)]"
    by (auto simp: link_file_Inr)
  then have "entry_at f3 out = Some e" by (simp add: entry_at_append)
  then have "entry_at fs' out = Some e \<or> entry_at fs' out = None"
    using gone by (simp add: unlink_Inr filtered_entry)
  with free f0 run verify e show ?thesis unfolding verify_detached_Inr by blast
qed
lemma no_fingerprint: "\<not> fingerprint (normal_identity [])"
  by code_simp

section \<open>Only the approved bytes are signed\<close>

text \<open>Nobody else writes in the private directory, and the temporary signature is elsewhere.\<close>

definition private_snapshot :: "signer_env \<Rightarrow> bool" where
  "private_snapshot env \<longleftrightarrow> as_posix (temporary_path env) \<noteq> as_posix (snapshot env ''artifact.bin'') \<and>
     (\<forall>label fs. entry_at (others env label fs) (snapshot env ''artifact.bin'') = entry_at fs (snapshot env ''artifact.bin''))"

text \<open>A request that the operator's policy lets be signed at a time, for an artifact and an output: the request at the path
  given, when it was captured, is unexpired and names both, and the decision captured after it approves it by a signature
  that GnuPG, in the verifier's keyring that the operator has configured, attributes to a key of the configured trust
  registry that is also the reviewer's whom the request names.\<close>

definition approved_request :: "signer_env \<Rightarrow> int \<Rightarrow> string \<Rightarrow> string \<Rightarrow> string \<Rightarrow> string \<Rightarrow> string \<Rightarrow> files \<Rightarrow> dict \<Rightarrow> bool" where
  "approved_request env now request_path decision_path approval_signature artifact out fs r \<longleftrightarrow>
    (\<exists>b e expires d decision reviewer fs'.
     let start = fs @ [(as_posix (scratch env), Folder)];
         captures = controls_captured env request_path decision_path approval_signature start in
     entry_at (others env ''approval request'' start) request_path = Some (Plain b) \<and> decode (base env) b = Inr (JObj r) \<and>
     map_of r ''expires_at'' = Some e \<and>
     read_time (base env) (py_str (text_of_value (base env)) e) = Some (True, expires) \<and> now < expires \<and>
     get_field ''path'' (object_of (get_field ''artifact'' r)) = JStr artifact \<and> signature_destination r = Inr (JStr out) \<and>
     content_at captures (snapshot env ''decision.json'') = Some d \<and> decode (base env) d = Inr (JObj decision) \<and>
     get_field ''decision'' decision = JStr ''approve'' \<and>
     (\<forall>(k, v) \<in> set (signer_bindings r (sha256 (base env) b)). json_eq (get_field k decision) v) \<and>
     reviewed_by env r captures reviewer fs')"


lemma promotion_destination:
  assumes "get_field ''action'' r = JStr ''promote-domain-v2''"
  shows "signature_destination r = Inr j \<longleftrightarrow> (\<exists>op. get_field ''operation'' r = JObj op \<and>
    get_field ''schema'' op = JStr ''formalspecgen-domain-promotion-operation-v1'' \<and>
    get_field ''sign'' op = JBool True \<and> get_field ''signature_destination'' op = j)"
proof (cases "map_of r ''operation''")
  case None
  then show ?thesis using assms by (simp add: signature_destination_def get_default_def get_field_def and_then_Inr_iff)
next
  case (Some v)
  then have "get_default ''operation'' (JObj []) r = v" "get_field ''operation'' r = v"
    by (simp_all add: get_default_def get_field_def)
  then show ?thesis using assms by (cases v) (auto simp: signature_destination_def and_then_Inr_iff)
qed

text \<open>The coordinator binds artifacts of any size, but what exceeds the limit of the signer is never signed.\<close>

lemma oversized_is_refused:
  "int_value (get_field ''size'' (object_of b)) = Some n \<Longrightarrow> signed_limit < n \<Longrightarrow>
    capture_bound env source b target label changed fs =
      (Inl (ApprovalError ''SIGNER_INPUT_LIMIT_EXCEEDED'' (label @ '' exceeds signer limit'')), fs)"
  by (simp add: capture_bound_def binding_limit_def bind_run_def handle_run_def pure_run_def and_then_def ensure_def)

section \<open>A small setting\<close>

definition signer_base :: approval_env where
  "signer_base = demo_approval_env\<lparr>
     run_process := (\<lambda>command fs. ((0, ''[GNUPG:] VALIDSIG '' @ demo_key),
       if list_ex (\<lambda>w. w = ''--detach-sign'') command then fs @ [(''/tmp.sig'', Plain ''s'')] else fs)),
     decode := (\<lambda>b. if b = ''REG'' then Inr (JObj [(''keys'', JArr [JObj [(''key_id'', JStr demo_key)]])])
       else decode demo_approval_env b)\<rparr>"

definition demo_signer_env :: signer_env where
  "demo_signer_env = \<lparr>base = signer_base, variable_of = map_of
     [(''FORMALSPECGEN_APPROVAL_GNUPGHOME'', ''/gpg''), (''FORMALSPECGEN_SIGNER_GNUPGHOME'', ''/gpg''),
      (''FORMALSPECGEN_APPROVAL_TRUST_REGISTRY'', ''/reg''), (''FORMALSPECGEN_SIGNING_KEY'', demo_key)],
     user_path = (\<lambda>p. p), scratch = ''/tmp'', temporary_path = ''/tmp.sig'', others = (\<lambda>_ fs. fs)\<rparr>"

definition signer_files :: files where
  "signer_files = [(''/request'', Plain ''REQ''), (''/decision'', Plain ''DEC''), (''/decision.sig'', Plain ''SIG''),
     (''/a'', Plain ''x''), (''/m'', Plain ''y''), (''/gpg'', Folder), (''/reg'', Plain ''REG'')]"

definition signer_run :: "(approval_error + dict) \<times> files" where
  "signer_run = sign_approved_artifact demo_signer_env 0 ''/request'' ''/decision'' ''/decision.sig'' ''/a'' ''/out'' signer_files"

lemma signer_run_signed: "case fst signer_run of Inr resp \<Rightarrow> get_field ''status'' resp = JStr ''SIGNED'' | Inl _ \<Rightarrow> False"
  by code_simp

lemma signer_private: "private_snapshot demo_signer_env"
proof -
  have "as_posix (temporary_path demo_signer_env) \<noteq> as_posix (snapshot demo_signer_env ''artifact.bin'')" by code_simp
  then show ?thesis by (simp add: private_snapshot_def demo_signer_env_def)
qed



end
