(* ===== verification/Domain_Promotion.thy ===== *)
theory Domain_Promotion
  imports Protected_Signer
begin

text \<open>
  Promotion of a validated domain into the reviewed registry, \<^verbatim>\<open>pipeline/domain_promotion_approval.py\<close>: the
  approval coordinator with another action, stricter checks, and a publisher that replaces the file in the registry
  and recovers after an interruption.  The preparation of a candidate, its promotion by
  \<^verbatim>\<open>promote_validated_candidate\<close>, the validation policy, the strict JSON decoder and the admission of the
  request are arguments.
\<close>

section \<open>Surroundings\<close>

record promotion_env =
  core :: approval_env
  strict_decode :: decoder
  admitted_profile :: "string option"
  prepare :: "string \<Rightarrow> approval_error + string"
  promote :: "string \<Rightarrow> string \<Rightarrow> string \<Rightarrow> string \<Rightarrow> json \<Rightarrow> approval_error + dict"
  read_config :: "string \<Rightarrow> files \<Rightarrow> approval_error + json"
  absolute_path :: "string \<Rightarrow> string"
  unsorted_json :: "dict \<Rightarrow> string"
  implementation_digests :: dict
  authority_folder :: string

record promotion_service =
  coordinator :: approval_service
  registry :: string
  validation_policy :: string
  revocations :: string
  principal :: string
  publisher :: "string option"
  publisher_policy :: "string option"

definition put_file :: "string \<Rightarrow> string \<Rightarrow> unit approval_run" where
  "put_file p content = store_op (\<lambda>fs. Inr ((), (as_posix p, Plain content) # filter (\<lambda>(q, _). q \<noteq> as_posix p) fs))"

definition exists_at :: "files \<Rightarrow> string \<Rightarrow> bool" where
  "exists_at fs p \<longleftrightarrow> entry_at fs p \<notin> {None, Some Broken_link}"

section \<open>Capturing and binding\<close>

definition with_parents :: "string \<Rightarrow> string list" where
  "with_parents p = map (\<lambda>k. path_root p @ join ''/'' (take k (path_tail p))) [0..<Suc (length (path_tail p))]"

definition capture_path :: "int \<Rightarrow> string \<Rightarrow> string approval_run" where
  "capture_path limit p = store_read (\<lambda>fs.
     if path_root p = [] \<or> list_ex (is_symlink fs) (with_parents p)
     then Inl (ApprovalError ''ARTIFACT_UNAVAILABLE'' ''symlink or relative promotion input'')
     else if ''..'' \<in> set (path_tail p) \<or> path_tail p = [] \<or> 32 < length (path_tail p) then Inl (Uncaught ''BoundedInputError'')
     else (case entry_at fs p of None \<Rightarrow> Inl (Uncaught ''FileNotFoundError'')
       | Some (Plain b) \<Rightarrow> if limit < int (length b) then Inl (Uncaught ''BoundedInputError'') else Inr b
       | Some _ \<Rightarrow> Inl (Uncaught ''BoundedInputError'')))"

definition input_limit :: int where "input_limit = 8388608"

definition object_limit :: int where "object_limit = 1048576"

text \<open>\<open>RuntimeFailure\<close> is too deep a nesting, \<open>OtherError\<close> bytes that are no text; a repeated name or a JSON error
  passes.\<close>

definition object_from :: "promotion_env \<Rightarrow> string option \<Rightarrow> string \<Rightarrow> approval_error + dict" where
  "object_from env schema content = (case strict_decode env content of
     Inl (RuntimeFailure _) \<Rightarrow> Inl (ApprovalError ''APPROVAL_STATE_INVALID'' ''invalid promotion JSON'')
   | Inl (OtherError _) \<Rightarrow> Inl (ApprovalError ''APPROVAL_STATE_INVALID'' ''invalid promotion JSON'')
   | Inl _ \<Rightarrow> Inl (Uncaught ''ValueError'')
   | Inr value \<Rightarrow> and_then (ensure (value = JObj (object_of value) \<and>
         (case schema of None \<Rightarrow> True | Some t \<Rightarrow> get_field ''schema'' (object_of value) = JStr t))
       (ApprovalError ''APPROVAL_STATE_INVALID'' ''invalid promotion state'')) (\<lambda>_. Inr (object_of value)))"

definition read_object :: "promotion_env \<Rightarrow> string option \<Rightarrow> string \<Rightarrow> dict approval_run" where
  "read_object env schema p = bind_run (capture_path object_limit p) (\<lambda>b. pure_run (object_from env schema b))"

definition binding_of :: "promotion_env \<Rightarrow> string \<Rightarrow> string \<Rightarrow> json" where
  "binding_of env p content = bound_file (as_posix p) (sha256 (core env) content, length content)"

definition check_binding :: "promotion_env \<Rightarrow> json \<Rightarrow> string approval_run" where
  "check_binding env b = (case get_field ''path'' (object_of b) of
     JStr p \<Rightarrow> bind_run (capture_path input_limit p) (\<lambda>content.
       bind_run (check (json_eq (binding_of env p content) b) ''APPROVED_ARTIFACT_CHANGED'' ''promotion input changed'') (\<lambda>_.
       ret content))
   | _ \<Rightarrow> pure_run (Inl (Uncaught ''TypeError'')))"

text \<open>What is at a destination now: nothing, or a binding of it.\<close>

definition observed :: "promotion_env \<Rightarrow> string \<Rightarrow> json approval_run" where
  "observed env p = bind_run (query (\<lambda>fs. entry_at fs p \<noteq> None)) (\<lambda>present.
     if present then bind_run (capture_path input_limit p) (\<lambda>content. ret (binding_of env p content)) else ret JNull)"

section \<open>The service\<close>

definition make_promotion_service :: "promotion_env \<Rightarrow> approval_service approval_run \<Rightarrow> string \<Rightarrow> string \<Rightarrow> string \<Rightarrow> string
    \<Rightarrow> string option \<Rightarrow> string option \<Rightarrow> promotion_service approval_run" where
  "make_promotion_service env made registry_path policy revoked who publisher_path policy_path =
     bind_run made (\<lambda>base.
     let s = \<lparr>coordinator = base, registry = absolute_path env registry_path, validation_policy = absolute_path env policy,
           revocations = absolute_path env revoked, principal = str_strip who, publisher = publisher_path,
           publisher_policy = (case policy_path of None \<Rightarrow> publisher_path | Some p \<Rightarrow> Some p)\<rparr> in
     bind_run (check (principal s \<noteq> []) ''APPROVAL_POLICY_UNAVAILABLE'' ''promotion principal is not configured'') (\<lambda>_.
     bind_run (query (\<lambda>fs. entry_at fs (registry s) \<in> {Some Folder, Some Folder_link} \<and>
       \<not> list_ex (is_symlink fs) (with_parents (registry s)))) (\<lambda>safe.
     bind_run (check safe ''APPROVAL_POLICY_UNAVAILABLE'' ''unsafe promotion registry'') (\<lambda>_. ret s))))"

definition executable_digests :: "promotion_env \<Rightarrow> string option list \<Rightarrow> dict approval_run" where
  "executable_digests env ps = foldr (\<lambda>p rest. case p of None \<Rightarrow> rest
     | Some path \<Rightarrow> bind_run (capture_path object_limit path) (\<lambda>content.
         bind_run rest (\<lambda>ds. ret ((as_posix path, JStr (sha256 (core env) content)) # filter (\<lambda>(k, _). k \<noteq> as_posix path) ds))))
     ps (ret [])"

definition policy_identity :: "promotion_env \<Rightarrow> promotion_service \<Rightarrow> string approval_run" where
  "policy_identity env s =
     bind_run (capture_path 16384 (validation_policy s)) (\<lambda>policy.
     bind_run (executable_digests env [app_signer (coordinator s), publisher_policy s]) (\<lambda>executables.
     ret (digest (sha256 (core env)) (JObj
       [(''registry'', JStr (registry s)), (''reviewers'', JArr (map JStr (sorted_set (authorized_reviewers (coordinator s))))),
        (''principal'', JStr (principal s)), (''reviewer'', JStr (reviewer_identity (coordinator s))),
        (''signer'', JStr (signing_identity (coordinator s))),
        (''validation_policy'', binding_of env (validation_policy s) policy), (''executables'', JObj executables),
        (''implementation'', JObj (implementation_digests env))]))))"
section \<open>Requesting a promotion\<close>

definition domain_name :: "string \<Rightarrow> bool" where
  "domain_name n \<longleftrightarrow> (case n of [] \<Rightarrow> False
     | c # cs \<Rightarrow> (is_lower c \<or> c = CHR ''_'') \<and> list_all (\<lambda>d. is_lower d \<or> is_digit d \<or> d = CHR ''_'') cs)"

definition destination_of :: "promotion_service \<Rightarrow> string \<Rightarrow> string" where
  "destination_of s name = registry s @ ''/'' @ name @ ''.json''"

definition staging :: "promotion_service \<Rightarrow> string \<Rightarrow> string" where
  "staging s i = app_root (coordinator s) @ ''/prepared/'' @ i"

record promotion_parameters =
  pro_name :: string
  pro_candidate :: string
  pro_validation :: string
  pro_replace :: bool
  pro_sign :: bool
  pro_ttl :: int
  pro_profile :: string

definition operation_dict :: "promotion_env \<Rightarrow> promotion_service \<Rightarrow> promotion_parameters \<Rightarrow> string \<Rightarrow> string \<Rightarrow> string \<Rightarrow> json
    \<Rightarrow> dict \<Rightarrow> string \<Rightarrow> dict" where
  "operation_dict env s q i source manifest prior reviewed policy =
     (let folder = staging s i in
      [(''schema'', JStr ''formalspecgen-domain-promotion-operation-v1''), (''name'', JStr (pro_name q)),
       (''candidate'', binding_of env (absolute_path env (pro_candidate q)) source),
       (''validation'', binding_of env (absolute_path env (pro_validation q)) manifest),
       (''captured_candidate'', binding_of env (folder @ ''/candidate.json'') source),
       (''captured_validation'', binding_of env (folder @ ''/validation.json'') manifest),
       (''candidate_sha256'', get_field ''accepted_candidate_sha256'' reviewed),
       (''validation_artifact_sha256'', get_field ''accepted_validation_artifact_sha256'' reviewed),
       (''context_sha256'', get_field ''accepted_applicability_sha256'' reviewed),
       (''destination'', JStr (as_posix (destination_of s (pro_name q)))), (''prior_destination'', prior),
       (''replace'', JBool (pro_replace q)), (''sign'', JBool (pro_sign q)), (''policy_sha256'', JStr policy),
       (''requester'', JStr (principal s)), (''signature_destination'', JStr (as_posix (folder @ ''/reviewed.sig'')))])"

definition approved_by :: "string \<Rightarrow> dict \<Rightarrow> dict" where
  "approved_by i reviewed = AList.update ''approval_operation_id'' (JStr i) reviewed"

definition request_promotion :: "promotion_env \<Rightarrow> promotion_service \<Rightarrow> promotion_parameters \<Rightarrow> int \<Rightarrow> string \<Rightarrow> string
    \<Rightarrow> dict approval_run" where
  "request_promotion env s q now i nonce =
     (let folder = staging s i; destination = destination_of s (pro_name q); sha = sha256 (core env) in
      bind_run (check (domain_name (pro_name q)) ''APPROVAL_POLICY_INVALID'' ''invalid V2 promotion options'') (\<lambda>_.
      bind_run (capture_path input_limit (absolute_path env (pro_candidate q))) (\<lambda>source.
      bind_run (capture_path input_limit (absolute_path env (pro_validation q))) (\<lambda>manifest.
      bind_run (observed env destination) (\<lambda>prior.
      bind_run (check (prior = JNull \<or> pro_replace q) ''DESTINATION_EXISTS'' ''replacement requires explicit intent'') (\<lambda>_.
      bind_run (make_folder True (app_root (coordinator s) @ ''/prepared'')) (\<lambda>_.
      bind_run (make_folder False folder) (\<lambda>_.
      bind_run (write_once (folder @ ''/candidate.json'') source) (\<lambda>_.
      bind_run (write_once (folder @ ''/validation.json'') manifest) (\<lambda>_.
      bind_run (store_read (read_config env (validation_policy s))) (\<lambda>config.
      bind_run (pure_run (prepare env source)) (\<lambda>candidate.
      bind_run (pure_run (promote env source manifest candidate (sha manifest) config)) (\<lambda>reviewed.
      bind_run (put_file (folder @ ''/preliminary.json'') (unsorted_json env reviewed)) (\<lambda>_.
      bind_run (check (get_field ''module_name'' reviewed = JStr (pro_name q)) ''APPROVAL_BINDING_MISMATCH''
        ''candidate module differs from destination'') (\<lambda>_.
      let artifact = approval_bytes (approved_by i reviewed) in
      bind_run (write_once (folder @ ''/reviewed.json'') artifact) (\<lambda>_.
      bind_run (policy_identity env s) (\<lambda>policy.
      let operation = operation_dict env s q i source manifest prior reviewed policy in
      bind_run (write_once (folder @ ''/operation.json'') (approval_bytes operation)) (\<lambda>_.
      bind_run (create_bound_request (core env) (coordinator s)
        \<lparr>par_artifact = folder @ ''/reviewed.json'', par_evidence = folder @ ''/operation.json'', par_profile = pro_profile q,
         par_claim = ''NO_PROOF'', par_status = ''BOUNDED_VALIDATION_APPLICABLE'', par_ttl = pro_ttl q,
         par_destination = Some (as_posix destination), par_operation = Some operation, par_request_id = Some i\<rparr> now i nonce) (\<lambda>response.
      ret (response @ [(''promotion'', JObj operation)]))))))))))))))))))))"

section \<open>Validating a promotion\<close>

definition operation_keys :: "string list" where
  "operation_keys = [''schema'', ''name'', ''candidate'', ''validation'', ''captured_candidate'', ''captured_validation'',
     ''candidate_sha256'', ''validation_artifact_sha256'', ''context_sha256'', ''destination'', ''prior_destination'',
     ''replace'', ''sign'', ''policy_sha256'', ''requester'', ''signature_destination'']"

definition is_boolean :: "json \<Rightarrow> bool" where
  "is_boolean j \<longleftrightarrow> (case j of JBool _ \<Rightarrow> True | _ \<Rightarrow> False)"

definition same_names :: "string list \<Rightarrow> dict \<Rightarrow> bool" where
  "same_names ks d \<longleftrightarrow> set (map fst d) = set ks"

definition promotion_operation_ok :: "promotion_service \<Rightarrow> dict \<Rightarrow> json \<Rightarrow> bool" where
  "promotion_operation_ok s r operation = (case operation of JObj op \<Rightarrow>
      (case get_field ''name'' op of JStr name \<Rightarrow>
         same_names operation_keys op \<and> get_field ''schema'' op = JStr ''formalspecgen-domain-promotion-operation-v1'' \<and>
         domain_name name \<and> get_field ''destination'' op = JStr (as_posix (destination_of s name)) \<and>
         json_eq (get_field ''destination'' r) (get_field ''destination'' op) \<and> is_boolean (get_field ''sign'' op) \<and>
         is_boolean (get_field ''replace'' op) \<and> get_field ''requester'' op = JStr (principal s)
       | _ \<Rightarrow> False)
    | _ \<Rightarrow> False)"

definition path_is :: "json \<Rightarrow> string \<Rightarrow> bool" where
  "path_is b p \<longleftrightarrow> (case b of JObj d \<Rightarrow> get_field ''path'' d = JStr (as_posix p) | _ \<Rightarrow> False)"

definition input_binding_ok :: "promotion_env \<Rightarrow> json \<Rightarrow> bool" where
  "input_binding_ok env b = (case b of JObj d \<Rightarrow>
      same_names [''path'', ''sha256'', ''size''] d \<and>
      (case (get_field ''path'' d, get_field ''size'' d) of
         (JStr p, JInt n) \<Rightarrow> path_root p \<noteq> [] \<and> 0 \<le> n \<and> n \<le> input_limit \<and>
           is_hex 64 (py_str (text_of_value (core env)) (get_field ''sha256'' d))
       | _ \<Rightarrow> False)
    | _ \<Rightarrow> False)"

definition revoked_ids :: "dict \<Rightarrow> approval_error + json list" where
  "revoked_ids revoked = (case get_field ''request_ids'' revoked of
     JArr ids \<Rightarrow> and_then (ensure (list_all (\<lambda>j. case j of JStr t \<Rightarrow> request_id_ok t | _ \<Rightarrow> False) ids)
       (ApprovalError ''APPROVAL_POLICY_UNAVAILABLE'' ''invalid promotion revocations'')) (\<lambda>_. Inr ids)
   | _ \<Rightarrow> Inl (ApprovalError ''APPROVAL_POLICY_UNAVAILABLE'' ''invalid promotion revocations''))"

definition promotion_verification :: json where
  "promotion_verification = JObj [(''status'', JStr ''BOUNDED_VALIDATION_APPLICABLE''), (''claim'', JStr ''NO_PROOF''),
     (''claim_upgraded_by_signing'', JBool False)]"

definition snapshots_ok :: "promotion_service \<Rightarrow> dict \<Rightarrow> string \<Rightarrow> dict \<Rightarrow> bool" where
  "snapshots_ok s r i op \<longleftrightarrow> path_is (get_field ''artifact'' r) (staging s i @ ''/reviewed.json'') \<and>
     path_is (get_field ''evidence_manifest'' r) (staging s i @ ''/operation.json'') \<and>
     path_is (get_field ''captured_candidate'' op) (staging s i @ ''/candidate.json'') \<and>
     path_is (get_field ''captured_validation'' op) (staging s i @ ''/validation.json'')"

definition validate_promotion :: "promotion_env \<Rightarrow> promotion_service \<Rightarrow> dict \<Rightarrow> string \<Rightarrow> int option \<Rightarrow> unit approval_run" where
  "validate_promotion env s r i now =
     (let changed = ''APPROVAL_BINDING_MISMATCH''; operation = get_field ''operation'' r; op = object_of operation in
      bind_run (pure_run (validate_request (core env) (coordinator s) r i now)) (\<lambda>_.
      bind_run (check ((case admitted_profile env of None \<Rightarrow> False
          | Some profile \<Rightarrow> get_field ''admission_profile_sha256'' r = JStr profile) \<and>
          json_eq (get_field ''verification'' r) promotion_verification) changed ''promotion admission or claim boundary changed'') (\<lambda>_.
      bind_run (read_object env (Some ''formalspecgen-promotion-revocations-v1'') (revocations s)) (\<lambda>revoked.
      bind_run (pure_run (revoked_ids revoked)) (\<lambda>ids.
      bind_run (check (JStr i \<notin> set ids) ''APPROVAL_REVOKED'' ''promotion approval has been revoked'') (\<lambda>_.
      bind_run (check (promotion_operation_ok s r operation) changed ''promotion action or operator policy changed'') (\<lambda>_.
      bind_run (policy_identity env s) (\<lambda>policy.
      bind_run (check (get_field ''policy_sha256'' op = JStr policy) changed ''promotion action or operator policy changed'') (\<lambda>_.
      bind_run (check (snapshots_ok s r i op) changed ''promotion snapshot destination changed'') (\<lambda>_.
      bind_run (check (get_field ''signature_destination'' op = JStr (as_posix (staging s i @ ''/reviewed.sig''))) changed
        ''promotion signature destination changed'') (\<lambda>_.
      bind_run (check (list_all (\<lambda>k. input_binding_ok env (get_field k op))
          [''candidate'', ''validation'', ''captured_candidate'', ''captured_validation''] \<and>
          (get_field ''prior_destination'' op = JNull \<or> input_binding_ok env (get_field ''prior_destination'' op))) changed
        ''invalid promotion input binding'') (\<lambda>_.
      bind_run (read_object env (Some ''formalspecgen-domain-promotion-operation-v1'') (path_of ''evidence_manifest'' r)) (\<lambda>manifest.
      check (json_eq (JObj manifest) operation) changed ''promotion descriptor changed'')))))))))))))"
section \<open>Authorisation\<close>

definition authenticate_promotion :: "promotion_env \<Rightarrow> promotion_service \<Rightarrow> string \<Rightarrow> dict
    \<Rightarrow> (dict \<times> signer_identity \<times> string) approval_run" where
  "authenticate_promotion env s root r =
     bind_run (query (\<lambda>fs. exists_at fs (root @ ''/decision.json''))) (\<lambda>decided.
     bind_run (if decided then bind_run (read_object env None (root @ ''/decision.json'')) (\<lambda>_. ret ()) else ret ()) (\<lambda>_.
     bind_run (query (\<lambda>fs. exists_at fs (root @ ''/decision.json.sig''))) (\<lambda>signed.
     bind_run (if signed then bind_run (capture_path object_limit (root @ ''/decision.json.sig'')) (\<lambda>_. ret ()) else ret ()) (\<lambda>_.
     authenticate_decision (core env) (coordinator s) root r))))"

definition copy_control :: "string \<Rightarrow> string \<Rightarrow> string \<Rightarrow> unit approval_run" where
  "copy_control root copies n =
     bind_run (query (\<lambda>fs. exists_at fs (root @ ''/'' @ n))) (\<lambda>present.
     bind_run (check present ''APPROVAL_REQUIRED'' ''an authenticated human decision is absent'') (\<lambda>_.
     bind_run (capture_path object_limit (root @ ''/'' @ n)) (\<lambda>content. put_file (copies @ ''/'' @ n) content)))"

text \<open>The request is validated as it was captured, and the decision authenticated on copies.\<close>

definition authorization :: "promotion_env \<Rightarrow> promotion_service \<Rightarrow> string \<Rightarrow> string \<Rightarrow> int option
    \<Rightarrow> (dict \<times> dict \<times> signer_identity \<times> string) approval_run" where
  "authorization env s i root now = with_folder (authority_folder env)
     (bind_run (capture_path object_limit (root @ ''/request.json'')) (\<lambda>raw.
      bind_run (pure_run (object_from env (Some ''formalspecgen-approval-request-v1'') raw)) (\<lambda>r.
      bind_run (validate_promotion env s r i now) (\<lambda>_.
      bind_run (put_file (authority_folder env @ ''/request.json'') raw) (\<lambda>_.
      bind_run (copy_control root (authority_folder env) ''decision.json'') (\<lambda>_.
      bind_run (copy_control root (authority_folder env) ''decision.json.sig'') (\<lambda>_.
      bind_run (authenticate_promotion env s (authority_folder env) r) (\<lambda>(decision, reviewer, request_sha).
      ret (r, decision, reviewer, request_sha)))))))))"

section \<open>Receipts\<close>

definition receipt_bindings :: "promotion_service \<Rightarrow> string \<Rightarrow> dict \<Rightarrow> dict \<Rightarrow> signer_identity \<Rightarrow> string \<Rightarrow> dict" where
  "receipt_bindings s i r decision reviewer request_sha =
     [(''request_id'', JStr i), (''request_sha256'', JStr request_sha), (''operation_id'', get_field ''operation_id'' r),
      (''policy_version'', get_field ''policy_version'' r),
      (''admission_profile_sha256'', get_field ''admission_profile_sha256'' r), (''decision'', get_field ''decision'' decision),
      (''reviewer_signing_fingerprint'', JStr (signing_fingerprint reviewer)), (''action'', JStr (app_action (coordinator s))),
      (''operation'', get_field ''operation'' r), (''artifact'', get_field ''artifact'' r),
      (''evidence_manifest'', get_field ''evidence_manifest'' r), (''verification'', get_field ''verification'' r),
      (''claim_upgraded_by_signing'', JBool False), (''reviewer_identity'', JStr (primary_fingerprint reviewer))]"

definition publication_of :: "dict \<Rightarrow> json" where
  "publication_of r = JObj (AList.update ''path'' (get_field ''destination'' r) (object_of (get_field ''artifact'' r)))"

definition field_path :: "json \<Rightarrow> string" where
  "field_path b = (case get_field ''path'' (object_of b) of JStr p \<Rightarrow> as_posix p | _ \<Rightarrow> [])"

definition verify_promotion_signature :: "promotion_env \<Rightarrow> promotion_service \<Rightarrow> string \<Rightarrow> string \<Rightarrow> signer_identity approval_run" where
  "verify_promotion_signature env s artifact signature = (let key = signing_identity (coordinator s) in
     verify_detached_signature (core env) (verifier_home (coordinator s)) (Inr [key]) (Inr key) artifact signature)"

definition check_promoted :: "promotion_env \<Rightarrow> promotion_service \<Rightarrow> dict \<Rightarrow> dict \<Rightarrow> unit approval_run" where
  "check_promoted env s r receipt =
     (let publication = get_field ''publication'' receipt; signature = get_field ''signature'' receipt;
          op = object_of (get_field ''operation'' r) in
      bind_run (check (json_eq publication (publication_of r) \<and> (signature = JNull \<or>
          json_eq (get_field ''path'' (object_of signature)) (get_field ''signature_destination'' op))) ''APPROVAL_STATE_INVALID''
        ''publication differs from approved bytes or destination'') (\<lambda>_.
      bind_run (check_binding env publication) (\<lambda>_.
      bind_run (if signature = JNull then ret () else bind_run (check_binding env signature) (\<lambda>_.
        bind_run (verify_promotion_signature env s (field_path publication) (field_path signature)) (\<lambda>_. ret ()))) (\<lambda>_.
      check (json_eq (JBool (json_true signature)) (get_field ''sign'' op)) ''APPROVAL_STATE_INVALID''
        ''promotion signing outcome changed''))))"

definition validated_promotion :: "promotion_env \<Rightarrow> promotion_service \<Rightarrow> string \<Rightarrow> string \<Rightarrow> dict approval_run" where
  "validated_promotion env s i root =
     (let receipt_path = root @ ''/receipt.json''; invalid = ''APPROVAL_STATE_INVALID'' in
      bind_run (authorization env s i root None) (\<lambda>(r, decision, reviewer, request_sha).
      bind_run (read_object env (Some ''formalspecgen-approval-receipt-v1'') receipt_path) (\<lambda>receipt.
      bind_run (check (get_field ''signature'' receipt = JNull \<or>
          get_field ''signature'' receipt = JObj (object_of (get_field ''signature'' receipt))) invalid
        ''invalid promotion signature binding'') (\<lambda>_.
      bind_run (check (list_all (\<lambda>(k, v). json_eq (get_field k receipt) v) (receipt_bindings s i r decision reviewer request_sha))
        invalid ''promotion receipt binding changed'') (\<lambda>_.
      bind_run (if get_field ''status'' receipt = JStr ''PROMOTED'' \<and> get_field ''decision'' decision = JStr ''approve''
          then check_promoted env s r receipt
          else check (get_field ''status'' receipt = JStr ''DENIED'' \<and> get_field ''decision'' decision = JStr ''deny'') invalid
            ''invalid promotion outcome'') (\<lambda>_.
      bind_run (receipt_response (core env) receipt receipt_path) (\<lambda>response.
      ret (update_fields response [(''request_satisfied'', JBool (get_field ''status'' receipt = JStr ''PROMOTED'')),
        (''publication'', get_field ''publication'' receipt), (''promotion'', get_field ''operation'' r)]))))))))"

section \<open>Execution by the service, and status\<close>

text \<open>The request is authorised again before the operator's publisher is started, which is another process.\<close>

definition ready_publisher :: "promotion_env \<Rightarrow> promotion_service \<Rightarrow> int \<Rightarrow> string \<Rightarrow> (string \<times> string) approval_run" where
  "ready_publisher env s now i =
     bind_run (request_root (coordinator s) i) (\<lambda>root.
     bind_run (query (\<lambda>fs. exists_at fs (root @ ''/receipt.json''))) (\<lambda>finished.
     bind_run (authorization env s i root (if finished then None else Some now)) (\<lambda>_.
     bind_run (query (\<lambda>fs. case publisher s of None \<Rightarrow> None
       | Some p \<Rightarrow> if is_symlink fs p \<or> \<not> executable (core env) p then None else Some p)) (\<lambda>program.
     case program of
       None \<Rightarrow> pure_run (Inl (ApprovalError ''PROTECTED_PUBLISHER_UNAVAILABLE'' ''protected promotion publisher is unavailable''))
     | Some p \<Rightarrow> ret (root, p)))))"

definition publisher_command :: "string \<Rightarrow> string \<Rightarrow> string list" where
  "publisher_command p i = [p, ''--request-id'', i]"

definition execute_promotion :: "promotion_env \<Rightarrow> promotion_service \<Rightarrow> int \<Rightarrow> string \<Rightarrow> dict approval_run" where
  "execute_promotion env s now i =
     bind_run (ready_publisher env s now i) (\<lambda>(root, p).
     bind_run (process (core env) (publisher_command p i)) (\<lambda>(code, _).
     bind_run (check (code = 0) ''PROTECTED_PUBLICATION_FAILED'' ''operator publisher rejected the action'') (\<lambda>_.
     validated_promotion env s i root)))"

definition intent_of :: "dict \<Rightarrow> string \<Rightarrow> json \<Rightarrow> json" where
  "intent_of r request_sha destination = JObj [(''request_sha256'', JStr request_sha), (''artifact'', get_field ''artifact'' r),
     (''destination'', destination)]"
definition promotion_base_status :: "promotion_env \<Rightarrow> promotion_service \<Rightarrow> int \<Rightarrow> string \<Rightarrow> string \<Rightarrow> dict approval_run" where
  "promotion_base_status env s now i root =
     bind_run (load_json (core env) (root @ ''/request.json'') ''formalspecgen-approval-request-v1'') (\<lambda>r.
     bind_run (sha256_file (core env) (root @ ''/request.json'')) (\<lambda>(request_sha, _).
     bind_run (query (\<lambda>fs. is_file fs (root @ ''/receipt.json''))) (\<lambda>finished.
     if finished then validated_promotion env s i root
     else bind_run (validate_promotion env s r i (Some now)) (\<lambda>_.
       bind_run (query (\<lambda>fs. is_file fs (root @ ''/decision.json''))) (\<lambda>decided.
       pure_run (and_then (public_request r request_sha (if decided then ''DECISION_RECORDED'' else ''PENDING'')) (\<lambda>response.
         and_then (item ''operation'' r) (\<lambda>operation. Inr (response @ [(''promotion'', operation)]))))))))) "

text \<open>How far the publication is: an intent that names other bytes or another place is refused.\<close>

definition publication_done :: "promotion_env \<Rightarrow> string \<Rightarrow> dict \<Rightarrow> bool approval_run" where
  "publication_done env root r =
     bind_run (query (\<lambda>fs. exists_at fs (root @ ''/publication-intent.json''))) (\<lambda>intended.
     if \<not> intended then ret False
     else bind_run (capture_path input_limit (root @ ''/request.json'')) (\<lambda>raw.
       bind_run (read_object env None (root @ ''/publication-intent.json'')) (\<lambda>intent.
       bind_run (check (json_eq (JObj intent) (intent_of r (sha256 (core env) raw) (get_field ''destination'' r)))
         ''APPROVAL_STATE_INVALID'' ''publication recovery intent changed'') (\<lambda>_.
       bind_run (pure_run (text_at ''destination'' r)) (\<lambda>destination.
       bind_run (query (\<lambda>fs. exists_at fs destination)) (\<lambda>present.
       if \<not> present then ret False
       else bind_run (capture_path input_limit destination) (\<lambda>now_there.
         bind_run (check_binding env (get_field ''artifact'' r)) (\<lambda>approved. ret (now_there = approved))))))))) "

definition status_promotion :: "promotion_env \<Rightarrow> promotion_service \<Rightarrow> int \<Rightarrow> string \<Rightarrow> dict approval_run" where
  "status_promotion env s now i =
     bind_run (request_root (coordinator s) i) (\<lambda>root.
     bind_run (promotion_base_status env s now i root) (\<lambda>result.
     bind_run (read_object env (Some ''formalspecgen-approval-request-v1'') (root @ ''/request.json'')) (\<lambda>r.
     bind_run (publication_done env root r) (\<lambda>published.
     let op = object_of (get_field ''operation'' r) in
     bind_run (pure_run (text_at ''signature_destination'' op)) (\<lambda>signature.
     bind_run (query (\<lambda>fs. exists_at fs signature)) (\<lambda>signed.
     bind_run (if signed then bind_run (verify_promotion_signature env s (path_of ''artifact'' r) (as_posix signature)) (\<lambda>_. ret ())
       else ret ()) (\<lambda>_.
     bind_run (query (\<lambda>fs. exists_at fs (root @ ''/receipt.json''))) (\<lambda>committed.
     ret (update_fields result [(''phases'', JObj
       [(''approval'', get_field ''status'' result), (''publication'', JStr (if published then ''PUBLISHED'' else ''NOT_PUBLISHED'')),
        (''signing'', JStr (if signed then ''SIGNED'' else if json_true (get_field ''sign'' op) then ''PENDING''
          else ''NOT_REQUESTED'')),
        (''receipt'', JStr (if committed then ''COMMITTED'' else ''NOT_COMMITTED''))])])))))))))"

section \<open>Publication\<close>

text \<open>The bytes of the artifact, after the live inputs, their copies and a second promotion agree with it.\<close>

definition approved_artifact :: "promotion_env \<Rightarrow> promotion_service \<Rightarrow> string \<Rightarrow> dict \<Rightarrow> string approval_run" where
  "approved_artifact env s i r =
     (let op = object_of (get_field ''operation'' r) in
      bind_run (check_binding env (get_field ''candidate'' op)) (\<lambda>source.
      bind_run (check_binding env (get_field ''validation'' op)) (\<lambda>manifest.
      bind_run (check_binding env (get_field ''captured_candidate'' op)) (\<lambda>captured_source.
      bind_run (if source \<noteq> captured_source then ret False
        else bind_run (check_binding env (get_field ''captured_validation'' op)) (\<lambda>copy. ret (manifest = copy))) (\<lambda>same.
      bind_run (check same ''APPROVED_ARTIFACT_CHANGED'' ''captured promotion inputs differ'') (\<lambda>_.
      bind_run (check_binding env (get_field ''artifact'' r)) (\<lambda>artifact.
      bind_run (check_binding env (get_field ''evidence_manifest'' r)) (\<lambda>_.
      bind_run (pure_run (text_at ''candidate_sha256'' op)) (\<lambda>candidate.
      bind_run (pure_run (text_at ''validation_artifact_sha256'' op)) (\<lambda>accepted.
      bind_run (store_read (read_config env (validation_policy s))) (\<lambda>config.
      bind_run (pure_run (promote env source manifest candidate accepted config)) (\<lambda>reviewed.
      bind_run (check (approval_bytes (approved_by i reviewed) = artifact \<and>
          json_eq (get_field ''accepted_applicability_sha256'' reviewed) (get_field ''context_sha256'' op))
        ''APPROVAL_BINDING_MISMATCH'' ''reviewed artifact or applicability changed'') (\<lambda>_.
      ret artifact)))))))))))))"

text \<open>Whether the destination already holds the artifact of an earlier attempt, and what has to hold if not.\<close>

definition recovered_publication :: "promotion_env \<Rightarrow> string \<Rightarrow> dict \<Rightarrow> string \<Rightarrow> string \<Rightarrow> string \<Rightarrow> bool approval_run" where
  "recovered_publication env root r request_sha destination artifact =
     (let intent_path = root @ ''/publication-intent.json'' in
      bind_run (query (\<lambda>fs. exists_at fs intent_path)) (\<lambda>intended.
      bind_run (query (\<lambda>fs. exists_at fs destination)) (\<lambda>present.
      bind_run (if intended \<and> present then bind_run (capture_path input_limit destination) (\<lambda>b. ret (b = artifact))
        else ret False) (\<lambda>recovered.
      bind_run (if intended then bind_run (read_object env None intent_path) (\<lambda>intent.
          check (json_eq (JObj intent) (intent_of r request_sha (JStr destination))) ''APPROVAL_STATE_INVALID''
            ''publication recovery intent changed'') else ret ()) (\<lambda>_.
      ret recovered)))))"

definition begin_publication :: "promotion_env \<Rightarrow> string \<Rightarrow> dict \<Rightarrow> string \<Rightarrow> string \<Rightarrow> unit approval_run" where
  "begin_publication env root r request_sha destination =
     (let op = object_of (get_field ''operation'' r); intent_path = root @ ''/publication-intent.json'' in
      bind_run (observed env destination) (\<lambda>there.
      bind_run (check (json_eq there (get_field ''prior_destination'' op) \<and>
          (there = JNull \<or> json_true (get_field ''replace'' op))) ''DESTINATION_CHANGED''
        ''reviewed destination changed after approval'') (\<lambda>_.
      bind_run (query (\<lambda>fs. exists_at fs intent_path)) (\<lambda>intended.
      if intended then ret ()
      else write_once intent_path (approval_bytes (object_of (intent_of r request_sha (JStr destination))))))))"

definition sign_promotion :: "promotion_env \<Rightarrow> promotion_service \<Rightarrow> string \<Rightarrow> dict \<Rightarrow> json approval_run" where
  "sign_promotion env s root r =
     (let op = object_of (get_field ''operation'' r); artifact = path_of ''artifact'' r in
      if \<not> json_true (get_field ''sign'' op) then ret JNull
      else bind_run (pure_run (and_then (text_at ''signature_destination'' op) (\<lambda>p. Inr (as_posix p)))) (\<lambda>signature.
        bind_run (query (\<lambda>fs. exists_at fs signature)) (\<lambda>signed.
        bind_run (if signed then ret () else invoke_signer (core env) (coordinator s) root artifact signature) (\<lambda>_.
        bind_run (verify_promotion_signature env s artifact signature) (\<lambda>_.
        bind_run (capture_path object_limit signature) (\<lambda>content. ret (binding_of env signature content)))))))"

definition replace_destination :: "promotion_env \<Rightarrow> dict \<Rightarrow> string \<Rightarrow> string \<Rightarrow> unit approval_run" where
  "replace_destination env r destination artifact =
     bind_run (observed env destination) (\<lambda>there.
     bind_run (check (json_eq there (get_field ''prior_destination'' (object_of (get_field ''operation'' r)))) ''DESTINATION_CHANGED''
       ''reviewed destination changed during signing'') (\<lambda>_.
     put_file destination artifact))"

definition publish_decided :: "promotion_env \<Rightarrow> promotion_service \<Rightarrow> int \<Rightarrow> unit approval_run \<Rightarrow> string \<Rightarrow> string \<Rightarrow> dict
    \<Rightarrow> dict \<Rightarrow> signer_identity \<Rightarrow> string \<Rightarrow> unit approval_run" where
  "publish_decided env s completed before_receipt i root r decision reviewer request_sha =
     bind_run (approved_artifact env s i r) (\<lambda>artifact.
     bind_run (pure_run (and_then (text_at ''destination'' r) (\<lambda>p. Inr (as_posix p)))) (\<lambda>destination.
     bind_run (recovered_publication env root r request_sha destination artifact) (\<lambda>recovered.
     bind_run (if recovered then ret () else begin_publication env root r request_sha destination) (\<lambda>_.
     bind_run (sign_promotion env s root r) (\<lambda>signature.
     bind_run (if recovered then ret () else replace_destination env r destination artifact) (\<lambda>_.
     bind_run (pure_run (receipt_dict (core env) r request_sha decision reviewer ''PROMOTED'' signature completed)) (\<lambda>receipt.
     bind_run before_receipt (\<lambda>_.
     write_once (root @ ''/receipt.json'') (approval_bytes (receipt @ [(''operation'', get_field ''operation'' r),
       (''publication'', binding_of env destination artifact)])))))))))) "

definition publish_approved :: "promotion_env \<Rightarrow> promotion_service \<Rightarrow> int \<Rightarrow> int \<Rightarrow> unit approval_run \<Rightarrow> string
    \<Rightarrow> dict approval_run" where
  "publish_approved env s now completed before_receipt i =
     bind_run (request_root (coordinator s) i) (\<lambda>root.
     bind_run (open_lock (registry s @ ''/.promotion.lock'')) (\<lambda>_.
     bind_run (query (\<lambda>fs. exists_at fs (root @ ''/receipt.json''))) (\<lambda>finished.
     if finished then validated_promotion env s i root
     else bind_run (authorization env s i root (Some now)) (\<lambda>(r, decision, reviewer, request_sha).
       bind_run (if get_field ''decision'' decision = JStr ''deny'' then
           bind_run (pure_run (receipt_dict (core env) r request_sha decision reviewer ''DENIED'' JNull completed)) (\<lambda>receipt.
           write_once (root @ ''/receipt.json'') (approval_bytes (receipt @ [(''operation'', get_field ''operation'' r)])))
         else publish_decided env s completed before_receipt i root r decision reviewer request_sha) (\<lambda>_.
       validated_promotion env s i root)))))"

end
