(* ===== verification/Approval_Finality.thy ===== *)
theory Approval_Finality
  imports Approval_Service
begin

text \<open>
  The request and the receipt in the folder of a request are written once: no operation of the approval service
  or of the reviewer changes them, and an executed request keeps its outcome.
\<close>

section \<open>Parts of operations\<close>

text \<open>Whatever relation between files the processes respect, the parts that write nothing themselves respect it.  GnuPG and
  the signer are called with more than two arguments.\<close>

locale file_relation = run_relation R for R :: "files \<Rightarrow> files \<Rightarrow> bool"
begin

lemma sound_file_reads: "related_run R (check b code m)" "related_run R (query f)" "related_run R (sha256_file env p)"
  "related_run R (load_json env p schema)"
  unfolding check_def query_def sha256_file_def load_json_def by (rule sound_pure sound_read)+

lemmas sound_parts = sound_intros sound_option sound_file_reads

lemma sound_verify: "(\<And>command. 3 < length command \<Longrightarrow> related_run R (process env command)) \<Longrightarrow>
    related_run R (verify_detached_signature env home trusted wanted artifact signature)"
  unfolding verify_detached_signature_def by (intro sound_parts) (simp add: gpg_verify_def)

lemma sound_bound: "related_run R (validate_bound_file env p b label)"
  unfolding validate_bound_file_def by (intro sound_parts)

lemma sound_response: "related_run R (receipt_response env receipt p)"
  unfolding receipt_response_def by (intro sound_parts)

lemma sound_root: "related_run R (request_root s i)"
  unfolding request_root_def by (intro sound_parts)

lemma sound_authenticate: "(\<And>command. 3 < length command \<Longrightarrow> related_run R (process env command)) \<Longrightarrow>
    related_run R (authenticate_decision env s folder r)"
  unfolding authenticate_decision_def Let_def by (intro sound_parts sound_verify)

lemma sound_signer: "(\<And>command. 3 < length command \<Longrightarrow> related_run R (process env command)) \<Longrightarrow>
    related_run R (invoke_signer env s folder artifact out)"
  unfolding invoke_signer_def by (intro sound_parts) (simp add: signer_command_def)

end

section \<open>Operations keep requests and receipts\<close>

definition keeps :: "string \<Rightarrow> files \<Rightarrow> files \<Rightarrow> bool" where
  "keeps root fs fs' \<longleftrightarrow> (\<forall>n \<in> {''request.json'', ''receipt.json''}. \<forall>e.
     entry_at fs (root @ ''/'' @ n) = Some e \<longrightarrow> entry_at fs' (root @ ''/'' @ n) = Some e)"

interpretation kept: file_relation "keeps root" for root
  by unfold_locales (auto simp: keeps_def)

definition process_keeps :: "approval_env \<Rightarrow> string \<Rightarrow> bool" where
  "process_keeps env root \<longleftrightarrow> (\<forall>command. related_run (keeps root) (process env command))"

lemma keeps_append: "keeps root fs (fs @ added)"
  by (auto simp: keeps_def entry_at_def map_add_def split: option.splits)

lemma kept_writes: "related_run (keeps root) (write_once p content)" "related_run (keeps root) (make_folder b p)"
  "related_run (keeps root) (open_lock p)"
  unfolding write_once_def make_folder_def open_lock_def
  by (rule kept.sound_op; auto simp: keeps_append kept.refl split: if_splits option.splits entry.splits)+

lemma kept_unlink: "related_run (keeps root) (unlink (x @ ''/decision.json''))"
  "related_run (keeps root) (unlink (x @ ''/decision.json.sig''))"
proof -
  have other: "map_of (filter (\<lambda>(q, _). q \<noteq> k) fs) k' = map_of fs k'" if "k \<noteq> k'" for k k' and fs :: files
    using that by (induction fs) auto
  have "related_run (keeps root) (unlink (x @ ''/'' @ n))" if "n \<in> {''decision.json'', ''decision.json.sig''}" for n
    unfolding unlink_def
  proof (rule kept.sound_op)
    fix fs fs' :: files and u 
    assume "Inr ((), filter (\<lambda>(q, _). q \<noteq> as_posix (x @ ''/'' @ n)) fs) = Inr (u, fs')"
    then have fs': "fs' = filter (\<lambda>(q, _). q \<noteq> as_posix (x @ ''/'' @ n)) fs" by simp
    show "keeps root fs fs'"
      unfolding keeps_def
    proof (intro ballI allI impI)
      fix m e assume m: "m \<in> {''request.json'', ''receipt.json''}" and e: "entry_at fs (root @ ''/'' @ m) = Some e"
      have "as_posix (x @ ''/'' @ n) \<noteq> as_posix (root @ ''/'' @ m)"
        using m \<open>n \<in> _\<close> by (intro child_paths) auto
      from other[OF this, of fs] e show "entry_at fs' (root @ ''/'' @ m) = Some e" unfolding entry_at_def fs' by (rule trans)
    qed
  qed
  from this[of "''decision.json''"] this[of "''decision.json.sig''"]
  show "related_run (keeps root) (unlink (x @ ''/decision.json''))"
    "related_run (keeps root) (unlink (x @ ''/decision.json.sig''))" by simp_all
qed

lemma kept_process: "process_keeps env root \<Longrightarrow> related_run (keeps root) (process env command)"
  by (simp add: process_keeps_def)

lemmas kept_intros = kept.sound_parts kept.sound_bound kept.sound_response kept.sound_root kept_writes kept_unlink kept_process

lemma kept_validated: "process_keeps env root \<Longrightarrow> related_run (keeps root) (validated_receipt_response env s i folder)"
  unfolding validated_receipt_response_def Let_def
  by (auto intro!: kept_intros kept.sound_verify split: json.splits)

lemma kept_sign: "process_keeps env root \<Longrightarrow> related_run (keeps root) before_receipt \<Longrightarrow>
    related_run (keeps root) (sign_approved env s completed before_receipt folder r decision reviewer request_sha)"
  unfolding sign_approved_def Let_def by (intro kept_intros kept.sound_verify kept.sound_signer)

lemma kept_operations:
  assumes "process_keeps env root"
  shows "related_run (keeps root) (create_bound_request env s q now fresh_id nonce)"
    and "related_run (keeps root) (status env s now i)"
    and "related_run (keeps root) before_receipt \<Longrightarrow>
      related_run (keeps root) (execute_request env s now completed before_receipt i)"
    and "related_run (keeps root) (record_human_decision env approval_root i verdict key home now)"
  unfolding create_bound_request_def status_def execute_request_def record_human_decision_def Let_def
  by (intro kept_intros kept_validated kept.sound_authenticate kept_sign assms; assumption)+

section \<open>The outcome is final\<close>

text \<open>One call by anyone: creating a request, looking at one, executing one, or deciding on one.\<close>

inductive approval_step :: "approval_env \<Rightarrow> string \<Rightarrow> files \<Rightarrow> files \<Rightarrow> bool" for env root where
  create: "approval_step env root fs (snd (create_bound_request env s q now fresh_id nonce fs))"
| look: "approval_step env root fs (snd (status env s now i fs))"
| execute: "related_run (keeps root) before_receipt \<Longrightarrow>
    approval_step env root fs (snd (execute_request env s now completed before_receipt i fs))"
| decide: "approval_step env root fs (snd (record_human_decision env approval_root i verdict key home now fs))"

lemma step_keeps: "approval_step env root fs fs' \<Longrightarrow> process_keeps env root \<Longrightarrow> keeps root fs fs'"
  by (induction rule: approval_step.induct)
     (use kept_operations in \<open>auto simp: related_run_def\<close>)

lemma steps_keep: "(approval_step env root)\<^sup>*\<^sup>* fs fs' \<Longrightarrow> process_keeps env root \<Longrightarrow> keeps root fs fs'"
  by (induction rule: rtranclp_induct) (auto intro: kept.refl kept.trans step_keeps)

lemma validated_receiptD:
  assumes "validated_receipt_response env s i root fs = (Inr resp, fs')"
  shows "\<exists>b receipt. content_at fs (root @ ''/receipt.json'') = Some b \<and> decode env b = Inr (JObj receipt) \<and>
    get_field ''status'' resp = get_field ''status'' receipt \<and> get_field ''status'' receipt \<in> {JStr ''SIGNED'', JStr ''DENIED''} \<and>
    get_field ''request_satisfied'' resp = JBool (get_field ''status'' receipt = JStr ''SIGNED'')"
proof -
  from assms obtain b receipt X fs1 fs2 and u :: unit where
    load: "content_at fs (root @ ''/receipt.json'') = Some b" "decode env b = Inr (JObj receipt)" and
    outcome: "(if get_field ''status'' receipt = JStr ''SIGNED'' then X
      else check (get_field ''status'' receipt = JStr ''DENIED'') ''APPROVAL_STATE_INVALID'' ''unknown approval receipt outcome'') fs1
        = (Inr u, fs2)" and
    resp: "receipt_response env receipt (root @ ''/receipt.json'') fs2 = (Inr resp, fs')"
    unfolding validated_receipt_response_def Let_def bind_run_iff load_json_Inr sha256_file_Inr split_paired_Ex prod.case by blast
  have "get_field ''status'' receipt \<in> {JStr ''SIGNED'', JStr ''DENIED''}"
    using outcome by (auto simp: check_Inr split: if_splits)
  with load receipt_response_Inr[OF resp] show ?thesis by blast
qed

text \<open>C38: the outcome of a request is final: once its receipt is written, then after any calls of the service and
  of reviewers, with processes that leave requests and receipts alone, the request and the receipt are still what
  they were, and every execution that returns, with whatever service and at whatever time, reports the status of
  the receipt; in particular a denied request is never reported as signed.\<close>

theorem receipt_is_final:
  assumes "(approval_step env (request_folder s i))\<^sup>*\<^sup>* fs fs'" and "process_keeps env (request_folder s i)"
    and "entry_at fs (request_folder s i @ ''/receipt.json'') = Some (Plain b)" and "decode env b = Inr (JObj receipt)"
  shows "entry_at fs' (request_folder s i @ ''/receipt.json'') = Some (Plain b) \<and>
    (\<forall>request. entry_at fs (request_folder s i @ ''/request.json'') = Some request \<longrightarrow>
       entry_at fs' (request_folder s i @ ''/request.json'') = Some request) \<and>
    (\<forall>now completed before_receipt resp fs''.
       execute_request env s now completed before_receipt i fs' = (Inr resp, fs'') \<longrightarrow>
         get_field ''status'' resp = get_field ''status'' receipt \<and>
         get_field ''status'' receipt \<in> {JStr ''SIGNED'', JStr ''DENIED''} \<and>
         get_field ''request_satisfied'' resp = JBool (get_field ''status'' receipt = JStr ''SIGNED''))"
proof -
  let ?root = "request_folder s i"
  have k: "keeps ?root fs fs'" using steps_keep[OF assms(1,2)] .
  then have e: "entry_at fs' (?root @ ''/receipt.json'') = Some (Plain b)" using assms(3) by (auto simp: keeps_def)
  have "get_field ''status'' resp = get_field ''status'' receipt \<and>
      get_field ''status'' receipt \<in> {JStr ''SIGNED'', JStr ''DENIED''} \<and>
      get_field ''request_satisfied'' resp = JBool (get_field ''status'' receipt = JStr ''SIGNED'')"
    if "execute_request env s now completed before_receipt i fs' = (Inr resp, fs'')"
    for now completed before_receipt resp fs''
  proof -
    from that obtain fs0 X and u :: unit where lock: "open_lock (?root @ ''/execution.lock'') fs' = (Inr u, fs0)" and
      run: "(if is_file fs0 (?root @ ''/receipt.json'') then validated_receipt_response env s i ?root else X) fs0 = (Inr resp, fs'')"
      unfolding execute_request_def request_root_def bind_run_iff query_Inr check_Inr ret_Inr by blast
    have e0: "entry_at fs0 (?root @ ''/receipt.json'') = Some (Plain b)" using lock_keeps[OF lock e] .
    then have "is_file fs0 (?root @ ''/receipt.json'')" by (simp add: is_file_def content_at_def)
    with run have "validated_receipt_response env s i ?root fs0 = (Inr resp, fs'')" by simp
    from validated_receiptD[OF this] e0 assms(4) show ?thesis by (auto simp: content_at_def)
  qed
  with e k show ?thesis by (auto simp: keeps_def)
qed
lemma demo_process_keeps: "process_keeps demo_approval_env root"
  by (auto simp: process_keeps_def related_run_def process_def demo_approval_env_def kept.refl)

theorem receipt_is_final_witness:
  "entry_at (snd (status demo_approval_env demo_approval_service 100 demo_id (snd demo_run)))
     (request_folder demo_approval_service demo_id @ ''/receipt.json'') = Some (Plain (approval_bytes demo_receipt))"
proof -
  let ?root = "request_folder demo_approval_service demo_id"
  have "?root = demo_root" by code_simp
  moreover have "snd demo_run = demo_fs0 @ [(as_posix (demo_root @ ''/receipt.json''), Plain (approval_bytes demo_receipt))]"
    using demo_run_signed by (metis snd_conv)
  ultimately have b: "entry_at (snd demo_run) (?root @ ''/receipt.json'') = Some (Plain (approval_bytes demo_receipt))"
    using demo_signing(11) by (simp add: entry_at_def map_add_def)
  have "decode demo_approval_env (approval_bytes demo_receipt) =
      Inr (JObj (object_of (case decode demo_approval_env (approval_bytes demo_receipt) of Inr j \<Rightarrow> j | _ \<Rightarrow> JNull)))"
    by (simp add: demo_approval_env_def)
  moreover have "(approval_step demo_approval_env ?root)\<^sup>*\<^sup>* (snd demo_run)
      (snd (status demo_approval_env demo_approval_service 100 demo_id (snd demo_run)))"
    by (rule r_into_rtranclp) (rule approval_step.look)
  ultimately show ?thesis using receipt_is_final[OF _ demo_process_keeps b] by blast
qed

end
