(* ===== verification/Promotion_Safety.thy ===== *)
theory Promotion_Safety
  imports Domain_Promotion Approval_Finality
begin

text \<open>
  What the promotion of domains guarantees: the service changes the file of a domain in the registry only to bytes that a
  reviewer approved, and only in place of what the reviewer was shown, whichever call fails wherever and whatever the
  processes do that it starts.
\<close>

section \<open>Runs that only read\<close>

context file_relation
begin

lemma sound_bind_when:
  assumes "related_run R m" and "\<And>x st st'. m st = (Inr x, st') \<Longrightarrow> related_run R (k x)"
  shows "related_run R (bind_run m k)"
  unfolding related_run_def
proof
  fix st
  obtain r st' where m: "m st = (r, st')" by (cases "m st")
  with assms(1) have "R st st'" by (metis related_run_def snd_conv)
  then show "R st (snd (bind_run m k st))"
    using assms(2) m trans by (cases r) (fastforce simp: bind_run_def handle_run_def related_run_def)+
qed

lemma sound_capture: "related_run R (capture_path limit p)" "related_run R (read_object env schema p)"
  unfolding read_object_def capture_path_def by (intro sound_parts)+

lemma sound_binding: "related_run R (check_binding env b)" "related_run R (observed env p)"
  unfolding check_binding_def observed_def
  by (auto intro!: sound_parts sound_capture split: json.splits)

lemma sound_policy: "related_run R (policy_identity env s)"
proof -
  have "related_run R (executable_digests env ps)" for ps
    unfolding executable_digests_def by (induction ps) (auto intro!: sound_parts sound_capture split: option.splits)
  then show ?thesis unfolding policy_identity_def by (intro sound_parts sound_capture)
qed

lemmas sound_inputs = sound_parts sound_capture sound_binding sound_policy

lemma sound_validate: "related_run R (validate_promotion env s r i now)"
  unfolding validate_promotion_def Let_def by (intro sound_inputs)

lemma sound_artifact: "related_run R (approved_artifact env s i r)"
  unfolding approved_artifact_def Let_def by (intro sound_inputs)

lemma sound_recovered: "related_run R (recovered_publication env folder r request_sha destination artifact)"
  unfolding recovered_publication_def Let_def by (intro sound_inputs)

lemma sound_authenticate_promotion: "(\<And>command. 3 < length command \<Longrightarrow> related_run R (process (core env) command)) \<Longrightarrow>
    related_run R (authenticate_promotion env s folder r)"
  unfolding authenticate_promotion_def by (intro sound_inputs sound_authenticate)

lemma sound_promotion_signature: "(\<And>command. 3 < length command \<Longrightarrow> related_run R (process (core env) command)) \<Longrightarrow>
    related_run R (verify_promotion_signature env s artifact signature)"
  unfolding verify_promotion_signature_def Let_def by (intro sound_verify)

lemma sound_sign_promotion: "(\<And>command. 3 < length command \<Longrightarrow> related_run R (process (core env) command)) \<Longrightarrow>
    related_run R (sign_promotion env s folder r)"
  unfolding sign_promotion_def Let_def by (intro sound_inputs sound_signer sound_promotion_signature)

lemma sound_promoted: "(\<And>command. 3 < length command \<Longrightarrow> related_run R (process (core env) command)) \<Longrightarrow>
    related_run R (check_promoted env s r receipt)"
  unfolding check_promoted_def Let_def by (intro sound_inputs sound_promotion_signature)

lemma sound_published: "related_run R (publication_done env folder r)"
  unfolding publication_done_def by (intro sound_inputs)

end

interpretation same_files: file_relation "\<lambda>a b :: files. a = b"
  by unfold_locales auto

lemma same_state: "related_run (\<lambda>a b. a = b) m \<Longrightarrow> m fs = (x, fs') \<Longrightarrow> fs' = fs"
  unfolding related_run_def by (metis snd_conv)

lemma capture_path_Inr: "capture_path limit p fs = (Inr b, fs') \<Longrightarrow> fs' = fs \<and> entry_at fs p = Some (Plain b)"
  by (auto simp: capture_path_def store_read_def split: if_splits option.splits entry.splits)

lemma object_from_Inr: "object_from env schema b = Inr d \<Longrightarrow> strict_decode env b = Inr (JObj d)"
  by (auto simp: object_from_def and_then_Inr_iff split: sum.splits io_error.splits)

lemma read_object_Inr: "read_object env schema p fs = (Inr d, fs') \<Longrightarrow>
    fs' = fs \<and> (\<exists>b. entry_at fs p = Some (Plain b) \<and> strict_decode env b = Inr (JObj d))"
  unfolding read_object_def run_Inr by (blast dest: capture_path_Inr object_from_Inr)

lemma observed_Inr: "observed env p fs = (Inr there, fs') \<Longrightarrow> fs' = fs \<and>
    (case entry_at fs p of None \<Rightarrow> there = JNull | Some (Plain b) \<Rightarrow> there = binding_of env p b | _ \<Rightarrow> False)"
  by (auto simp: observed_def run_Inr query_Inr dest!: capture_path_Inr split: if_splits option.splits entry.splits)

section \<open>Approved publications\<close>

text \<open>Files that are neither the lock of the registry nor in the private folder.\<close>

definition apart :: "promotion_env \<Rightarrow> promotion_service \<Rightarrow> string \<Rightarrow> bool" where
  "apart env s p \<longleftrightarrow> as_posix p \<noteq> as_posix (registry s @ ''/.promotion.lock'') \<and> as_posix p \<noteq> as_posix (authority_folder env) \<and>
     (\<forall>n. as_posix p \<noteq> as_posix (authority_folder env @ ''/'' @ n)) \<and>
     \<not> starts_with (as_posix (authority_folder env) @ ''/'') (as_posix p)"

text \<open>The private copies of the documents of a request, beside files that are as they were.\<close>

definition control_documents :: "string list" where
  "control_documents = [''request.json'', ''decision.json'', ''decision.json.sig'']"

definition private_copies :: "promotion_env \<Rightarrow> promotion_service \<Rightarrow> string \<Rightarrow> files \<Rightarrow> files \<Rightarrow> bool" where
  "private_copies env s root fs copies \<longleftrightarrow>
     (\<forall>n \<in> set control_documents. entry_at copies (authority_folder env @ ''/'' @ n) = entry_at fs (root @ ''/'' @ n)) \<and>
     (\<forall>p. apart env s p \<longrightarrow> entry_at copies p = entry_at fs p)"

text \<open>The call to publish request \<open>i\<close>, at a time and with these files, is approved for these bytes and this place: the
  request it finds binds the bytes and the place and is valid, unexpired at that time and unrevoked in the list it finds; the
  decision it finds approves it, authenticated on private copies; and replacing another file there was asked for, if
  one is said to be there.\<close>

definition approved_publication :: "promotion_env \<Rightarrow> promotion_service \<Rightarrow> string \<Rightarrow> string \<Rightarrow> int \<Rightarrow> files \<Rightarrow> dict \<Rightarrow> string \<Rightarrow> bool" where
  "approved_publication env s d i now fs r artifact \<longleftrightarrow>
    (\<exists>b revocation_list revoked ids e expires copies decision reviewer request_sha after path bound.
     let root = request_folder (coordinator s) i; op = object_of (get_field ''operation'' r) in
     entry_at fs (root @ ''/request.json'') = Some (Plain b) \<and> strict_decode env b = Inr (JObj r) \<and>
     request_ok (core env) (coordinator s) r i \<and> map_of r ''expires_at'' = Some e \<and>
     read_time (core env) (py_str (text_of_value (core env)) e) = Some (True, expires) \<and> now < expires \<and>
     entry_at fs (revocations s) = Some (Plain revocation_list) \<and> strict_decode env revocation_list = Inr (JObj revoked) \<and>
     get_field ''request_ids'' revoked = JArr ids \<and> JStr i \<notin> set ids \<and>
     private_copies env s root fs copies \<and>
     authenticated (core env) (coordinator s) (authority_folder env) r copies decision reviewer request_sha after \<and>
     get_field ''decision'' decision = JStr ''approve'' \<and>
     get_field ''destination'' r = JStr path \<and> as_posix (as_posix path) = as_posix d \<and>
     json_eq (binding_of env bound artifact) (get_field ''artifact'' r) \<and>
     (get_field ''prior_destination'' op = JNull \<or> json_true (get_field ''replace'' op)))"

text \<open>What the request says is there is there.\<close>

definition prior_matches :: "promotion_env \<Rightarrow> string \<Rightarrow> dict \<Rightarrow> files \<Rightarrow> bool" where
  "prior_matches env d r fs \<longleftrightarrow> (let prior = get_field ''prior_destination'' (object_of (get_field ''operation'' r)) in
     case entry_at fs d of None \<Rightarrow> prior = JNull
     | Some (Plain b) \<Rightarrow> (\<exists>p. json_eq (binding_of env p b) prior) | _ \<Rightarrow> False)"

text \<open>One change of the files as far as the file at \<open>d\<close> is concerned: a change elsewhere, what a process does (any
  but the publisher), or a publication that one of the calls is approved for, in place of what is said to be there.\<close>

inductive registry_change :: "promotion_env \<Rightarrow> promotion_service \<Rightarrow> string \<Rightarrow> (string \<times> int \<times> files) set \<Rightarrow> files \<Rightarrow> files \<Rightarrow> bool"
  for env s d calls where
  elsewhere: "entry_at fs' d = entry_at fs d \<Longrightarrow> registry_change env s d calls fs fs'"
| process: "(\<And>p i. command \<noteq> publisher_command p i) \<Longrightarrow>
    registry_change env s d calls fs (snd (run_process (core env) command fs))"
| publication: "\<lbrakk>(i, now, start) \<in> calls; approved_publication env s d i now start r artifact; prior_matches env d r fs;
    entry_at fs' d = Some (Plain artifact)\<rbrakk> \<Longrightarrow> registry_change env s d calls fs fs'"

abbreviation changes :: "promotion_env \<Rightarrow> promotion_service \<Rightarrow> string \<Rightarrow> (string \<times> int \<times> files) set \<Rightarrow> files \<Rightarrow> files \<Rightarrow> bool" where
  "changes env s d calls \<equiv> (registry_change env s d calls)\<^sup>*\<^sup>*"

interpretation reg: file_relation "changes env s d calls" for env s d calls
  by unfold_locales auto

lemma changes_more: "changes env s d calls fs fs' \<Longrightarrow> calls \<subseteq> calls' \<Longrightarrow> changes env s d calls' fs fs'"
proof (induction rule: rtranclp_induct)
  case (step fs1 fs2)
  from step(2,4) have "registry_change env s d calls' fs1 fs2"
    by (induction rule: registry_change.induct) (blast intro: registry_change.intros)+
  with step show ?case by (meson rtranclp.rtrancl_into_rtrancl)
qed simp

text \<open>The folder of the requests, the registry, the revocations and the private folder are different places.\<close>

definition separate :: "promotion_env \<Rightarrow> promotion_service \<Rightarrow> string \<Rightarrow> bool" where
  "separate env s d \<longleftrightarrow> apart env s d \<and> apart env s (revocations s) \<and>
     (\<forall>n. apart env s (app_root (coordinator s) @ ''/'' @ n) \<and> as_posix (app_root (coordinator s) @ ''/'' @ n) \<noteq> as_posix d)"

lemma process_changes: "3 < length command \<Longrightarrow> related_run (changes env s d calls) (process (core env) command)"
proof -
  assume "3 < length command"
  then have "command \<noteq> publisher_command p i" for p i by (auto simp: publisher_command_def)
  from registry_change.process[OF this] show ?thesis
    by (auto simp: related_run_def process_def split_beta)
qed

lemma elsewhere_op:
  assumes "\<And>fs x fs'. f fs = Inr (x, fs') \<Longrightarrow> entry_at fs' d = entry_at fs d"
  shows "related_run (changes env s d calls) (store_op f)"
  by (rule reg.sound_op) (use assms registry_change.elsewhere in \<open>blast intro: r_into_rtranclp\<close>)

text \<open>What the writers leave alone.\<close>

definition placed :: "string \<Rightarrow> string \<Rightarrow> files \<Rightarrow> files" where
  "placed p c fs = (as_posix p, Plain c) # filter (\<lambda>(q, _). q \<noteq> as_posix p) fs"

lemma entry_placed: "entry_at (placed p c fs) q = (if as_posix q = as_posix p then Some (Plain c) else entry_at fs q)"
  using filtered_entry[of "\<lambda>q. q \<noteq> as_posix p" fs q] by (simp add: entry_at_def placed_def)

lemma entry_put: "entry_at ((as_posix p, x) # filter (\<lambda>(q, _). q \<noteq> as_posix p) fs) q =
    (if as_posix q = as_posix p then Some x else entry_at fs q)"
  using filtered_entry[of "\<lambda>q. q \<noteq> as_posix p" fs q] by (simp add: entry_at_def)

lemma entry_added: "as_posix q \<noteq> as_posix p \<Longrightarrow> entry_at (fs @ [(as_posix p, x)]) q = entry_at fs q"
  by (simp add: entry_at_append split: option.splits)

lemma reg_write:
  assumes "as_posix p \<noteq> as_posix d"
  shows "related_run (changes env s d calls) (write_once p c)" "related_run (changes env s d calls) (put_file p c)"
    "related_run (changes env s d calls) (make_folder b p)" "related_run (changes env s d calls) (open_lock p)"
    "related_run (changes env s d calls) (unlink p)"
  unfolding write_once_def put_file_def make_folder_def open_lock_def unlink_def
  by (rule elsewhere_op; use assms in \<open>auto simp: entry_put entry_added filtered_entry split: if_splits option.splits entry.splits\<close>)+

section \<open>What an authorisation and an artifact mean\<close>

lemma validate_promotionD:
  assumes "validate_promotion env s r i now fs = (Inr u, fs')"
  shows "fs' = fs \<and> validate_request (core env) (coordinator s) r i now = Inr () \<and> (\<exists>b revoked ids.
    entry_at fs (revocations s) = Some (Plain b) \<and> strict_decode env b = Inr (JObj revoked) \<and>
    get_field ''request_ids'' revoked = JArr ids \<and> JStr i \<notin> set ids)"
proof -
  have same: "fs' = fs" by (rule same_state[OF same_files.sound_validate assms])
  from assms obtain revoked ids f1 f2 f3 and u v w :: unit where
    "validate_request (core env) (coordinator s) r i now = Inr u"
    "check ((case admitted_profile env of None \<Rightarrow> False
          | Some profile \<Rightarrow> get_field ''admission_profile_sha256'' r = JStr profile) \<and>
          json_eq (get_field ''verification'' r) promotion_verification) ''APPROVAL_BINDING_MISMATCH''
       ''promotion admission or claim boundary changed'' fs = (Inr v, f1)"
    "read_object env (Some ''formalspecgen-promotion-revocations-v1'') (revocations s) f1 = (Inr revoked, f2)"
    "revoked_ids revoked = Inr ids"
    "check (JStr i \<notin> set ids) ''APPROVAL_REVOKED'' ''promotion approval has been revoked'' f2 = (Inr w, f3)"
    unfolding validate_promotion_def Let_def bind_run_iff pure_run_Inr by blast
  then have "validate_request (core env) (coordinator s) r i now = Inr ()" "f1 = fs" "JStr i \<notin> set ids"
    "read_object env (Some ''formalspecgen-promotion-revocations-v1'') (revocations s) fs = (Inr revoked, f2)"
    "get_field ''request_ids'' revoked = JArr ids"
    by (auto simp: check_Inr revoked_ids_def and_then_Inr_iff split: json.splits)
  with same read_object_Inr[OF this(4)] show ?thesis by blast
qed

lemma authenticate_promotionD:
  assumes "authenticate_promotion env s folder r fs = (Inr x, fs')"
  shows "authenticate_decision (core env) (coordinator s) folder r fs = (Inr x, fs')"
proof -
  have "related_run (\<lambda>a b. a = b) (if b then bind_run (read_object env None p) (\<lambda>_. ret ()) else ret ())"
    "related_run (\<lambda>a b. a = b) (if b then bind_run (capture_path n p) (\<lambda>_. ret ()) else ret ())" for b p n
    by (intro same_files.sound_inputs)+
  note same = this[THEN same_state]
  from assms show ?thesis
    unfolding authenticate_promotion_def bind_run_iff query_Inr by (blast dest: same)
qed

text \<open>The writes into the private folder.\<close>

lemma copy_controlD:
  assumes "copy_control root copies n fs = (Inr u, fs')"
  shows "\<exists>b. entry_at fs (root @ ''/'' @ n) = Some (Plain b) \<and>
    fs' = placed (copies @ ''/'' @ n) b fs"
  using assms by (auto simp: placed_def copy_control_def run_Inr check_Inr query_Inr put_file_def store_op_def dest!: capture_path_Inr)

lemma control_names: "flat_name ''request.json''" "flat_name ''decision.json''" "flat_name ''decision.json.sig''"
  by code_simp+

lemma authorizationD:
  assumes "authorization env s i root (Some now) fs = (Inr (r, decision, reviewer, request_sha), fs')"
    and "\<And>n. apart env s (root @ ''/'' @ n)" and "apart env s (revocations s)"
  shows "\<exists>b revocation_list revoked ids e expires copies after.
    entry_at fs (root @ ''/request.json'') = Some (Plain b) \<and> strict_decode env b = Inr (JObj r) \<and>
    request_ok (core env) (coordinator s) r i \<and> map_of r ''expires_at'' = Some e \<and>
    read_time (core env) (py_str (text_of_value (core env)) e) = Some (True, expires) \<and> now < expires \<and>
    entry_at fs (revocations s) = Some (Plain revocation_list) \<and> strict_decode env revocation_list = Inr (JObj revoked) \<and>
    get_field ''request_ids'' revoked = JArr ids \<and> JStr i \<notin> set ids \<and> private_copies env s root fs copies \<and>
    authenticated (core env) (coordinator s) (authority_folder env) r copies decision reviewer request_sha after"
proof -
  let ?A = "authority_folder env"
  let ?f1 = "fs @ [(as_posix ?A, Folder)]"
  let ?put = "\<lambda>n. placed (?A @ ''/'' @ n)"
  have first: "entry_at ?f1 p = entry_at fs p" if "apart env s p" for p using that by (simp add: entry_added apart_def)
  have other: "entry_at (?put n b f) p = entry_at f p" if "apart env s p" for n b f p
    using that by (simp add: entry_placed apart_def)
  from assms(1) obtain raw f3 f4 f5 f6 f7 f8 and u v w x :: unit where
    request: "capture_path object_limit (root @ ''/request.json'') ?f1 = (Inr raw, f3)" and
    object: "object_from env (Some ''formalspecgen-approval-request-v1'') raw = Inr r" and
    valid: "validate_promotion env s r i (Some now) f3 = (Inr u, f4)" and
    copy: "put_file (?A @ ''/request.json'') raw f4 = (Inr v, f5)" and
    copy2: "copy_control root ?A ''decision.json'' f5 = (Inr w, f6)" and
    copy3: "copy_control root ?A ''decision.json.sig'' f6 = (Inr x, f7)" and
    auth: "authenticate_promotion env s ?A r f7 = (Inr (decision, reviewer, request_sha), f8)"
    unfolding authorization_def by (auto dest!: with_folderD simp: run_Inr split: prod.splits)
  have f: "f3 = ?f1" "entry_at ?f1 (root @ ''/request.json'') = Some (Plain raw)" using capture_path_Inr[OF request] by auto
  note v = validate_promotionD[OF valid]
  have "f4 = ?f1" using v f(1) by simp
  with copy have f5: "f5 = ?put ''request.json'' raw ?f1" by (auto simp: placed_def put_file_def store_op_def)
  from copy_controlD[OF copy2] obtain c where c: "entry_at f5 (root @ ''/decision.json'') = Some (Plain c)"
    "f6 = ?put ''decision.json'' c f5" by auto
  from copy_controlD[OF copy3] obtain e where e: "entry_at f6 (root @ ''/decision.json.sig'') = Some (Plain e)"
    "f7 = ?put ''decision.json.sig'' e f6" by auto
  have keep: "entry_at f5 p = entry_at fs p" "entry_at f6 p = entry_at fs p" "entry_at f7 p = entry_at fs p" if "apart env s p" for p
    by (simp_all only: f5 c(2) e(2) other[OF that] first[OF that])
  have diff: "as_posix (?A @ ''/request.json'') \<noteq> as_posix (?A @ ''/decision.json'')"
    "as_posix (?A @ ''/request.json'') \<noteq> as_posix (?A @ ''/decision.json.sig'')"
    "as_posix (?A @ ''/decision.json'') \<noteq> as_posix (?A @ ''/decision.json.sig'')"
    using child_paths[OF control_names(1,2), of ?A ?A] child_paths[OF control_names(1,3), of ?A ?A]
      child_paths[OF control_names(2,3), of ?A ?A] by simp_all
  have at: "apart env s (root @ ''/request.json'')" "apart env s (root @ ''/decision.json'')" "apart env s (root @ ''/decision.json.sig'')"
    using assms(2)[of "''request.json''"] assms(2)[of "''decision.json''"] assms(2)[of "''decision.json.sig''"] by simp_all
  have "entry_at f7 (?A @ ''/request.json'') = Some (Plain raw)" "entry_at f7 (?A @ ''/decision.json'') = Some (Plain c)"
    "entry_at f7 (?A @ ''/decision.json.sig'') = Some (Plain e)"
    using diff by (simp_all add: e(2) c(2) f5 entry_placed)
  moreover have "entry_at fs (root @ ''/request.json'') = Some (Plain raw)" "entry_at fs (root @ ''/decision.json'') = Some (Plain c)"
    "entry_at fs (root @ ''/decision.json.sig'') = Some (Plain e)"
    using f(2) c(1) e(1) first[OF at(1)] keep(1)[OF at(2)] keep(2)[OF at(3)] by simp_all
  ultimately have "private_copies env s root fs f7" "entry_at fs (root @ ''/request.json'') = Some (Plain raw)"
    using keep(3) by (simp_all add: private_copies_def control_documents_def)
  moreover note object_from_Inr[OF object] authenticateD[OF authenticate_promotionD[OF auth]]
  ultimately show ?thesis
    using v unfolding validate_request_Inr f(1) first[OF assms(3)] by blast
qed

lemma approved_artifactD:
  assumes "approved_artifact env s i r fs = (Inr artifact, fs')"
  shows "\<exists>p. json_eq (binding_of env p artifact) (get_field ''artifact'' r)"
proof -
  from assms obtain f f' where "check_binding env (get_field ''artifact'' r) f = (Inr artifact, f')"
    unfolding approved_artifact_def Let_def bind_run_iff ret_Inr by blast
  then show ?thesis by (auto simp: check_binding_def run_Inr check_Inr pure_run_Inr split: json.splits)
qed

lemma json_eq_null: "json_eq JNull j \<longleftrightarrow> j = JNull"
  by (cases j) (auto simp: json_eq_def)

lemma begin_publicationD:
  assumes "begin_publication env folder r request_sha destination fs = (Inr u, fs')"
  shows "get_field ''prior_destination'' (object_of (get_field ''operation'' r)) = JNull \<or>
    json_true (get_field ''replace'' (object_of (get_field ''operation'' r)))"
proof -
  from assms obtain there f f' and v :: unit where
    "check (json_eq there (get_field ''prior_destination'' (object_of (get_field ''operation'' r))) \<and>
       (there = JNull \<or> json_true (get_field ''replace'' (object_of (get_field ''operation'' r))))) ''DESTINATION_CHANGED''
      ''reviewed destination changed after approval'' f = (Inr v, f')"
    unfolding begin_publication_def Let_def bind_run_iff by blast
  then show ?thesis by (auto simp: check_Inr json_eq_null)
qed

section \<open>Calls and the registry\<close>

lemma separateD:
  assumes "separate env s d"
  shows "as_posix (app_root (coordinator s) @ ''/'' @ n) \<noteq> as_posix d" "apart env s (app_root (coordinator s) @ ''/'' @ n)"
    "apart env s (revocations s)" "as_posix (registry s @ ''/.promotion.lock'') \<noteq> as_posix d"
    "as_posix (authority_folder env) \<noteq> as_posix d" "as_posix (authority_folder env @ ''/'' @ n) \<noteq> as_posix d"
    "\<not> starts_with (as_posix (authority_folder env) @ ''/'') (as_posix d)"
  using assms unfolding separate_def apart_def by metis+

lemma reg_folder:
  assumes sep: "separate env s d" and m: "related_run (changes env s d calls) m"
  shows "related_run (changes env s d calls) (with_folder (authority_folder env) m)"
proof -
  have "related_run (changes env s d calls) (remove_tree (authority_folder env))"
    unfolding remove_tree_def
    by (rule elsewhere_op) (use separateD(5,7)[OF sep] in \<open>auto simp:
        filtered_entry[of "\<lambda>q. q \<noteq> as_posix (authority_folder env) \<and> \<not> starts_with (as_posix (authority_folder env) @ ''/'') q"]\<close>)
  moreover have "related_run (changes env s d calls) (make_folder False (authority_folder env))"
    using separateD(5)[OF sep] by (rule reg_write)
  ultimately show ?thesis unfolding with_folder_def finally_run_def using m by (intro reg.sound_parts)
qed

lemma reg_copy: "separate env s d \<Longrightarrow>
    related_run (changes env s d calls) (copy_control folder (authority_folder env) n)"
  unfolding copy_control_def by (intro reg.sound_inputs reg_write separateD(6))

lemma reg_authorization:
  assumes "separate env s d"
  shows "related_run (changes env s d calls) (authorization env s i folder now)"
proof -
  have "related_run (changes env s d calls) (put_file (authority_folder env @ ''/request.json'') raw)" for raw
    using separateD(6)[OF assms, of "''request.json''"] by (intro reg_write) simp
  then show ?thesis
    unfolding authorization_def
    by (intro reg_folder reg_copy reg.sound_inputs reg.sound_validate reg.sound_authenticate_promotion process_changes assms)
qed

lemma reg_validated:
  assumes "separate env s d"
  shows "related_run (changes env s d calls) (validated_promotion env s i folder)"
  unfolding validated_promotion_def Let_def
  by (intro reg_authorization reg.sound_inputs reg.sound_promoted reg.sound_response process_changes assms)

lemma below_root: "separate env s d \<Longrightarrow> as_posix (request_folder (coordinator s) i @ ''/'' @ n) \<noteq> as_posix d"
  using separateD(1)[of env s d "i @ ''/'' @ n"] by (simp add: request_folder_def)

lemma root_apart: "separate env s d \<Longrightarrow> apart env s (request_folder (coordinator s) i @ ''/'' @ n)"
  using separateD(2)[of env s d "i @ ''/'' @ n"] by (simp add: request_folder_def)

lemma reg_root_write:
  assumes "separate env s d"
  shows "related_run (changes env s d calls) (write_once (request_folder (coordinator s) i @ ''/receipt.json'') c)"
    and "related_run (changes env s d calls) (write_once (request_folder (coordinator s) i @ ''/publication-intent.json'') c)"
  using below_root[OF assms, of i "''receipt.json''"] below_root[OF assms, of i "''publication-intent.json''"]
  by (auto intro: reg_write)

lemma reg_begin: "separate env s d \<Longrightarrow> related_run (changes env s d calls)
    (begin_publication env (request_folder (coordinator s) i) r request_sha destination)"
  unfolding begin_publication_def Let_def by (intro reg.sound_inputs reg_root_write)

text \<open>The one write into the registry comes after everything that justifies it, and right after the look at what is there.\<close>

lemma reg_replace:
  assumes call: "(i, now, start) \<in> calls"
    and approved: "as_posix (as_posix path) = as_posix d \<Longrightarrow> approved_publication env s d i now start r artifact"
  shows "related_run (changes env s d calls) (replace_destination env r (as_posix path) artifact)"
  unfolding related_run_def
proof
  fix fs
  let ?prior = "get_field ''prior_destination'' (object_of (get_field ''operation'' r))"
  have look: "snd (observed env (as_posix path) fs) = fs"
    using same_files.sound_binding(2) unfolding related_run_def by metis
  show "changes env s d calls fs (snd (replace_destination env r (as_posix path) artifact fs))"
  proof (cases "\<exists>there. observed env (as_posix path) fs = (Inr there, fs) \<and> json_eq there ?prior")
    case False
    then have "snd (replace_destination env r (as_posix path) artifact fs) = fs"
      using look unfolding replace_destination_def
      by (cases "observed env (as_posix path) fs"; cases "fst (observed env (as_posix path) fs)")
        (auto simp: run_defs check_def ensure_def)
    then show ?thesis by simp
  next
    case True
    then obtain there where there: "observed env (as_posix path) fs = (Inr there, fs)" "json_eq there ?prior" by blast
    then have result: "snd (replace_destination env r (as_posix path) artifact fs) = placed (as_posix path) artifact fs"
      by (simp add: replace_destination_def run_defs check_def ensure_def put_file_def placed_def)
    show ?thesis
    proof (cases "as_posix (as_posix path) = as_posix d")
      case False
      then have "entry_at (placed (as_posix path) artifact fs) d = entry_at fs d" by (simp add: entry_placed)
      then show ?thesis unfolding result by (intro r_into_rtranclp registry_change.elsewhere)
    next
      case True
      then have "entry_at (placed (as_posix path) artifact fs) d = Some (Plain artifact)" by (simp add: entry_placed)
      moreover have "entry_at fs (as_posix path) = entry_at fs d" using True by (simp add: entry_at_def)
      then have "prior_matches env d r fs"
        using observed_Inr[OF there(1)] there(2)
        by (auto simp: prior_matches_def Let_def json_eq_null split: option.splits entry.splits)
      ultimately show ?thesis
        unfolding result by (intro r_into_rtranclp registry_change.publication[OF call approved[OF True]])
    qed
  qed
qed

text \<open>Opening the lock changes the lock only.\<close>

lemma lock_apart: "open_lock (registry s @ ''/.promotion.lock'') fs = (Inr u, fs') \<Longrightarrow> apart env s p \<Longrightarrow>
    entry_at fs' p = entry_at fs p"
  by (auto simp: open_lock_def store_op_def apart_def entry_added split: option.splits entry.splits)

lemma copies_after_lock:
  assumes "private_copies env s folder fs0 copies" and "\<And>p. apart env s p \<Longrightarrow> entry_at fs0 p = entry_at fs p"
    and "\<And>n. apart env s (folder @ ''/'' @ n)"
  shows "private_copies env s folder fs copies"
  using assms unfolding private_copies_def by metis

lemma reg_publish:
  assumes sep: "separate env s d" and call: "(i, now, fs) \<in> calls"
    and before: "\<And>f. entry_at (snd (before_receipt f)) d = entry_at f d"
  shows "changes env s d calls fs (snd (publish_approved env s now completed before_receipt i fs))"
proof -
  let ?root = "request_folder (coordinator s) i" and ?R = "changes env s d calls"
  have hook: "related_run ?R before_receipt"
    using before registry_change.elsewhere by (auto simp: related_run_def)
  have decided: "related_run ?R (publish_decided env s completed before_receipt i ?root r decision reviewer request_sha)"
    if auth: "authorization env s i ?root (Some now) fs0 = (Inr (r, decision, reviewer, request_sha), fs1)"
      and lock: "open_lock (registry s @ ''/.promotion.lock'') fs = (Inr u, fs0)"
      and verdict: "get_field ''decision'' decision \<noteq> JStr ''deny''" for r decision reviewer request_sha fs0 fs1 u
    unfolding publish_decided_def
  proof (rule reg.sound_bind_when[OF reg.sound_artifact], rule reg.sound_bind_when[OF reg.sound_pure])
    fix artifact destination :: string and g g' k k' :: files
    assume art: "approved_artifact env s i r g = (Inr artifact, g')"
      and "pure_run (and_then (text_at ''destination'' r) (\<lambda>p. Inr (as_posix p))) k = (Inr destination, k')"
    then obtain path where path: "get_field ''destination'' r = JStr path" "destination = as_posix path"
      by (auto simp: pure_run_Inr and_then_Inr_iff text_at_Inr)
    have approved: "approved_publication env s d i now fs r artifact"
      if begun: "begin_publication env ?root r request_sha destination h = (Inr v, h')"
        and here: "as_posix (as_posix path) = as_posix d" for h h' and v :: unit
    proof -
      note same = lock_apart[OF lock]
      from authorizationD[OF auth root_apart[OF sep] separateD(3)[OF sep]] obtain b revocation_list revoked ids e expires copies after where
        a: "entry_at fs0 (?root @ ''/request.json'') = Some (Plain b)" "strict_decode env b = Inr (JObj r)"
          "request_ok (core env) (coordinator s) r i" "map_of r ''expires_at'' = Some e"
          "read_time (core env) (py_str (text_of_value (core env)) e) = Some (True, expires)" "now < expires"
          "entry_at fs0 (revocations s) = Some (Plain revocation_list)" "strict_decode env revocation_list = Inr (JObj revoked)"
          "get_field ''request_ids'' revoked = JArr ids" "JStr i \<notin> set ids" and
        copies: "private_copies env s ?root fs0 copies" and
        auth': "authenticated (core env) (coordinator s) (authority_folder env) r copies decision reviewer request_sha after" by blast
      have "get_field ''decision'' decision = JStr ''approve''" using auth' verdict by (auto simp: authenticated_def)
      moreover obtain bound where "json_eq (binding_of env bound artifact) (get_field ''artifact'' r)"
        using approved_artifactD[OF art] by blast
      moreover have "private_copies env s ?root fs copies"
        by (rule copies_after_lock[OF copies same root_apart[OF sep]])
      moreover have "entry_at fs (?root @ ''/request.json'') = Some (Plain b)"
        "entry_at fs (revocations s) = Some (Plain revocation_list)"
        using a(1,7) same[OF root_apart[OF sep, of i "''request.json''"]] same[OF separateD(3)[OF sep]] by simp_all
      ultimately show ?thesis
        unfolding approved_publication_def Let_def
        using a auth' path(1) here begin_publicationD[OF begun] by (intro exI conjI) assumption+
    qed
    have finish: "related_run ?R (bind_run (pure_run (receipt_dict (core env) r request_sha decision reviewer ''PROMOTED'' signature completed)) (\<lambda>receipt.
        bind_run before_receipt (\<lambda>_.
        write_once (?root @ ''/receipt.json'') (approval_bytes (receipt @ [(''operation'', get_field ''operation'' r),
          (''publication'', binding_of env destination artifact)])))))" for signature
      by (intro reg.sound_inputs hook reg_root_write[OF sep])
    show "related_run ?R (bind_run (recovered_publication env ?root r request_sha destination artifact) (\<lambda>recovered.
        bind_run (if recovered then ret () else begin_publication env ?root r request_sha destination) (\<lambda>_.
        bind_run (sign_promotion env s ?root r) (\<lambda>signature.
        bind_run (if recovered then ret () else replace_destination env r destination artifact) (\<lambda>_.
        bind_run (pure_run (receipt_dict (core env) r request_sha decision reviewer ''PROMOTED'' signature completed)) (\<lambda>receipt.
        bind_run before_receipt (\<lambda>_.
        write_once (?root @ ''/receipt.json'') (approval_bytes (receipt @ [(''operation'', get_field ''operation'' r),
          (''publication'', binding_of env destination artifact)])))))))))"
    proof (rule reg.sound_bind[OF reg.sound_recovered])
      fix recovered
      show "related_run ?R (bind_run (if recovered then ret () else begin_publication env ?root r request_sha destination) (\<lambda>_.
        bind_run (sign_promotion env s ?root r) (\<lambda>signature.
        bind_run (if recovered then ret () else replace_destination env r destination artifact) (\<lambda>_.
        bind_run (pure_run (receipt_dict (core env) r request_sha decision reviewer ''PROMOTED'' signature completed)) (\<lambda>receipt.
        bind_run before_receipt (\<lambda>_.
        write_once (?root @ ''/receipt.json'') (approval_bytes (receipt @ [(''operation'', get_field ''operation'' r),
          (''publication'', binding_of env destination artifact)]))))))))"
      proof (cases recovered)
        case True
        then show ?thesis
          by (simp, intro reg.sound_inputs hook reg_root_write[OF sep] reg.sound_sign_promotion process_changes)
      next
        case False
        then have first: "recovered = False" by simp
        show ?thesis unfolding first if_False
        proof (rule reg.sound_bind_when[OF reg_begin[OF sep]])
          fix v and h h' :: files
          assume "begin_publication env ?root r request_sha destination h = (Inr v, h')"
          then have "related_run ?R (replace_destination env r (as_posix path) artifact)"
            by (intro reg_replace[OF call] approved)
          then have replace: "related_run ?R (replace_destination env r destination artifact)" by (simp add: path(2))
          show "related_run ?R (bind_run (sign_promotion env s ?root r) (\<lambda>signature.
            bind_run (replace_destination env r destination artifact) (\<lambda>_.
            bind_run (pure_run (receipt_dict (core env) r request_sha decision reviewer ''PROMOTED'' signature completed)) (\<lambda>receipt.
            bind_run before_receipt (\<lambda>_.
            write_once (?root @ ''/receipt.json'') (approval_bytes (receipt @ [(''operation'', get_field ''operation'' r),
              (''publication'', binding_of env destination artifact)])))))))"
            by (rule reg.sound_bind[OF reg.sound_sign_promotion[OF process_changes]], assumption)
               (rule reg.sound_bind[OF replace finish])
        qed
      qed
    qed
  qed
  note lock_sound = reg_write(4)[OF separateD(4)[OF sep]]
  obtain x f where root: "request_root (coordinator s) i fs = (x, f)" "f = fs"
    using same_files.sound_root unfolding related_run_def by (metis prod.collapse)
  show ?thesis
  proof (cases x)
    case (Inl e)
    then show ?thesis using root by (simp add: publish_approved_def run_defs)
  next
    case (Inr folder)
    then have folder: "folder = ?root" using root by (auto simp: request_root_def run_Inr check_Inr query_Inr)
    obtain y fs0 where lock: "open_lock (registry s @ ''/.promotion.lock'') fs = (y, fs0)" by (cases "open_lock (registry s @ ''/.promotion.lock'') fs")
    have opened: "?R fs fs0" using lock_sound lock unfolding related_run_def by (metis snd_conv)
    show ?thesis
    proof (cases y)
      case (Inl e)
      then show ?thesis using root Inr lock opened by (simp add: publish_approved_def run_defs)
    next
      case y: (Inr u)
      let ?deny = "\<lambda>r decision reviewer request_sha.
          bind_run (pure_run (receipt_dict (core env) r request_sha decision reviewer ''DENIED'' JNull completed)) (\<lambda>receipt.
          write_once (?root @ ''/receipt.json'') (approval_bytes (receipt @ [(''operation'', get_field ''operation'' r)])))"
      let ?rest = "\<lambda>(r, decision, reviewer, request_sha).
          bind_run (if get_field ''decision'' decision = JStr ''deny'' then ?deny r decision reviewer request_sha
            else publish_decided env s completed before_receipt i ?root r decision reviewer request_sha) (\<lambda>_.
          validated_promotion env s i ?root)"
      have valid: "related_run ?R (validated_promotion env s i ?root)" by (rule reg_validated[OF sep])
      have rest: "related_run ?R (?rest z)" if "authorization env s i ?root (Some now) fs0 = (Inr z, fs1)" for z fs1
        using that decided[OF _ lock[unfolded y]] by (cases z)
          (auto intro!: reg.sound_bind reg.sound_pure reg_root_write[OF sep] valid)
      obtain z fs1 where auth: "authorization env s i ?root (Some now) fs0 = (z, fs1)"
        by (cases "authorization env s i ?root (Some now) fs0")
      have "?R fs0 fs1" using reg_authorization[OF sep] auth unfolding related_run_def by (metis snd_conv)
      moreover have "?R fs1 (snd (case z of Inl e \<Rightarrow> (Inl e, fs1) | Inr v \<Rightarrow> ?rest v fs1))"
        using rest auth by (cases z) (auto simp: related_run_def)
      moreover have "publish_approved env s now completed before_receipt i fs =
          (if exists_at fs0 (?root @ ''/receipt.json'') then validated_promotion env s i ?root fs0
           else case z of Inl e \<Rightarrow> (Inl e, fs1) | Inr v \<Rightarrow> ?rest v fs1)"
        using root Inr lock y auth by (simp add: publish_approved_def run_defs query_def folder split: sum.split)
      ultimately show ?thesis using opened valid unfolding related_run_def by (auto intro: rtranclp_trans)
    qed
  qed
qed
lemma reg_below:
  assumes "separate env s d" and "p = app_root (coordinator s) @ ''/'' @ n"
  shows "as_posix p \<noteq> as_posix d"
  using separateD(1)[OF assms(1)] assms(2) by simp

lemma reg_create:
  assumes sep: "separate env s d"
  shows "related_run (changes env s d calls) (create_bound_request (core env) (coordinator s) q now fresh_id nonce)"
proof -
  have "related_run (changes env s d calls) (make_folder False (request_folder (coordinator s) i))" for i
    by (rule reg_write(3)) (rule reg_below[OF sep], simp add: request_folder_def)
  moreover have "related_run (changes env s d calls)
      (write_once (request_folder (coordinator s) i @ ''/request.json'') c)" for i c
    by (rule reg_write(1)) (use below_root[OF sep, of i "''request.json''"] in simp)
  ultimately show ?thesis unfolding create_bound_request_def Let_def by (intro reg.sound_inputs)
qed

lemma reg_request:
  assumes sep: "separate env s d"
  shows "related_run (changes env s d calls) (request_promotion env s q now i nonce)"
proof -
  let ?R = "changes env s d calls"
  have p: "as_posix (staging s i @ ''/'' @ n) \<noteq> as_posix d" for n
    by (rule reg_below[OF sep, of _ "''prepared/'' @ i @ ''/'' @ n"]) (simp add: staging_def)
  have "as_posix (app_root (coordinator s) @ ''/prepared'') \<noteq> as_posix d" "as_posix (staging s i) \<noteq> as_posix d"
    by (rule reg_below[OF sep, of _ "''prepared''"], simp) (rule reg_below[OF sep, of _ "''prepared/'' @ i"], simp add: staging_def)
  then have folders: "related_run ?R (make_folder True (app_root (coordinator s) @ ''/prepared''))"
    "related_run ?R (make_folder False (staging s i))" by (auto intro: reg_write)
  have writes: "related_run ?R (write_once (staging s i @ ''/candidate.json'') c)"
    "related_run ?R (write_once (staging s i @ ''/validation.json'') c)"
    "related_run ?R (write_once (staging s i @ ''/reviewed.json'') c)"
    "related_run ?R (write_once (staging s i @ ''/operation.json'') c)"
    "related_run ?R (put_file (staging s i @ ''/preliminary.json'') c)" for c
    using p[of "''candidate.json''"] p[of "''validation.json''"] p[of "''reviewed.json''"] p[of "''operation.json''"]
      p[of "''preliminary.json''"] by (auto intro: reg_write)
  show ?thesis unfolding request_promotion_def Let_def by (intro reg.sound_inputs folders writes reg_create[OF sep])
qed

lemma reg_status:
  assumes "separate env s d"
  shows "related_run (changes env s d calls) (status_promotion env s now i)"
  unfolding status_promotion_def promotion_base_status_def Let_def
  by (intro reg.sound_inputs reg.sound_root reg.sound_published reg.sound_validate reg.sound_promotion_signature
      reg_validated process_changes assms)

lemma reg_decide:
  assumes sep: "separate env s d" and "resolve_path (core env) approval_root = app_root (coordinator s)"
  shows "related_run (changes env s d calls) (record_human_decision (core env) approval_root i verdict key home now)"
proof -
  have "as_posix (app_root (coordinator s) @ ''/'' @ i @ ''/decision.json'') \<noteq> as_posix d"
    "as_posix (app_root (coordinator s) @ ''/'' @ i @ ''/decision.json.sig'') \<noteq> as_posix d"
    by (rule reg_below[OF sep], simp)+
  then show ?thesis
    unfolding record_human_decision_def Let_def assms(2)
    by (intro reg.sound_inputs process_changes) (auto intro!: reg.sound_inputs reg_write)
qed

section \<open>The registry over time\<close>

text \<open>The publisher that \<open>execute\<close> starts is \<^verbatim>\<open>main\<close> of the same module in another process: for the file
  at \<open>d\<close> it does what a publication does at the time it starts.\<close>

definition publisher_publishes :: "promotion_env \<Rightarrow> promotion_service \<Rightarrow> string \<Rightarrow> (string \<Rightarrow> files \<Rightarrow> int) \<Rightarrow> bool" where
  "publisher_publishes env s d clock \<longleftrightarrow> (\<forall>p i fs. publisher s = Some p \<longrightarrow> (\<exists>completed before_receipt.
     (\<forall>f. entry_at (snd (before_receipt f)) d = entry_at f d) \<and>
     entry_at (snd (run_process (core env) (publisher_command p i) fs)) d =
       entry_at (snd (publish_approved env (s\<lparr>publisher := None\<rparr>) (clock i fs) completed before_receipt i fs)) d))"

text \<open>One call, with the publications it starts: the request, the time and the files at that time.\<close>

inductive promotion_step :: "promotion_env \<Rightarrow> promotion_service \<Rightarrow> string \<Rightarrow> (string \<Rightarrow> files \<Rightarrow> int)
    \<Rightarrow> (string \<times> int \<times> files) set \<Rightarrow> files \<Rightarrow> files \<Rightarrow> bool" for env s d clock where
  request: "promotion_step env s d clock {} fs (snd (request_promotion env s q now i nonce fs))"
| look: "promotion_step env s d clock {} fs (snd (status_promotion env s now i fs))"
| decide: "resolve_path (core env) approval_root = app_root (coordinator s) \<Longrightarrow>
    promotion_step env s d clock {} fs (snd (record_human_decision (core env) approval_root i verdict key home now fs))"
| publish: "(\<And>f. entry_at (snd (before_receipt f)) d = entry_at f d) \<Longrightarrow>
    promotion_step env s d clock {(i, now, fs)} fs (snd (publish_approved env s now completed before_receipt i fs))"
| refused: "ready_publisher env s now i fs = (Inl e, f) \<Longrightarrow>
    promotion_step env s d clock {} fs (snd (execute_promotion env s now i fs))"
| execute: "ready_publisher env s now i fs = (Inr x, f) \<Longrightarrow>
    promotion_step env s d clock {(i, clock i f, f)} fs (snd (execute_promotion env s now i fs))"

inductive promotion_run :: "promotion_env \<Rightarrow> promotion_service \<Rightarrow> string \<Rightarrow> (string \<Rightarrow> files \<Rightarrow> int)
    \<Rightarrow> (string \<times> int \<times> files) set \<Rightarrow> files \<Rightarrow> files \<Rightarrow> bool" for env s d clock where
  start: "promotion_run env s d clock {} fs fs"
| call: "promotion_run env s d clock calls fs fs' \<Longrightarrow> promotion_step env s d clock new fs' fs'' \<Longrightarrow>
    promotion_run env s d clock (calls \<union> new) fs fs''"

lemma other_publisher:
  "approved_publication env (s\<lparr>publisher := p\<rparr>) d i now fs r artifact = approved_publication env s d i now fs r artifact"
  "separate env (s\<lparr>publisher := p\<rparr>) d = separate env s d"
proof -
  have a: "apart env (s\<lparr>publisher := p\<rparr>) = apart env s" by (simp add: apart_def fun_eq_iff)
  show "separate env (s\<lparr>publisher := p\<rparr>) d = separate env s d" by (simp add: separate_def a)
  show "approved_publication env (s\<lparr>publisher := p\<rparr>) d i now fs r artifact = approved_publication env s d i now fs r artifact"
    by (simp add: approved_publication_def private_copies_def a)
qed

lemma same_changes: "changes env (s\<lparr>publisher := p\<rparr>) d calls fs fs' \<Longrightarrow> changes env s d calls fs fs'"
proof (induction rule: rtranclp_induct)
  case (step fs1 fs2)
  from step(2) have "registry_change env s d calls fs1 fs2"
    by (induction rule: registry_change.induct) (auto intro: registry_change.intros simp: other_publisher)
  with step(3) show ?case by (rule rtranclp.rtrancl_into_rtrancl)
qed simp

lemma reg_ready: "separate env s d \<Longrightarrow> related_run (changes env s d calls) (ready_publisher env s now i)"
  unfolding ready_publisher_def by (intro reg.sound_inputs reg.sound_root reg_authorization)

lemma ready_publisherD: "ready_publisher env s now i fs = (Inr (root, p), f) \<Longrightarrow> publisher s = Some p"
  by (auto simp: ready_publisher_def run_Inr query_Inr split: option.splits if_splits)

lemma execute_changes:
  assumes sep: "separate env s d" and pub: "publisher_publishes env s d clock"
    and ready: "ready_publisher env s now i fs = (Inr (root, p), f)"
  shows "changes env s d {(i, clock i f, f)} fs (snd (execute_promotion env s now i fs))"
proof -
  let ?R = "changes env s d {(i, clock i f, f)}"
  obtain code out f' where run: "run_process (core env) (publisher_command p i) f = ((code, out), f')"
    by (metis prod.collapse)
  from pub ready_publisherD[OF ready] run obtain completed before_receipt where
    before: "\<forall>f. entry_at (snd (before_receipt f)) d = entry_at f d" and
    same: "entry_at f' d = entry_at (snd (publish_approved env (s\<lparr>publisher := None\<rparr>) (clock i f) completed before_receipt i f)) d"
    unfolding publisher_publishes_def by (metis snd_conv)
  have "?R fs f" using reg_ready[OF sep] ready unfolding related_run_def by (metis snd_conv)
  also have "?R f (snd (publish_approved env (s\<lparr>publisher := None\<rparr>) (clock i f) completed before_receipt i f))"
    using before by (intro same_changes[OF reg_publish]) (simp_all add: other_publisher sep)
  also have "?R \<dots> f'" using same by (intro r_into_rtranclp registry_change.elsewhere)
  finally have started: "?R fs f'" .
  have rest: "related_run ?R (bind_run (check (code = 0) ''PROTECTED_PUBLICATION_FAILED'' ''operator publisher rejected the action'')
      (\<lambda>_. validated_promotion env s i root))"
    by (intro reg.sound_inputs reg_validated[OF sep])
  have "snd (execute_promotion env s now i fs) = snd (bind_run (check (code = 0) ''PROTECTED_PUBLICATION_FAILED''
      ''operator publisher rejected the action'') (\<lambda>_. validated_promotion env s i root) f')"
    using ready run by (simp add: execute_promotion_def bind_run_def[of "ready_publisher env s now i"]
        bind_run_def[of "process (core env) (publisher_command p i)"] handle_run_def process_def)
  with started rest show ?thesis unfolding related_run_def by (auto intro: rtranclp_trans)
qed

lemma step_changes:
  assumes "promotion_step env s d clock calls fs fs'" and sep: "separate env s d" and "publisher_publishes env s d clock"
  shows "changes env s d calls fs fs'"
  using assms(1)
proof cases
  case (refused now i e f)
  then have "fs' = f" by (simp add: execute_promotion_def bind_run_def handle_run_def)
  then show ?thesis using reg_ready[OF sep] refused unfolding related_run_def by (metis snd_conv)
next
  case (execute now i x f)
  then show ?thesis using execute_changes[OF assms(2,3)] by (cases x) simp
qed (use reg_request[OF sep] reg_status[OF sep] reg_decide[OF sep] reg_publish[OF sep] in \<open>auto simp: related_run_def\<close>)

text \<open>When the processes leave the file alone, a file that has changed holds what a call was approved for.\<close>

definition processes_spare :: "promotion_env \<Rightarrow> string \<Rightarrow> bool" where
  "processes_spare env d \<longleftrightarrow> (\<forall>command fs. (\<forall>p i. command \<noteq> publisher_command p i) \<longrightarrow>
     entry_at (snd (run_process (core env) command fs)) d = entry_at fs d)"

lemma changed_is_approved:
  assumes "changes env s d calls fs fs'" and "processes_spare env d" and "entry_at fs' d \<noteq> entry_at fs d"
  shows "\<exists>(i, now, start) \<in> calls. \<exists>r artifact. entry_at fs' d = Some (Plain artifact) \<and>
    approved_publication env s d i now start r artifact"
  using assms(1,3)
proof (induction rule: rtranclp_induct)
  case (step fs1 fs2)
  from step(2) show ?case
  proof cases
    case elsewhere
    with step show ?thesis by simp
  next
    case (process command)
    then have "entry_at fs2 d = entry_at fs1 d" using assms(2) unfolding processes_spare_def by blast
    with step show ?thesis by simp
  qed blast
qed simp

text \<open>C2: the service changes the file of a domain in the registry to approved bytes only.  After any sequence of
  requests, looks, decisions, executions and publications, failing or interrupted by errors anywhere, and whatever GnuPG and
  the signer do meanwhile, even to that file, every other change of it is a publication: a call to publish, made
  at a known time and with known files, found a request that binds these exact bytes to this place and was valid, not yet
  expired at the time of the call and not revoked, and a decision that approves it with all its bindings and a signature
  that GnuPG attributes to the reviewer named there; and at the moment of the change the file was what the
  request says was there.  So when GnuPG and the signer leave the file alone, a file that is not the initial one
  is a regular file with the bytes that one of the calls was approved for.  It is assumed that the requests, the list of
  revocations, the file and the private folder are different places, and that a publisher which \<open>execute\<close> starts does
  to the file what a publication does at the time it starts.\<close>

theorem registry_holds_only_approved:
  assumes "promotion_run env s d clock calls fs fs'" and "separate env s d" and "publisher_publishes env s d clock"
  shows "(registry_change env s d calls)\<^sup>*\<^sup>* fs fs' \<and>
    (processes_spare env d \<and> entry_at fs' d \<noteq> entry_at fs d \<longrightarrow>
      (\<exists>(i, now, start) \<in> calls. \<exists>r artifact. entry_at fs' d = Some (Plain artifact) \<and>
         approved_publication env s d i now start r artifact))"
proof -
  from assms(1) have "(registry_change env s d calls)\<^sup>*\<^sup>* fs fs'"
  proof induction
    case (call calls fs fs' new fs'')
    have "changes env s d (calls \<union> new) fs fs'" by (rule changes_more[OF call.IH]) simp
    also have "changes env s d (calls \<union> new) fs' fs''" by (rule changes_more[OF step_changes[OF call.hyps(2) assms(2,3)]]) simp
    finally show ?case .
  qed simp
  with changed_is_approved[OF this] show ?thesis by blast
qed

section \<open>A small setting\<close>

text \<open>A publication that is interrupted before its receipt.\<close>

definition promo_folder :: string where "promo_folder = ''/r/prepared/'' @ demo_id"

definition promo_artifact :: string where
  "promo_artifact = CHR ''{'' # nl @ ''  '' @ [CHR 0x22] @ ''approval_operation_id'' @ [CHR 0x22] @ '': '' @ [CHR 0x22] @ demo_id @
     [CHR 0x22] @ nl @ ''}'' @ nl"

definition promo_binding :: "string \<Rightarrow> nat \<Rightarrow> json" where
  "promo_binding n k = bound_file (promo_folder @ ''/'' @ n) (demo_digest, k)"

definition promo_operation :: dict where
  "promo_operation = [(''schema'', JStr ''formalspecgen-domain-promotion-operation-v1''), (''name'', JStr ''d''),
     (''candidate'', bound_file ''/c'' (demo_digest, 1)), (''validation'', bound_file ''/v'' (demo_digest, 1)),
     (''captured_candidate'', promo_binding ''candidate.json'' 1), (''captured_validation'', promo_binding ''validation.json'' 1),
     (''candidate_sha256'', JStr demo_digest), (''validation_artifact_sha256'', JStr demo_digest), (''context_sha256'', JNull),
     (''destination'', JStr ''/reg/d.json''), (''prior_destination'', JNull), (''replace'', JBool False), (''sign'', JBool False),
     (''policy_sha256'', JStr demo_digest), (''requester'', JStr ''p''), (''signature_destination'', JStr (promo_folder @ ''/reviewed.sig''))]"

definition promo_promotion :: dict where
  "promo_promotion = [(''schema'', JStr ''formalspecgen-approval-request-v1''), (''policy_version'', JStr ''formalspecgen-approval-policy-v2''),
     (''request_id'', JStr demo_id), (''operation_id'', JStr demo_id), (''action'', JStr ''promote-domain-v2''),
     (''artifact'', promo_binding ''reviewed.json'' (length promo_artifact)), (''evidence_manifest'', promo_binding ''operation.json'' 2),
     (''destination'', JStr ''/reg/d.json''), (''signing_identity'', JStr demo_key), (''reviewer_identity'', JStr demo_key),
     (''admission_profile_sha256'', JStr demo_digest), (''verification'', promotion_verification),
     (''expires_at'', JStr ''later''), (''operation'', JObj promo_operation)]"

definition promo_documents :: "(string \<times> dict) list" where
  "promo_documents = [(''REQ'', promo_promotion),
     (''DEC'', (''schema'', JStr ''formalspecgen-approval-decision-v1'') # (''decision'', JStr ''approve'') #
        decision_bindings promo_promotion demo_digest),
     (''REV'', [(''schema'', JStr ''formalspecgen-promotion-revocations-v1''), (''request_ids'', JArr [])]),
     (''OP'', promo_operation),
     (''INT'', object_of (intent_of promo_promotion demo_digest (JStr ''/reg/d.json'')))]"

definition promotion_decoder :: decoder where
  "promotion_decoder b = (case map_of promo_documents b of None \<Rightarrow> Inl (PlainValueError b) | Some d \<Rightarrow> Inr (JObj d))"

definition promo_promotion_env :: promotion_env where
  "promo_promotion_env = \<lparr>core = demo_approval_env\<lparr>decode := promotion_decoder\<rparr>, strict_decode = promotion_decoder,
     admitted_profile = Some demo_digest, prepare = (\<lambda>_. Inr demo_digest), promote = (\<lambda>_ _ _ _ _. Inr []),
     read_config = (\<lambda>_ _. Inr JNull), absolute_path = (\<lambda>p. p), unsorted_json = (\<lambda>_. []), implementation_digests = [],
     authority_folder = ''/t''\<rparr>"

definition promo_service :: promotion_service where
  "promo_service = \<lparr>coordinator = demo_approval_service\<lparr>app_action := ''promote-domain-v2''\<rparr>, registry = ''/reg'',
     validation_policy = ''/pol'', revocations = ''/rev'', principal = ''p'', publisher = None, publisher_policy = None\<rparr>"

definition promo_registry_files :: files where
  "promo_registry_files = (let root = ''/r/'' @ demo_id in
     [(root, Folder), (root @ ''/request.json'', Plain ''REQ''), (root @ ''/decision.json'', Plain ''DEC''),
      (root @ ''/decision.json.sig'', Plain ''SIG''), (root @ ''/publication-intent.json'', Plain ''INT''),
      (''/c'', Plain ''c''), (''/v'', Plain ''v''), (''/pol'', Plain ''x''), (''/rev'', Plain ''REV''),
      (promo_folder @ ''/candidate.json'', Plain ''c''), (promo_folder @ ''/validation.json'', Plain ''v''),
      (promo_folder @ ''/operation.json'', Plain ''OP''), (promo_folder @ ''/reviewed.json'', Plain promo_artifact)])"

definition interrupted :: "unit approval_run" where
  "interrupted fs = (Inl (Uncaught ''KeyboardInterrupt''), fs)"

definition promo_decision :: dict where
  "promo_decision = (''schema'', JStr ''formalspecgen-approval-decision-v1'') # (''decision'', JStr ''approve'') #
     decision_bindings promo_promotion demo_digest"

text \<open>The files with the lock, with the private folder, and with the copies in it.\<close>

definition promo_locked :: files where
  "promo_locked = promo_registry_files @ [(''/reg/.promotion.lock'', Plain [])]"

definition promo_opened :: files where
  "promo_opened = promo_locked @ [(''/t'', Folder)]"

definition promo_copied :: files where
  "promo_copied = (''/t/request.json'', Plain ''REQ'') # promo_opened"

definition promo_authority :: files where
  "promo_authority = (''/t/decision.json.sig'', Plain ''SIG'') # (''/t/decision.json'', Plain ''DEC'') # promo_copied"

definition promo_home :: string where "promo_home = ''/r/'' @ demo_id"

lemma promo_root: "request_root (coordinator promo_service) demo_id promo_registry_files = (Inr promo_home, promo_registry_files)"
  by code_simp

lemma promo_lock: "open_lock (registry promo_service @ ''/.promotion.lock'') promo_registry_files = (Inr (), promo_locked)"
  by code_simp

lemma promo_fresh: "exists_at promo_locked (promo_home @ ''/receipt.json'') = False"
  by code_simp

lemma promo_open: "make_folder False (authority_folder promo_promotion_env) promo_locked = (Inr (), promo_opened)"
  by code_simp

lemma promo_request: "capture_path object_limit (promo_home @ ''/request.json'') promo_opened = (Inr ''REQ'', promo_opened)"
  by code_simp

lemma promo_object: "object_from promo_promotion_env (Some ''formalspecgen-approval-request-v1'') ''REQ'' = Inr promo_promotion"
  by code_simp

lemma promo_valid: "validate_promotion promo_promotion_env promo_service promo_promotion demo_id (Some 0) promo_opened = (Inr (), promo_opened)"
  by code_simp

lemma promo_copy_request: "put_file (authority_folder promo_promotion_env @ ''/request.json'') ''REQ'' promo_opened = (Inr (), promo_copied)"
  by code_simp

lemma promo_copy_decision:
  "copy_control promo_home (authority_folder promo_promotion_env) ''decision.json'' promo_copied =
     (Inr (), (''/t/decision.json'', Plain ''DEC'') # promo_copied)"
  by code_simp

lemma promo_copy_signature:
  "copy_control promo_home (authority_folder promo_promotion_env) ''decision.json.sig''
     ((''/t/decision.json'', Plain ''DEC'') # promo_copied) = (Inr (), promo_authority)"
  by code_simp

lemma promo_authenticated:
  "authenticate_promotion promo_promotion_env promo_service (authority_folder promo_promotion_env) promo_promotion promo_authority =
     (Inr (promo_decision, demo_signer, demo_digest), promo_authority)"
  by code_simp

lemma promo_close: "remove_tree (authority_folder promo_promotion_env) promo_authority = (Inr (), promo_locked)"
  by code_simp

lemma promo_authorised:
  "authorization promo_promotion_env promo_service demo_id promo_home (Some 0) promo_locked =
     (Inr (promo_promotion, promo_decision, demo_signer, demo_digest), promo_locked)"
  by (simp add: authorization_def with_folder_def finally_run_def run_defs promo_open promo_request
      promo_object promo_valid promo_copy_request promo_copy_decision promo_copy_signature promo_authenticated promo_close)

lemma promo_approve: "(get_field ''decision'' promo_decision = JStr ''deny'') = False"
  by code_simp

lemma promo_artifact: "approved_artifact promo_promotion_env promo_service demo_id promo_promotion promo_locked =
    (Inr promo_artifact, promo_locked)"
  by code_simp

lemma promo_destination: "text_at ''destination'' promo_promotion = Inr ''/reg/d.json''" "as_posix ''/reg/d.json'' = ''/reg/d.json''"
  by code_simp+

lemma promo_unrecovered:
  "recovered_publication promo_promotion_env promo_home promo_promotion demo_digest ''/reg/d.json'' promo_artifact promo_locked
     = (Inr False, promo_locked)"
  by code_simp

lemma promo_begun:
  "begin_publication promo_promotion_env promo_home promo_promotion demo_digest ''/reg/d.json'' promo_locked
     = (Inr (), promo_locked)"
  by code_simp

lemma promo_unsigned:
  "sign_promotion promo_promotion_env promo_service promo_home promo_promotion promo_locked = (Inr JNull, promo_locked)"
  by code_simp

lemma promo_replaced:
  "replace_destination promo_promotion_env promo_promotion ''/reg/d.json'' c promo_locked =
     (Inr (), (''/reg/d.json'', Plain c) # promo_locked)"
proof -
  have "filter (\<lambda>(q, _). q \<noteq> ''/reg/d.json'') promo_locked = promo_locked" by code_simp
  moreover have "observed promo_promotion_env ''/reg/d.json'' promo_locked = (Inr JNull, promo_locked)" by code_simp
  moreover have "json_eq JNull (get_field ''prior_destination'' (object_of (get_field ''operation'' promo_promotion)))" by code_simp
  ultimately show ?thesis
    by (simp add: replace_destination_def run_defs check_def ensure_def put_file_def promo_destination)
qed

text \<open>The publication is the publisher's own, so no other publisher is configured.\<close>

definition promo_publication :: "(approval_error + dict) \<times> files" where
  "promo_publication = publish_approved promo_promotion_env promo_service 0 0 interrupted demo_id promo_registry_files"

lemma promo_published: "snd promo_publication = (''/reg/d.json'', Plain promo_artifact) # promo_locked"
  by (simp add: promo_publication_def publish_approved_def publish_decided_def run_defs promo_root promo_lock
      query_def promo_fresh promo_authorised promo_approve promo_artifact promo_destination promo_unrecovered promo_begun
      promo_unsigned promo_replaced interrupted_def and_then_def split: sum.splits)

lemma apart_folder: "path_tail p = c # cs \<Longrightarrow> path_tail d = e # es \<Longrightarrow> c \<noteq> e \<Longrightarrow> as_posix (p @ ''/'' @ n) \<noteq> as_posix d"
proof
  assume a: "path_tail p = c # cs" "path_tail d = e # es" "c \<noteq> e" and "as_posix (p @ ''/'' @ n) = as_posix d"
  then have "path_tail (p @ ''/'' @ n) = path_tail d" by (metis path_tail_as_posix)
  moreover have "path_tail (p @ ''/'' @ n) = path_tail p @ path_tail n" by (simp add: path_tail_def split_slash_append)
  ultimately show False using a by simp
qed

lemma below_tail: "as_posix q = as_posix (p @ ''/'' @ u) \<Longrightarrow> path_tail q = path_tail p @ path_tail u"
  using path_tail_as_posix[of q] path_tail_as_posix[of "p @ ''/'' @ u"] by (simp add: path_tail_def split_slash_append)

lemma promo_paths: "as_posix ''/t'' = ''/t''" "path_tail ''/t'' = [''t'']" "path_tail ''/r'' = [''r'']" "path_tail ''/rev'' = [''rev'']"
  "path_tail ''/reg/d.json'' = [''reg'', ''d.json'']" "path_tail ''/reg/.promotion.lock'' = [''reg'', ''.promotion.lock'']"
  "authority_folder promo_promotion_env = ''/t''" "registry promo_service = ''/reg''" "revocations promo_service = ''/rev''"
  "app_root (coordinator promo_service) = ''/r''"
  by code_simp+

lemma promo_apart:
  assumes q: "path_tail q = e # es" "e \<noteq> ''t''" "path_tail q \<noteq> path_tail ''/reg/.promotion.lock''"
  shows "apart promo_promotion_env promo_service q"
proof -
  have "as_posix q \<noteq> as_posix ''/reg/.promotion.lock''" "as_posix q \<noteq> as_posix ''/t''"
    using q promo_paths(2) path_tail_as_posix[of q] path_tail_as_posix[of "''/t''"] path_tail_as_posix[of "''/reg/.promotion.lock''"] by auto
  moreover have below: "as_posix q \<noteq> as_posix (''/t'' @ ''/'' @ u)" for u
  proof
    assume "as_posix q = as_posix (''/t'' @ ''/'' @ u)"
    from below_tail[OF this] q(1,2) show False unfolding promo_paths by simp
  qed
  moreover have "\<not> starts_with (''/t'' @ ''/'') (as_posix q)"
  proof
    assume "starts_with (''/t'' @ ''/'') (as_posix q)"
    then obtain u where "as_posix q = ''/t'' @ ''/'' @ u" by (auto simp: starts_with_iff)
    then have "path_tail (as_posix q) = path_tail ''/t'' @ path_tail u" by (simp add: path_tail_def split_slash_append[of "''/t''", simplified])
    with q(1,2) show False unfolding promo_paths path_tail_as_posix by simp
  qed
  ultimately show ?thesis unfolding apart_def promo_paths(7,8) by (simp add: promo_paths(1))
qed

lemma promo_separate: "separate promo_promotion_env promo_service ''/reg/d.json''"
proof -
  have tail: "path_tail (''/r'' @ ''/'' @ n) = ''r'' # path_tail n" for n
    using below_tail[of "''/r'' @ ''/'' @ n" "''/r''" n] promo_paths(3) by simp
  have "as_posix (''/r'' @ ''/'' @ n) \<noteq> as_posix ''/reg/d.json''" for n
    by (rule apart_folder[OF promo_paths(3,5)]) simp
  moreover have "apart promo_promotion_env promo_service (''/r'' @ ''/'' @ n)" for n
    by (rule promo_apart[OF tail], simp) (use tail[of n] in \<open>simp add: promo_paths\<close>)
  moreover have "apart promo_promotion_env promo_service ''/reg/d.json''" "apart promo_promotion_env promo_service ''/rev''"
    by (rule promo_apart[OF promo_paths(5)], simp, simp add: promo_paths) (rule promo_apart[OF promo_paths(4)], simp, simp add: promo_paths)
  ultimately show ?thesis unfolding separate_def promo_paths by blast
qed

theorem registry_holds_only_approved_witness:
  "entry_at (snd promo_publication) ''/reg/d.json'' = Some (Plain promo_artifact) \<and>
   (\<exists>r. approved_publication promo_promotion_env promo_service ''/reg/d.json'' demo_id 0 promo_registry_files r promo_artifact)"
proof -
  let ?calls = "{} \<union> {(demo_id, 0, promo_registry_files)} :: (string \<times> int \<times> files) set"
  have "promotion_run promo_promotion_env promo_service ''/reg/d.json'' (\<lambda>_ _. 0) ?calls promo_registry_files (snd promo_publication)"
    unfolding promo_publication_def
    by (rule promotion_run.call[OF promotion_run.start promotion_step.publish]) (simp add: interrupted_def)
  moreover have "publisher_publishes promo_promotion_env promo_service ''/reg/d.json'' (\<lambda>_ _. 0)"
    by (simp add: publisher_publishes_def promo_service_def)
  moreover have "processes_spare promo_promotion_env ''/reg/d.json''"
    by (simp add: processes_spare_def promo_promotion_env_def demo_approval_env_def)
  moreover have "entry_at promo_registry_files ''/reg/d.json'' = None" by code_simp
  moreover have "entry_at (snd promo_publication) ''/reg/d.json'' = Some (Plain promo_artifact)"
    by (simp add: promo_published entry_at_def promo_destination)
  ultimately show ?thesis
    using registry_holds_only_approved[OF _ promo_separate] by fastforce
qed

end
