(* ===== verification/Assurance_Gates.thy ===== *)
theory Assurance_Gates
  imports Verification_Policy
begin

text \<open>
  Two gates that turn evidence into a claim without running a tool: the verdict of an assurance level over the statuses
  of its gates, \<^verbatim>\<open>pipeline/assurance.py\<close>, and the bounded liveness check of a transition relation,
  \<^verbatim>\<open>pipeline/realtime.py\<close>.
\<close>

section \<open>Assurance levels\<close>

datatype assurance_level = Critical | Standard | Lightweight

definition level_value :: "assurance_level \<Rightarrow> string" where
  "level_value l = (case l of Critical \<Rightarrow> ''critical'' | Standard \<Rightarrow> ''standard'' | Lightweight \<Rightarrow> ''lightweight'')"

definition gate_order :: "string list" where
  "gate_order = [''javac'', ''spec_lint'', ''openjml_check'', ''tla'', ''openjml_esc'', ''refinement'', ''boundary_fallback'', ''rac_junit'']"

definition parse_assurance_level :: "string option \<Rightarrow> string + assurance_level" where
  "parse_assurance_level value =
     (let normalized = str_lower (str_strip (case value of None \<Rightarrow> ''critical'' | Some v \<Rightarrow> if v = [] then ''critical'' else v)) in
      if normalized = ''critical'' then Inr Critical
      else if normalized = ''standard'' then Inr Standard
      else if normalized = ''lightweight'' then Inr Lightweight
      else Inl ''unknown assurance level'')"

definition required_gates :: "assurance_level \<Rightarrow> string list" where
  "required_gates l = (case l of Critical \<Rightarrow> butlast gate_order
     | Standard \<Rightarrow> [''javac'', ''spec_lint'', ''openjml_check'', ''rac_junit'']
     | Lightweight \<Rightarrow> [''javac'', ''spec_lint''])"

record gate_policy =
  gate_name :: string
  gate_required :: bool
  skip_reason :: string

definition gate_plan :: "assurance_level \<Rightarrow> gate_policy list" where
  "gate_plan l = map (\<lambda>n. let needed = n \<in> set (required_gates l) in
     \<lparr>gate_name = n, gate_required = needed, skip_reason = (if needed then [] else ''Assurance level is '' @ level_value l)\<rparr>)
     gate_order"

definition status_of :: "(string \<times> string) list \<Rightarrow> string \<Rightarrow> string \<Rightarrow> string" where
  "status_of statuses n missing = (case map_of statuses n of None \<Rightarrow> missing | Some s \<Rightarrow> s)"

definition accepted_status :: "string \<Rightarrow> string \<Rightarrow> bool" where
  "accepted_status n s \<longleftrightarrow> s \<in> {''PASS'', ''VERIFIED'', ''TESTS_PASSED''} \<or> n = ''boundary_fallback'' \<and> s = ''NOT_APPLICABLE''"

definition gate_status :: "(string \<times> string) list \<Rightarrow> gate_policy \<Rightarrow> string" where
  "gate_status statuses g = (if gate_required g then status_of statuses (gate_name g) ''NOT_RUN'' else ''SKIPPED'')"

definition gate_record :: "(string \<times> string) list \<Rightarrow> (string \<times> string) list \<Rightarrow> gate_policy \<Rightarrow> json" where
  "gate_record statuses reasons g = JObj [(''gate'', JStr (gate_name g)), (''required'', JBool (gate_required g)),
     (''status'', JStr (gate_status statuses g)),
     (''reason'', JStr (if gate_required g then status_of reasons (gate_name g) [] else skip_reason g))]"

definition failed_gates :: "assurance_level \<Rightarrow> (string \<times> string) list \<Rightarrow> string list" where
  "failed_gates l statuses = map gate_name (filter (\<lambda>g. gate_required g \<and> \<not> accepted_status (gate_name g) (gate_status statuses g))
     (gate_plan l))"

definition passed_independently :: "(string \<times> string) list \<Rightarrow> bool" where
  "passed_independently statuses \<longleftrightarrow> map_of statuses ''tla'' \<in> {Some ''PASS'', Some ''VERIFIED''} \<and>
     map_of statuses ''openjml_esc'' \<in> {Some ''PASS'', Some ''VERIFIED''} \<and> map_of statuses ''refinement'' \<noteq> Some ''VERIFIED''"

definition assurance_verdict :: "string option \<Rightarrow> (string \<times> string) list \<Rightarrow> (string \<times> string) list \<Rightarrow> string + dict" where
  "assurance_verdict value statuses reasons =
     and_then (parse_assurance_level value) (\<lambda>l.
     let failed = failed_gates l statuses;
         (st, claim) = (if failed \<noteq> [] then (''ASSURANCE_INCOMPLETE'', ''NO_PROOF'')
           else (case l of Critical \<Rightarrow> (''VERIFIED'', ''DEDUCTIVE_PROOF'')
             | Standard \<Rightarrow> (''STATIC_CHECKED_RUNTIME_TESTED'', ''RUNTIME_SAMPLE'')
             | Lightweight \<Rightarrow> (''COMPILED_LINTED'', ''STATIC_CHECK'')));
         deductive = (l = Critical \<and> failed = []) in
     Inr [(''final_status'', JStr st), (''assurance_level'', JStr (level_value l)),
       (''gates'', JArr (map (gate_record statuses reasons) (gate_plan l))), (''failed_required_gates'', jstrings failed),
       (''final_claim_type'', JStr claim),
       (''source_refinement_proved'', JBool (deductive \<and> map_of statuses ''refinement'' = Some ''VERIFIED'')),
       (''deductive_proof_provided'', JBool deductive),
       (''warnings'', jstrings (if l = Critical \<and> passed_independently statuses
          then [''OpenJML ESC and TLC passed independently; source/model refinement is not proven.''] else []))])"

section \<open>Bounded liveness\<close>

text \<open>A state of the transition relation is an object; two states are the same if their sorted items are written alike.\<close>

definition state_key :: "dict \<Rightarrow> dict" where
  "state_key d = sort_key fst d"

definition one_of :: "string \<Rightarrow> string \<Rightarrow> dict \<Rightarrow> json" where
  "one_of k other d = get_default k (get_field other d) d"

definition edge_of :: "json \<Rightarrow> string + dict \<times> dict" where
  "edge_of item = (case item of JObj d \<Rightarrow>
      (case (one_of ''from'' ''source'' d, one_of ''to'' ''target'' d) of
         (JNull, _) \<Rightarrow> Inl ''transition_shape_unsupported'' | (_, JNull) \<Rightarrow> Inl ''transition_shape_unsupported''
       | (JObj s, JObj t) \<Rightarrow> Inr (s, t)
       | _ \<Rightarrow> Inl ''exception'')
    | _ \<Rightarrow> Inl ''exception'')"

definition ready_of :: "dict \<Rightarrow> dict option \<Rightarrow> string + dict" where
  "ready_of domain ready_state =
     (let j = (case ready_state of Some r \<Rightarrow> if r \<noteq> [] then JObj r else JNull | None \<Rightarrow> JNull);
          chosen = (if json_true j then j else if json_true (get_field ''ready_state'' domain) then get_field ''ready_state'' domain
            else get_default ''initial'' (JObj []) domain) in
      case chosen of JObj r \<Rightarrow> Inr r | _ \<Rightarrow> Inl ''exception'')"

definition is_ready :: "dict \<Rightarrow> dict \<Rightarrow> bool" where
  "is_ready ready state \<longleftrightarrow> list_all (\<lambda>(k, v). json_eq (get_field k state) v) ready"

definition starving :: "dict \<Rightarrow> (dict \<times> dict) list \<Rightarrow> dict list" where
  "starving ready edges = filter (\<lambda>t. \<not> is_ready ready t \<and> state_key t \<notin> set (map (state_key \<circ> fst) edges)) (map snd edges)"

definition liveness_edges :: "dict \<Rightarrow> string + (dict \<times> dict) list" where
  "liveness_edges domain = (case get_default ''transitions'' (JArr []) domain of
     JArr items \<Rightarrow> if items = [] then Inl ''no_transitions'' else map_res edge_of items
   | j \<Rightarrow> if json_true j then Inl ''exception'' else Inl ''no_transitions'')"

text \<open>\<open>Inl\<close> is the code of a refusal or the name of an exception, \<open>Inr\<close> the numbers of states and of transitions of a proof.\<close>

definition liveness_check :: "dict \<Rightarrow> dict option \<Rightarrow> string + nat \<times> nat" where
  "liveness_check domain ready_state =
     and_then (liveness_edges domain) (\<lambda>edges.
     and_then (ready_of domain ready_state) (\<lambda>ready.
     if starving ready edges \<noteq> [] then Inl ''LIVENESS_VIOLATION''
     else Inr (length (remdups (map (state_key \<circ> fst) edges @ map (state_key \<circ> snd) edges)), length edges)))"

section \<open>What the gates mean\<close>

text \<open>A verdict claims a deductive proof exactly for the critical level with every gate but the last accepted, where only
  the fallback may be not applicable; source refinement counts as proved only if the refinement gate itself says verified;
  the claims of the other levels are samples and static checks; and nothing is claimed while a required gate is missing.\<close>

theorem assurance_claims_are_earned:
  assumes "assurance_verdict value statuses reasons = Inr verdict" and "parse_assurance_level value = Inr l"
  shows "(get_field ''final_claim_type'' verdict = JStr ''DEDUCTIVE_PROOF'' \<longleftrightarrow> l = Critical \<and>
      (\<forall>n \<in> set gate_order - {''rac_junit''}. \<exists>s. map_of statuses n = Some s \<and> accepted_status n s)) \<and>
    (get_field ''final_claim_type'' verdict \<noteq> JStr ''NO_PROOF'' \<longleftrightarrow>
      (\<forall>n \<in> set (required_gates l). \<exists>s. map_of statuses n = Some s \<and> accepted_status n s)) \<and>
    (get_field ''source_refinement_proved'' verdict = JBool True \<longrightarrow>
      get_field ''final_claim_type'' verdict = JStr ''DEDUCTIVE_PROOF'' \<and> map_of statuses ''refinement'' = Some ''VERIFIED'')"
proof -
  have accepted: "accepted_status n (status_of statuses n ''NOT_RUN'') \<longleftrightarrow> (\<exists>s. map_of statuses n = Some s \<and> accepted_status n s)" for n
    by (auto simp: status_of_def accepted_status_def split: option.splits)
  have "set (required_gates m) \<subseteq> set gate_order" for m
    by (cases m) (simp_all add: required_gates_def gate_order_def)
  then have none: "failed_gates m statuses = [] \<longleftrightarrow>
      (\<forall>n \<in> set (required_gates m). \<exists>s. map_of statuses n = Some s \<and> accepted_status n s)" for m
    by (auto simp: failed_gates_def filter_empty_conv gate_plan_def gate_status_def Let_def accepted)
  have critical: "set (required_gates Critical) = set gate_order - {''rac_junit''}"
    unfolding required_gates_def gate_order_def by auto
  show ?thesis
    using assms unfolding critical[symmetric] none[symmetric]
    by (cases l; cases "failed_gates l statuses = []") (auto simp: assurance_verdict_def Let_def get_field_def)
qed

theorem assurance_claims_are_earned_witness:
  "case assurance_verdict (Some '' Critical'') [(''javac'', ''PASS'')] [] of
     Inr verdict \<Rightarrow> get_field ''final_claim_type'' verdict \<noteq> JStr ''DEDUCTIVE_PROOF'' | Inl _ \<Rightarrow> False"
proof -
  obtain verdict where v: "assurance_verdict (Some '' Critical'') [(''javac'', ''PASS'')] [] = Inr verdict"
  proof -
    have "case assurance_verdict (Some '' Critical'') [(''javac'', ''PASS'')] [] of Inr _ \<Rightarrow> True | Inl _ \<Rightarrow> False" by code_simp
    then show ?thesis using that by (auto split: sum.splits)
  qed
  have l: "parse_assurance_level (Some '' Critical'') = Inr Critical" by code_simp
  have "''tla'' \<in> set gate_order - {''rac_junit''}" "map_of [(''javac'', ''PASS'')] ''tla'' = None" by code_simp+
  then have "\<not> (\<forall>n \<in> set gate_order - {''rac_junit''}. \<exists>s. map_of [(''javac'', ''PASS'')] n = Some s \<and> accepted_status n s)"
    by (metis option.distinct(1))
  with assurance_claims_are_earned[OF v l, THEN conjunct1] have "get_field ''final_claim_type'' verdict \<noteq> JStr ''DEDUCTIVE_PROOF''"
    by blast
  then show ?thesis using v by simp
qed

section \<open>What liveness means\<close>

text \<open>The relation that a domain declares, and its steps: a run continues from a state as from any source written alike.\<close>

definition declares :: "json \<Rightarrow> dict \<times> dict \<Rightarrow> bool" where
  "declares item e \<longleftrightarrow> (\<exists>d. item = JObj d \<and> one_of ''from'' ''source'' d = JObj (fst e) \<and> one_of ''to'' ''target'' d = JObj (snd e))"

definition leads_to :: "(dict \<times> dict) list \<Rightarrow> dict \<Rightarrow> dict \<Rightarrow> bool" where
  "leads_to edges a b \<longleftrightarrow> (\<exists>(s, t) \<in> set edges. state_key s = state_key a \<and> b = t)"

lemma edge_of_Inr: "edge_of item = Inr e \<longleftrightarrow> declares item e"
  by (cases e) (auto simp: edge_of_def declares_def split: json.splits)

lemma liveness_edges_Inr: "liveness_edges domain = Inr edges \<longleftrightarrow>
    (\<exists>items. map_of domain ''transitions'' = Some (JArr items) \<and> items \<noteq> [] \<and> list_all2 declares items edges)"
  by (auto simp: liveness_edges_def get_default_def map_res_Inr_iff edge_of_Inr split: option.splits json.splits if_splits)

lemma starving_Nil: "starving ready edges = [] \<longleftrightarrow>
    (\<forall>s t. (leads_to edges)\<^sup>+\<^sup>+ s t \<longrightarrow> is_ready ready t \<or> (\<exists>u. leads_to edges t u))"
proof -
  have steps: "leads_to edges s t \<Longrightarrow> \<exists>s'. (s', t) \<in> set edges" "(s, t) \<in> set edges \<Longrightarrow> leads_to edges s t" for s t
    by (auto simp: leads_to_def)
  have "(\<exists>s. (leads_to edges)\<^sup>+\<^sup>+ s t) \<longleftrightarrow> (\<exists>s. (s, t) \<in> set edges)" for t
    using steps by (blast elim: tranclp.cases)
  moreover have "starving ready edges = [] \<longleftrightarrow> (\<forall>s t. (s, t) \<in> set edges \<longrightarrow> is_ready ready t \<or> (\<exists>u. leads_to edges t u))"
    by (fastforce simp: starving_def filter_empty_conv image_iff split_beta leads_to_def)
  ultimately show ?thesis by blast
qed

section \<open>What it does not prove\<close>

definition phase :: "int \<Rightarrow> dict" where "phase n = [(''phase'', JInt n)]"

definition livelock :: dict where
  "livelock = [(''transitions'', JArr [JObj [(''from'', JObj (phase 0)), (''to'', JObj (phase 1))],
     JObj [(''from'', JObj (phase 1)), (''to'', JObj (phase 0))]]), (''ready_state'', JObj (phase 2))]"

definition livelock_edges :: "(dict \<times> dict) list" where
  "livelock_edges = [(phase 0, phase 1), (phase 1, phase 0)]"

text \<open>A cycle that never becomes ready passes the gate: two states change into each other for ever.\<close>

lemma livelock_passes:
  "liveness_check livelock None = Inr (2, 2)" "liveness_edges livelock = Inr livelock_edges"
  "ready_of livelock None = Inr (phase 2)"
  by code_simp+

lemma livelock_starves: "(leads_to livelock_edges)\<^sup>*\<^sup>* (phase 0) t \<Longrightarrow>
    \<not> is_ready (phase 2) t \<and> (\<exists>u. leads_to livelock_edges t u)"
proof -
  assume "(leads_to livelock_edges)\<^sup>*\<^sup>* (phase 0) t"
  then have "t \<in> {phase 0, phase 1}" by (induction rule: rtranclp_induct) (auto simp: leads_to_def livelock_edges_def)
  moreover have "\<not> is_ready (phase 2) (phase 0)" "\<not> is_ready (phase 2) (phase 1)" by code_simp+
  ultimately show ?thesis by (auto simp: leads_to_def livelock_edges_def)
qed



end
