(* ===== verification/Spec2Isabelle.thy ===== *)
theory Spec2Isabelle
  imports Domain_Lock Domain_Faults Workflow_Contracts A2A_Confinement Agent_Guarantees Evidence_Acceptance Promotion_Safety Assurance_Gates
begin

text \<open>
  A verification development of the \<^verbatim>\<open>formalspecgen\<close> pipeline: the parts of
  \<^verbatim>\<open>src/pipeline\<close> on whose verdicts and authority the rest relies.

  \<^bold>\<open>The program.\<close>  The pipeline turns sources and candidate domains into specifications, verifies
  them with external tools and publishes evidence.  Six parts of it carry its own logic:
  \<^item> the V2 candidate domains: the schema with its validators (\<^verbatim>\<open>domain_v2.py\<close>), the
    evaluator, deadlock gate and bounded state-space explorer (\<^verbatim>\<open>domain_v2_model.py\<close>), and the
    verification under injected network faults (\<^verbatim>\<open>distributed.py\<close>);
  \<^item> admission of effects: capabilities and profiles (\<^verbatim>\<open>capability_registry.py\<close>), the MCP
    admission policy (\<^verbatim>\<open>mcp_policy.py\<close>) and the typed workflow requests, contexts and
    results (\<^verbatim>\<open>workflow_contracts.py\<close>);
  \<^item> coordination of remote workers (\<^verbatim>\<open>a2a_coordination.py\<close>): contracts, policy, the
    append-only task store and the coordinator over it;
  \<^item> the supervised agent (\<^verbatim>\<open>agentic/\<close>): goals, the append-only run store, planner,
    acceptance, action gateway, supervisor and run reader, and the operator paths
    (\<^verbatim>\<open>operator_configuration.py\<close>);
  \<^item> the claim policy, which decides what the observations of a verifier justify
    (\<^verbatim>\<open>verification_policy.py\<close>), with two gates over evidence and models
    (\<^verbatim>\<open>assurance.py\<close>, \<^verbatim>\<open>realtime.py\<close>), and recorded evidence: the write-once ledger of a run (\<^verbatim>\<open>lifecycle.py\<close>), bounded capture of
    files (\<^verbatim>\<open>bounded_inputs.py\<close>) and the read-only inspection of published runs
    (\<^verbatim>\<open>evidence_consumer.py\<close>);
  \<^item> human approval of protected actions: requests, decisions of a reviewer and receipts
    (\<^verbatim>\<open>approval_service.py\<close>), the operator's signer (\<^verbatim>\<open>protected_signer.py\<close>), and the
    promotion of validated domains into the reviewed registry (\<^verbatim>\<open>domain_promotion_approval.py\<close>).

  A request passes an admission, opens a context that is never wider, and reaches the explorer, the
  coordinator, the supervisor or the inspection of evidence; coordinator and supervisor keep their state in
  event logs of the same form, and a verification publishes what it did through the ledger; what it published can
  be approved by a reviewer and signed.

  \<^bold>\<open>Theories.\<close>  \<^verbatim>\<open>Prelude\<close> has the error sum, the sequencing \<open>and_then\<close>
  and association lists with Python's \<open>dict\<close> order; \<^verbatim>\<open>Py_String\<close> and
  \<^verbatim>\<open>Json\<close> the string methods, JSON values, their canonical encoding and digests.
  \<^item> \<^verbatim>\<open>Domain_Schema\<close>, \<^verbatim>\<open>Domain_Eval\<close>, \<^verbatim>\<open>Domain_Explore\<close>:
    the models of the two files, with the type soundness of expressions, the meaning of effects and of
    the deadlock findings.  \<^verbatim>\<open>Domain_Atomic\<close> and \<^verbatim>\<open>Domain_Lock\<close> prove
    that a successful exploration visits exactly the reachable states of the atomic machine and of the
    lock protocol, mutual exclusion, and that the protocol refines the atomic machine.
    \<^verbatim>\<open>Domain_Faults\<close> has the injection of message loss, duplication and reordering and the
    loop that explores the faulted machine: injected operations are exactly the steps of an unreliable
    network, a reported success is a success on every step explored, the loop ends when the declared bounds
    hold, and does not end for a domain that ignores them.
  \<^item> \<^verbatim>\<open>Effects_Policy\<close>, \<^verbatim>\<open>Workflow_Contracts\<close>: an invocation is admitted exactly if
    the registry admits it (\<open>admits\<close>), profile digests bind the ceiling, children never widen authority, results claim no more than their
    workflow may.
  \<^item> \<^verbatim>\<open>Path_Scope\<close>: repository path scopes, their containment and membership.
  \<^item> \<^verbatim>\<open>Event_Log\<close>: a directory of numbered, hash-chained events, and the locale
    \<open>event_store\<close>, the contract between a log and what reads it: a loaded record is the last appended
    one, appends succeed while there is room, equal heads bind equal histories.  Both stores interpret it.
  \<^item> \<^verbatim>\<open>A2A_Contracts\<close>, \<^verbatim>\<open>A2A_Store\<close>, \<^verbatim>\<open>A2A_Lifecycle\<close>,
    \<^verbatim>\<open>A2A_Safety\<close>: work items, grants, workers and policy; the operations of the task
    store; the life of a task as a transition relation that the store refines, updates of fields that nothing else
    writes included; outcomes are final, dispatch happens at most once, cancellation is not lost, budgets and parents
    bound creation, where what scopes allow is said in terms of the paths they admit (\<open>within_scopes\<close>).
  \<^item> \<^verbatim>\<open>Service_Run\<close>: runs of a service over a store, where an exception keeps what the
    completed operations stored, and the locale \<open>run_relation\<close>: what every atomic operation and every
    external call does to the store, a composed run does a sequence of.  The coordinator and the
    supervisor interpret it.
  \<^item> \<^verbatim>\<open>A2A_Coordinator\<close>, \<^verbatim>\<open>A2A_Confinement\<close>: the coordinator and what
    it guarantees: its runs keep all events and are sequences of store steps, resubmission is idempotent, authorisation stays
    within grant and worker, accepted changes stay inside the scopes.
  \<^item> \<^verbatim>\<open>Agent_Contracts\<close>, \<^verbatim>\<open>Operator_Paths\<close>, \<^verbatim>\<open>Agent_Store\<close>,
    \<^verbatim>\<open>Agent_Supervisor\<close>: the models of the supervised agent.  \<^verbatim>\<open>Agent_Lifecycle\<close>
    has the relation between a stored run and its successor and the refinement by the store;
    \<^verbatim>\<open>Agent_Safety\<close> shows that runs of the supervisor are sequences of store steps and that its
    loop ends; \<^verbatim>\<open>Agent_Guarantees\<close> states the properties.
  \<^item> \<^verbatim>\<open>Verification_Policy\<close>: the decision and its application to a result; every claim
    is justified by all observations, and repeated normalisation never strengthens it.
  \<^item> \<^verbatim>\<open>Assurance_Gates\<close>: the verdict of an assurance level (\<^verbatim>\<open>assurance.py\<close>), and the
    bounded liveness check (\<^verbatim>\<open>realtime.py\<close>), which proves well-formed relations without dead ends, cycles that
    are never ready included.
  \<^item> \<^verbatim>\<open>Bounded_Inputs\<close>, \<^verbatim>\<open>Evidence_Ledger\<close>,
    \<^verbatim>\<open>Evidence_Consumer\<close>: the models of capture, ledger and inspection.  The workspace is a tree
    of files, directories and links, the evidence directory the list of its files.  A manifest binds the bytes of
    every artifact, the chain of digests binds the order of records.  \<^verbatim>\<open>Evidence_Acceptance\<close>
    connects them: a satisfied request rests on captured files that the rules of the ledger accept, and whatever
    the ledger publishes is accepted.  \<^verbatim>\<open>Json\<close> shows that the indented encoding, like the
    canonical one, determines the value up to the order of keys, so that a decoder which gives back what was
    published exists.
  \<^item> \<^verbatim>\<open>Approval_Service\<close>: creating, deciding, executing and looking up requests; every run of GnuPG and
    of the signer is a call of the argument \<open>run_process\<close>, which may change any file.  Success without a
    receipt means an authenticated approval of the unexpired, unaltered request.
    \<^verbatim>\<open>Approval_Finality\<close>: with processes that leave requests and receipts alone, outcomes are final;
    its locale \<open>file_relation\<close> extends \<open>run_relation\<close> to the parts of these services.
  \<^item> \<^verbatim>\<open>Protected_Signer\<close>: the signer, with other processes acting before each of its reads; GnuPG is
    given approved bytes only, approved by a reviewer of the configured trust registry in the configured keyring, and the
    checks of the signer are those of the coordinator, up to its limit on sizes.
  \<^item> \<^verbatim>\<open>Domain_Promotion\<close>, \<^verbatim>\<open>Promotion_Safety\<close>: promotion as an approval of its own kind, with
    the publisher that replaces the file in the registry; a file of the registry changes (\<open>registry_change\<close>) only by what
    GnuPG and the signer do, or by a publication for which one of the calls was approved, with the files and at the time
    of that call, in place of what the reviewer was shown.

  \<^bold>\<open>Conventions.\<close>  Records and datatypes have the fields and constructors of the classes; values are of
  the declared types.  An exception is the left of a sum, with the source's code and message.  A
  \<open>dict\<close> is an association list in insertion order.  Strings are lists of bytes, read as Latin-1 where
  the code has Unicode.  SHA-256 is an argument, and where a theorem binds content to a digest it says
  \<open>or a collision\<close>.  Clocks, fresh identifiers, the texts of exceptions and of values that are not
  strings, path resolution and the contents of files outside a store are arguments as well, and so is
  \<^verbatim>\<open>json.loads\<close>.  JSON values have no floating-point numbers.

  \<^bold>\<open>Bounds.\<close>  The explorer recurses on the work its budgets leave, so it is total.  The names of events have
  six digits: a log holds at most 999,999 visible events, and the theorems about stores assume room for
  the next one.  The supervisor's loop is given three rounds, \<open>None\<close> standing for a loop cut off;
  \<open>supervisor_terminates\<close> shows that the bound is never reached: two actions at most are recorded, and
  every round that does not return records one.  The exploration under network faults has no budget in the
  code, so it is a partial function whose \<open>None\<close> is a loop that does not end; its termination and its
  divergence are theorems.  An inspection takes its bytes and files from the budget of the context, 8 MiB and
  256 files unless the context says otherwise.

  \<^bold>\<open>Interference.\<close>  A store operation is atomic, as it runs under the file lock.  Between the operations of
  one coordinator or supervisor others may act; the model lets them act while a call of a worker or of a
  workflow is in flight, since that is where the waiting happens, and the theorems about stores quantify
  over all interleavings of operations.  The approval service holds a lock while it executes, and every process it
  starts may change any file; the signer shares its paths with everybody, so others act before each of its captures.

  \<^bold>\<open>Not modelled.\<close>  The command line, the MCP server and the workflow services (\<^verbatim>\<open>cli.py\<close>,
  \<^verbatim>\<open>mcp_server.py\<close>, \<^verbatim>\<open>workflow_services.py\<close>) parse arguments and call the
  parts above; the generators, providers and language back ends drive external models and verifiers, whose
  behaviour is not in this repository, and read sources with regular expressions; the table of capabilities is
  data, an argument here.  The HTTP client of workers (\<^verbatim>\<open>OfficialA2AWorkerClient\<close>) wraps a
  third-party package; its interface is the argument \<open>worker_client\<close>.  GnuPG and the signing program are
  the argument \<open>run_process\<close>; the publisher that the service
  starts is one of these processes, and the theorem about the registry assumes that it does to a file what
  \<open>publish_approved\<close> does when it starts (\<open>publisher_publishes\<close>), as \<^verbatim>\<open>main\<close> of that module is that
  call; the publisher's own process has no publisher configured.  Sources of the action gateway are read as
  values that depend on the path alone, without the errors of the operating system, and
  \<^verbatim>\<open>INVALID_COMPARISON_DATA\<close> of the inspection, which only floating-point numbers or too deep a nesting
  cause, does not occur.
  Parsers of command lines and the reading of configuration from the environment are left out, and so are the
  preparation of a candidate and the recomputation of its promotion, which the publisher only compares.
\<close>

end
